(* ===== verification/Prelude.thy ===== *)
theory Prelude imports Complex_Main "HOL-Library.AList" "HOL-Library.List_Lexorder" "HOL-Library.Char_ord" "HOL-Library.Log_Nat" begin

text \<open>
  Shared vocabulary of the development.

  \<^item> The result of a call that may throw is a sum: \<open>Inl\<close> the exception, \<open>Inr\<close> the value.
  \<^item> A method of a stateful class is a function from the state to the result and the new state.
    A JavaScript exception does not roll anything back, so the state is returned on both paths.
  \<^item> A JavaScript \<open>Map\<close> keeps insertion order and overwrites in place, which is the
    association list of \<open>HOL-Library.AList\<close> with \<open>AList.update\<close> and \<open>map_of\<close>.
  \<^item> \<open>Array.prototype.find\<close> is \<open>List.find\<close>.
  \<^item> \<open>crypto.randomUUID\<close> is a supply of identifiers counted by the state that draws them.
\<close>

named_theorems step_simps \<open>unfolding equations of the state-passing combinators\<close>

section \<open>Calls that may throw\<close>

type_synonym ('e, 'a) res = "'e + 'a"

definition rbind :: "'e + 'a \<Rightarrow> ('a \<Rightarrow> 'e + 'b) \<Rightarrow> 'e + 'b" where
  "rbind r f = (case r of Inl e \<Rightarrow> Inl e | Inr a \<Rightarrow> f a)"

lemma rbind_simps [simp]:
  "rbind (Inl e) f = Inl e"
  "rbind (Inr a) f = f a"
  by (simp_all add: rbind_def)

lemma rbind_Inr_iff: "rbind r f = Inr b \<longleftrightarrow> (\<exists>a. r = Inr a \<and> f a = Inr b)"
  by (cases r) auto

section \<open>State-passing methods\<close>

type_synonym ('s, 'e, 'a) stateful = "'s \<Rightarrow> ('e + 'a) \<times> 's"

definition ret :: "'a \<Rightarrow> ('s, 'e, 'a) stateful" where
  "ret a s = (Inr a, s)"

definition throw :: "'e \<Rightarrow> ('s, 'e, 'a) stateful" where
  "throw e s = (Inl e, s)"

definition bnd :: "('s, 'e, 'a) stateful \<Rightarrow> ('a \<Rightarrow> ('s, 'e, 'b) stateful) \<Rightarrow> ('s, 'e, 'b) stateful" where
  "bnd m f s = (case m s of (Inl e, s') \<Rightarrow> (Inl e, s') | (Inr a, s') \<Rightarrow> f a s')"

text \<open>A check that throws or returns, without touching the state.\<close>

definition lift :: "'e + 'a \<Rightarrow> ('s, 'e, 'a) stateful" where
  "lift r s = (r, s)"

text \<open>A read of the state.\<close>

definition query :: "('s \<Rightarrow> 'a) \<Rightarrow> ('s, 'e, 'a) stateful" where
  "query f s = (Inr (f s), s)"

lemma bnd_eq [step_simps]:
  "bnd m f s = (case fst (m s) of Inl e \<Rightarrow> (Inl e, snd (m s)) | Inr a \<Rightarrow> f a (snd (m s)))"
  by (simp add: bnd_def split: prod.split sum.split)

lemma ret_eq [step_simps]: "ret a s = (Inr a, s)"
  by (simp add: ret_def)

lemma throw_eq [step_simps]: "throw e s = (Inl e, s)"
  by (simp add: throw_def)

lemma lift_eq [step_simps]: "lift r s = (r, s)"
  by (simp add: lift_def)

lemma query_eq [step_simps]: "query f s = (Inr (f s), s)"
  by (simp add: query_def)

lemma bnd_Inr_iff:
  "bnd m f s = (Inr b, s'') \<longleftrightarrow> (\<exists>a s'. m s = (Inr a, s') \<and> f a s' = (Inr b, s''))"
  by (auto simp: bnd_def split: prod.splits sum.splits)

lemma bnd_Inl_iff:
  "bnd m f s = (Inl e, s'') \<longleftrightarrow>
     m s = (Inl e, s'') \<or> (\<exists>a s'. m s = (Inr a, s') \<and> f a s' = (Inl e, s''))"
  by (auto simp: bnd_def split: prod.splits sum.splits)

lemma lift_Inr_iff: "lift r s = (Inr a, s') \<longleftrightarrow> r = Inr a \<and> s' = s"
  by (auto simp: lift_def)

lemma lift_Inl_iff: "lift r s = (Inl e, s') \<longleftrightarrow> r = Inl e \<and> s' = s"
  by (auto simp: lift_def)

lemma query_Inr_iff: "query f s = (Inr a, s') \<longleftrightarrow> a = f s \<and> s' = s"
  by (auto simp: query_def)

lemma query_Inl_iff [simp]: "query f s \<noteq> (Inl e, s')"
  by (auto simp: query_def)

lemma ret_Inr_iff: "ret a s = (Inr b, s') \<longleftrightarrow> b = a \<and> s' = s"
  by (auto simp: ret_def)

lemma throw_not_Inr [simp]: "throw e s \<noteq> (Inr b, s')"
  by (simp add: throw_def)

lemmas method_iffs = bnd_Inr_iff bnd_Inl_iff lift_Inr_iff lift_Inl_iff query_Inr_iff ret_Inr_iff

text \<open>
  A method keeps a predicate of the state when it holds afterwards on both paths. The rules let
  an invariant of a service method be read off its body.
\<close>

definition keeps :: "('s \<Rightarrow> bool) \<Rightarrow> ('s, 'e, 'a) stateful \<Rightarrow> bool" where
  "keeps P m \<longleftrightarrow> (\<forall>s. P s \<longrightarrow> P (snd (m s)))"

lemma keepsI: "(\<And>s. P s \<Longrightarrow> P (snd (m s))) \<Longrightarrow> keeps P m"
  by (simp add: keeps_def)

lemma keepsD: "keeps P m \<Longrightarrow> P s \<Longrightarrow> P (snd (m s))"
  by (simp add: keeps_def)

lemma keeps_lift [intro, simp]: "keeps P (lift r)"
  by (simp add: keeps_def lift_def)

lemma keeps_query [intro, simp]: "keeps P (query f)"
  by (simp add: keeps_def query_def)

lemma keeps_ret [intro, simp]: "keeps P (ret a)"
  by (simp add: keeps_def ret_def)

lemma keeps_throw [intro, simp]: "keeps P (throw e)"
  by (simp add: keeps_def throw_def)

lemma keeps_bnd [intro]: "keeps P m \<Longrightarrow> (\<And>a. keeps P (f a)) \<Longrightarrow> keeps P (bnd m f)"
  by (auto simp: keeps_def bnd_eq split: sum.split)

section \<open>Lists searched the way the code searches them\<close>

lemma find_None_iff_ball: "List.find P xs = None \<longleftrightarrow> (\<forall>x \<in> set xs. \<not> P x)"
  by (induction xs) auto

lemma find_SomeD: "List.find P xs = Some x \<Longrightarrow> x \<in> set xs \<and> P x"
  by (induction xs) (auto split: if_splits)

lemma find_append:
  "List.find P (xs @ ys) = (case List.find P xs of Some x \<Rightarrow> Some x | None \<Rightarrow> List.find P ys)"
  by (induction xs) auto

lemma find_unique:
  assumes "x \<in> set xs" and "P x" and "\<And>y. y \<in> set xs \<Longrightarrow> P y \<Longrightarrow> y = x"
  shows "List.find P xs = Some x"
proof (cases "List.find P xs")
  case None
  with assms(1,2) show ?thesis by (auto simp: find_None_iff_ball)
next
  case (Some y)
  from find_SomeD [OF this] assms(3) have "y = x" by blast
  with Some show ?thesis by simp
qed

lemma find_distinct_key:
  assumes "distinct (map k xs)" and "x \<in> set xs"
  shows "List.find (\<lambda>y. k y = k x) xs = Some x"
  using assms by (intro find_unique) (auto simp: distinct_map inj_on_def)

lemma at_most_one: "length ys \<le> 1 \<Longrightarrow> ys = [] \<or> (\<exists>y. ys = [y])"
  by (cases ys) simp_all

lemma distinct_map_append_one:
  assumes "distinct (map f xs)" "length ys \<le> 1" "\<And>y. y \<in> set ys \<Longrightarrow> f y \<notin> f ` set xs"
  shows "distinct (map f (xs @ ys))"
proof -
  consider "ys = []" | y where "ys = [y]" using at_most_one [OF assms(2)] by blast
  then show ?thesis
    using assms(1) assms(3) [of "hd ys"] by cases auto
qed

lemma distinct_somes_append_one:
  assumes "distinct (filter (\<lambda>r. r \<noteq> None) (map f xs))" "length ys \<le> 1"
    and "\<And>y i. y \<in> set ys \<Longrightarrow> f y = Some i \<Longrightarrow> Some i \<notin> f ` set xs"
  shows "distinct (filter (\<lambda>r. r \<noteq> None) (map f (xs @ ys)))"
proof -
  consider "ys = []" | y where "ys = [y]" using at_most_one [OF assms(2)] by blast
  then show ?thesis
  proof cases
    case (2 y)
    then show ?thesis using assms(1,3) by (cases "f y") auto
  qed (use assms(1) in simp)
qed

text \<open>Summing group by group over the distinct keys of a list sums the list.\<close>

lemma sum_list_single:
  "distinct ks \<Longrightarrow> sum_list (map (\<lambda>k. if c = k then a else 0) ks) = (if c \<in> set ks then a else (0::int))"
  by (induction ks) auto

lemma sum_list_by_key:
  fixes g :: "'a \<Rightarrow> int"
  assumes "distinct ks" "f ` set xs \<subseteq> set ks"
  shows "sum_list (map (\<lambda>k. sum_list (map g (filter (\<lambda>x. f x = k) xs))) ks) = sum_list (map g xs)"
  using assms(2)
proof (induction xs)
  case (Cons x xs)
  have "(\<lambda>k. sum_list (map g (filter (\<lambda>y. f y = k) (x # xs)))) =
      (\<lambda>k. (if f x = k then g x else 0) + sum_list (map g (filter (\<lambda>y. f y = k) xs)))"
    by auto
  with Cons assms(1) show ?case by (simp add: sum_list_addf sum_list_single)
qed simp

section \<open>The identifier supply\<close>

text \<open>
  \<open>uuid n\<close> is the \<open>n\<close>-th value the generator returned. What the code relies on is that it
  never returns a value twice, which is injectivity.
\<close>

definition uuid :: "nat \<Rightarrow> string" where
  "uuid n = CHR ''#'' # replicate n (CHR ''u'')"

lemma uuid_inject [simp]: "uuid m = uuid n \<longleftrightarrow> m = n"
  by (auto simp: uuid_def dest: arg_cong [where f = length])

end
