(* ===== verification/JsNumber.thy ===== *)
theory JsNumber imports Prelude begin

text \<open>
  JavaScript numbers as far as the money code observes them. A \<open>number\<close> is an IEEE double: a
  rational value, an infinity or \<open>NaN\<close>. Sums of integers are exact up to \<open>2 ^ 53\<close> and
  rounded to 53 significant bits, ties to even, above it; \<open>js_round\<close> is that rounding on the exact
  integer sum. Overflow to an infinity needs a sum of \<open>2 ^ 1024\<close> and is not modelled.
\<close>

datatype jsnum = Fin rat | PosInf | NegInf | NaN

definition num_of_int :: "int \<Rightarrow> jsnum" where
  "num_of_int i = Fin (of_int i)"

lemma num_of_int_inject [simp]: "num_of_int i = num_of_int j \<longleftrightarrow> i = j"
  by (simp add: num_of_int_def)

lemma num_of_int_not_special [simp]:
  "num_of_int i \<noteq> NaN" "num_of_int i \<noteq> PosInf" "num_of_int i \<noteq> NegInf"
  by (simp_all add: num_of_int_def)

definition max_safe_integer :: int where
  "max_safe_integer = 2 ^ 53 - 1"

text \<open>\<open>Number.isSafeInteger\<close>, returning the integer it accepts.\<close>

fun safe_integer :: "jsnum \<Rightarrow> int option" where
  "safe_integer (Fin q) =
     (let (n, d) = quotient_of q
      in if d = 1 \<and> \<bar>n\<bar> \<le> max_safe_integer then Some n else None)"
| "safe_integer _ = None"

lemma safe_integer_of_int [simp]:
  "safe_integer (num_of_int i) = (if \<bar>i\<bar> \<le> max_safe_integer then Some i else None)"
  by (simp add: num_of_int_def quotient_of_int)

lemma safe_integer_Some:
  "safe_integer x = Some i \<longleftrightarrow> x = num_of_int i \<and> \<bar>i\<bar> \<le> max_safe_integer"
proof (cases x)
  case (Fin q)
  show ?thesis
  proof
    assume s: "safe_integer x = Some i"
    with Fin have q: "quotient_of q = (i, 1)" and b: "\<bar>i\<bar> \<le> max_safe_integer"
      by (auto split: prod.splits if_splits)
    from quotient_of_div [OF q] have "q = of_int i" by simp
    with Fin b show "x = num_of_int i \<and> \<bar>i\<bar> \<le> max_safe_integer" by (simp add: num_of_int_def)
  next
    assume "x = num_of_int i \<and> \<bar>i\<bar> \<le> max_safe_integer"
    then show "safe_integer x = Some i" by (simp del: safe_integer.simps)
  qed
qed (auto simp: num_of_int_def)

declare safe_integer.simps(1) [simp del]

text \<open>\<open>Number.isInteger\<close>, returning the integer; it has no bound.\<close>

fun js_integer :: "jsnum \<Rightarrow> int option" where
  "js_integer (Fin q) = (let (n, d) = quotient_of q in if d = 1 then Some n else None)"
| "js_integer _ = None"

lemma js_integer_of_int [simp]: "js_integer (num_of_int i) = Some i"
  by (simp add: num_of_int_def quotient_of_int)

declare js_integer.simps(1) [simp del]

text \<open>\<open>Math.round\<close> on a finite value: half-way cases go up.\<close>

definition math_round :: "rat \<Rightarrow> int" where
  "math_round q = \<lfloor>q + 1 / 2\<rfloor>"

lemma math_round_of_int [simp]: "math_round (of_int i) = i"
  by (simp add: math_round_def floor_unique)

section \<open>Addition of doubles that hold integers\<close>

definition ulp :: "int \<Rightarrow> int" where
  "ulp n = 2 ^ nat (bitlen \<bar>n\<bar> - 53)"

definition js_round :: "int \<Rightarrow> int" where
  "js_round n =
     (let u = ulp n; q = n div u; r = n mod u
      in if 2 * r < u then q * u
         else if u < 2 * r then (q + 1) * u
         else if even q then q * u else (q + 1) * u)"

definition js_add :: "int \<Rightarrow> int \<Rightarrow> int" where
  "js_add a b = js_round (a + b)"

lemma ulp_pos: "0 < ulp n"
  by (simp add: ulp_def)

lemma bitlen_le: "0 \<le> x \<Longrightarrow> x < 2 ^ k \<Longrightarrow> bitlen x \<le> int k"
  by (simp add: bitlen_le_iff_power)

lemma ulp_small: "\<bar>n\<bar> < 2 ^ 53 \<Longrightarrow> ulp n = 1"
  using bitlen_le [of "\<bar>n\<bar>" 53] by (simp add: ulp_def)

lemma js_round_dvd: "ulp n dvd n \<Longrightarrow> js_round n = n"
  using ulp_pos [of n] by (simp add: js_round_def Let_def)

lemma ulp_2_53: "\<bar>n\<bar> = 2 ^ 53 \<Longrightarrow> ulp n = 2"
proof -
  assume n: "\<bar>n\<bar> = 2 ^ 53"
  have "bitlen (2 ^ 53 :: int) = 54"
    using bitlen_twopow_add_eq [of 0 53] by simp
  with n show ?thesis by (simp add: ulp_def)
qed

lemma js_round_exact: "\<bar>n\<bar> \<le> 2 ^ 53 \<Longrightarrow> js_round n = n"
proof (cases "\<bar>n\<bar> = 2 ^ 53")
  case True
  then have "n = 2 ^ 53 \<or> n = - (2 ^ 53)" by linarith
  then have "ulp n dvd n" using ulp_2_53 [OF True] by auto
  then show ?thesis by (rule js_round_dvd)
next
  case False
  assume "\<bar>n\<bar> \<le> 2 ^ 53"
  with False have "ulp n = 1" by (intro ulp_small) simp
  then show ?thesis by (intro js_round_dvd) simp
qed

text \<open>Above the exact range the rounded sum stays above it: rounding never hides an overflow.\<close>

lemma ulp_large:
  assumes "2 ^ 53 \<le> \<bar>n\<bar>"
  shows "\<exists>k \<ge> 1. ulp n = 2 ^ k \<and> 2 ^ 52 * 2 ^ k \<le> \<bar>n\<bar>"
proof -
  let ?k = "nat (bitlen \<bar>n\<bar> - 53)"
  have b: "54 \<le> bitlen \<bar>n\<bar>"
    using assms bitlen_ge_iff_power [of 54 "\<bar>n\<bar>"] by simp
  have "0 < \<bar>n\<bar>" using assms by simp
  from bitlen_bounds [OF this] have "2 ^ nat (bitlen \<bar>n\<bar> - 1) \<le> \<bar>n\<bar>" ..
  moreover have "nat (bitlen \<bar>n\<bar> - 1) = 52 + ?k" using b by simp
  ultimately have "2 ^ 52 * 2 ^ ?k \<le> \<bar>n\<bar>" by (simp add: power_add)
  moreover have "1 \<le> ?k" using b by simp
  ultimately show ?thesis by (auto simp: ulp_def)
qed

lemma js_round_cases:
  "js_round n = n div ulp n * ulp n \<or>
   (n mod ulp n \<noteq> 0 \<and> js_round n = (n div ulp n + 1) * ulp n)"
  using ulp_pos [of n] by (auto simp: js_round_def Let_def)

lemma js_round_ge: "2 ^ 53 \<le> n \<Longrightarrow> 2 ^ 53 \<le> js_round n"
proof -
  assume n: "2 ^ 53 \<le> n"
  then obtain k where k: "1 \<le> k" "ulp n = 2 ^ k" "2 ^ 52 * 2 ^ k \<le> n"
    using ulp_large [of n] by auto
  let ?q = "n div ulp n"
  have q: "2 ^ 52 \<le> ?q"
    using zdiv_mono1 [OF k(3), of "2 ^ k"] k(2) by simp
  have two: "(2::int) \<le> 2 ^ k" using k(1) power_increasing [of 1 k "2::int"] by simp
  have "2 ^ 52 * 2 \<le> ?q * ulp n"
    using mult_mono [OF q two] q unfolding k(2) by simp
  then have "2 ^ 53 \<le> ?q * ulp n" by simp
  moreover have "?q * ulp n \<le> (?q + 1) * ulp n" using ulp_pos [of n] by (simp add: distrib_right)
  ultimately show ?thesis using js_round_cases [of n] by linarith
qed

lemma js_round_le: "n \<le> - (2 ^ 53) \<Longrightarrow> js_round n \<le> - (2 ^ 53)"
proof -
  assume n: "n \<le> - (2 ^ 53)"
  then obtain k where k: "1 \<le> k" "ulp n = 2 ^ k" "2 ^ 52 * 2 ^ k \<le> - n"
    using ulp_large [of n] by auto
  let ?u = "ulp n" and ?q = "n div ulp n"
  have u: "2 ^ 53 \<le> 2 ^ 52 * ?u"
    using k(1,2) power_increasing [of 1 k "2::int"] by simp
  have eq: "?q * ?u + n mod ?u = n" by (rule div_mult_mod_eq)
  have up: "0 < ?u" by (rule ulp_pos)
  have "js_round n \<le> - (2 ^ 52 * ?u)"
  proof (cases "n mod ?u = 0")
    case True
    with eq js_round_cases [of n] k(2,3) show ?thesis by auto
  next
    case False
    then have "0 < n mod ?u" using pos_mod_sign [OF up, of n] by linarith
    then have "?q * ?u < - (2 ^ 52) * ?u" using eq k(2,3) by simp
    then have "?q < - (2 ^ 52)" using up mult_less_cancel_right_pos [OF up] by blast
    then have "(?q + 1) * ?u \<le> - (2 ^ 52) * ?u" using up by (intro mult_right_mono) auto
    moreover have "?q * ?u \<le> (?q + 1) * ?u" using up by (simp add: distrib_right)
    ultimately show ?thesis using js_round_cases [of n] by linarith
  qed
  with u show ?thesis by linarith
qed

text \<open>
  The check the money code makes on a rounded sum is the check on the exact sum: the rounded sum is
  a safe integer exactly when the exact one is, and then they are equal.
\<close>

lemma js_add_safe_iff: "\<bar>js_add a b\<bar> \<le> max_safe_integer \<longleftrightarrow> \<bar>a + b\<bar> \<le> max_safe_integer"
proof -
  consider "2 ^ 53 \<le> a + b" | "a + b \<le> - (2 ^ 53)" | "\<bar>a + b\<bar> < 2 ^ 53" by linarith
  then show ?thesis
  proof cases
    case 1
    with js_round_ge [OF 1] show ?thesis by (simp add: js_add_def max_safe_integer_def)
  next
    case 2
    with js_round_le [OF 2] show ?thesis by (simp add: js_add_def max_safe_integer_def)
  next
    case 3
    then show ?thesis by (simp add: js_add_def js_round_exact)
  qed
qed

lemma js_add_exact: "\<bar>a + b\<bar> \<le> max_safe_integer \<Longrightarrow> js_add a b = a + b"
  by (simp add: js_add_def js_round_exact max_safe_integer_def)

text \<open>A sum folded from the left, as \<open>reduce\<close> does, is exact while every prefix is.\<close>

definition js_sum :: "int list \<Rightarrow> int" where
  "js_sum xs = fold (\<lambda>x acc. js_add acc x) xs 0"

definition prefix_sums_safe :: "int \<Rightarrow> int list \<Rightarrow> bool" where
  "prefix_sums_safe z xs \<longleftrightarrow>
     (\<forall>n \<le> length xs. \<bar>z + sum_list (take n xs)\<bar> \<le> max_safe_integer)"

lemma prefix_sums_safe_Cons:
  "prefix_sums_safe z (x # xs) \<longleftrightarrow>
     \<bar>z\<bar> \<le> max_safe_integer \<and> prefix_sums_safe (z + x) xs"
proof
  assume h: "prefix_sums_safe z (x # xs)"
  have "\<bar>z + x + sum_list (take n xs)\<bar> \<le> max_safe_integer" if "n \<le> length xs" for n
    using h [unfolded prefix_sums_safe_def, rule_format, of "Suc n"] that by (simp add: add.assoc)
  with h [unfolded prefix_sums_safe_def, rule_format, of 0]
  show "\<bar>z\<bar> \<le> max_safe_integer \<and> prefix_sums_safe (z + x) xs"
    by (simp add: prefix_sums_safe_def)
next
  assume h: "\<bar>z\<bar> \<le> max_safe_integer \<and> prefix_sums_safe (z + x) xs"
  show "prefix_sums_safe z (x # xs)"
    unfolding prefix_sums_safe_def
  proof (intro allI impI)
    fix n assume "n \<le> length (x # xs)"
    with h show "\<bar>z + sum_list (take n (x # xs))\<bar> \<le> max_safe_integer"
      by (cases n) (auto simp: prefix_sums_safe_def add.assoc)
  qed
qed

lemma fold_js_add_exact:
  "prefix_sums_safe z xs \<Longrightarrow> fold (\<lambda>x acc. js_add acc x) xs z = z + sum_list xs"
proof (induction xs arbitrary: z)
  case (Cons x xs)
  from Cons.prems have "prefix_sums_safe (z + x) xs" by (simp add: prefix_sums_safe_Cons)
  moreover from this have "\<bar>z + x\<bar> \<le> max_safe_integer"
    by (auto simp: prefix_sums_safe_def dest: spec [where x = 0])
  ultimately show ?case using Cons.IH by (simp add: js_add_exact)
qed simp

lemma js_sum_exact: "prefix_sums_safe 0 xs \<Longrightarrow> js_sum xs = sum_list xs"
  by (simp add: js_sum_def fold_js_add_exact)

lemma abs_sum_list_le: "\<bar>sum_list xs\<bar> \<le> sum_list (map abs xs)" for xs :: "int list"
  by (induction xs) auto

lemma prefix_sums_safe_abs:
  assumes "sum_list (map abs xs) \<le> max_safe_integer"
  shows "prefix_sums_safe 0 xs"
  unfolding prefix_sums_safe_def
proof (intro allI impI)
  fix n
  have "sum_list (map abs (take n xs)) + sum_list (map abs (drop n xs)) = sum_list (map abs xs)"
    by (metis append_take_drop_id map_append sum_list_append)
  moreover have "0 \<le> sum_list (map abs (drop n xs))" by (rule sum_list_nonneg) auto
  ultimately show "\<bar>0 + sum_list (take n xs)\<bar> \<le> max_safe_integer"
    using abs_sum_list_le [of "take n xs"] assms by simp
qed

end
