(* ===== verification/Errors.thy ===== *)
theory Errors imports Prelude begin

text \<open>
  The exceptions of the transport vertical (\<open>transport.errors.ts\<close> and the error classes of the money,
  date and ledger modules). A domain error carries its kind, which the HTTP layer maps to a status,
  and the machine-readable reason; the message is prose for people and is left out. The other
  constructors are the classes a caller can tell apart with \<open>instanceof\<close>.
\<close>

datatype error_kind = NOT_FOUND | CONFLICT | INVALID | DENIED

type_synonym reason = string

datatype js_error =
    TransportDomainError error_kind reason
  | MoneyError
  | BusinessDateError
  | LedgerSignError
  | FundPeriodFrozenError string
  | RangeError
  | PlainError

definition notFound :: "reason \<Rightarrow> js_error" where
  "notFound r = TransportDomainError NOT_FOUND r"

definition conflict :: "reason \<Rightarrow> js_error" where
  "conflict r = TransportDomainError CONFLICT r"

definition invalid :: "reason \<Rightarrow> js_error" where
  "invalid r = TransportDomainError INVALID r"

definition denied :: "reason \<Rightarrow> js_error" where
  "denied r = TransportDomainError DENIED r"

lemmas domain_error_defs = notFound_def conflict_def invalid_def denied_def

definition is_domain_error :: "js_error \<Rightarrow> bool" where
  "is_domain_error e = (case e of TransportDomainError k r \<Rightarrow> True | _ \<Rightarrow> False)"

lemma is_domain_error_simps [simp]:
  "is_domain_error (notFound r)" "is_domain_error (conflict r)"
  "is_domain_error (invalid r)" "is_domain_error (denied r)"
  "\<not> is_domain_error LedgerSignError" "\<not> is_domain_error MoneyError"
  "\<not> is_domain_error (FundPeriodFrozenError p)" "\<not> is_domain_error PlainError"
  by (simp_all add: is_domain_error_def domain_error_defs)

end
