(* ===== verification/Money.thy ===== *)
theory Money imports JsNumber Errors begin

text \<open>
  \<open>money.ts\<close>: whole dong in the range every layer can represent. \<open>money\<close> is the only way to make
  an amount, so each function below goes through it the way the code does.
\<close>

record Money =
  amount :: int
  currencyCode :: string

definition TRANSPORT_CURRENCY :: string where
  "TRANSPORT_CURRENCY = ''VND''"

definition MONEY_MAX_AMOUNT :: int where
  "MONEY_MAX_AMOUNT = max_safe_integer"

definition MONEY_MIN_AMOUNT :: int where
  "MONEY_MIN_AMOUNT = - max_safe_integer"

definition money :: "jsnum \<Rightarrow> js_error + Money" where
  "money x =
     (case safe_integer x of
        None \<Rightarrow> Inl MoneyError
      | Some i \<Rightarrow> Inr \<lparr>amount = i, currencyCode = TRANSPORT_CURRENCY\<rparr>)"

definition zeroMoney :: "js_error + Money" where
  "zeroMoney = money (num_of_int 0)"

definition addMoney :: "Money \<Rightarrow> Money \<Rightarrow> js_error + Money" where
  "addMoney left right =
     (if currencyCode left \<noteq> currencyCode right then Inl MoneyError
      else money (num_of_int (js_add (amount left) (amount right))))"

definition nonNegativeMoney :: "jsnum \<Rightarrow> js_error + Money" where
  "nonNegativeMoney x =
     rbind (money x) (\<lambda>value. if amount value < 0 then Inl MoneyError else Inr value)"

text \<open>The storage boundary: a \<open>bigint\<close> column is an unbounded integer.\<close>

definition toStoredAmount :: "jsnum option \<Rightarrow> js_error + int option" where
  "toStoredAmount x =
     (case x of None \<Rightarrow> Inr None | Some a \<Rightarrow> rbind (money a) (\<lambda>m. Inr (Some (amount m))))"

definition fromStoredAmount :: "int option \<Rightarrow> js_error + jsnum option" where
  "fromStoredAmount x =
     (case x of
        None \<Rightarrow> Inr None
      | Some stored \<Rightarrow>
          if MONEY_MAX_AMOUNT < stored \<or> stored < MONEY_MIN_AMOUNT then Inl MoneyError
          else Inr (Some (num_of_int stored)))"

definition valid_amount :: "int \<Rightarrow> bool" where
  "valid_amount i \<longleftrightarrow> \<bar>i\<bar> \<le> max_safe_integer"

definition vnd :: "int \<Rightarrow> Money" where
  "vnd i = \<lparr>amount = i, currencyCode = TRANSPORT_CURRENCY\<rparr>"

lemma vnd_simps [simp]: "amount (vnd i) = i" "currencyCode (vnd i) = TRANSPORT_CURRENCY"
  by (simp_all add: vnd_def)

lemma money_of_int [simp]:
  "money (num_of_int i) = (if valid_amount i then Inr (vnd i) else Inl MoneyError)"
  by (simp add: money_def valid_amount_def vnd_def)

lemma money_Inr_iff: "money x = Inr m \<longleftrightarrow> (\<exists>i. x = num_of_int i \<and> valid_amount i \<and> m = vnd i)"
  by (auto simp: money_def safe_integer_Some valid_amount_def vnd_def split: option.splits)

lemma money_cases: "money x = Inl MoneyError \<or> (\<exists>i. x = num_of_int i \<and> valid_amount i \<and> money x = Inr (vnd i))"
  by (auto simp: money_def safe_integer_Some valid_amount_def vnd_def split: option.splits)

lemma valid_amount_0 [simp]: "valid_amount 0"
  by (simp add: valid_amount_def max_safe_integer_def)

lemma valid_amount_uminus [simp]: "valid_amount (- i) = valid_amount i"
  by (simp add: valid_amount_def)

lemma valid_amount_js_add: "valid_amount (js_add a b) \<longleftrightarrow> valid_amount (a + b)"
  by (simp add: valid_amount_def js_add_safe_iff)

lemma js_add_valid: "valid_amount (a + b) \<Longrightarrow> js_add a b = a + b"
  by (simp add: valid_amount_def js_add_exact)

text \<open>
  C18. Adding two amounts of the same currency gives the exact sum or a \<open>MoneyError\<close>, never a
  rounded value, although the addition itself is done on doubles: it succeeds exactly when the
  exact sum is representable.
\<close>

theorem addMoney_exact_or_error:
  assumes "currencyCode a = currencyCode b"
  shows "addMoney a b =
    (if valid_amount (amount a + amount b) then Inr (vnd (amount a + amount b)) else Inl MoneyError)"
  using assms by (simp add: addMoney_def valid_amount_js_add js_add_valid)

theorem addMoney_exact_or_error_witness:
  "currencyCode (vnd 3) = currencyCode (vnd max_safe_integer) \<and>
   addMoney (vnd 3) (vnd max_safe_integer) = Inl MoneyError \<and>
   addMoney (vnd 3) (vnd (- 5)) = Inr (vnd (- 2))"
  using addMoney_exact_or_error [of "vnd 3" "vnd max_safe_integer"]
    addMoney_exact_or_error [of "vnd 3" "vnd (- 5)"]
  by (simp add: valid_amount_def max_safe_integer_def)

text \<open>
  The storage boundary loses nothing: an amount that can be stored reads back as the same
  number, every stored value outside the shared range is refused on the way out, and a number that
  is not a safe integer is refused on the way in.
\<close>

theorem stored_amount_roundtrip:
  "(case toStoredAmount x of
      Inr stored \<Rightarrow> fromStoredAmount stored = Inr x
    | Inl e \<Rightarrow> e = MoneyError \<and> (\<exists>a. x = Some a \<and> safe_integer a = None)) \<and>
   (case fromStoredAmount y of
      Inr read_back \<Rightarrow> toStoredAmount read_back = Inr y
    | Inl e \<Rightarrow> e = MoneyError \<and> (\<exists>i. y = Some i \<and> \<not> valid_amount i))"
proof (intro conjI)
  show "case toStoredAmount x of
      Inr stored \<Rightarrow> fromStoredAmount stored = Inr x
    | Inl e \<Rightarrow> e = MoneyError \<and> (\<exists>a. x = Some a \<and> safe_integer a = None)"
    by (auto simp: toStoredAmount_def fromStoredAmount_def money_def safe_integer_Some
        MONEY_MAX_AMOUNT_def MONEY_MIN_AMOUNT_def split: option.splits)
  show "case fromStoredAmount y of
      Inr read_back \<Rightarrow> toStoredAmount read_back = Inr y
    | Inl e \<Rightarrow> e = MoneyError \<and> (\<exists>i. y = Some i \<and> \<not> valid_amount i)"
    by (auto simp: toStoredAmount_def fromStoredAmount_def valid_amount_def
        MONEY_MAX_AMOUNT_def MONEY_MIN_AMOUNT_def split: option.splits)
qed

end
