(* ===== verification/FundLedger.thy ===== *)
theory FundLedger imports Money begin

text \<open>
  \<open>costing/driver-fund-ledger.ts\<close>: the sign rules of the driver fund. A balance is the company money a
  driver holds, so an advance is positive and an expense negative; every signed amount of the ledger
  passes through the functions of this theory.
\<close>

datatype fund_entry_kind =
  ADVANCE | RETURN | TRIP_EXPENSE | ADJUSTMENT | REVERSAL | REIMBURSEMENT | RUN_EXPENSE

definition POSTABLE_FUND_ENTRY_KINDS :: "fund_entry_kind list" where
  "POSTABLE_FUND_ENTRY_KINDS = [ADVANCE, RETURN, ADJUSTMENT]"

text \<open>\<open>None\<close>: both directions are allowed.\<close>

fun REQUIRED_SIGN :: "fund_entry_kind \<Rightarrow> int option" where
  "REQUIRED_SIGN ADVANCE = Some 1"
| "REQUIRED_SIGN RETURN = Some (- 1)"
| "REQUIRED_SIGN TRIP_EXPENSE = Some (- 1)"
| "REQUIRED_SIGN ADJUSTMENT = None"
| "REQUIRED_SIGN REVERSAL = None"
| "REQUIRED_SIGN REIMBURSEMENT = Some 1"
| "REQUIRED_SIGN RUN_EXPENSE = Some (- 1)"

datatype trip_expense_kind = EXPENSE | EXPENSE_REVERSAL

datatype expense_funding_source = DRIVER_FUND | COMPANY_DIRECT

definition signedAmountFor :: "fund_entry_kind \<Rightarrow> jsnum \<Rightarrow> js_error + Money" where
  "signedAmountFor kind magnitude =
     rbind (money magnitude) (\<lambda>value.
       if amount value < 0 then Inl LedgerSignError
       else case REQUIRED_SIGN kind of
           None \<Rightarrow> Inl LedgerSignError
         | Some sign \<Rightarrow> money (num_of_int (sign * amount value)))"

definition assertLedgerSign :: "fund_entry_kind \<Rightarrow> jsnum \<Rightarrow> js_error + Money" where
  "assertLedgerSign kind signed =
     rbind (money signed) (\<lambda>value.
       if amount value = 0 then Inl LedgerSignError
       else if REQUIRED_SIGN kind = Some 1 \<and> amount value < 0 then Inl LedgerSignError
       else if REQUIRED_SIGN kind = Some (- 1) \<and> 0 < amount value then Inl LedgerSignError
       else Inr value)"

definition assertExpenseSign :: "trip_expense_kind \<Rightarrow> jsnum \<Rightarrow> js_error + Money" where
  "assertExpenseSign kind signed =
     rbind (money signed) (\<lambda>value.
       if amount value = 0 then Inl LedgerSignError
       else if kind = EXPENSE \<and> amount value < 0 then Inl LedgerSignError
       else if kind = EXPENSE_REVERSAL \<and> 0 < amount value then Inl LedgerSignError
       else Inr value)"

text \<open>
  The fold re-checks the running total at each step. The \<open>catch\<close> of the source only rewrites the
  message of a \<open>MoneyError\<close>, so it is the identity here.
\<close>

definition fold_step :: "jsnum \<Rightarrow> js_error + Money \<Rightarrow> js_error + Money" where
  "fold_step x acc =
     rbind acc (\<lambda>total. rbind (money x) (\<lambda>m. money (num_of_int (js_add (amount total) (amount m)))))"

definition foldFundBalance :: "jsnum list \<Rightarrow> js_error + Money" where
  "foldFundBalance xs = fold fold_step xs (money (num_of_int 0))"

definition foldTripDirectCost :: "jsnum list \<Rightarrow> js_error + Money" where
  "foldTripDirectCost xs = foldFundBalance xs"

datatype fund_balance_stance = DRIVER_HOLDS_COMPANY_CASH | SETTLED | COMPANY_OWES_DRIVER

definition describeFundBalance :: "int \<Rightarrow> fund_balance_stance" where
  "describeFundBalance balance =
     (if 0 < balance then DRIVER_HOLDS_COMPANY_CASH
      else if balance < 0 then COMPANY_OWES_DRIVER else SETTLED)"

section \<open>Sign facts\<close>

text \<open>The sign a posted amount has when it obeys the convention of its kind.\<close>

definition sign_ok :: "fund_entry_kind \<Rightarrow> int \<Rightarrow> bool" where
  "sign_ok kind v \<longleftrightarrow>
     (case REQUIRED_SIGN kind of None \<Rightarrow> True | Some sign \<Rightarrow> 0 \<le> sign * v)"

lemma money_elim:
  obtains "money x = Inl MoneyError" "safe_integer x = None"
  | i where "x = num_of_int i" "valid_amount i" "money x = Inr (vnd i)" "safe_integer x = Some i"
  using money_cases [of x]
  by (auto simp: money_def safe_integer_Some valid_amount_def split: option.splits)

lemma signedAmountFor_Inr:
  "signedAmountFor kind x = Inr m \<longleftrightarrow>
     (\<exists>i sign. x = num_of_int i \<and> valid_amount i \<and> 0 \<le> i \<and> REQUIRED_SIGN kind = Some sign \<and>
        m = vnd (sign * i))"
  by (cases x rule: money_elim; cases kind) (auto simp: signedAmountFor_def)

lemma signedAmountFor_sign_ok:
  "signedAmountFor kind x = Inr m \<Longrightarrow> sign_ok kind (amount m) \<and> valid_amount (amount m)"
  by (cases kind) (auto simp: signedAmountFor_Inr sign_ok_def)

lemma assertLedgerSign_Inr:
  "assertLedgerSign kind x = Inr m \<longleftrightarrow>
     (\<exists>i. x = num_of_int i \<and> valid_amount i \<and> i \<noteq> 0 \<and> sign_ok kind i \<and> m = vnd i)"
  by (cases x rule: money_elim; cases kind) (auto simp: assertLedgerSign_def sign_ok_def not_le)

lemma assertExpenseSign_Inr:
  "assertExpenseSign kind x = Inr m \<longleftrightarrow>
     (\<exists>i. x = num_of_int i \<and> valid_amount i \<and> m = vnd i \<and>
        (case kind of EXPENSE \<Rightarrow> 0 < i | EXPENSE_REVERSAL \<Rightarrow> i < 0))"
  by (cases x rule: money_elim; cases kind) (auto simp: assertExpenseSign_def)

text \<open>
  The two doors into the ledger agree: a magnitude that gets its sign from its kind is an amount
  the sign check of that kind accepts, except for zero, which the first door lets through and the
  second refuses; and a kind with no fixed direction never takes a magnitude.
\<close>

theorem signed_amount_passes_sign_check:
  "(case signedAmountFor kind x of
      Inr m \<Rightarrow> (amount m = 0 \<longleftrightarrow> assertLedgerSign kind (num_of_int (amount m)) = Inl LedgerSignError) \<and>
        (amount m \<noteq> 0 \<longleftrightarrow> assertLedgerSign kind (num_of_int (amount m)) = Inr m)
    | Inl e \<Rightarrow> e = MoneyError \<and> safe_integer x = None \<or>
        e = LedgerSignError \<and> (x = num_of_int 0 \<or> REQUIRED_SIGN kind = None \<or> (\<exists>i < 0. x = num_of_int i)))"
proof (cases "signedAmountFor kind x")
  case (Inl e)
  then show ?thesis
    by (cases x rule: money_elim; cases kind)
      (auto simp: signedAmountFor_def valid_amount_def split: if_splits)
next
  case (Inr m)
  then obtain i sign where "x = num_of_int i" "valid_amount i" "0 \<le> i"
    "REQUIRED_SIGN kind = Some sign" "m = vnd (sign * i)"
    by (auto simp: signedAmountFor_Inr)
  with Inr show ?thesis
    by (cases kind) (auto simp: assertLedgerSign_def)
qed

section \<open>The balance is the sum\<close>

lemma fold_step_Inl: "fold fold_step xs (Inl e) = Inl e"
  by (induction xs) (auto simp: fold_step_def)

lemma fold_step_error: "fold fold_step xs (Inr m) = Inl e \<Longrightarrow> e = MoneyError"
proof (induction xs arbitrary: m)
  case (Cons x xs)
  show ?case
  proof (cases "fold_step x (Inr m)")
    case (Inl e')
    with Cons.prems have "e = e'" by (simp add: fold_step_Inl)
    with Inl show ?thesis
      by (auto simp: fold_step_def money_def rbind_def split: option.splits sum.splits)
  next
    case (Inr m')
    with Cons show ?thesis by simp
  qed
qed simp

lemma prefix_sums_safe_0: "prefix_sums_safe z xs \<Longrightarrow> \<bar>z\<bar> \<le> max_safe_integer"
  by (auto simp: prefix_sums_safe_def dest: spec [where x = 0])

lemma fold_step_Inr:
  "valid_amount (amount m) \<Longrightarrow> currencyCode m = TRANSPORT_CURRENCY \<Longrightarrow>
     fold fold_step xs (Inr m) = Inr r \<longleftrightarrow>
     (\<exists>is. xs = map num_of_int is \<and> list_all valid_amount is \<and>
        prefix_sums_safe (amount m) is \<and> r = vnd (amount m + sum_list is))"
proof (induction xs arbitrary: m)
  case Nil
  then show ?case by (auto simp: prefix_sums_safe_def valid_amount_def vnd_def)
next
  case (Cons x xs)
  show ?case
  proof (cases "\<exists>i. x = num_of_int i \<and> valid_amount i \<and> valid_amount (amount m + i)")
    case True
    then obtain i where i: "x = num_of_int i" "valid_amount i" "valid_amount (amount m + i)" by blast
    have "fold_step x (Inr m) = Inr (vnd (amount m + i))"
      using i by (simp add: fold_step_def valid_amount_js_add js_add_valid)
    with Cons.IH [of "vnd (amount m + i)"] i Cons.prems(1) show ?thesis
      by (auto simp: Cons_eq_map_conv prefix_sums_safe_Cons valid_amount_def add.assoc)
  next
    case False
    have "fold_step x (Inr m) = Inl MoneyError"
      using False money_cases [of x] by (auto simp: fold_step_def valid_amount_js_add)
    moreover have "\<not> (\<exists>is. x # xs = map num_of_int is \<and> list_all valid_amount is \<and>
        prefix_sums_safe (amount m) is)"
      using False
      by (auto simp: Cons_eq_map_conv prefix_sums_safe_Cons valid_amount_def dest: prefix_sums_safe_0)
    ultimately show ?thesis by (auto simp: fold_step_Inl)
  qed
qed

text \<open>
  The balance of a ledger is the exact sum of its signed amounts or a \<open>MoneyError\<close>: it is a sum
  exactly when every amount is a safe integer and no running total leaves the representable range.
\<close>

theorem foldFundBalance_is_sum:
  "(case foldFundBalance xs of
      Inr m \<Rightarrow> (\<exists>is. xs = map num_of_int is \<and> list_all valid_amount is \<and> prefix_sums_safe 0 is \<and>
        m = vnd (sum_list is))
    | Inl e \<Rightarrow> e = MoneyError \<and>
        (\<nexists>is. xs = map num_of_int is \<and> list_all valid_amount is \<and> prefix_sums_safe 0 is))"
proof -
  have z: "money (num_of_int 0) = Inr (vnd 0)"
    by simp
  show ?thesis
  proof (cases "foldFundBalance xs")
    case (Inl e)
    then have "e = MoneyError" by (auto simp: foldFundBalance_def z dest: fold_step_error)
    moreover have "\<nexists>is. xs = map num_of_int is \<and> list_all valid_amount is \<and> prefix_sums_safe 0 is"
      using Inl fold_step_Inr [of "vnd 0" xs] by (auto simp: foldFundBalance_def z)
    ultimately show ?thesis using Inl by simp
  next
    case (Inr m)
    then show ?thesis
      using fold_step_Inr [of "vnd 0" xs m] by (simp add: foldFundBalance_def z)
  qed
qed

end
