(* ===== verification/CashoutAllocation.thy ===== *)
theory CashoutAllocation imports FundLedger begin

text \<open>
  \<open>driver-settlement/cashout-allocation.ts\<close>: how one payment to a driver may be split over payslips and
  the driver fund, and the plan that reverses it. The amount of a requested line is any JavaScript
  number; the capacities and the posted allocations are amounts read back from the stores, hence
  integers. Messages are left out.
\<close>

text \<open>The literals \<open>'REIMBURSEMENT'\<close>, \<open>'REVERSAL'\<close> also name fund entry kinds, so they get a suffix here.\<close>

datatype cashout_source = WAGE | REIMBURSEMENT_OUT

datatype cashout_kind = ORIGINAL | REVERSAL_OUT

datatype cashout_status = POSTED | REVERSED

record CashoutLine =
  cl_source :: cashout_source
  cl_amount :: jsnum
  cl_payslipId :: "string option"
  cl_note :: "string option"

record CashoutCapacity =
  cap_currencyCode :: string
  cap_wageRemainingByPayslip :: "(string \<times> int) list"
  cap_wageRemainingTotal :: int
  cap_reimbursementOutstanding :: int

datatype cashout_denial =
    CASHOUT_NO_ALLOCATIONS
  | CASHOUT_AMOUNT_INVALID
  | CASHOUT_ALLOCATION_SHAPE_INVALID
  | CASHOUT_PAYSLIP_NOT_CREDITED
  | CASHOUT_PAYSLIP_DUPLICATED
  | CASHOUT_PAYSLIP_OVER_ALLOCATED
  | CASHOUT_WAGE_EXCEEDS_REMAINING
  | CASHOUT_REIMBURSEMENT_DUPLICATED
  | CASHOUT_REIMBURSEMENT_EXCEEDS_OUTSTANDING
  | CASHOUT_CURRENCY_MISMATCH

datatype CashoutDecision =
    CashoutAllowed (wageTotal: int) (reimbursementTotal: int) (cashoutTotal: int)
  | CashoutDenied cashout_denial "string option"

text \<open>The variables of the loop: seen payslips, the two totals and the count of fund lines.\<close>

record cashout_scan =
  sc_seen :: "string list"
  sc_wage :: int
  sc_reimbursement :: int
  sc_reimbursementLines :: nat

definition start_scan :: cashout_scan where
  "start_scan = \<lparr>sc_seen = [], sc_wage = 0, sc_reimbursement = 0, sc_reimbursementLines = 0\<rparr>"

definition scan_line ::
  "CashoutCapacity \<Rightarrow> CashoutLine \<Rightarrow> cashout_scan \<Rightarrow> (cashout_denial \<times> string option) + cashout_scan" where
  "scan_line capacity line st =
     (case js_integer (cl_amount line) of
        None \<Rightarrow> Inl (CASHOUT_AMOUNT_INVALID, cl_payslipId line)
      | Some a \<Rightarrow>
          if a \<le> 0 then Inl (CASHOUT_AMOUNT_INVALID, cl_payslipId line)
          else if cl_source line = WAGE then
            (case cl_payslipId line of
               None \<Rightarrow> Inl (CASHOUT_ALLOCATION_SHAPE_INVALID, None)
             | Some p \<Rightarrow>
                 if p \<in> set (sc_seen st) then Inl (CASHOUT_PAYSLIP_DUPLICATED, Some p)
                 else (case map_of (cap_wageRemainingByPayslip capacity) p of
                     None \<Rightarrow> Inl (CASHOUT_PAYSLIP_NOT_CREDITED, Some p)
                   | Some remaining \<Rightarrow>
                       if remaining \<le> 0 then Inl (CASHOUT_PAYSLIP_NOT_CREDITED, Some p)
                       else if remaining < a then Inl (CASHOUT_PAYSLIP_OVER_ALLOCATED, Some p)
                       else Inr (st\<lparr>sc_seen := p # sc_seen st, sc_wage := js_add (sc_wage st) a\<rparr>)))
          else if cl_payslipId line \<noteq> None then Inl (CASHOUT_ALLOCATION_SHAPE_INVALID, None)
          else if 1 < sc_reimbursementLines st + 1 then Inl (CASHOUT_REIMBURSEMENT_DUPLICATED, None)
          else Inr (st\<lparr>sc_reimbursementLines := sc_reimbursementLines st + 1,
                 sc_reimbursement := js_add (sc_reimbursement st) a\<rparr>))"

fun scan_lines ::
  "CashoutCapacity \<Rightarrow> CashoutLine list \<Rightarrow> cashout_scan \<Rightarrow> (cashout_denial \<times> string option) + cashout_scan" where
  "scan_lines capacity [] st = Inr st"
| "scan_lines capacity (line # ls) st = rbind (scan_line capacity line st) (scan_lines capacity ls)"

definition evaluateCashout :: "CashoutLine list \<Rightarrow> CashoutCapacity \<Rightarrow> string \<Rightarrow> CashoutDecision" where
  "evaluateCashout ls capacity currency =
     (if currency \<noteq> cap_currencyCode capacity then CashoutDenied CASHOUT_CURRENCY_MISMATCH None
      else if length ls = 0 then CashoutDenied CASHOUT_NO_ALLOCATIONS None
      else case scan_lines capacity ls start_scan of
          Inl (why, who) \<Rightarrow> CashoutDenied why who
        | Inr st \<Rightarrow>
            if cap_wageRemainingTotal capacity < sc_wage st
              then CashoutDenied CASHOUT_WAGE_EXCEEDS_REMAINING None
            else if cap_reimbursementOutstanding capacity < sc_reimbursement st
              then CashoutDenied CASHOUT_REIMBURSEMENT_EXCEEDS_OUTSTANDING None
            else CashoutAllowed (sc_wage st) (sc_reimbursement st)
                   (js_add (sc_wage st) (sc_reimbursement st)))"

text \<open>The checked addition of \<open>wage-credit.ts\<close> and of \<open>foldAllocations\<close>; the \<open>catch\<close> rewrites a message.\<close>

definition money_add :: "int \<Rightarrow> int \<Rightarrow> js_error + int" where
  "money_add left right =
     rbind (money (num_of_int left)) (\<lambda>l.
     rbind (money (num_of_int right)) (\<lambda>r.
     rbind (money (num_of_int (js_add (amount l) (amount r)))) (\<lambda>m. Inr (amount m))))"

definition foldAllocations :: "int list \<Rightarrow> js_error + int" where
  "foldAllocations amounts = fold (\<lambda>a acc. rbind acc (\<lambda>total. money_add total a)) amounts (Inr 0)"

datatype cashout_reversal_denial = CASHOUT_ALREADY_REVERSED | CASHOUT_IS_A_REVERSAL

datatype CashoutReversalDecision = ReversalAllowed | ReversalDenied cashout_reversal_denial

definition evaluateCashoutReversal :: "cashout_kind \<Rightarrow> cashout_status \<Rightarrow> CashoutReversalDecision" where
  "evaluateCashoutReversal kind status =
     (if kind = REVERSAL_OUT then ReversalDenied CASHOUT_IS_A_REVERSAL
      else if status = REVERSED then ReversalDenied CASHOUT_ALREADY_REVERSED
      else ReversalAllowed)"

record PostedAllocation =
  pa_source :: cashout_source
  pa_amount :: int
  pa_payslipId :: "string option"
  pa_driverFundEntryId :: "string option"

record CashoutReversalPlan =
  rp_wage :: "(string \<times> int) list"
  rp_reimbursement :: "(string \<times> int) list"

definition plan_wage :: "'a PostedAllocation_scheme \<Rightarrow> (string \<times> int) option" where
  "plan_wage a =
     (case pa_payslipId a of
        Some p \<Rightarrow> if pa_source a = WAGE then Some (p, - pa_amount a) else None
      | None \<Rightarrow> None)"

definition plan_reimbursement :: "'a PostedAllocation_scheme \<Rightarrow> (string \<times> int) option" where
  "plan_reimbursement a =
     (case pa_driverFundEntryId a of
        Some e \<Rightarrow> if pa_source a = REIMBURSEMENT_OUT then Some (e, - pa_amount a) else None
      | None \<Rightarrow> None)"

definition reversalPlanOf :: "'a PostedAllocation_scheme list \<Rightarrow> CashoutReversalPlan" where
  "reversalPlanOf posted =
     \<lparr>rp_wage = List.map_filter plan_wage posted,
      rp_reimbursement = List.map_filter plan_reimbursement posted\<rparr>"

section \<open>What the decision checks\<close>

lemma js_integer_Some: "js_integer x = Some i \<longleftrightarrow> x = num_of_int i"
proof (cases x)
  case (Fin q)
  show ?thesis
  proof
    assume "js_integer x = Some i"
    with Fin have q: "quotient_of q = (i, 1)"
      by (auto simp: js_integer.simps(1) split: prod.splits if_splits)
    from quotient_of_div [OF q] Fin show "x = num_of_int i" by (simp add: num_of_int_def)
  qed simp
qed (auto simp: num_of_int_def)

lemma js_integer_None: "js_integer x = None \<longleftrightarrow> (\<nexists>i. x = num_of_int i)"
  using js_integer_Some by (metis not_None_eq)

definition line_amount :: "CashoutLine \<Rightarrow> int" where
  "line_amount line = (case js_integer (cl_amount line) of None \<Rightarrow> 0 | Some a \<Rightarrow> a)"

definition is_wage :: "CashoutLine \<Rightarrow> bool" where
  "is_wage line \<longleftrightarrow> cl_source line = WAGE"

definition line_ok :: "CashoutCapacity \<Rightarrow> CashoutLine \<Rightarrow> bool" where
  "line_ok capacity line \<longleftrightarrow>
     js_integer (cl_amount line) \<noteq> None \<and> 0 < line_amount line \<and>
     (if is_wage line then
        (case cl_payslipId line of
           None \<Rightarrow> False
         | Some p \<Rightarrow> (case map_of (cap_wageRemainingByPayslip capacity) p of
               None \<Rightarrow> False
             | Some remaining \<Rightarrow> line_amount line \<le> remaining))
      else cl_payslipId line = None)"

definition wage_lines :: "CashoutLine list \<Rightarrow> CashoutLine list" where
  "wage_lines ls = filter is_wage ls"

definition fund_lines :: "CashoutLine list \<Rightarrow> CashoutLine list" where
  "fund_lines ls = filter (\<lambda>l. \<not> is_wage l) ls"

definition amounts_total :: "CashoutLine list \<Rightarrow> int" where
  "amounts_total ls = sum_list (map line_amount ls)"

lemmas line_list_defs = wage_lines_def fund_lines_def amounts_total_def

text \<open>
  A rounded running total of non-negative integers is below the safe bound exactly when the exact
  total is, and then they are equal: rounding never brings a total back under a limit.
\<close>

lemma fold_js_add_large:
  "2 ^ 53 \<le> z \<Longrightarrow> \<forall>x \<in> set xs. 0 \<le> x \<Longrightarrow> 2 ^ 53 \<le> fold (\<lambda>x acc. js_add acc x) xs z"
proof (induction xs arbitrary: z)
  case (Cons x xs)
  from Cons.prems have "2 ^ 53 \<le> js_add z x"
    unfolding js_add_def by (intro js_round_ge) simp
  with Cons show ?case by simp
qed simp

lemma fold_js_add_le_iff:
  assumes "0 \<le> z" "\<forall>x \<in> set xs. 0 \<le> x" "limit \<le> max_safe_integer"
  shows "fold (\<lambda>x acc. js_add acc x) xs z \<le> limit \<longleftrightarrow> z + sum_list xs \<le> limit"
    and "z + sum_list xs \<le> limit \<Longrightarrow> fold (\<lambda>x acc. js_add acc x) xs z = z + sum_list xs"
proof -
  have "(z + sum_list xs \<le> limit \<longrightarrow> fold (\<lambda>x acc. js_add acc x) xs z = z + sum_list xs) \<and>
      (fold (\<lambda>x acc. js_add acc x) xs z \<le> limit \<longrightarrow> z + sum_list xs \<le> limit)"
    using assms(1,2)
  proof (induction xs arbitrary: z)
    case (Cons x xs)
    have nn: "0 \<le> sum_list xs" using Cons.prems by (intro sum_list_nonneg) simp
    show ?case
    proof (cases "z + x < 2 ^ 53")
      case True
      then have "js_add z x = z + x" using Cons.prems by (intro js_add_exact) (simp add: max_safe_integer_def)
      then have step: "fold (\<lambda>x acc. js_add acc x) (x # xs) z = fold (\<lambda>x acc. js_add acc x) xs (z + x)"
        by simp
      have "0 \<le> z + x" "\<forall>y \<in> set xs. 0 \<le> y" using Cons.prems by simp_all
      from Cons.IH [OF this] show ?thesis unfolding step by (simp only: sum_list.Cons add.assoc)
    next
      case False
      then have "2 ^ 53 \<le> js_add z x" unfolding js_add_def by (intro js_round_ge) simp
      from fold_js_add_large [OF this, of xs] Cons.prems assms(3) False nn show ?thesis
        by (auto simp: max_safe_integer_def)
    qed
  qed simp
  then show "fold (\<lambda>x acc. js_add acc x) xs z \<le> limit \<longleftrightarrow> z + sum_list xs \<le> limit"
    and "z + sum_list xs \<le> limit \<Longrightarrow> fold (\<lambda>x acc. js_add acc x) xs z = z + sum_list xs" by auto
qed

lemma scan_line_Inr:
  "scan_line capacity line st = Inr st' \<longleftrightarrow>
     line_ok capacity line \<and>
     (if is_wage line then the (cl_payslipId line) \<notin> set (sc_seen st) \<and>
        st' = st\<lparr>sc_seen := the (cl_payslipId line) # sc_seen st,
          sc_wage := js_add (sc_wage st) (line_amount line)\<rparr>
      else sc_reimbursementLines st = 0 \<and>
        st' = st\<lparr>sc_reimbursementLines := 1,
          sc_reimbursement := js_add (sc_reimbursement st) (line_amount line)\<rparr>)"
  by (cases "cl_source line")
    (auto simp: scan_line_def line_ok_def line_amount_def is_wage_def split: option.splits if_splits)

lemma scan_lines_Inr:
  "scan_lines capacity ls st = Inr st' \<longleftrightarrow>
     (\<forall>l \<in> set ls. line_ok capacity l) \<and>
     distinct (map (\<lambda>l. the (cl_payslipId l)) (wage_lines ls)) \<and>
     (\<lambda>l. the (cl_payslipId l)) ` set (wage_lines ls) \<inter> set (sc_seen st) = {} \<and>
     (fund_lines ls = [] \<or> length (fund_lines ls) = 1 \<and> sc_reimbursementLines st = 0) \<and>
     st' = \<lparr>sc_seen = rev (map (\<lambda>l. the (cl_payslipId l)) (wage_lines ls)) @ sc_seen st,
       sc_wage = fold (\<lambda>x acc. js_add acc x) (map line_amount (wage_lines ls)) (sc_wage st),
       sc_reimbursement = fold (\<lambda>x acc. js_add acc x) (map line_amount (fund_lines ls)) (sc_reimbursement st),
       sc_reimbursementLines = sc_reimbursementLines st + length (fund_lines ls)\<rparr>"
proof (induction ls arbitrary: st)
  case Nil
  show ?case by (cases st; cases st') (auto simp: line_list_defs)
next
  case (Cons l ls)
  show ?case
    by (cases "is_wage l") (auto simp: rbind_Inr_iff scan_line_Inr Cons.IH line_list_defs)
qed

text \<open>
  C20. What a payment to a driver needs: the right currency, at least one line, every line a positive
  whole amount, every wage line on a payslip of its own that still covers it, at most one line on
  the fund, and the two totals within the driver's wage and fund limits. The totals in the decision
  are then the exact sums, although the loop adds doubles.
\<close>

theorem cashout_allowed_iff:
  assumes "cap_wageRemainingTotal capacity \<le> max_safe_integer"
    and "cap_reimbursementOutstanding capacity \<le> max_safe_integer"
  shows "evaluateCashout ls capacity currency = CashoutAllowed w r t \<longleftrightarrow>
     currency = cap_currencyCode capacity \<and> ls \<noteq> [] \<and> (\<forall>l \<in> set ls. line_ok capacity l) \<and>
     distinct (map (\<lambda>l. the (cl_payslipId l)) (wage_lines ls)) \<and> length (fund_lines ls) \<le> 1 \<and>
     amounts_total (wage_lines ls) \<le> cap_wageRemainingTotal capacity \<and>
     amounts_total (fund_lines ls) \<le> cap_reimbursementOutstanding capacity \<and>
     w = amounts_total (wage_lines ls) \<and> r = amounts_total (fund_lines ls) \<and> t = js_add w r"
proof (cases "\<forall>l \<in> set ls. line_ok capacity l")
  case True
  then have pos: "\<forall>x \<in> set (map line_amount (wage_lines ls)). 0 \<le> x"
      "\<forall>x \<in> set (map line_amount (fund_lines ls)). 0 \<le> x"
    by (auto simp: line_list_defs line_ok_def)
  note w = fold_js_add_le_iff [OF order_refl pos(1) assms(1), simplified]
    and r = fold_js_add_le_iff [OF order_refl pos(2) assms(2), simplified]
  let ?shape = "distinct (map (\<lambda>l. the (cl_payslipId l)) (wage_lines ls)) \<and> length (fund_lines ls) \<le> 1"
  have len: "length (fund_lines ls) \<le> 1 \<longleftrightarrow> fund_lines ls = [] \<or> length (fund_lines ls) = 1"
    by (cases "fund_lines ls") auto
  show ?thesis
  proof (cases ?shape)
    case shape: True
    then obtain st where "scan_lines capacity ls start_scan = Inr st"
      and "sc_wage st = fold (\<lambda>x acc. js_add acc x) (map line_amount (wage_lines ls)) 0"
      and "sc_reimbursement st = fold (\<lambda>x acc. js_add acc x) (map line_amount (fund_lines ls)) 0"
      using True len by (simp add: scan_lines_Inr start_scan_def)
    with w r True shape show ?thesis by (auto simp: evaluateCashout_def amounts_total_def not_less)
  next
    case shape: False
    then obtain e where "scan_lines capacity ls start_scan = Inl e"
      using len by (cases "scan_lines capacity ls start_scan") (auto simp: scan_lines_Inr)
    with shape show ?thesis by (auto simp: evaluateCashout_def split: prod.splits)
  qed
next
  case False
  then have "\<exists>e. scan_lines capacity ls start_scan = Inl e"
    by (cases "scan_lines capacity ls start_scan") (auto simp: scan_lines_Inr)
  with False show ?thesis by (auto simp: evaluateCashout_def split: prod.splits)
qed

definition sample_capacity :: CashoutCapacity where
  "sample_capacity = \<lparr>cap_currencyCode = TRANSPORT_CURRENCY, cap_wageRemainingByPayslip = [(''p1'', 5)],
     cap_wageRemainingTotal = 5, cap_reimbursementOutstanding = 2\<rparr>"

definition sample_wage_line :: CashoutLine where
  "sample_wage_line = \<lparr>cl_source = WAGE, cl_amount = num_of_int 3, cl_payslipId = Some ''p1'', cl_note = None\<rparr>"

definition sample_fund_line :: CashoutLine where
  "sample_fund_line = \<lparr>cl_source = REIMBURSEMENT_OUT, cl_amount = num_of_int 2, cl_payslipId = None,
     cl_note = None\<rparr>"

lemmas sample_line_defs = sample_capacity_def sample_wage_line_def sample_fund_line_def

theorem cashout_allowed_iff_witness:
  "evaluateCashout [sample_wage_line, sample_fund_line] sample_capacity TRANSPORT_CURRENCY =
     CashoutAllowed 3 2 (js_add 3 2) \<and>
   evaluateCashout [sample_wage_line, sample_wage_line] sample_capacity TRANSPORT_CURRENCY \<noteq>
     CashoutAllowed 6 0 (js_add 6 0)"
proof -
  have "cap_wageRemainingTotal sample_capacity \<le> max_safe_integer"
    and "cap_reimbursementOutstanding sample_capacity \<le> max_safe_integer"
    by (simp_all add: sample_capacity_def max_safe_integer_def)
  note iff = cashout_allowed_iff [OF this]
  show ?thesis
    unfolding iff by (simp add: line_list_defs is_wage_def line_ok_def line_amount_def sample_line_defs)
qed

section \<open>Checked sums\<close>

lemma money_add_eq:
  "money_add a b =
     (if valid_amount a \<and> valid_amount b \<and> valid_amount (a + b) then Inr (a + b) else Inl MoneyError)"
  by (simp add: money_add_def valid_amount_js_add js_add_valid)

lemma money_add_Inr: "money_add a b = Inr c \<longleftrightarrow> valid_amount a \<and> valid_amount b \<and> valid_amount (a + b) \<and> c = a + b"
  by (auto simp: money_add_eq)

lemma money_add_Inl: "money_add a b = Inl e \<Longrightarrow> e = MoneyError"
  by (simp add: money_add_eq split: if_splits)

lemma fold_alloc_Inl: "fold (\<lambda>a acc. rbind acc (\<lambda>total. money_add total a)) xs (Inl e) = Inl e"
  by (induction xs) auto

lemma fold_alloc_Inr:
  "fold (\<lambda>a acc. rbind acc (\<lambda>total. money_add total a)) xs (Inr z) = Inr t \<Longrightarrow> t = z + sum_list xs"
proof (induction xs arbitrary: z)
  case (Cons x xs)
  then show ?case
    by (cases "money_add z x") (force simp: fold_alloc_Inl money_add_Inr)+
qed simp

lemma foldAllocations_Inr: "foldAllocations xs = Inr t \<Longrightarrow> t = sum_list xs"
  by (auto simp: foldAllocations_def dest: fold_alloc_Inr)

lemma fold_alloc_error:
  "fold (\<lambda>a acc. rbind acc (\<lambda>total. money_add total a)) xs (Inr z) = Inl e \<Longrightarrow> e = MoneyError"
proof (induction xs arbitrary: z)
  case (Cons x xs)
  then show ?case
    by (cases "money_add z x") (auto simp: fold_alloc_Inl dest: money_add_Inl)
qed simp

lemma foldAllocations_Inl: "foldAllocations xs = Inl e \<Longrightarrow> e = MoneyError"
  by (auto simp: foldAllocations_def dest: fold_alloc_error)

lemma fold_alloc_safe:
  "prefix_sums_safe z xs \<Longrightarrow> list_all valid_amount xs \<Longrightarrow>
   fold (\<lambda>a acc. rbind acc (\<lambda>total. money_add total a)) xs (Inr z) = Inr (z + sum_list xs)"
proof (induction xs arbitrary: z)
  case (Cons x xs)
  then have "valid_amount z" "valid_amount (z + x)"
    by (auto simp: prefix_sums_safe_Cons valid_amount_def dest: prefix_sums_safe_0)
  with Cons show ?case by (simp add: money_add_eq prefix_sums_safe_Cons add.assoc)
qed simp

lemma abs_elem_le: "x \<in> set xs \<Longrightarrow> \<bar>x\<bar> \<le> sum_list (map abs xs)" for x :: int
proof -
  assume "x \<in> set xs"
  then obtain ys zs where "xs = ys @ x # zs" by (auto simp: in_set_conv_decomp)
  moreover have "0 \<le> sum_list (map abs ys)" "0 \<le> sum_list (map abs zs)" by (rule sum_list_nonneg, auto)+
  ultimately show ?thesis by simp
qed

lemma foldAllocations_safe:
  "sum_list (map abs xs) \<le> max_safe_integer \<Longrightarrow> foldAllocations xs = Inr (sum_list xs)"
proof -
  assume le: "sum_list (map abs xs) \<le> max_safe_integer"
  then have "list_all valid_amount xs"
    by (auto simp: list_all_iff valid_amount_def dest!: abs_elem_le)
  with prefix_sums_safe_abs [OF le] show ?thesis by (simp add: foldAllocations_def fold_alloc_safe)
qed

end
