(* ===== verification/BusinessDate.thy ===== *)
theory BusinessDate imports JsNumber Errors begin

text \<open>
  \<open>business-date.ts\<close>: the business day as a \<open>YYYY-MM-DD\<close> string. \<open>Date.parse\<close> of a UTC midnight and
  \<open>toISOString\<close> are the proleptic Gregorian calendar of the language standard, written out here as a
  day count and its inverse. \<open>Intl.DateTimeFormat\<close> with its time-zone data is a parameter of
  \<open>toBusinessDate\<close>.
\<close>

type_synonym business_date = string

section \<open>The Gregorian calendar\<close>

definition leap :: "int \<Rightarrow> bool" where
  "leap y \<longleftrightarrow> 4 dvd y \<and> (\<not> 100 dvd y \<or> 400 dvd y)"

definition days_in_year :: "int \<Rightarrow> int" where
  "days_in_year y = (if leap y then 366 else 365)"

definition days_in_month :: "int \<Rightarrow> int \<Rightarrow> int" where
  "days_in_month y m =
     (if m = 2 then (if leap y then 29 else 28)
      else if m = 4 \<or> m = 6 \<or> m = 9 \<or> m = 11 then 30 else 31)"

text \<open>Days from 0000-01-01 to the first of January of a year.\<close>

definition days_before_year :: "int \<Rightarrow> int" where
  "days_before_year y = 365 * y + (y + 3) div 4 - (y + 99) div 100 + (y + 399) div 400"

fun days_before_month_nat :: "int \<Rightarrow> nat \<Rightarrow> int" where
  "days_before_month_nat y 0 = 0"
| "days_before_month_nat y (Suc 0) = 0"
| "days_before_month_nat y (Suc (Suc m)) =
     days_before_month_nat y (Suc m) + days_in_month y (int (Suc m))"

definition days_before_month :: "int \<Rightarrow> int \<Rightarrow> int" where
  "days_before_month y m = days_before_month_nat y (nat m)"

definition day_number :: "int \<Rightarrow> int \<Rightarrow> int \<Rightarrow> int" where
  "day_number y m d = days_before_year y + days_before_month y m + (d - 1)"

function find_year :: "int \<Rightarrow> int \<Rightarrow> int \<times> int" where
  "find_year y r = (if r < days_in_year y then (y, r) else find_year (y + 1) (r - days_in_year y))"
  by pat_completeness auto
termination
  by (relation "measure (\<lambda>(y, r). nat (r + 1))") (auto simp: days_in_year_def split: if_splits)

function find_month :: "int \<Rightarrow> int \<Rightarrow> int \<Rightarrow> int \<times> int" where
  "find_month y m r =
     (if 12 \<le> m \<or> r < days_in_month y m then (m, r)
      else find_month y (m + 1) (r - days_in_month y m))"
  by pat_completeness auto
termination
  by (relation "measure (\<lambda>(y, m, r). nat (12 - m))") auto

declare find_year.simps [simp del] find_month.simps [simp del]

definition civil_of_day :: "int \<Rightarrow> int \<times> int \<times> int" where
  "civil_of_day n =
     (let (y, r) = find_year (400 * (n div 146097)) (n mod 146097); (m, d) = find_month y 1 r
      in (y, m, d + 1))"

definition real_date :: "int \<Rightarrow> int \<Rightarrow> int \<Rightarrow> bool" where
  "real_date y m d \<longleftrightarrow> 1 \<le> m \<and> m \<le> 12 \<and> 1 \<le> d \<and> d \<le> days_in_month y m"

lemma div_step:
  fixes y c :: int
  assumes "0 < c"
  shows "(y + c) div c = (y + (c - 1)) div c + (if c dvd y then 1 else 0)"
proof (cases "c dvd y")
  case True
  then obtain q where "y = c * q" ..
  moreover have "(c - 1) div c = 0" using assms by simp
  ultimately show ?thesis using assms by simp
next
  case False
  define q r where "q = y div c" and "r = y mod c"
  have y: "y = c * q + r" by (simp add: q_def r_def)
  have r: "0 < r" "r < c"
    using False assms pos_mod_bound [OF assms, of y] pos_mod_sign [OF assms, of y]
    by (auto simp: r_def dvd_eq_mod_eq_0 order_less_le)
  have "(y + (c - 1)) div c = ((r - 1) + c * (q + 1)) div c"
    by (simp add: y algebra_simps)
  also have "\<dots> = q + 1" using r by simp
  finally show ?thesis using False assms by (simp add: q_def)
qed

lemma days_before_year_Suc: "days_before_year (y + 1) = days_before_year y + days_in_year y"
proof -
  have a: "(y + 1 + 3) div 4 = (y + 3) div 4 + (if 4 dvd y then 1 else 0)"
    using div_step [of 4 y] by (simp add: add.assoc)
  have b: "(y + 1 + 99) div 100 = (y + 99) div 100 + (if 100 dvd y then 1 else 0)"
    using div_step [of 100 y] by (simp add: add.assoc)
  have c: "(y + 1 + 399) div 400 = (y + 399) div 400 + (if 400 dvd y then 1 else 0)"
    using div_step [of 400 y] by (simp add: add.assoc)
  have d: "100 dvd y \<Longrightarrow> 4 dvd y" "400 dvd y \<Longrightarrow> 100 dvd y"
    using dvd_trans [of 4 100 y] dvd_trans [of 100 400 y] by simp_all
  show ?thesis
    unfolding days_before_year_def days_in_year_def leap_def a b c using d
    by (cases "4 dvd y"; cases "100 dvd y"; cases "400 dvd y") (simp_all only: if_True if_False simp_thms, simp_all)
qed

lemma days_before_year_era: "days_before_year (400 * k) = 146097 * k"
proof -
  have "(400 * k + 3) div 4 = 100 * k" "(400 * k + 99) div 100 = 4 * k"
    "(400 * k + 399) div 400 = k"
    by linarith+
  then show ?thesis by (simp add: days_before_year_def)
qed

lemma days_in_year_pos: "365 \<le> days_in_year y"
  by (simp add: days_in_year_def)

lemma find_year_spec:
  "0 \<le> r \<Longrightarrow> find_year y r = (y', r') \<Longrightarrow>
     days_before_year y + r = days_before_year y' + r' \<and> 0 \<le> r' \<and> r' < days_in_year y'"
proof (induction y r rule: find_year.induct)
  case (1 y r)
  show ?case
  proof (cases "r < days_in_year y")
    case True
    with "1.prems" show ?thesis by (simp add: find_year.simps [of y r])
  next
    case False
    with "1.prems" "1.IH" show ?thesis
      by (simp add: find_year.simps [of y r] days_before_year_Suc)
  qed
qed

lemma days_before_month_Suc:
  "1 \<le> m \<Longrightarrow> days_before_month y (m + 1) = days_before_month y m + days_in_month y m"
proof -
  assume "1 \<le> m"
  then obtain k where k: "m = int (Suc k)"
    by (metis Suc_pred' nat_0_le of_nat_0_less_iff zero_less_nat_eq int_one_le_iff_zero_less
        order_trans zero_le_one)
  then have "nat (m + 1) = Suc (Suc k)" "nat m = Suc k" by simp_all
  with k show ?thesis by (simp add: days_before_month_def)
qed

lemma find_month_spec:
  "1 \<le> m \<Longrightarrow> m \<le> 12 \<Longrightarrow> 0 \<le> r \<Longrightarrow> find_month y m r = (m', r') \<Longrightarrow>
     days_before_month y m + r = days_before_month y m' + r' \<and> m \<le> m' \<and> m' \<le> 12 \<and> 0 \<le> r' \<and>
     (m' = 12 \<or> r' < days_in_month y m')"
proof (induction y m r rule: find_month.induct)
  case (1 y m r)
  show ?case
  proof (cases "12 \<le> m \<or> r < days_in_month y m")
    case True
    with "1.prems" show ?thesis by (auto simp: find_month.simps [of y m r])
  next
    case False
    with "1.prems" "1.IH" show ?thesis
      by (auto simp: find_month.simps [of y m r] days_before_month_Suc)
  qed
qed

lemma days_before_month_simps:
  "days_before_month y 1 = 0"
  "days_before_month y 2 = 31"
  "days_before_month y 3 = (if leap y then 60 else 59)"
  "days_before_month y 4 = (if leap y then 91 else 90)"
  "days_before_month y 5 = (if leap y then 121 else 120)"
  "days_before_month y 6 = (if leap y then 152 else 151)"
  "days_before_month y 7 = (if leap y then 182 else 181)"
  "days_before_month y 8 = (if leap y then 213 else 212)"
  "days_before_month y 9 = (if leap y then 244 else 243)"
  "days_before_month y 10 = (if leap y then 274 else 273)"
  "days_before_month y 11 = (if leap y then 305 else 304)"
  "days_before_month y 12 = (if leap y then 335 else 334)"
  by (simp_all add: days_before_month_def eval_nat_numeral days_in_month_def)

lemma days_before_month_mono:
  assumes "1 \<le> m" "m < m'" "m' \<le> 12"
  shows "days_before_month y m + days_in_month y m \<le> days_before_month y m'"
  using assms(2,3)
proof (induction "nat (m' - m)" arbitrary: m')
  case 0
  then show ?case by simp
next
  case (Suc k)
  show ?case
  proof (cases "m' = m + 1")
    case True
    then show ?thesis using days_before_month_Suc [of m y] assms(1) by simp
  next
    case False
    with Suc have "days_before_month y m + days_in_month y m \<le> days_before_month y (m' - 1)"
      by (intro Suc.hyps(1)) auto
    moreover have "days_before_month y (m' - 1 + 1) = days_before_month y (m' - 1) + days_in_month y (m' - 1)"
      using Suc.prems assms(1) by (intro days_before_month_Suc) auto
    moreover have "0 \<le> days_in_month y (m' - 1)" by (simp add: days_in_month_def)
    ultimately show ?thesis by simp
  qed
qed

lemma days_before_year_mono: "y < y' \<Longrightarrow> days_before_year y + days_in_year y \<le> days_before_year y'"
proof (induction "nat (y' - y)" arbitrary: y')
  case 0
  then show ?case by simp
next
  case (Suc k)
  have st: "days_before_year y' = days_before_year (y' - 1) + days_in_year (y' - 1)"
    using days_before_year_Suc [of "y' - 1"] by simp
  show ?case
  proof (cases "y' = y + 1")
    case True
    with st show ?thesis by simp
  next
    case False
    with Suc have "days_before_year y + days_in_year y \<le> days_before_year (y' - 1)"
      by (intro Suc.hyps(1)) auto
    with st days_in_year_pos [of "y' - 1"] show ?thesis by linarith
  qed
qed

lemma days_in_months: "days_before_month y 12 + days_in_month y 12 = days_in_year y"
  by (simp add: days_before_month_simps days_in_month_def days_in_year_def)

lemma day_in_year_bounds:
  assumes "real_date y m d"
  shows "0 \<le> days_before_month y m + (d - 1)" "days_before_month y m + (d - 1) < days_in_year y"
proof -
  have m: "1 \<le> m" "m \<le> 12" and d: "1 \<le> d" "d \<le> days_in_month y m"
    using assms by (auto simp: real_date_def)
  have "0 \<le> days_before_month y m"
    using days_before_month_mono [of 1 m y] m
    by (cases "m = 1") (auto simp: days_before_month_simps days_in_month_def)
  with d show "0 \<le> days_before_month y m + (d - 1)" by simp
  show "days_before_month y m + (d - 1) < days_in_year y"
    using days_before_month_mono [of m 12 y] days_in_months [of y] m d
    by (cases "m = 12") (auto simp: days_in_month_def split: if_splits)
qed

text \<open>The day count orders the real dates as year, month and day do.\<close>

lemma day_number_less:
  assumes "real_date y m d" "real_date y' m' d'"
    and "y < y' \<or> y = y' \<and> (m < m' \<or> m = m' \<and> d < d')"
  shows "day_number y m d < day_number y' m' d'"
proof -
  consider "y < y'" | "y = y'" "m < m'" | "y = y'" "m = m'" "d < d'"
    using assms(3) by blast
  then show ?thesis
  proof cases
    case 1
    then show ?thesis
      using days_before_year_mono [OF 1] day_in_year_bounds [OF assms(1)]
        day_in_year_bounds [OF assms(2)]
      by (simp add: day_number_def)
  next
    case 2
    with assms have "days_before_month y m + days_in_month y m \<le> days_before_month y m'"
      by (intro days_before_month_mono) (auto simp: real_date_def)
    with 2 assms show ?thesis by (simp add: day_number_def real_date_def)
  next
    case 3
    then show ?thesis by (simp add: day_number_def)
  qed
qed

lemma day_number_less_iff:
  assumes "real_date y m d" "real_date y' m' d'"
  shows "day_number y m d < day_number y' m' d' \<longleftrightarrow>
    y < y' \<or> y = y' \<and> (m < m' \<or> m = m' \<and> d < d')"
proof
  assume l: "day_number y m d < day_number y' m' d'"
  show "y < y' \<or> y = y' \<and> (m < m' \<or> m = m' \<and> d < d')"
  proof (rule ccontr)
    assume n: "\<not> (y < y' \<or> y = y' \<and> (m < m' \<or> m = m' \<and> d < d'))"
    show False
    proof (cases "y = y' \<and> m = m' \<and> d = d'")
      case True
      with l show False by simp
    next
      case False
      with n have "y' < y \<or> y' = y \<and> (m' < m \<or> m' = m \<and> d' < d)" by linarith
      with l day_number_less [OF assms(2,1)] show False by simp
    qed
  qed
qed (rule day_number_less [OF assms])

lemma civil_of_day_spec:
  assumes "civil_of_day n = (y, m, d)"
  shows "real_date y m d \<and> day_number y m d = n"
proof -
  obtain y0 r0 where fy: "find_year (400 * (n div 146097)) (n mod 146097) = (y0, r0)"
    by (cases "find_year (400 * (n div 146097)) (n mod 146097)")
  obtain m0 d0 where fm: "find_month y0 1 r0 = (m0, d0)" by (cases "find_month y0 1 r0")
  from assms fy fm have e: "y = y0" "m = m0" "d = d0 + 1"
    by (auto simp: civil_of_day_def)
  have Y: "days_before_year (400 * (n div 146097)) + n mod 146097 = days_before_year y0 + r0"
    "0 \<le> r0" "r0 < days_in_year y0"
    using find_year_spec [OF _ fy] by auto
  have M: "days_before_month y0 1 + r0 = days_before_month y0 m0 + d0" "1 \<le> m0" "m0 \<le> 12"
    "0 \<le> d0" "m0 = 12 \<or> d0 < days_in_month y0 m0"
    using find_month_spec [OF _ _ Y(2) fm] by auto
  have "d0 < days_in_month y0 m0"
    using M Y(3) days_in_months [of y0] by (auto simp: days_before_month_simps)
  then have "real_date y m d" using M e by (simp add: real_date_def)
  moreover have "day_number y m d = n"
    using Y(1) M(1) e by (simp add: day_number_def days_before_year_era days_before_month_simps)
  ultimately show ?thesis ..
qed

lemma day_number_inject:
  assumes "real_date y m d" "real_date y' m' d'" "day_number y m d = day_number y' m' d'"
  shows "y = y' \<and> m = m' \<and> d = d'"
proof -
  have "\<not> (y < y' \<or> y = y' \<and> (m < m' \<or> m = m' \<and> d < d'))"
    "\<not> (y' < y \<or> y' = y \<and> (m' < m \<or> m' = m \<and> d' < d))"
    using day_number_less_iff [OF assms(1,2)] day_number_less_iff [OF assms(2,1)] assms(3) by auto
  then show ?thesis by linarith
qed

lemma civil_of_day_number:
  "real_date y m d \<Longrightarrow> civil_of_day (day_number y m d) = (y, m, d)"
  using civil_of_day_spec day_number_inject by (metis prod_cases3)

section \<open>Decimal digits\<close>

definition is_digit :: "char \<Rightarrow> bool" where
  "is_digit c \<longleftrightarrow> 48 \<le> (of_char c :: nat) \<and> (of_char c :: nat) \<le> 57"

definition digit_val :: "char \<Rightarrow> int" where
  "digit_val c = int (of_char c) - 48"

definition digit_char :: "int \<Rightarrow> char" where
  "digit_char n = char_of (nat (48 + n))"

definition digits_val :: "string \<Rightarrow> int" where
  "digits_val cs = foldl (\<lambda>n c. 10 * n + digit_val c) 0 cs"

fun pad :: "nat \<Rightarrow> int \<Rightarrow> string" where
  "pad 0 n = []"
| "pad (Suc k) n = pad k (n div 10) @ [digit_char (n mod 10)]"

lemma digit_char_props:
  assumes "0 \<le> n" "n < 10"
  shows "is_digit (digit_char n)" "digit_val (digit_char n) = n"
proof -
  have "nat (48 + n) mod 256 = nat (48 + n)" using assms by (intro mod_less) simp
  then show "is_digit (digit_char n)" "digit_val (digit_char n) = n"
    using assms by (simp_all add: is_digit_def digit_char_def digit_val_def of_char_of
        take_bit_eq_mod le_nat_iff nat_le_iff)
qed

lemma digit_char_less:
  assumes "0 \<le> a" "a < 10" "0 \<le> b" "b < 10"
  shows "digit_char a < digit_char b \<longleftrightarrow> a < b"
proof -
  have "nat (48 + a) mod 256 = nat (48 + a)" "nat (48 + b) mod 256 = nat (48 + b)"
    using assms by (intro mod_less; simp)+
  then show ?thesis
    using assms by (simp add: digit_char_def less_char_def of_char_of take_bit_eq_mod)
qed

lemma digits_val_append [simp]: "digits_val (cs @ [c]) = 10 * digits_val cs + digit_val c"
  by (simp add: digits_val_def)

lemma length_pad [simp]: "length (pad k n) = k"
  by (induction k arbitrary: n) auto

lemma pad_digits: "list_all is_digit (pad k n)"
  by (induction k arbitrary: n) (auto simp: digit_char_props)

lemma digits_val_pad: "0 \<le> n \<Longrightarrow> n < 10 ^ k \<Longrightarrow> digits_val (pad k n) = n"
proof (induction k arbitrary: n)
  case 0
  then show ?case by (simp add: digits_val_def)
next
  case (Suc k)
  from Suc.prems have "n div 10 < 10 ^ k" by (simp add: div_less_iff_less_mult mult.commute)
  with Suc have "digits_val (pad k (n div 10)) = n div 10" by simp
  then show ?case by (simp add: digit_char_props)
qed

lemma pad_inject:
  "0 \<le> a \<Longrightarrow> a < 10 ^ k \<Longrightarrow> 0 \<le> b \<Longrightarrow> b < 10 ^ k \<Longrightarrow> pad k a = pad k b \<longleftrightarrow> a = b"
  by (metis digits_val_pad)

lemma append_less_iff:
  fixes xs ys us vs :: "'a::linorder list"
  assumes "length xs = length ys"
  shows "xs @ us < ys @ vs \<longleftrightarrow> xs < ys \<or> xs = ys \<and> us < vs"
  using assms by (induction xs ys rule: list_induct2) auto

lemma lex_less_iff:
  fixes q r s t :: int
  assumes "0 \<le> r" "r < 10" "0 \<le> t" "t < 10"
  shows "q < s \<or> q = s \<and> r < t \<longleftrightarrow> 10 * q + r < 10 * s + t"
  using assms by linarith

lemma pad_less_iff:
  "0 \<le> a \<Longrightarrow> a < 10 ^ k \<Longrightarrow> 0 \<le> b \<Longrightarrow> b < 10 ^ k \<Longrightarrow> pad k a < pad k b \<longleftrightarrow> a < b"
proof (induction k arbitrary: a b)
  case 0
  then show ?case by simp
next
  case (Suc k)
  have d: "a div 10 < 10 ^ k" "b div 10 < 10 ^ k"
    using Suc.prems by (simp_all add: div_less_iff_less_mult mult.commute)
  have "pad (Suc k) a < pad (Suc k) b \<longleftrightarrow>
      a div 10 < b div 10 \<or> a div 10 = b div 10 \<and> a mod 10 < b mod 10"
    using Suc d by (simp add: append_less_iff pad_inject digit_char_less)
  also have "\<dots> \<longleftrightarrow> 10 * (a div 10) + a mod 10 < 10 * (b div 10) + b mod 10"
    using pos_mod_bound [of 10 a] pos_mod_sign [of 10 a] pos_mod_bound [of 10 b]
      pos_mod_sign [of 10 b] by (intro lex_less_iff) simp_all
  also have "\<dots> \<longleftrightarrow> a < b" by simp
  finally show ?case .
qed

section \<open>The functions of the module\<close>

definition date_pattern :: "string \<Rightarrow> bool" where
  "date_pattern s \<longleftrightarrow>
     length s = 10 \<and> list_all is_digit (take 4 s) \<and> s ! 4 = CHR ''-'' \<and>
     list_all is_digit (take 2 (drop 5 s)) \<and> s ! 7 = CHR ''-'' \<and> list_all is_digit (drop 8 s)"

text \<open>Milliseconds since 1970-01-01; \<open>None\<close> is \<open>NaN\<close>. A day past the end of its month runs on.\<close>

definition ms_per_day :: int where
  "ms_per_day = 86400000"

definition epoch_day :: int where
  "epoch_day = 719528"

definition date_parse :: "string \<Rightarrow> int option" where
  "date_parse s =
     (let y = digits_val (take 4 s); m = digits_val (take 2 (drop 5 s)); d = digits_val (drop 8 s)
      in if 1 \<le> m \<and> m \<le> 12 \<and> 1 \<le> d \<and> d \<le> 31
         then Some ((day_number y m d - epoch_day) * ms_per_day) else None)"

definition year_string :: "int \<Rightarrow> string" where
  "year_string y =
     (if 0 \<le> y \<and> y \<le> 9999 then pad 4 y
      else (if y < 0 then CHR ''-'' else CHR ''+'') # pad 6 \<bar>y\<bar>)"

definition date_string :: "int \<Rightarrow> int \<Rightarrow> int \<Rightarrow> string" where
  "date_string y m d = year_string y @ CHR ''-'' # pad 2 m @ CHR ''-'' # pad 2 d"

text \<open>\<open>toISOString().slice(0, 10)\<close> of a valid instant.\<close>

definition iso_day :: "int \<Rightarrow> string" where
  "iso_day ms = (case civil_of_day (ms div ms_per_day + epoch_day) of
     (y, m, d) \<Rightarrow> take 10 (date_string y m d))"

definition max_time :: int where
  "max_time = 8640000000000000"

definition assertBusinessDate :: "string \<Rightarrow> js_error + business_date" where
  "assertBusinessDate value =
     (if \<not> date_pattern value then Inl BusinessDateError
      else case date_parse value of
          None \<Rightarrow> Inl BusinessDateError
        | Some t \<Rightarrow> if iso_day t \<noteq> value then Inl BusinessDateError else Inr value)"

definition businessDateDifferenceInDays :: "business_date \<Rightarrow> business_date \<Rightarrow> js_error + jsnum" where
  "businessDateDifferenceInDays from_date to_date =
     rbind (assertBusinessDate from_date) (\<lambda>f.
     rbind (assertBusinessDate to_date) (\<lambda>t.
       case (date_parse f, date_parse t) of
         (Some s, Some e) \<Rightarrow>
           Inr (num_of_int (math_round (of_int (e - s) / of_int ms_per_day)))
       | _ \<Rightarrow> Inr NaN))"

definition addBusinessDays :: "business_date \<Rightarrow> jsnum \<Rightarrow> js_error + string" where
  "addBusinessDays date days =
     (case js_integer days of
        None \<Rightarrow> Inl BusinessDateError
      | Some n \<Rightarrow>
          rbind (assertBusinessDate date) (\<lambda>d.
            case date_parse d of
              None \<Rightarrow> Inl RangeError
            | Some base \<Rightarrow>
                let t = base + n * ms_per_day
                in if max_time < \<bar>t\<bar> then Inl RangeError else Inr (iso_day t)))"

text \<open>
  \<open>toBusinessDate\<close>: the instant is \<open>None\<close> for an invalid \<open>Date\<close>. \<open>format_parts\<close> stands for the
  runtime's \<open>Intl.DateTimeFormat('en-CA', ...)\<close>: \<open>None\<close> for a time zone it refuses, otherwise the
  typed parts of the formatted instant.
\<close>

type_synonym date_parts = "(string \<times> string) list"

definition pick :: "date_parts \<Rightarrow> string \<Rightarrow> string" where
  "pick parts t = (case List.find (\<lambda>p. fst p = t) parts of Some p \<Rightarrow> snd p | None \<Rightarrow> [])"

definition toBusinessDate ::
  "(string \<Rightarrow> (int \<Rightarrow> date_parts) option) \<Rightarrow> int option \<Rightarrow> string \<Rightarrow> js_error + business_date" where
  "toBusinessDate format_parts instant time_zone =
     (case instant of
        None \<Rightarrow> Inl BusinessDateError
      | Some ms \<Rightarrow>
          (case format_parts time_zone of
             None \<Rightarrow> Inl BusinessDateError
           | Some fmt \<Rightarrow>
               let parts = fmt ms;
                   v = pick parts ''year'' @ ''-'' @ pick parts ''month'' @ ''-'' @ pick parts ''day''
               in if date_pattern v then Inr v else Inl BusinessDateError))"

section \<open>Valid business dates\<close>

definition valid_date :: "string \<Rightarrow> bool" where
  "valid_date s \<longleftrightarrow> assertBusinessDate s = Inr s"

lemma assertBusinessDate_eq:
  "assertBusinessDate s = (if valid_date s then Inr s else Inl BusinessDateError)"
  by (auto simp: valid_date_def assertBusinessDate_def split: option.splits if_splits)

lemma date_string_pattern:
  assumes "real_date y m d" "0 \<le> y" "y \<le> 9999"
  shows "date_pattern (date_string y m d)"
    "date_parse (date_string y m d) = Some ((day_number y m d - epoch_day) * ms_per_day)"
    "take 10 (date_string y m d) = date_string y m d"
proof -
  have md: "1 \<le> m" "m \<le> 12" "1 \<le> d" "d \<le> 31"
    using assms(1) by (auto simp: real_date_def days_in_month_def split: if_splits)
  have s: "date_string y m d = pad 4 y @ CHR ''-'' # pad 2 m @ CHR ''-'' # pad 2 d"
    using assms by (simp add: date_string_def year_string_def)
  have p: "take 4 (date_string y m d) = pad 4 y" "take 2 (drop 5 (date_string y m d)) = pad 2 m"
    "drop 8 (date_string y m d) = pad 2 d" "date_string y m d ! 4 = CHR ''-''"
    "date_string y m d ! 7 = CHR ''-''" "length (date_string y m d) = 10"
    unfolding s by (simp_all add: nth_append del: pad.simps)
  show "date_pattern (date_string y m d)"
    by (simp add: date_pattern_def p pad_digits del: pad.simps)
  have "digits_val (pad 4 y) = y" "digits_val (pad 2 m) = m" "digits_val (pad 2 d) = d"
    using assms md by (intro digits_val_pad; simp)+
  then show "date_parse (date_string y m d) = Some ((day_number y m d - epoch_day) * ms_per_day)"
    using md by (simp add: date_parse_def p del: pad.simps)
  show "take 10 (date_string y m d) = date_string y m d" using p(6) by simp
qed

lemma not_digit_sign: "\<not> is_digit (CHR ''+'')" "\<not> is_digit (CHR ''-'')"
  by (simp_all add: is_digit_def)

lemma date_string_out_of_range:
  "\<not> (0 \<le> y \<and> y \<le> 9999) \<Longrightarrow> \<not> date_pattern (take 10 (date_string y m d))"
  by (auto simp: date_pattern_def date_string_def year_string_def not_digit_sign)

lemma valid_date_iff:
  "valid_date s \<longleftrightarrow> (\<exists>y m d. real_date y m d \<and> 0 \<le> y \<and> y \<le> 9999 \<and> s = date_string y m d)"
proof
  assume v: "valid_date s"
  then obtain t where pat: "date_pattern s" and t: "date_parse s = Some t" and iso: "iso_day t = s"
    by (auto simp: valid_date_def assertBusinessDate_def split: option.splits if_splits)
  obtain y m d where c: "civil_of_day (t div ms_per_day + epoch_day) = (y, m, d)"
    by (cases "civil_of_day (t div ms_per_day + epoch_day)")
  with iso have s: "s = take 10 (date_string y m d)" by (simp add: iso_day_def)
  with pat have r: "0 \<le> y \<and> y \<le> 9999" using date_string_out_of_range by blast
  from civil_of_day_spec [OF c] have "real_date y m d" ..
  with r s show "\<exists>y m d. real_date y m d \<and> 0 \<le> y \<and> y \<le> 9999 \<and> s = date_string y m d"
    using date_string_pattern(3) by blast
next
  assume "\<exists>y m d. real_date y m d \<and> 0 \<le> y \<and> y \<le> 9999 \<and> s = date_string y m d"
  then obtain y m d where r: "real_date y m d" "0 \<le> y" "y \<le> 9999" and s: "s = date_string y m d"
    by blast
  then show "valid_date s"
    using date_string_pattern [OF r]
    by (simp add: valid_date_def assertBusinessDate_def iso_day_def civil_of_day_number ms_per_day_def)
qed

text \<open>The day a valid date stands for.\<close>

definition day_of :: "string \<Rightarrow> int" where
  "day_of s = day_number (digits_val (take 4 s)) (digits_val (take 2 (drop 5 s))) (digits_val (drop 8 s))"

lemma date_parse_day_of:
  "valid_date s \<Longrightarrow> date_parse s = Some ((day_of s - epoch_day) * ms_per_day)"
proof -
  assume "valid_date s"
  then obtain t where "date_parse s = Some t"
    by (auto simp: valid_date_def assertBusinessDate_def split: option.splits if_splits)
  then show ?thesis by (auto simp: date_parse_def day_of_def Let_def split: if_splits)
qed

lemma day_of_date_string:
  assumes "real_date y m d" "0 \<le> y" "y \<le> 9999"
  shows "day_of (date_string y m d) = day_number y m d"
proof -
  have "valid_date (date_string y m d)" using assms valid_date_iff by blast
  from date_parse_day_of [OF this] date_string_pattern(2) [OF assms]
  show ?thesis by (simp add: ms_per_day_def)
qed

lemma date_string_less_iff:
  assumes "real_date y m d" "0 \<le> y" "y \<le> 9999" "real_date y' m' d'" "0 \<le> y'" "y' \<le> 9999"
  shows "date_string y m d < date_string y' m' d' \<longleftrightarrow>
    y < y' \<or> y = y' \<and> (m < m' \<or> m = m' \<and> d < d')"
proof -
  have b: "0 \<le> m" "m < 10 ^ 2" "0 \<le> d" "d < 10 ^ 2" "0 \<le> m'" "m' < 10 ^ 2" "0 \<le> d'" "d' < 10 ^ 2"
    using assms(1,4) by (auto simp: real_date_def days_in_month_def split: if_splits)
  have y: "y < 10 ^ 4" "y' < 10 ^ 4" using assms by simp_all
  show ?thesis
    unfolding date_string_def year_string_def
    using assms b y by (simp add: append_less_iff pad_less_iff pad_inject del: pad.simps)
qed

lemma valid_date_less_iff:
  assumes "valid_date a" "valid_date b"
  shows "a < b \<longleftrightarrow> day_of a < day_of b"
proof -
  from assms obtain y m d y' m' d' where
    a: "real_date y m d" "0 \<le> y" "y \<le> 9999" "a = date_string y m d" and
    b: "real_date y' m' d'" "0 \<le> y'" "y' \<le> 9999" "b = date_string y' m' d'"
    unfolding valid_date_iff by blast
  show ?thesis
    using date_string_less_iff [OF a(1-3) b(1-3)] day_number_less_iff [OF a(1) b(1)]
      day_of_date_string [OF a(1-3)] day_of_date_string [OF b(1-3)] a(4) b(4) by simp
qed

lemma valid_date_le_iff:
  assumes "valid_date a" "valid_date b"
  shows "a \<le> b \<longleftrightarrow> day_of a \<le> day_of b"
  using valid_date_less_iff [OF assms(2,1)] by (auto simp: not_less [symmetric])

lemma difference_valid:
  assumes "valid_date a" "valid_date b"
  shows "businessDateDifferenceInDays a b = Inr (num_of_int (day_of b - day_of a))"
proof -
  have "(of_int ((day_of b - epoch_day) * ms_per_day - (day_of a - epoch_day) * ms_per_day) :: rat) /
      of_int ms_per_day = of_int (day_of b - day_of a)"
    by (simp add: ms_per_day_def field_simps)
  then show ?thesis
    using assms by (simp add: businessDateDifferenceInDays_def assertBusinessDate_eq
        date_parse_day_of del: of_int_diff)
qed

lemma day_of_bounds:
  assumes "valid_date a"
  shows "0 \<le> day_of a" "day_of a \<le> 3652424"
proof -
  from assms obtain y m d where a: "real_date y m d" "0 \<le> y" "y \<le> 9999" "a = date_string y m d"
    unfolding valid_date_iff by blast
  have da: "day_of a = day_number y m d" using day_of_date_string [OF a(1-3)] a(4) by simp
  have "real_date 0 1 1" "real_date 9999 12 31"
    by (simp_all add: real_date_def days_in_month_def)
  then have "\<not> day_number y m d < day_number 0 1 1" "\<not> day_number 9999 12 31 < day_number y m d"
    using a day_number_less_iff [OF a(1)] day_number_less_iff [OF _ a(1)]
    by (auto simp: real_date_def days_in_month_def split: if_splits)
  moreover have "day_number 0 1 1 = 0" "day_number 9999 12 31 = 3652424"
    by (simp_all add: day_number_def days_before_year_def days_before_month_simps leap_def)
  ultimately show "0 \<le> day_of a" "day_of a \<le> 3652424" using da by simp_all
qed

lemma addBusinessDays_valid:
  assumes "valid_date a"
  shows "addBusinessDays a (num_of_int n) =
    (if max_time < \<bar>(day_of a - epoch_day + n) * ms_per_day\<bar> then Inl RangeError
     else Inr (iso_day ((day_of a - epoch_day + n) * ms_per_day)))"
  using assms by (simp add: addBusinessDays_def assertBusinessDate_eq date_parse_day_of
      distrib_right Let_def)

lemma iso_day_of:
  "valid_date b \<Longrightarrow> iso_day ((day_of b - epoch_day) * ms_per_day) = b"
  using date_parse_day_of [of b]
  by (auto simp: valid_date_def assertBusinessDate_def split: option.splits if_splits)

lemma difference_eq_iff:
  assumes "valid_date a" "valid_date b"
  shows "businessDateDifferenceInDays a b = Inr (num_of_int n) \<longleftrightarrow> n = day_of b - day_of a"
  by (auto simp: difference_valid [OF assms])

lemma day_number_bounds:
  "day_number 0 1 1 = 0" "day_number 9999 12 31 = 3652424" "day_number 10000 1 1 = 3652425"
  by (simp_all add: day_number_def days_before_year_def days_before_month_simps leap_def)

lemma add_days_lands_on:
  assumes "valid_date a" "addBusinessDays a (num_of_int k) = Inr b"
  shows "valid_date b \<longleftrightarrow> 0 \<le> day_of a + k \<and> day_of a + k \<le> 3652424"
    and "valid_date b \<Longrightarrow> day_of b = day_of a + k"
proof -
  have i: "iso_day ((day_of a - epoch_day + k) * ms_per_day) = b"
    using assms(2) addBusinessDays_valid [OF assms(1), of k] by (auto split: if_splits)
  obtain y m d where c: "civil_of_day (day_of a + k) = (y, m, d)"
    by (cases "civil_of_day (day_of a + k)")
  with i have bs: "b = take 10 (date_string y m d)" by (simp add: iso_day_def ms_per_day_def)
  from civil_of_day_spec [OF c] have r: "real_date y m d" and n: "day_number y m d = day_of a + k"
    by auto
  have lo: "0 \<le> y \<longleftrightarrow> 0 \<le> day_of a + k"
    using day_number_less_iff [OF r, of 0 1 1] day_number_less_iff [OF _ r, of 0 1 1] r n
    by (auto simp: real_date_def days_in_month_def day_number_bounds not_less [symmetric])
  have hi: "y \<le> 9999 \<longleftrightarrow> day_of a + k \<le> 3652424"
    using day_number_less_iff [OF r, of 10000 1 1] r n
    by (auto simp: real_date_def days_in_month_def day_number_bounds)
  have vr: "valid_date b \<Longrightarrow> 0 \<le> y \<and> y \<le> 9999"
    using bs date_string_out_of_range [of y m d]
    by (auto simp: valid_date_def assertBusinessDate_def split: if_splits)
  have rv: "0 \<le> y \<Longrightarrow> y \<le> 9999 \<Longrightarrow> b = date_string y m d \<and> valid_date b"
    using bs r date_string_pattern(3) valid_date_iff by metis
  show "valid_date b \<longleftrightarrow> 0 \<le> day_of a + k \<and> day_of a + k \<le> 3652424"
    using vr rv lo hi by blast
  show "valid_date b \<Longrightarrow> day_of b = day_of a + k"
    using vr rv day_of_date_string [OF r] n by metis
qed

lemma valid_dateI: "real_date y m d \<Longrightarrow> 0 \<le> y \<Longrightarrow> y \<le> 9999 \<Longrightarrow> valid_date (date_string y m d)"
  using valid_date_iff by blast

lemma digit_chars:
  "digit_char 0 = CHR ''0''" "digit_char 1 = CHR ''1''" "digit_char 2 = CHR ''2''"
  "digit_char 3 = CHR ''3''" "digit_char 6 = CHR ''6''" "digit_char 8 = CHR ''8''"
  "digit_char 9 = CHR ''9''"
  by code_simp+

lemma sample_dates:
  "valid_date ''2026-02-28''" "valid_date ''2026-03-01''" "valid_date ''9999-12-31''"
  "''2026-02-28'' < ''2026-03-01''"
  "day_of ''2026-02-28'' = 740040" "day_of ''2026-03-01'' = 740041" "day_of ''9999-12-31'' = 3652424"
proof -
  have e: "''2026-02-28'' = date_string 2026 2 28" "''2026-03-01'' = date_string 2026 3 1"
    "''9999-12-31'' = date_string 9999 12 31"
    by (simp_all add: date_string_def year_string_def eval_nat_numeral digit_chars)
  have r: "real_date 2026 2 28" "real_date 2026 3 1" "real_date 9999 12 31"
    by (simp_all add: real_date_def days_in_month_def)
  show v: "valid_date ''2026-02-28''" "valid_date ''2026-03-01''" "valid_date ''9999-12-31''"
    unfolding e using r by (auto intro: valid_dateI)
  show n: "day_of ''2026-02-28'' = 740040" "day_of ''2026-03-01'' = 740041"
    "day_of ''9999-12-31'' = 3652424"
    unfolding e using r
    by (simp_all add: day_of_date_string day_number_def days_before_year_def
        days_before_month_simps leap_def)
  show "''2026-02-28'' < ''2026-03-01''" using valid_date_less_iff [OF v(1,2)] n by simp
qed

text \<open>
  Business days are compared as strings throughout the code (periods, ranges, ledger order).
  On valid dates that comparison is the order of the days themselves: one date sorts before
  another exactly when the difference in days is positive.
\<close>

theorem string_order_is_chronological:
  assumes "valid_date a" "valid_date b"
  shows "(a < b \<longleftrightarrow> (\<exists>n > 0. businessDateDifferenceInDays a b = Inr (num_of_int n))) \<and>
         (a \<le> b \<longleftrightarrow> (\<exists>n \<ge> 0. businessDateDifferenceInDays a b = Inr (num_of_int n)))"
proof -
  have "(\<exists>n > 0. businessDateDifferenceInDays a b = Inr (num_of_int n)) \<longleftrightarrow> day_of a < day_of b"
    "(\<exists>n \<ge> 0. businessDateDifferenceInDays a b = Inr (num_of_int n)) \<longleftrightarrow> day_of a \<le> day_of b"
    unfolding difference_eq_iff [OF assms] by auto
  then show ?thesis using assms by (simp add: valid_date_less_iff valid_date_le_iff)
qed

theorem string_order_is_chronological_witness:
  "valid_date ''2026-02-28'' \<and> valid_date ''2026-03-01'' \<and> ''2026-02-28'' < ''2026-03-01'' \<and>
   (\<exists>n > 0. businessDateDifferenceInDays ''2026-02-28'' ''2026-03-01'' = Inr (num_of_int n))"
  using string_order_is_chronological [OF sample_dates(1,2)] sample_dates by simp

text \<open>
  C19. Adding days and taking the difference are inverse: moving a valid date by the difference to
  another valid date arrives there, and wherever adding days arrives at a valid date the
  difference is the number of days added.
\<close>

theorem add_days_difference_inverse:
  assumes "valid_date a" "valid_date b"
  shows "(\<exists>n. businessDateDifferenceInDays a b = Inr n \<and> addBusinessDays a n = Inr b) \<and>
         (addBusinessDays a (num_of_int k) = Inr b \<longleftrightarrow>
            businessDateDifferenceInDays a b = Inr (num_of_int k))"
proof -
  have ok: "\<not> max_time < \<bar>(day_of b - epoch_day) * ms_per_day\<bar>"
    using day_of_bounds [OF assms(2)] by (simp add: max_time_def epoch_day_def ms_per_day_def)
  have to_b: "addBusinessDays a (num_of_int (day_of b - day_of a)) = Inr b"
    using addBusinessDays_valid [OF assms(1), of "day_of b - day_of a"] ok iso_day_of [OF assms(2)]
    by simp
  have k_eq: "addBusinessDays a (num_of_int k) = Inr b \<longleftrightarrow> k = day_of b - day_of a"
  proof
    assume "addBusinessDays a (num_of_int k) = Inr b"
    from add_days_lands_on(2) [OF assms(1) this assms(2)] show "k = day_of b - day_of a" by simp
  next
    assume "k = day_of b - day_of a"
    with to_b show "addBusinessDays a (num_of_int k) = Inr b" by (simp only:)
  qed
  show ?thesis
  proof (intro conjI exI)
    show "businessDateDifferenceInDays a b = Inr (num_of_int (day_of b - day_of a))"
      by (rule difference_valid [OF assms])
    show "addBusinessDays a (num_of_int (day_of b - day_of a)) = Inr b" by (rule to_b)
    show "addBusinessDays a (num_of_int k) = Inr b \<longleftrightarrow>
        businessDateDifferenceInDays a b = Inr (num_of_int k)"
      unfolding k_eq difference_eq_iff [OF assms] ..
  qed
qed

theorem add_days_difference_inverse_witness:
  "valid_date ''2026-02-28'' \<and> valid_date ''2026-03-01'' \<and>
   addBusinessDays ''2026-02-28'' (num_of_int 1) = Inr ''2026-03-01''"
  using add_days_difference_inverse [OF sample_dates(1,2), of 1]
    difference_eq_iff [OF sample_dates(1,2), of 1] sample_dates by simp

text \<open>
  Where adding days leaves the calendar of business dates: the result is again a business date
  exactly when the day reached lies between 0000-01-01 and 9999-12-31. Outside it the function still
  returns a string, cut from the six-digit year form, and \<open>assertBusinessDate\<close> rejects it.
\<close>

theorem add_days_result_valid_iff:
  assumes "valid_date a" "addBusinessDays a (num_of_int k) = Inr b"
  shows "(assertBusinessDate b = Inr b \<longleftrightarrow> 0 \<le> day_of a + k \<and> day_of a + k \<le> 3652424) \<and>
         (assertBusinessDate b = Inr b \<longrightarrow> day_of b = day_of a + k)"
  using add_days_lands_on [OF assms] by (simp add: valid_date_def)

theorem add_days_result_valid_iff_witness:
  "valid_date ''9999-12-31'' \<and> addBusinessDays ''9999-12-31'' (num_of_int 1) = Inr ''+010000-01'' \<and>
   assertBusinessDate ''+010000-01'' \<noteq> Inr ''+010000-01''"
proof -
  have "real_date 10000 1 1" by (simp add: real_date_def days_in_month_def)
  from civil_of_day_number [OF this]
  have c: "civil_of_day 3652425 = (10000, 1, 1)" by (simp add: day_number_bounds)
  have s: "date_string 10000 1 1 = ''+010000-01-01''"
    by (simp add: date_string_def year_string_def eval_nat_numeral digit_chars)
  have "(day_of ''9999-12-31'' - epoch_day + 1) * ms_per_day div ms_per_day + epoch_day = 3652425"
    by (simp add: sample_dates(7) ms_per_day_def)
  then have "iso_day ((day_of ''9999-12-31'' - epoch_day + 1) * ms_per_day) = ''+010000-01''"
    by (simp add: iso_day_def c s)
  then have add: "addBusinessDays ''9999-12-31'' (num_of_int 1) = Inr ''+010000-01''"
    using addBusinessDays_valid [OF sample_dates(3), of 1]
    by (simp add: sample_dates max_time_def epoch_day_def ms_per_day_def)
  with add_days_result_valid_iff [OF sample_dates(3) add] sample_dates show ?thesis by simp
qed

end
