(* ===== verification/CostingTypes.thy ===== *)
theory CostingTypes imports FundLedger BusinessDate begin

text \<open>
  \<open>costing/fund-period.ts\<close> (the period state machine and its date arithmetic), the row types of
  \<open>costing/costing.types.ts\<close> and the economic identities of \<open>costing/costing-replay.ts\<close>. A timestamp is
  the instant in milliseconds that its ISO string denotes; the currency code is a string.
\<close>

type_synonym ident = string
type_synonym timestamp = int

section \<open>Fund periods\<close>

datatype fund_period_status = OPEN | CLOSING | CLOSED | REOPENED

definition INITIAL_FUND_PERIOD_STATUS :: fund_period_status where
  "INITIAL_FUND_PERIOD_STATUS = OPEN"

fun FUND_PERIOD_EDGES :: "fund_period_status \<Rightarrow> fund_period_status list" where
  "FUND_PERIOD_EDGES OPEN = [CLOSING]"
| "FUND_PERIOD_EDGES CLOSING = [CLOSED]"
| "FUND_PERIOD_EDGES CLOSED = [REOPENED]"
| "FUND_PERIOD_EDGES REOPENED = [CLOSING]"

definition isFrozenFundPeriod :: "fund_period_status \<Rightarrow> bool" where
  "isFrozenFundPeriod status \<longleftrightarrow> status \<in> set [CLOSING, CLOSED]"

datatype 'r transition_decision = Allowed | Refused 'r

definition evaluateFundPeriodTransition ::
  "fund_period_status \<Rightarrow> fund_period_status \<Rightarrow> reason transition_decision" where
  "evaluateFundPeriodTransition from_status to_status =
     (if from_status = to_status then Refused ''PERIOD_ALREADY_IN_STATE''
      else if to_status \<notin> set (FUND_PERIOD_EDGES from_status)
        then Refused ''PERIOD_TRANSITION_NOT_PERMITTED''
      else Allowed)"

text \<open>A range of days, both ends included.\<close>

record date_range =
  startDate :: business_date
  endDate :: business_date

definition periodCovers :: "date_range \<Rightarrow> business_date \<Rightarrow> bool" where
  "periodCovers p d \<longleftrightarrow> startDate p \<le> d \<and> d \<le> endDate p"

definition periodsOverlap :: "date_range \<Rightarrow> date_range \<Rightarrow> bool" where
  "periodsOverlap l r \<longleftrightarrow> startDate l \<le> endDate r \<and> startDate r \<le> endDate l"

section \<open>Rows\<close>

record DriverFundAccount =
  acc_id :: ident
  acc_driverId :: ident
  acc_currencyCode :: string
  acc_createdAt :: timestamp
  acc_updatedAt :: timestamp

record DriverFundEntry =
  e_id :: ident
  e_accountId :: ident
  e_kind :: fund_entry_kind
  e_signedAmount :: int
  e_currencyCode :: string
  e_businessDate :: business_date
  e_tripId :: "ident option"
  e_runId :: "ident option"
  e_legId :: "ident option"
  e_correlationKey :: string
  e_reversalOfId :: "ident option"
  e_note :: "string option"
  e_recordedBy :: string
  e_createdAt :: timestamp

record TripExpense =
  x_id :: ident
  x_tripId :: ident
  x_kind :: trip_expense_kind
  x_categoryCode :: string
  x_signedAmount :: int
  x_currencyCode :: string
  x_businessDate :: business_date
  x_fundedBy :: expense_funding_source
  x_driverFundEntryId :: "ident option"
  x_driverId :: "ident option"
  x_correlationKey :: string
  x_reversalOfId :: "ident option"
  x_evidenceLocator :: "string option"
  x_note :: "string option"
  x_recordedBy :: string
  x_createdAt :: timestamp

record DriverFundPeriod = date_range +
  p_id :: ident
  p_accountId :: ident
  p_status :: fund_period_status
  p_closedAt :: "timestamp option"
  p_closedBy :: "string option"
  p_reopenedAt :: "timestamp option"
  p_reopenedBy :: "string option"
  p_reopenReason :: "string option"
  p_createdAt :: timestamp
  p_updatedAt :: timestamp

record FundPeriodSnapshot =
  s_id :: ident
  s_periodId :: ident
  s_sequence :: nat
  s_openingBalance :: int
  s_periodNet :: int
  s_closingBalance :: int
  s_entryCount :: nat
  s_currencyCode :: string
  s_takenAt :: timestamp
  s_takenBy :: string

definition range_of :: "DriverFundPeriod \<Rightarrow> date_range" where
  "range_of p = date_range.truncate p"

lemma range_of_simps [simp]:
  "startDate (range_of p) = startDate p" "endDate (range_of p) = endDate p"
  by (simp_all add: range_of_def date_range.truncate_def)

section \<open>Economic identity of a command\<close>

record FundEntryIdentity =
  fi_accountId :: ident
  fi_kind :: fund_entry_kind
  fi_signedAmount :: int
  fi_businessDate :: business_date
  fi_tripId :: "ident option"
  fi_runId :: "ident option"
  fi_legId :: "ident option"
  fi_note :: "string option"

record TripExpenseIdentity =
  ti_tripId :: ident
  ti_signedAmount :: int
  ti_businessDate :: business_date
  ti_fundedBy :: expense_funding_source
  ti_categoryCode :: string
  ti_driverId :: "ident option"
  ti_evidenceLocator :: "string option"
  ti_note :: "string option"

text \<open>
  \<open>String.prototype.trim\<close> on the code units a \<open>char\<close> holds: tab to carriage return, space and the
  no-break space.
\<close>

definition is_js_space :: "char \<Rightarrow> bool" where
  "is_js_space c \<longleftrightarrow>
     (let n = (of_char c :: nat) in 9 \<le> n \<and> n \<le> 13 \<or> n = 32 \<or> n = 160)"

definition js_trim :: "string \<Rightarrow> string" where
  "js_trim s = rev (dropWhile is_js_space (rev (dropWhile is_js_space s)))"

definition free_text :: "string option \<Rightarrow> string option" where
  "free_text v =
     (let trimmed = js_trim (case v of None \<Rightarrow> [] | Some s \<Rightarrow> s)
      in if 0 < length trimmed then Some trimmed else None)"

definition fundEntryIdentity ::
  "ident \<Rightarrow> fund_entry_kind \<Rightarrow> int \<Rightarrow> business_date \<Rightarrow> ident option \<Rightarrow> ident option \<Rightarrow> ident option \<Rightarrow>
   string option \<Rightarrow> FundEntryIdentity" where
  "fundEntryIdentity account kind signed date trip run leg note =
     \<lparr>fi_accountId = account, fi_kind = kind, fi_signedAmount = signed, fi_businessDate = date,
      fi_tripId = trip, fi_runId = run, fi_legId = leg, fi_note = free_text note\<rparr>"

definition tripExpenseIdentity ::
  "ident \<Rightarrow> int \<Rightarrow> business_date \<Rightarrow> expense_funding_source \<Rightarrow> string \<Rightarrow> ident option \<Rightarrow> string option \<Rightarrow>
   string option \<Rightarrow> TripExpenseIdentity" where
  "tripExpenseIdentity trip signed date fundedBy category driver evidence note =
     \<lparr>ti_tripId = trip, ti_signedAmount = signed, ti_businessDate = date, ti_fundedBy = fundedBy,
      ti_categoryCode = category, ti_driverId = driver, ti_evidenceLocator = free_text evidence,
      ti_note = free_text note\<rparr>"

definition fundEntryIdentityOf :: "DriverFundEntry \<Rightarrow> FundEntryIdentity" where
  "fundEntryIdentityOf e =
     fundEntryIdentity (e_accountId e) (e_kind e) (e_signedAmount e) (e_businessDate e)
       (e_tripId e) (e_runId e) (e_legId e) (e_note e)"

definition tripExpenseIdentityOf :: "TripExpense \<Rightarrow> TripExpenseIdentity" where
  "tripExpenseIdentityOf x =
     tripExpenseIdentity (x_tripId x) (x_signedAmount x) (x_businessDate x) (x_fundedBy x)
       (x_categoryCode x) (x_driverId x) (x_evidenceLocator x) (x_note x)"

text \<open>
  A fingerprint is the JSON array of the fields in the listed order. Two arrays render to the same
  text exactly when they are equal, so the model keeps the array of values.
\<close>

datatype json = JStr string | JNum int | JNull

definition json_opt :: "string option \<Rightarrow> json" where
  "json_opt v = (case v of None \<Rightarrow> JNull | Some s \<Rightarrow> JStr s)"

fun kind_name :: "fund_entry_kind \<Rightarrow> string" where
  "kind_name ADVANCE = ''ADVANCE''"
| "kind_name RETURN = ''RETURN''"
| "kind_name TRIP_EXPENSE = ''TRIP_EXPENSE''"
| "kind_name ADJUSTMENT = ''ADJUSTMENT''"
| "kind_name REVERSAL = ''REVERSAL''"
| "kind_name REIMBURSEMENT = ''REIMBURSEMENT''"
| "kind_name RUN_EXPENSE = ''RUN_EXPENSE''"

fun funding_name :: "expense_funding_source \<Rightarrow> string" where
  "funding_name DRIVER_FUND = ''DRIVER_FUND''"
| "funding_name COMPANY_DIRECT = ''COMPANY_DIRECT''"

definition fundEntryFingerprint :: "FundEntryIdentity \<Rightarrow> json list" where
  "fundEntryFingerprint i =
     [JStr (fi_accountId i), JStr (kind_name (fi_kind i)), JNum (fi_signedAmount i),
      JStr (fi_businessDate i), json_opt (fi_tripId i), json_opt (fi_runId i),
      json_opt (fi_legId i), json_opt (fi_note i)]"

definition tripExpenseFingerprint :: "TripExpenseIdentity \<Rightarrow> json list" where
  "tripExpenseFingerprint i =
     [JStr (ti_tripId i), JNum (ti_signedAmount i), JStr (ti_businessDate i),
      JStr (funding_name (ti_fundedBy i)), JStr (ti_categoryCode i), json_opt (ti_driverId i),
      json_opt (ti_evidenceLocator i), json_opt (ti_note i)]"

definition isSameFundEntry :: "FundEntryIdentity \<Rightarrow> FundEntryIdentity \<Rightarrow> bool" where
  "isSameFundEntry l r \<longleftrightarrow> fundEntryFingerprint l = fundEntryFingerprint r"

definition isSameTripExpense :: "TripExpenseIdentity \<Rightarrow> TripExpenseIdentity \<Rightarrow> bool" where
  "isSameTripExpense l r \<longleftrightarrow> tripExpenseFingerprint l = tripExpenseFingerprint r"

section \<open>Facts\<close>

lemma json_opt_inject [simp]: "json_opt a = json_opt b \<longleftrightarrow> a = b"
  by (auto simp: json_opt_def split: option.splits)

lemma kind_name_inject [simp]: "kind_name a = kind_name b \<longleftrightarrow> a = b"
  by (cases a; cases b) simp_all

lemma funding_name_inject [simp]: "funding_name a = funding_name b \<longleftrightarrow> a = b"
  by (cases a; cases b) simp_all

lemma isSameFundEntry_iff: "isSameFundEntry l r \<longleftrightarrow> l = r"
  by (cases l; cases r) (auto simp: isSameFundEntry_def fundEntryFingerprint_def)

lemma isSameTripExpense_iff: "isSameTripExpense l r \<longleftrightarrow> l = r"
  by (cases l; cases r) (auto simp: isSameTripExpense_def tripExpenseFingerprint_def)

text \<open>
  Two periods are reported as overlapping exactly when some business day lies in both, for
  periods whose start does not come after their end (which is what \<open>openPeriod\<close> checks).
\<close>

theorem periodsOverlap_iff_common_day:
  assumes "startDate l \<le> endDate l" "startDate r \<le> endDate r"
  shows "periodsOverlap l r \<longleftrightarrow> (\<exists>d. periodCovers l d \<and> periodCovers r d)"
proof
  assume o: "periodsOverlap l r"
  let ?d = "max (startDate l) (startDate r)"
  from o assms have "periodCovers l ?d \<and> periodCovers r ?d"
    by (simp add: periodsOverlap_def periodCovers_def)
  then show "\<exists>d. periodCovers l d \<and> periodCovers r d" ..
next
  assume "\<exists>d. periodCovers l d \<and> periodCovers r d"
  then show "periodsOverlap l r"
    by (auto simp: periodsOverlap_def periodCovers_def)
qed

theorem periodsOverlap_iff_common_day_witness:
  "periodsOverlap \<lparr>startDate = ''2026-02-28'', endDate = ''2026-03-01''\<rparr>
     \<lparr>startDate = ''2026-03-01'', endDate = ''2026-03-01''\<rparr>"
proof -
  let ?l = "\<lparr>startDate = ''2026-02-28'', endDate = ''2026-03-01''\<rparr>"
  let ?r = "\<lparr>startDate = ''2026-03-01'', endDate = ''2026-03-01''\<rparr>"
  have l: "startDate ?l \<le> endDate ?l" and r: "startDate ?r \<le> endDate ?r"
    using sample_dates(4) by simp_all
  have "periodCovers ?l ''2026-03-01'' \<and> periodCovers ?r ''2026-03-01''"
    using sample_dates(4) by (simp add: periodCovers_def)
  with periodsOverlap_iff_common_day [OF l r] show ?thesis by blast
qed

end
