(* ===== verification/WorkforceTypes.thy ===== *)
theory WorkforceTypes imports CostingTypes begin

text \<open>
  \<open>workforce/workforce.types.ts\<close>: payroll periods, runs and payslips. Amounts are stored \<open>bigint\<close>s and
  counts; trip counts and kilometres are \<open>Int\<close> columns and litres are rounded down, hence integers
  throughout. Literals that a fund type already uses get a prefix.
\<close>

datatype payroll_period_status = PAYROLL_OPEN | PAYROLL_CLOSED

datatype payslip_status = DRAFT | APPROVED | PAID | PAYSLIP_REVERSED

datatype payslip_kind = PAYSLIP_ORIGINAL | SUPPLEMENTAL | PAYSLIP_REVERSAL

datatype component_kind = EARNING | DEDUCTION

datatype component_source =
    BASE_SALARY
  | PER_TRIP
  | PER_KM
  | FUEL_SAVING_BONUS
  | WAITING_ALLOWANCE
  | MANUAL_BONUS
  | MANUAL_DEDUCTION

datatype payroll_missing_input =
    FUEL_SAVING_UNAVAILABLE
  | DRIVER_FUND_UNAVAILABLE
  | WAITING_ALLOWANCE_UNAVAILABLE

record PayrollPeriod =
  pp_id :: ident
  pp_label :: string
  pp_startDate :: business_date
  pp_endDate :: business_date
  pp_status :: payroll_period_status
  pp_closedAt :: "timestamp option"
  pp_closedBy :: "string option"
  pp_createdBy :: string
  pp_createdAt :: timestamp
  pp_updatedAt :: timestamp

record PayrollPolicySnapshot =
  baseSalaryVnd :: int
  perTripVnd :: int
  perKmVnd :: int
  fuelSavingBonusVndPerLiter :: int

record PayrollRun =
  pr_id :: ident
  pr_periodId :: ident
  pr_sequence :: int
  pr_policySnapshot :: PayrollPolicySnapshot
  pr_policyVersion :: string
  pr_missingInputs :: "payroll_missing_input list"
  pr_runBy :: string
  pr_runAt :: timestamp

record PayslipComponent =
  pc_id :: ident
  pc_payslipId :: ident
  pc_kind :: component_kind
  pc_source :: component_source
  pc_label :: string
  pc_amount :: int
  pc_quantity :: "int option"
  pc_unitAmount :: "int option"
  pc_recordedBy :: "string option"
  pc_note :: "string option"
  pc_createdAt :: timestamp

record Payslip =
  ps_id :: ident
  ps_runId :: ident
  ps_driverId :: ident
  ps_kind :: payslip_kind
  ps_status :: payslip_status
  ps_grossEarnings :: int
  ps_totalDeductions :: int
  ps_netAmount :: int
  ps_currencyCode :: string
  ps_driverFundBalanceSnapshot :: "int option"
  ps_tripCount :: int
  ps_distanceKm :: int
  ps_correctsId :: "ident option"
  ps_correctionReason :: "string option"
  ps_approvedAt :: "timestamp option"
  ps_approvedBy :: "string option"
  ps_paidAt :: "timestamp option"
  ps_paidBy :: "string option"
  ps_createdAt :: timestamp
  ps_updatedAt :: timestamp

record PayslipDetail =
  pd_payslip :: Payslip
  pd_components :: "PayslipComponent list"

end
