(* ===== verification/WageCredit.thy ===== *)
theory WageCredit imports CashoutAllocation WorkforceTypes "HOL-Library.Multiset" begin

text \<open>
  \<open>driver-settlement/wage-credit.ts\<close>: the wage a driver has been credited with, read off the posted
  payslips and grouped by payroll period. The \<open>Map\<close>s are association lists in insertion order. Dates
  are compared by \<open>localeCompare\<close>, which on strings of the date pattern is the order of the strings.
\<close>

record PostedPayslipFact =
  pf_payslipId :: ident
  pf_periodId :: ident
  pf_periodLabel :: string
  pf_periodStartDate :: business_date
  pf_periodEndDate :: business_date
  pf_runId :: ident
  pf_kind :: payslip_kind
  pf_status :: payslip_status
  pf_netAmount :: int
  pf_currencyCode :: string

definition bearsWageCredit :: "payslip_status \<Rightarrow> bool" where
  "bearsWageCredit status \<longleftrightarrow> status \<noteq> DRAFT"

record WageMonthPayslip =
  wp_payslipId :: ident
  wp_netAmount :: int
  wp_cashedOut :: int
  wp_remaining :: int

record WageMonth =
  wm_periodId :: ident
  wm_periodLabel :: string
  wm_startDate :: business_date
  wm_endDate :: business_date
  wm_credited :: int
  wm_cashedOut :: int
  wm_remaining :: int
  wm_payslips :: "WageMonthPayslip list"

definition map_get :: "('k \<times> int) list \<Rightarrow> 'k \<Rightarrow> int" where
  "map_get m k = (case map_of m k of None \<Rightarrow> 0 | Some v \<Rightarrow> v)"

definition new_month :: "PostedPayslipFact \<Rightarrow> WageMonth" where
  "new_month slip =
     \<lparr>wm_periodId = pf_periodId slip, wm_periodLabel = pf_periodLabel slip,
      wm_startDate = pf_periodStartDate slip, wm_endDate = pf_periodEndDate slip,
      wm_credited = 0, wm_cashedOut = 0, wm_remaining = 0, wm_payslips = []\<rparr>"

definition add_payslip :: "(ident \<times> int) list \<Rightarrow> PostedPayslipFact \<Rightarrow> WageMonth \<Rightarrow> js_error + WageMonth" where
  "add_payslip cashedOut slip current =
     (let out = map_get cashedOut (pf_payslipId slip) in
      rbind (money_add (wm_credited current) (pf_netAmount slip)) (\<lambda>credited.
      rbind (money_add (wm_cashedOut current) out) (\<lambda>cashed.
      rbind (money_add credited (- cashed)) (\<lambda>remaining.
      rbind (money_add (pf_netAmount slip) (- out)) (\<lambda>own.
        Inr (current\<lparr>wm_credited := credited, wm_cashedOut := cashed, wm_remaining := remaining,
          wm_payslips := wm_payslips current @
            [\<lparr>wp_payslipId = pf_payslipId slip, wp_netAmount = pf_netAmount slip,
              wp_cashedOut = out, wp_remaining = own\<rparr>]\<rparr>))))))"

fun group_months ::
  "(ident \<times> int) list \<Rightarrow> PostedPayslipFact list \<Rightarrow> (ident \<times> WageMonth) list \<Rightarrow>
   js_error + (ident \<times> WageMonth) list" where
  "group_months cashedOut [] byPeriod = Inr byPeriod"
| "group_months cashedOut (slip # fs) byPeriod =
     (if \<not> bearsWageCredit (pf_status slip) then group_months cashedOut fs byPeriod
      else
        let current = (case map_of byPeriod (pf_periodId slip) of None \<Rightarrow> new_month slip | Some m \<Rightarrow> m)
        in rbind (add_payslip cashedOut slip current) (\<lambda>m.
             group_months cashedOut fs (AList.update (pf_periodId slip) m byPeriod)))"

definition foldWageMonths :: "PostedPayslipFact list \<Rightarrow> (ident \<times> int) list \<Rightarrow> js_error + WageMonth list" where
  "foldWageMonths facts cashedOut =
     rbind (group_months cashedOut facts []) (\<lambda>byPeriod. Inr (sort_key wm_startDate (map snd byPeriod)))"

definition WAGE_SETTLEMENT_WINDOW_DAYS :: int where
  "WAGE_SETTLEMENT_WINDOW_DAYS = 30"

record UnsettledWageMonth =
  um_periodId :: ident
  um_periodLabel :: string
  um_endDate :: business_date
  um_remaining :: int
  um_ageDays :: jsnum

text \<open>\<open>map\<close> of a function that may throw, and \<open>ageDays > windowDays\<close> on numbers.\<close>

fun rmap :: "('a \<Rightarrow> 'e + 'b) \<Rightarrow> 'a list \<Rightarrow> 'e + 'b list" where
  "rmap f [] = Inr []"
| "rmap f (x # xs) = rbind (f x) (\<lambda>y. rbind (rmap f xs) (\<lambda>ys. Inr (y # ys)))"

definition num_greater :: "jsnum \<Rightarrow> int \<Rightarrow> bool" where
  "num_greater x n = (case x of Fin q \<Rightarrow> of_int n < q | PosInf \<Rightarrow> True | NegInf \<Rightarrow> False | NaN \<Rightarrow> False)"

definition unsettledBeyondWindow ::
  "WageMonth list \<Rightarrow> business_date \<Rightarrow> int \<Rightarrow> js_error + UnsettledWageMonth list" where
  "unsettledBeyondWindow months today windowDays =
     rbind (rmap (\<lambda>m. rbind (businessDateDifferenceInDays (wm_endDate m) today) (\<lambda>age.
              Inr \<lparr>um_periodId = wm_periodId m, um_periodLabel = wm_periodLabel m, um_endDate = wm_endDate m,
                   um_remaining = wm_remaining m, um_ageDays = age\<rparr>))
            (filter (\<lambda>m. 0 < wm_remaining m) months)) (\<lambda>us.
       Inr (filter (\<lambda>u. num_greater (um_ageDays u) windowDays) us))"

section \<open>The months add up\<close>

definition posted_slips :: "PostedPayslipFact list \<Rightarrow> PostedPayslipFact list" where
  "posted_slips facts = filter (\<lambda>f. bearsWageCredit (pf_status f)) facts"

definition slips_of :: "ident \<Rightarrow> PostedPayslipFact list \<Rightarrow> PostedPayslipFact list" where
  "slips_of k fs = filter (\<lambda>f. pf_periodId f = k) fs"

definition payslip_row :: "(ident \<times> int) list \<Rightarrow> PostedPayslipFact \<Rightarrow> WageMonthPayslip" where
  "payslip_row out f =
     \<lparr>wp_payslipId = pf_payslipId f, wp_netAmount = pf_netAmount f,
      wp_cashedOut = map_get out (pf_payslipId f),
      wp_remaining = pf_netAmount f - map_get out (pf_payslipId f)\<rparr>"

text \<open>What a month says when the payslips \<open>fs\<close> of its period have been counted.\<close>

definition month_counts :: "(ident \<times> int) list \<Rightarrow> WageMonth \<Rightarrow> PostedPayslipFact list \<Rightarrow> bool" where
  "month_counts out m fs \<longleftrightarrow>
     fs \<noteq> [] \<and> wm_startDate m = pf_periodStartDate (hd fs) \<and> wm_endDate m = pf_periodEndDate (hd fs) \<and>
     wm_credited m = sum_list (map pf_netAmount fs) \<and>
     wm_cashedOut m = sum_list (map (\<lambda>f. map_get out (pf_payslipId f)) fs) \<and>
     wm_remaining m = wm_credited m - wm_cashedOut m \<and> wm_payslips m = map (payslip_row out) fs"

definition months_ok ::
  "(ident \<times> int) list \<Rightarrow> PostedPayslipFact list \<Rightarrow> (ident \<times> WageMonth) list \<Rightarrow> bool" where
  "months_ok out fs byPeriod \<longleftrightarrow>
     distinct (map fst byPeriod) \<and> fst ` set byPeriod = pf_periodId ` set fs \<and>
     (\<forall>(k, m) \<in> set byPeriod. wm_periodId m = k \<and> month_counts out m (slips_of k fs))"

lemma months_ok_map_of:
  "months_ok out fs byPeriod \<Longrightarrow> map_of byPeriod k = Some m \<Longrightarrow>
   wm_periodId m = k \<and> month_counts out m (slips_of k fs)"
  by (auto simp: months_ok_def dest!: map_of_SomeD)

lemma slips_of_snoc [simp]:
  "slips_of k (fs @ [f]) = slips_of k fs @ (if pf_periodId f = k then [f] else [])"
  by (simp add: slips_of_def)

lemma slips_of_empty_iff: "slips_of k fs = [] \<longleftrightarrow> k \<notin> pf_periodId ` set fs"
  by (auto simp: slips_of_def filter_empty_conv)

lemma add_payslip_counts:
  assumes "add_payslip out f current = Inr m"
    and "wm_periodId current = pf_periodId f"
    and "month_counts out current gs \<or> gs = [] \<and> current = new_month f"
  shows "wm_periodId m = pf_periodId f \<and> month_counts out m (gs @ [f])"
  using assms by (auto simp: add_payslip_def Let_def rbind_Inr_iff money_add_Inr month_counts_def
      payslip_row_def new_month_def)

lemma update_mem:
  "(k, v) \<in> set (AList.update j w xs) \<Longrightarrow> distinct (map fst xs) \<Longrightarrow>
   k = j \<and> v = w \<or> k \<noteq> j \<and> (k, v) \<in> set xs"
  by (metis distinct_update map_of_eq_Some_iff map_of_SomeD fun_upd_apply update_conv' option.inject)

lemma months_ok_update:
  assumes "months_ok out fs byPeriod" "wm_periodId m = pf_periodId f"
    and "month_counts out m (slips_of (pf_periodId f) fs @ [f])"
  shows "months_ok out (fs @ [f]) (AList.update (pf_periodId f) m byPeriod)"
  using assms unfolding months_ok_def
  by (auto simp: dom_update distinct_update dest!: update_mem)

lemma group_months_ok:
  "group_months out facts byPeriod = Inr r \<Longrightarrow> months_ok out fs byPeriod \<Longrightarrow>
   months_ok out (fs @ posted_slips facts) r"
proof (induction facts arbitrary: byPeriod fs)
  case Nil
  then show ?case by (simp add: posted_slips_def)
next
  case (Cons f facts)
  show ?case
  proof (cases "bearsWageCredit (pf_status f)")
    case False
    with Cons show ?thesis by (simp add: posted_slips_def)
  next
    case True
    let ?current = "case map_of byPeriod (pf_periodId f) of None \<Rightarrow> new_month f | Some m \<Rightarrow> m"
    from Cons.prems(1) True obtain m where
      m: "add_payslip out f ?current = Inr m"
      and rest: "group_months out facts (AList.update (pf_periodId f) m byPeriod) = Inr r"
      by (auto simp: rbind_Inr_iff Let_def)
    have "wm_periodId ?current = pf_periodId f \<and>
        (month_counts out ?current (slips_of (pf_periodId f) fs) \<or>
         slips_of (pf_periodId f) fs = [] \<and> ?current = new_month f)"
    proof (cases "map_of byPeriod (pf_periodId f)")
      case None
      then have "pf_periodId f \<notin> fst ` set byPeriod" by (simp add: map_of_eq_None_iff)
      with Cons.prems(2) have "slips_of (pf_periodId f) fs = []"
        by (simp add: months_ok_def slips_of_empty_iff)
      with None show ?thesis by (simp add: new_month_def)
    next
      case (Some c)
      from months_ok_map_of [OF Cons.prems(2) Some] Some show ?thesis by simp
    qed
    with add_payslip_counts [OF m] have "wm_periodId m = pf_periodId f"
      "month_counts out m (slips_of (pf_periodId f) fs @ [f])" by auto
    from Cons.IH [OF rest months_ok_update [OF Cons.prems(2) this]] True show ?thesis
      by (simp add: posted_slips_def)
  qed
qed

lemma group_months_error: "group_months out facts byPeriod = Inl e \<Longrightarrow> e = MoneyError"
proof (induction facts arbitrary: byPeriod)
  case (Cons f facts)
  show ?case
  proof (cases "bearsWageCredit (pf_status f)")
    case True
    let ?current = "case map_of byPeriod (pf_periodId f) of None \<Rightarrow> new_month f | Some m \<Rightarrow> m"
    show ?thesis
      using Cons True
      by (cases "add_payslip out f ?current")
        (auto simp: Let_def add_payslip_def rbind_def dest!: money_add_Inl split: sum.splits)
  qed (use Cons in simp)
qed simp

lemma foldWageMonths_Inr:
  assumes "foldWageMonths facts out = Inr ms"
  obtains byPeriod where "months_ok out (posted_slips facts) byPeriod" "ms = sort_key wm_startDate (map snd byPeriod)"
proof -
  from assms obtain r where r: "group_months out facts [] = Inr r" "ms = sort_key wm_startDate (map snd r)"
    by (auto simp: foldWageMonths_def rbind_Inr_iff)
  have "months_ok out [] []" by (simp add: months_ok_def)
  from group_months_ok [OF r(1) this] have "months_ok out (posted_slips facts) r" by simp
  then show ?thesis using r(2) by (rule that)
qed

lemma months_keys:
  assumes "months_ok out fs byPeriod"
  shows "map wm_periodId (map snd byPeriod) = map fst byPeriod"
  using assms by (force simp: months_ok_def)

lemma foldWageMonths_ok:
  assumes "foldWageMonths facts out = Inr ms"
  shows "sorted (map wm_startDate ms) \<and> distinct (map wm_periodId ms) \<and>
       set (map wm_periodId ms) = pf_periodId ` set (posted_slips facts) \<and>
       list_all (\<lambda>m. month_counts out m (slips_of (wm_periodId m) (posted_slips facts))) ms \<and>
       sum_list (map wm_credited ms) = sum_list (map pf_netAmount (posted_slips facts))"
proof -
  from assms obtain byPeriod where ok: "months_ok out (posted_slips facts) byPeriod"
    and ms: "ms = sort_key wm_startDate (map snd byPeriod)" by (rule foldWageMonths_Inr)
  have perm: "mset ms = mset (map snd byPeriod)" by (simp add: ms)
  have keys: "mset (map wm_periodId ms) = mset (map fst byPeriod)"
    unfolding months_keys [OF ok, symmetric] using perm by (metis mset_map)
  have "distinct (map fst byPeriod)" using ok by (simp add: months_ok_def)
  with keys have d: "distinct (map wm_periodId ms)" using mset_eq_imp_distinct_iff by blast
  from mset_eq_setD [OF keys] have k: "set (map wm_periodId ms) = fst ` set byPeriod" by (simp only: set_map)
  have all: "\<forall>m \<in> set ms. month_counts out m (slips_of (wm_periodId m) (posted_slips facts))"
    using ok unfolding ms months_ok_def by auto
  have "map wm_credited ms =
      map (\<lambda>k. sum_list (map pf_netAmount (slips_of k (posted_slips facts)))) (map wm_periodId ms)"
    using all by (simp add: month_counts_def)
  moreover have "pf_periodId ` set (posted_slips facts) \<subseteq> set (map wm_periodId ms)"
    using ok unfolding k months_ok_def by blast
  ultimately have sum: "sum_list (map wm_credited ms) = sum_list (map pf_netAmount (posted_slips facts))"
    using sum_list_by_key [OF d, of pf_periodId "posted_slips facts" pf_netAmount]
    unfolding slips_of_def by (simp only:)
  have "sorted (map wm_startDate ms)" by (simp add: ms)
  moreover have "set (map wm_periodId ms) = pf_periodId ` set (posted_slips facts)"
    using ok unfolding k months_ok_def by blast
  ultimately show ?thesis using d all sum by (simp only: list_all_iff simp_thms)
qed

text \<open>
  C21. The wage months of a driver add up: one month per payroll period that has a posted payslip, oldest
  first; each lists exactly the posted payslips of its period with what was drawn from each, its
  credit, its drawn part and its remainder are the exact sums, and together the months credit every
  posted payslip once, reversals as negative amounts. The only failure is a \<open>MoneyError\<close>.
\<close>

theorem wage_months_add_up:
  "case foldWageMonths facts out of
     Inl e \<Rightarrow> e = MoneyError
   | Inr ms \<Rightarrow>
       sorted (map wm_startDate ms) \<and> distinct (map wm_periodId ms) \<and>
       set (map wm_periodId ms) = pf_periodId ` set (posted_slips facts) \<and>
       list_all (\<lambda>m. month_counts out m (slips_of (wm_periodId m) (posted_slips facts))) ms \<and>
       sum_list (map wm_credited ms) = sum_list (map pf_netAmount (posted_slips facts))"
proof (cases "foldWageMonths facts out")
  case (Inl e)
  then show ?thesis by (auto simp: foldWageMonths_def rbind_def dest: group_months_error split: sum.splits)
next
  case (Inr ms)
  from foldWageMonths_ok [OF Inr] Inr show ?thesis by simp
qed

lemma num_greater_of_int [simp]: "num_greater (num_of_int i) n \<longleftrightarrow> n < i"
  by (simp add: num_greater_def num_of_int_def)

definition unsettled_row :: "business_date \<Rightarrow> WageMonth \<Rightarrow> UnsettledWageMonth" where
  "unsettled_row today m =
     \<lparr>um_periodId = wm_periodId m, um_periodLabel = wm_periodLabel m, um_endDate = wm_endDate m,
      um_remaining = wm_remaining m, um_ageDays = num_of_int (day_of today - day_of (wm_endDate m))\<rparr>"

text \<open>
  The payroll window warns about exactly the months that still hold wage and whose period ended more
  than the given number of days ago, in the order of the months, with the right age in days.
\<close>

theorem unsettled_months_are_overdue:
  assumes "valid_date today" "\<forall>m \<in> set months. valid_date (wm_endDate m)"
  shows "unsettledBeyondWindow months today windowDays =
    Inr (map (unsettled_row today)
      (filter (\<lambda>m. 0 < wm_remaining m \<and> windowDays < day_of today - day_of (wm_endDate m)) months))"
proof -
  have "rmap (\<lambda>m. rbind (businessDateDifferenceInDays (wm_endDate m) today) (\<lambda>age.
          Inr \<lparr>um_periodId = wm_periodId m, um_periodLabel = wm_periodLabel m, um_endDate = wm_endDate m,
               um_remaining = wm_remaining m, um_ageDays = age\<rparr>)) ms = Inr (map (unsettled_row today) ms)"
    if "\<forall>m \<in> set ms. valid_date (wm_endDate m)" for ms
    using that by (induction ms) (simp_all add: difference_valid [OF _ assms(1)] unsettled_row_def)
  from this [of "filter (\<lambda>m. 0 < wm_remaining m) months"] assms(2) show ?thesis
    by (simp add: unsettledBeyondWindow_def filter_map comp_def unsettled_row_def conj_commute)
qed

definition sample_month :: WageMonth where
  "sample_month = \<lparr>wm_periodId = ''t1'', wm_periodLabel = ''T1'', wm_startDate = ''2026-02-01'',
     wm_endDate = ''2026-03-01'', wm_credited = 9, wm_cashedOut = 4, wm_remaining = 5, wm_payslips = []\<rparr>"

theorem unsettled_months_are_overdue_witness:
  "valid_date ''2026-03-01'' \<and>
   unsettledBeyondWindow [sample_month] ''2026-03-01'' (- 1) = Inr [unsettled_row ''2026-03-01'' sample_month] \<and>
   unsettledBeyondWindow [sample_month] ''2026-03-01'' 0 = Inr []"
  using unsettled_months_are_overdue [of "''2026-03-01''" "[sample_month]"] sample_dates(2)
  by (simp add: sample_month_def)

end
