(* ===== verification/CostingRepository.thy ===== *)
theory CostingRepository imports CostingTypes begin

text \<open>
  \<open>costing/costing.repository.ts\<close>: the abstract store of the costing services as a record of methods
  (the services receive it by constructor injection), its input types, and \<open>costing_ledger\<close>, the
  contract the services rely on, stated over six views of an abstract state.
\<close>

section \<open>Inputs and results\<close>

record PostFundEntryInput =
  pe_accountId :: ident
  pe_kind :: fund_entry_kind
  pe_signedAmount :: int
  pe_businessDate :: business_date
  pe_tripId :: "ident option"
  pe_runId :: "ident option"
  pe_legId :: "ident option"
  pe_reversalOfId :: "ident option"
  pe_note :: "string option"
  pe_recordedBy :: string

record RecordTripExpenseInput =
  px_tripId :: ident
  px_kind :: trip_expense_kind
  px_categoryCode :: string
  px_signedAmount :: int
  px_businessDate :: business_date
  px_fundedBy :: expense_funding_source
  px_driverId :: "ident option"
  px_reversalOfId :: "ident option"
  px_evidenceLocator :: "string option"
  px_note :: "string option"
  px_recordedBy :: string

record FundPeriodWriteGuard =
  g_accountId :: ident
  g_businessDate :: business_date

record CorrelatedPostingInput =
  in_correlationKey :: string
  in_at :: timestamp
  in_entry :: "PostFundEntryInput option"
  in_expense :: "RecordTripExpenseInput option"
  in_periodGuard :: "FundPeriodWriteGuard option"

record CorrelatedPosting =
  cp_entry :: "DriverFundEntry option"
  cp_expense :: "TripExpense option"

record FundPeriodStatusPatch =
  patch_at :: timestamp
  patch_actor :: string
  patch_reopenReason :: "string option"

record FinalizedClosePeriod =
  fc_period :: DriverFundPeriod
  fc_snapshot :: FundPeriodSnapshot

record LedgerRange =
  lr_before :: "business_date option"
  lr_from :: "business_date option"
  lr_to :: "business_date option"

section \<open>The store\<close>

record 's costing_repository =
  ensureAccount :: "ident \<Rightarrow> timestamp \<Rightarrow> ('s, js_error, DriverFundAccount) stateful"
  findAccount :: "ident \<Rightarrow> ('s, js_error, DriverFundAccount option) stateful"
  findAccountByDriver :: "ident \<Rightarrow> ('s, js_error, DriverFundAccount option) stateful"
  post :: "CorrelatedPostingInput \<Rightarrow> ('s, js_error, CorrelatedPosting) stateful"
  findEntry :: "ident \<Rightarrow> ('s, js_error, DriverFundEntry option) stateful"
  findEntryByCorrelation :: "string \<Rightarrow> ('s, js_error, DriverFundEntry option) stateful"
  findReversalOfEntry :: "ident \<Rightarrow> ('s, js_error, DriverFundEntry option) stateful"
  listEntries :: "ident \<Rightarrow> ('s, js_error, DriverFundEntry list) stateful"
  sumSignedAmounts :: "ident \<Rightarrow> LedgerRange option \<Rightarrow> ('s, js_error, int \<times> nat) stateful"
  findExpense :: "ident \<Rightarrow> ('s, js_error, TripExpense option) stateful"
  findExpenseByCorrelation :: "string \<Rightarrow> ('s, js_error, TripExpense option) stateful"
  findReversalOfExpense :: "ident \<Rightarrow> ('s, js_error, TripExpense option) stateful"
  listExpenses :: "ident \<Rightarrow> ('s, js_error, TripExpense list) stateful"
  createPeriod :: "ident \<Rightarrow> date_range \<Rightarrow> timestamp \<Rightarrow> ('s, js_error, DriverFundPeriod) stateful"
  findPeriod :: "ident \<Rightarrow> ('s, js_error, DriverFundPeriod option) stateful"
  listPeriods :: "ident \<Rightarrow> ('s, js_error, DriverFundPeriod list) stateful"
  periodsCovering :: "ident \<Rightarrow> business_date \<Rightarrow> ('s, js_error, DriverFundPeriod list) stateful"
  setPeriodStatus :: "ident \<Rightarrow> fund_period_status \<Rightarrow> fund_period_status \<Rightarrow> FundPeriodStatusPatch \<Rightarrow>
    ('s, js_error, DriverFundPeriod option) stateful"
  finalizeClose :: "ident \<Rightarrow> string \<Rightarrow> timestamp \<Rightarrow> ('s, js_error, FinalizedClosePeriod option) stateful"
  listSnapshots :: "ident \<Rightarrow> ('s, js_error, FundPeriodSnapshot list) stateful"

section \<open>The contract\<close>

text \<open>The rows an accepted posting adds.\<close>

definition entry_row :: "PostFundEntryInput \<Rightarrow> string \<Rightarrow> timestamp \<Rightarrow> ident \<Rightarrow> DriverFundEntry" where
  "entry_row i key tm new_id =
     \<lparr>e_id = new_id, e_accountId = pe_accountId i, e_kind = pe_kind i,
      e_signedAmount = pe_signedAmount i, e_currencyCode = TRANSPORT_CURRENCY,
      e_businessDate = pe_businessDate i, e_tripId = pe_tripId i, e_runId = pe_runId i,
      e_legId = pe_legId i, e_correlationKey = key, e_reversalOfId = pe_reversalOfId i,
      e_note = pe_note i, e_recordedBy = pe_recordedBy i, e_createdAt = tm\<rparr>"

definition expense_row ::
  "RecordTripExpenseInput \<Rightarrow> string \<Rightarrow> timestamp \<Rightarrow> ident \<Rightarrow> ident option \<Rightarrow> TripExpense" where
  "expense_row i key tm new_id entry_id =
     \<lparr>x_id = new_id, x_tripId = px_tripId i, x_kind = px_kind i, x_categoryCode = px_categoryCode i,
      x_signedAmount = px_signedAmount i, x_currencyCode = TRANSPORT_CURRENCY,
      x_businessDate = px_businessDate i, x_fundedBy = px_fundedBy i,
      x_driverFundEntryId = entry_id, x_driverId = px_driverId i, x_correlationKey = key,
      x_reversalOfId = px_reversalOfId i, x_evidenceLocator = px_evidenceLocator i,
      x_note = px_note i, x_recordedBy = px_recordedBy i, x_createdAt = tm\<rparr>"

text \<open>What makes a posting impossible: a frozen period under its guard, or a reused key.\<close>

definition frozen_under :: "DriverFundPeriod list \<Rightarrow> FundPeriodWriteGuard option \<Rightarrow> DriverFundPeriod option" where
  "frozen_under ps g =
     (case g of None \<Rightarrow> None
      | Some g \<Rightarrow> List.find (\<lambda>p. isFrozenFundPeriod (p_status p))
          (filter (\<lambda>p. p_accountId p = g_accountId g \<and> periodCovers (range_of p) (g_businessDate g)) ps))"

definition key_taken :: "DriverFundEntry list \<Rightarrow> TripExpense list \<Rightarrow> CorrelatedPostingInput \<Rightarrow> bool" where
  "key_taken es xs i \<longleftrightarrow>
     in_entry i \<noteq> None \<and> list_ex (\<lambda>e. e_correlationKey e = in_correlationKey i) es \<or>
     in_expense i \<noteq> None \<and> list_ex (\<lambda>x. x_correlationKey x = in_correlationKey i) xs"

definition opt_list :: "'a option \<Rightarrow> 'a list" where
  "opt_list v = (case v of None \<Rightarrow> [] | Some a \<Rightarrow> [a])"

lemma opt_list_simps [simp]: "opt_list None = []" "opt_list (Some a) = [a]"
  by (simp_all add: opt_list_def)

lemma set_opt_list [simp]: "set (opt_list v) = set_option v"
  by (cases v) simp_all

definition posted_rows :: "CorrelatedPostingInput \<Rightarrow> ident \<Rightarrow> ident \<Rightarrow> CorrelatedPosting" where
  "posted_rows i entry_id expense_id =
     \<lparr>cp_entry = map_option (\<lambda>r. entry_row r (in_correlationKey i) (in_at i) entry_id) (in_entry i),
      cp_expense = map_option (\<lambda>r. expense_row r (in_correlationKey i) (in_at i) expense_id
        (map_option (\<lambda>_. entry_id) (in_entry i))) (in_expense i)\<rparr>"

locale costing_ledger =
  fixes R :: "'s costing_repository"
    and accounts_of :: "'s \<Rightarrow> DriverFundAccount list"
    and entries_of :: "'s \<Rightarrow> DriverFundEntry list"
    and expenses_of :: "'s \<Rightarrow> TripExpense list"
    and periods_of :: "'s \<Rightarrow> DriverFundPeriod list"
    and snapshots_of :: "'s \<Rightarrow> FundPeriodSnapshot list"
    and inv :: "'s \<Rightarrow> bool"
  assumes find_entry:
      "findEntry R i s = (Inr (List.find (\<lambda>e. e_id e = i) (entries_of s)), s)"
    and find_entry_key:
      "findEntryByCorrelation R k s = (Inr (List.find (\<lambda>e. e_correlationKey e = k) (entries_of s)), s)"
    and find_entry_reversal:
      "findReversalOfEntry R i s = (Inr (List.find (\<lambda>e. e_reversalOfId e = Some i) (entries_of s)), s)"
    and find_expense:
      "findExpense R i s = (Inr (List.find (\<lambda>x. x_id x = i) (expenses_of s)), s)"
    and find_expense_key:
      "findExpenseByCorrelation R k s =
         (Inr (List.find (\<lambda>x. x_correlationKey x = k) (expenses_of s)), s)"
    and find_expense_reversal:
      "findReversalOfExpense R i s = (Inr (List.find (\<lambda>x. x_reversalOfId x = Some i) (expenses_of s)), s)"
    and find_account_driver:
      "findAccountByDriver R d s = (Inr (List.find (\<lambda>a. acc_driverId a = d) (accounts_of s)), s)"
    and ensure_account:
      "inv s \<Longrightarrow> \<exists>a s'. ensureAccount R d tm s = (Inr a, s') \<and> acc_driverId a = d \<and> inv s' \<and>
         (case List.find (\<lambda>a. acc_driverId a = d) (accounts_of s) of
            Some b \<Rightarrow> a = b \<and> s' = s
          | None \<Rightarrow> accounts_of s' = accounts_of s @ [a] \<and> entries_of s' = entries_of s \<and>
              expenses_of s' = expenses_of s \<and> periods_of s' = periods_of s \<and>
              snapshots_of s' = snapshots_of s)"
    and post_frozen:
      "frozen_under (periods_of s) (in_periodGuard inp) = Some p \<Longrightarrow>
         post R inp s = (Inl (FundPeriodFrozenError (p_id p)), s)"
    and post_key_taken:
      "frozen_under (periods_of s) (in_periodGuard inp) = None \<Longrightarrow>
         key_taken (entries_of s) (expenses_of s) inp \<Longrightarrow>
         post R inp s = (Inl (conflict ''CORRELATION_KEY_REUSED''), s)"
    and post_accepted:
      "inv s \<Longrightarrow> frozen_under (periods_of s) (in_periodGuard inp) = None \<Longrightarrow>
         \<not> key_taken (entries_of s) (expenses_of s) inp \<Longrightarrow>
         \<exists>ei xi s'. post R inp s = (Inr (posted_rows inp ei xi), s') \<and>
           entries_of s' = entries_of s @ opt_list (cp_entry (posted_rows inp ei xi)) \<and>
           expenses_of s' = expenses_of s @ opt_list (cp_expense (posted_rows inp ei xi)) \<and>
           accounts_of s' = accounts_of s \<and> periods_of s' = periods_of s \<and>
           snapshots_of s' = snapshots_of s \<and> inv s'"
begin

lemma post_cases:
  assumes "inv s"
  obtains (frozen) p where "frozen_under (periods_of s) (in_periodGuard inp) = Some p"
      "post R inp s = (Inl (FundPeriodFrozenError (p_id p)), s)"
  | (taken) "frozen_under (periods_of s) (in_periodGuard inp) = None"
      "key_taken (entries_of s) (expenses_of s) inp"
      "post R inp s = (Inl (conflict ''CORRELATION_KEY_REUSED''), s)"
  | (posted) ei xi s' where "frozen_under (periods_of s) (in_periodGuard inp) = None"
      "\<not> key_taken (entries_of s) (expenses_of s) inp"
      "post R inp s = (Inr (posted_rows inp ei xi), s')"
      "entries_of s' = entries_of s @ opt_list (cp_entry (posted_rows inp ei xi))"
      "expenses_of s' = expenses_of s @ opt_list (cp_expense (posted_rows inp ei xi))"
      "accounts_of s' = accounts_of s" "periods_of s' = periods_of s"
      "snapshots_of s' = snapshots_of s" "inv s'"
proof (cases "frozen_under (periods_of s) (in_periodGuard inp)")
  case (Some p)
  from post_frozen [OF this] show ?thesis by (rule frozen [OF Some])
next
  case None
  show ?thesis
  proof (cases "key_taken (entries_of s) (expenses_of s) inp")
    case True
    from post_key_taken [OF None True] show ?thesis by (rule taken [OF None True])
  next
    case False
    from post_accepted [OF assms None False] show ?thesis
      by (elim exE conjE) (rule posted [OF None False])
  qed
qed

end

end
