(* ===== verification/InMemoryCosting.thy ===== *)
theory InMemoryCosting imports CostingRepository "HOL-Library.Product_Lexorder" begin

text \<open>
  \<open>costing/in-memory-costing.repository.ts\<close>: the store that runs when persistence is in memory, method
  by method, and the proof that it provides the contract \<open>costing_ledger\<close>. The two \<open>Map\<close>s are
  association lists in insertion order; the three arrays are lists.
\<close>

record costing_state =
  accounts :: "(ident \<times> DriverFundAccount) list"
  entries :: "DriverFundEntry list"
  expenses :: "TripExpense list"
  periods :: "(ident \<times> DriverFundPeriod) list"
  snapshots :: "FundPeriodSnapshot list"
  next_uuid :: nat

definition empty_costing :: costing_state where
  "empty_costing = \<lparr>accounts = [], entries = [], expenses = [], periods = [], snapshots = [], next_uuid = 0\<rparr>"

definition inRange :: "business_date \<Rightarrow> LedgerRange option \<Rightarrow> bool" where
  "inRange d rng =
     (case rng of None \<Rightarrow> True
      | Some r \<Rightarrow>
          (case lr_before r of Some b \<Rightarrow> d < b | None \<Rightarrow> True) \<and>
          (case lr_from r of Some f \<Rightarrow> \<not> d < f | None \<Rightarrow> True) \<and>
          (case lr_to r of Some t \<Rightarrow> \<not> t < d | None \<Rightarrow> True))"

definition entry_order :: "DriverFundEntry \<Rightarrow> business_date \<times> timestamp \<times> ident" where
  "entry_order e = (e_businessDate e, e_createdAt e, e_id e)"

definition expense_order :: "TripExpense \<Rightarrow> business_date \<times> timestamp \<times> ident" where
  "expense_order x = (x_businessDate x, x_createdAt x, x_id x)"

section \<open>Accounts\<close>

definition mem_ensureAccount :: "ident \<Rightarrow> timestamp \<Rightarrow> (costing_state, js_error, DriverFundAccount) stateful" where
  "mem_ensureAccount driverId tm s =
     (case List.find (\<lambda>a. acc_driverId a = driverId) (map snd (accounts s)) of
        Some existing \<Rightarrow> (Inr existing, s)
      | None \<Rightarrow>
          let account = \<lparr>acc_id = uuid (next_uuid s), acc_driverId = driverId,
                acc_currencyCode = TRANSPORT_CURRENCY, acc_createdAt = tm, acc_updatedAt = tm\<rparr>
          in (Inr account, s\<lparr>accounts := AList.update (acc_id account) account (accounts s),
                next_uuid := Suc (next_uuid s)\<rparr>))"

definition mem_findAccount :: "ident \<Rightarrow> (costing_state, js_error, DriverFundAccount option) stateful" where
  "mem_findAccount i = query (\<lambda>s. map_of (accounts s) i)"

definition mem_findAccountByDriver :: "ident \<Rightarrow> (costing_state, js_error, DriverFundAccount option) stateful" where
  "mem_findAccountByDriver d = query (\<lambda>s. List.find (\<lambda>a. acc_driverId a = d) (map snd (accounts s)))"

section \<open>The two ledgers\<close>

definition mem_periodsCovering ::
  "ident \<Rightarrow> business_date \<Rightarrow> (costing_state, js_error, DriverFundPeriod list) stateful" where
  "mem_periodsCovering accountId d =
     query (\<lambda>s. filter (\<lambda>p. p_accountId p = accountId \<and> periodCovers (range_of p) d) (map snd (periods s)))"

definition mem_post :: "CorrelatedPostingInput \<Rightarrow> (costing_state, js_error, CorrelatedPosting) stateful" where
  "mem_post i s =
     (let frozen = (case in_periodGuard i of
            None \<Rightarrow> None
          | Some g \<Rightarrow>
              (case fst (mem_periodsCovering (g_accountId g) (g_businessDate g) s) of
                 Inr covering \<Rightarrow> List.find (\<lambda>p. isFrozenFundPeriod (p_status p)) covering
               | Inl e \<Rightarrow> None))
      in case frozen of
           Some p \<Rightarrow> (Inl (FundPeriodFrozenError (p_id p)), s)
         | None \<Rightarrow>
             if in_entry i \<noteq> None \<and> list_ex (\<lambda>e. e_correlationKey e = in_correlationKey i) (entries s) \<or>
                in_expense i \<noteq> None \<and> list_ex (\<lambda>x. x_correlationKey x = in_correlationKey i) (expenses s)
             then (Inl (conflict ''CORRELATION_KEY_REUSED''), s)
             else
               let (entry, s1) =
                     (case in_entry i of
                        None \<Rightarrow> (None, s)
                      | Some r \<Rightarrow>
                          let row = entry_row r (in_correlationKey i) (in_at i) (uuid (next_uuid s))
                          in (Some row, s\<lparr>entries := entries s @ [row], next_uuid := Suc (next_uuid s)\<rparr>));
                   (expense, s2) =
                     (case in_expense i of
                        None \<Rightarrow> (None, s1)
                      | Some r \<Rightarrow>
                          let row = expense_row r (in_correlationKey i) (in_at i) (uuid (next_uuid s1))
                                (map_option e_id entry)
                          in (Some row, s1\<lparr>expenses := expenses s1 @ [row], next_uuid := Suc (next_uuid s1)\<rparr>))
               in (Inr \<lparr>cp_entry = entry, cp_expense = expense\<rparr>, s2))"

definition mem_findEntry :: "ident \<Rightarrow> (costing_state, js_error, DriverFundEntry option) stateful" where
  "mem_findEntry i = query (\<lambda>s. List.find (\<lambda>e. e_id e = i) (entries s))"

definition mem_findEntryByCorrelation :: "string \<Rightarrow> (costing_state, js_error, DriverFundEntry option) stateful" where
  "mem_findEntryByCorrelation k = query (\<lambda>s. List.find (\<lambda>e. e_correlationKey e = k) (entries s))"

definition mem_findReversalOfEntry :: "ident \<Rightarrow> (costing_state, js_error, DriverFundEntry option) stateful" where
  "mem_findReversalOfEntry i = query (\<lambda>s. List.find (\<lambda>e. e_reversalOfId e = Some i) (entries s))"

definition mem_listEntries :: "ident \<Rightarrow> (costing_state, js_error, DriverFundEntry list) stateful" where
  "mem_listEntries a = query (\<lambda>s. sort_key entry_order (filter (\<lambda>e. e_accountId e = a) (entries s)))"

definition matching :: "costing_state \<Rightarrow> ident \<Rightarrow> LedgerRange option \<Rightarrow> DriverFundEntry list" where
  "matching s a rng = filter (\<lambda>e. e_accountId e = a \<and> inRange (e_businessDate e) rng) (entries s)"

definition mem_sumSignedAmounts ::
  "ident \<Rightarrow> LedgerRange option \<Rightarrow> (costing_state, js_error, int \<times> nat) stateful" where
  "mem_sumSignedAmounts a rng =
     query (\<lambda>s. (js_sum (map e_signedAmount (matching s a rng)), length (matching s a rng)))"

definition mem_findExpense :: "ident \<Rightarrow> (costing_state, js_error, TripExpense option) stateful" where
  "mem_findExpense i = query (\<lambda>s. List.find (\<lambda>x. x_id x = i) (expenses s))"

definition mem_findExpenseByCorrelation :: "string \<Rightarrow> (costing_state, js_error, TripExpense option) stateful" where
  "mem_findExpenseByCorrelation k = query (\<lambda>s. List.find (\<lambda>x. x_correlationKey x = k) (expenses s))"

definition mem_findReversalOfExpense :: "ident \<Rightarrow> (costing_state, js_error, TripExpense option) stateful" where
  "mem_findReversalOfExpense i = query (\<lambda>s. List.find (\<lambda>x. x_reversalOfId x = Some i) (expenses s))"

definition mem_listExpenses :: "ident \<Rightarrow> (costing_state, js_error, TripExpense list) stateful" where
  "mem_listExpenses t = query (\<lambda>s. sort_key expense_order (filter (\<lambda>x. x_tripId x = t) (expenses s)))"

section \<open>Periods and snapshots\<close>

definition mem_createPeriod ::
  "ident \<Rightarrow> date_range \<Rightarrow> timestamp \<Rightarrow> (costing_state, js_error, DriverFundPeriod) stateful" where
  "mem_createPeriod accountId r tm s =
     (case List.find (\<lambda>p. p_accountId p = accountId \<and> periodsOverlap (range_of p) r) (map snd (periods s)) of
        Some clashing \<Rightarrow> (Inl PlainError, s)
      | None \<Rightarrow>
          let period = \<lparr>startDate = startDate r, endDate = endDate r, p_id = uuid (next_uuid s),
                p_accountId = accountId, p_status = INITIAL_FUND_PERIOD_STATUS, p_closedAt = None,
                p_closedBy = None, p_reopenedAt = None, p_reopenedBy = None, p_reopenReason = None,
                p_createdAt = tm, p_updatedAt = tm\<rparr>
          in (Inr period, s\<lparr>periods := AList.update (p_id period) period (periods s),
                next_uuid := Suc (next_uuid s)\<rparr>))"

definition mem_findPeriod :: "ident \<Rightarrow> (costing_state, js_error, DriverFundPeriod option) stateful" where
  "mem_findPeriod i = query (\<lambda>s. map_of (periods s) i)"

definition mem_listPeriods :: "ident \<Rightarrow> (costing_state, js_error, DriverFundPeriod list) stateful" where
  "mem_listPeriods a =
     query (\<lambda>s. sort_key startDate (filter (\<lambda>p. p_accountId p = a) (map snd (periods s))))"

definition mem_setPeriodStatus ::
  "ident \<Rightarrow> fund_period_status \<Rightarrow> fund_period_status \<Rightarrow> FundPeriodStatusPatch \<Rightarrow>
   (costing_state, js_error, DriverFundPeriod option) stateful" where
  "mem_setPeriodStatus i from_status to_status patch s =
     (case map_of (periods s) i of
        None \<Rightarrow> (Inr None, s)
      | Some current \<Rightarrow>
          if p_status current \<noteq> from_status then (Inr None, s)
          else
            let next0 = current\<lparr>p_status := to_status, p_updatedAt := patch_at patch\<rparr>;
                next1 = (if to_status = CLOSED
                  then next0\<lparr>p_closedAt := Some (patch_at patch), p_closedBy := Some (patch_actor patch)\<rparr>
                  else next0);
                next2 = (if to_status = REOPENED
                  then next1\<lparr>p_reopenedAt := Some (patch_at patch), p_reopenedBy := Some (patch_actor patch),
                    p_reopenReason := patch_reopenReason patch\<rparr>
                  else next1)
            in (Inr (Some next2), s\<lparr>periods := AList.update i next2 (periods s)\<rparr>))"

definition mem_appendSnapshot ::
  "ident \<Rightarrow> int \<Rightarrow> int \<Rightarrow> int \<Rightarrow> nat \<Rightarrow> string \<Rightarrow> timestamp \<Rightarrow>
   (costing_state, js_error, FundPeriodSnapshot) stateful" where
  "mem_appendSnapshot periodId opening net closing count takenBy tm s =
     (let snapshot = \<lparr>s_id = uuid (next_uuid s), s_periodId = periodId,
            s_sequence = length (filter (\<lambda>r. s_periodId r = periodId) (snapshots s)) + 1,
            s_openingBalance = opening, s_periodNet = net, s_closingBalance = closing,
            s_entryCount = count, s_currencyCode = TRANSPORT_CURRENCY, s_takenAt = tm,
            s_takenBy = takenBy\<rparr>
      in (Inr snapshot, s\<lparr>snapshots := snapshots s @ [snapshot], next_uuid := Suc (next_uuid s)\<rparr>))"

definition before_range :: "business_date \<Rightarrow> LedgerRange" where
  "before_range d = \<lparr>lr_before = Some d, lr_from = None, lr_to = None\<rparr>"

definition within_range :: "date_range \<Rightarrow> LedgerRange" where
  "within_range r = \<lparr>lr_before = None, lr_from = Some (startDate r), lr_to = Some (endDate r)\<rparr>"

definition mem_finalizeClose ::
  "ident \<Rightarrow> string \<Rightarrow> timestamp \<Rightarrow> (costing_state, js_error, FinalizedClosePeriod option) stateful" where
  "mem_finalizeClose periodId takenBy tm s =
     (case map_of (periods s) periodId of
        None \<Rightarrow> (Inr None, s)
      | Some period \<Rightarrow>
          if p_status period \<noteq> CLOSING then (Inr None, s)
          else
            bnd (mem_sumSignedAmounts (p_accountId period) (Some (before_range (startDate period)))) (\<lambda>opening.
            bnd (mem_sumSignedAmounts (p_accountId period) (Some (within_range (range_of period)))) (\<lambda>inPeriod.
            bnd (mem_appendSnapshot (p_id period) (fst opening) (fst inPeriod)
                  (js_add (fst opening) (fst inPeriod)) (snd inPeriod) takenBy tm) (\<lambda>snapshot.
            bnd (mem_setPeriodStatus (p_id period) CLOSING CLOSED
                  \<lparr>patch_at = tm, patch_actor = takenBy, patch_reopenReason = None\<rparr>) (\<lambda>closed.
              case closed of
                None \<Rightarrow> throw PlainError
              | Some p \<Rightarrow> ret (Some \<lparr>fc_period = p, fc_snapshot = snapshot\<rparr>))))) s)"

definition mem_listSnapshots :: "ident \<Rightarrow> (costing_state, js_error, FundPeriodSnapshot list) stateful" where
  "mem_listSnapshots i =
     query (\<lambda>s. sort_key s_sequence (filter (\<lambda>r. s_periodId r = i) (snapshots s)))"

definition InMemoryCostingRepository :: "costing_state costing_repository" where
  "InMemoryCostingRepository =
     \<lparr>ensureAccount = mem_ensureAccount, findAccount = mem_findAccount,
      findAccountByDriver = mem_findAccountByDriver, post = mem_post, findEntry = mem_findEntry,
      findEntryByCorrelation = mem_findEntryByCorrelation,
      findReversalOfEntry = mem_findReversalOfEntry, listEntries = mem_listEntries,
      sumSignedAmounts = mem_sumSignedAmounts, findExpense = mem_findExpense,
      findExpenseByCorrelation = mem_findExpenseByCorrelation,
      findReversalOfExpense = mem_findReversalOfExpense, listExpenses = mem_listExpenses,
      createPeriod = mem_createPeriod, findPeriod = mem_findPeriod, listPeriods = mem_listPeriods,
      periodsCovering = mem_periodsCovering, setPeriodStatus = mem_setPeriodStatus,
      finalizeClose = mem_finalizeClose, listSnapshots = mem_listSnapshots\<rparr>"

lemmas repo_simps = InMemoryCostingRepository_def costing_repository.simps

lemma repo_sel:
  "ensureAccount InMemoryCostingRepository = mem_ensureAccount"
  "findAccount InMemoryCostingRepository = mem_findAccount"
  "findAccountByDriver InMemoryCostingRepository = mem_findAccountByDriver"
  "post InMemoryCostingRepository = mem_post"
  "findEntry InMemoryCostingRepository = mem_findEntry"
  "findEntryByCorrelation InMemoryCostingRepository = mem_findEntryByCorrelation"
  "findReversalOfEntry InMemoryCostingRepository = mem_findReversalOfEntry"
  "listEntries InMemoryCostingRepository = mem_listEntries"
  "sumSignedAmounts InMemoryCostingRepository = mem_sumSignedAmounts"
  "findExpense InMemoryCostingRepository = mem_findExpense"
  "findExpenseByCorrelation InMemoryCostingRepository = mem_findExpenseByCorrelation"
  "findReversalOfExpense InMemoryCostingRepository = mem_findReversalOfExpense"
  "listExpenses InMemoryCostingRepository = mem_listExpenses"
  "createPeriod InMemoryCostingRepository = mem_createPeriod"
  "findPeriod InMemoryCostingRepository = mem_findPeriod"
  "listPeriods InMemoryCostingRepository = mem_listPeriods"
  "periodsCovering InMemoryCostingRepository = mem_periodsCovering"
  "setPeriodStatus InMemoryCostingRepository = mem_setPeriodStatus"
  "finalizeClose InMemoryCostingRepository = mem_finalizeClose"
  "listSnapshots InMemoryCostingRepository = mem_listSnapshots"
  by (simp_all add: repo_simps)

section \<open>The store invariant\<close>

definition issued :: "nat \<Rightarrow> ident set" where
  "issued n = uuid ` {..<n}"

lemma issued_mono: "m \<le> n \<Longrightarrow> issued m \<subseteq> issued n"
  by (auto simp: issued_def)

lemma issued_Suc: "x \<in> issued n \<Longrightarrow> x \<in> issued (Suc n)"
  using issued_mono [of n "Suc n"] by auto

lemma uuid_issued [simp]: "uuid m \<in> issued n \<longleftrightarrow> m < n"
  by (auto simp: issued_def)

definition wf_accounts :: "costing_state \<Rightarrow> bool" where
  "wf_accounts s \<longleftrightarrow>
     (\<forall>(k, a) \<in> set (accounts s). k = acc_id a) \<and> distinct (map fst (accounts s)) \<and>
     fst ` set (accounts s) \<subseteq> issued (next_uuid s) \<and>
     distinct (map acc_driverId (map snd (accounts s)))"

definition wf_entries :: "costing_state \<Rightarrow> bool" where
  "wf_entries s \<longleftrightarrow>
     distinct (map e_id (entries s)) \<and> e_id ` set (entries s) \<subseteq> issued (next_uuid s) \<and>
     distinct (map e_correlationKey (entries s))"

definition wf_expenses :: "costing_state \<Rightarrow> bool" where
  "wf_expenses s \<longleftrightarrow>
     distinct (map x_id (expenses s)) \<and> x_id ` set (expenses s) \<subseteq> issued (next_uuid s) \<and>
     distinct (map x_correlationKey (expenses s))"

definition wf_periods :: "costing_state \<Rightarrow> bool" where
  "wf_periods s \<longleftrightarrow>
     (\<forall>(k, p) \<in> set (periods s). k = p_id p) \<and> distinct (map fst (periods s)) \<and>
     fst ` set (periods s) \<subseteq> issued (next_uuid s) \<and>
     (\<forall>p \<in> snd ` set (periods s). \<forall>q \<in> snd ` set (periods s).
        p_id p \<noteq> p_id q \<longrightarrow> p_accountId p = p_accountId q \<longrightarrow>
        \<not> periodsOverlap (range_of p) (range_of q))"

definition wf_store :: "costing_state \<Rightarrow> bool" where
  "wf_store s \<longleftrightarrow> wf_accounts s \<and> wf_entries s \<and> wf_expenses s \<and> wf_periods s"

lemmas wf_store_defs = wf_store_def wf_accounts_def wf_entries_def wf_expenses_def wf_periods_def

lemma wf_store_empty: "wf_store empty_costing"
  by (simp add: wf_store_defs empty_costing_def)

lemma AList_update_fresh: "k \<notin> fst ` set xs \<Longrightarrow> AList.update k v xs = xs @ [(k, v)]"
  by (induction xs) auto

lemma fresh_key:
  "fst ` set xs \<subseteq> issued n \<Longrightarrow> AList.update (uuid n) v xs = xs @ [(uuid n, v)]"
  by (rule AList_update_fresh) (auto simp: issued_def)

lemma not_issued: "A \<subseteq> issued n \<Longrightarrow> uuid n \<notin> A"
  by (auto simp: issued_def)

lemma issued_step: "A \<subseteq> issued n \<Longrightarrow> A \<subseteq> issued (Suc n)"
  using issued_mono [of n "Suc n"] by auto

lemma find_None_image: "List.find (\<lambda>x. f x = v) xs = None \<longleftrightarrow> v \<notin> f ` set xs"
  by (auto simp: find_None_iff_ball)

lemma mem_ensureAccount_new:
  assumes "wf_store s" "List.find (\<lambda>a. acc_driverId a = d) (map snd (accounts s)) = None"
  shows "mem_ensureAccount d tm s =
    (Inr \<lparr>acc_id = uuid (next_uuid s), acc_driverId = d, acc_currencyCode = TRANSPORT_CURRENCY,
       acc_createdAt = tm, acc_updatedAt = tm\<rparr>,
     s\<lparr>accounts := accounts s @ [(uuid (next_uuid s),
         \<lparr>acc_id = uuid (next_uuid s), acc_driverId = d, acc_currencyCode = TRANSPORT_CURRENCY,
          acc_createdAt = tm, acc_updatedAt = tm\<rparr>)],
       next_uuid := Suc (next_uuid s)\<rparr>)"
  using assms fresh_key [of "accounts s" "next_uuid s"]
  by (simp add: mem_ensureAccount_def wf_store_def wf_accounts_def Let_def)

lemma wf_store_ensureAccount: "wf_store s \<Longrightarrow> wf_store (snd (mem_ensureAccount d tm s))"
proof (cases "List.find (\<lambda>a. acc_driverId a = d) (map snd (accounts s))")
  case None
  assume wf: "wf_store s"
  from None have "d \<notin> (\<lambda>x. acc_driverId (snd x)) ` set (accounts s)"
    unfolding find_None_image by (simp add: image_image)
  with wf show ?thesis
    unfolding mem_ensureAccount_new [OF wf None]
    by (auto simp: wf_store_defs not_issued issued_step comp_def)
next
  case (Some a)
  assume "wf_store s"
  with Some show ?thesis by (simp add: mem_ensureAccount_def)
qed

text \<open>What \<open>post\<close> does, with the branches named as in the contract.\<close>

lemma mem_post_frozen:
  "frozen_under (map snd (periods s)) (in_periodGuard i) = Some p \<Longrightarrow>
     mem_post i s = (Inl (FundPeriodFrozenError (p_id p)), s)"
  by (auto simp: mem_post_def frozen_under_def mem_periodsCovering_def query_def Let_def
      split: option.splits)

lemma mem_post_taken:
  assumes "frozen_under (map snd (periods s)) (in_periodGuard i) = None"
    and "key_taken (entries s) (expenses s) i"
  shows "mem_post i s = (Inl (conflict ''CORRELATION_KEY_REUSED''), s)"
proof -
  have "(case in_periodGuard i of None \<Rightarrow> None
      | Some g \<Rightarrow> (case fst (mem_periodsCovering (g_accountId g) (g_businessDate g) s) of
          Inr covering \<Rightarrow> List.find (\<lambda>p. isFrozenFundPeriod (p_status p)) covering
        | Inl e \<Rightarrow> None)) = None"
    using assms(1) by (auto simp: frozen_under_def mem_periodsCovering_def query_def split: option.splits)
  with assms(2) show ?thesis
    unfolding mem_post_def Let_def key_taken_def by simp
qed

definition post_state :: "CorrelatedPostingInput \<Rightarrow> costing_state \<Rightarrow> ident \<Rightarrow> ident \<Rightarrow> nat \<Rightarrow> costing_state" where
  "post_state i s ei xi n =
     s\<lparr>entries := entries s @ opt_list (cp_entry (posted_rows i ei xi)),
       expenses := expenses s @ opt_list (cp_expense (posted_rows i ei xi)), next_uuid := n\<rparr>"

lemma entry_row_id [simp]: "e_id (entry_row r k t i) = i"
  "e_correlationKey (entry_row r k t i) = k"
  by (simp_all add: entry_row_def)

lemma expense_row_id [simp]: "x_id (expense_row r k t i e) = i"
  "x_correlationKey (expense_row r k t i e) = k"
  by (simp_all add: expense_row_def)

lemma mem_post_accepted:
  assumes "frozen_under (map snd (periods s)) (in_periodGuard i) = None"
    and "\<not> key_taken (entries s) (expenses s) i"
  shows "\<exists>ei xi n. mem_post i s = (Inr (posted_rows i (uuid ei) (uuid xi)), post_state i s (uuid ei) (uuid xi) n) \<and>
    next_uuid s \<le> n \<and> ei \<ge> next_uuid s \<and> xi \<ge> next_uuid s \<and>
    (in_entry i \<noteq> None \<longrightarrow> ei < n) \<and> (in_expense i \<noteq> None \<longrightarrow> xi < n)"
proof -
  have f: "(case in_periodGuard i of None \<Rightarrow> None
      | Some g \<Rightarrow> (case fst (mem_periodsCovering (g_accountId g) (g_businessDate g) s) of
          Inr covering \<Rightarrow> List.find (\<lambda>p. isFrozenFundPeriod (p_status p)) covering
        | Inl e \<Rightarrow> None)) = None"
    using assms(1) by (auto simp: frozen_under_def mem_periodsCovering_def query_def split: option.splits)
  let ?n = "next_uuid s"
  let ?xi = "if in_entry i = None then ?n else Suc ?n"
  let ?m = "if in_expense i = None then ?xi else Suc ?xi"
  have "mem_post i s = (Inr (posted_rows i (uuid ?n) (uuid ?xi)), post_state i s (uuid ?n) (uuid ?xi) ?m)"
    using assms(2) f
    by (cases "in_entry i"; cases "in_expense i")
      (auto simp: mem_post_def Let_def key_taken_def posted_rows_def post_state_def)
  then show ?thesis by (intro exI [of _ ?n] exI [of _ ?xi] exI [of _ ?m]) auto
qed

lemma wf_store_post_state:
  assumes wf: "wf_store s" and nk: "\<not> key_taken (entries s) (expenses s) i"
    and n: "next_uuid s \<le> n" "next_uuid s \<le> ei" "next_uuid s \<le> xi"
      "in_entry i \<noteq> None \<Longrightarrow> ei < n" "in_expense i \<noteq> None \<Longrightarrow> xi < n"
  shows "wf_store (post_state i s (uuid ei) (uuid xi) n)"
proof -
  have up: "A \<subseteq> issued (next_uuid s) \<Longrightarrow> A \<subseteq> issued n" for A
    using issued_mono [OF n(1)] by blast
  have new: "A \<subseteq> issued (next_uuid s) \<Longrightarrow> uuid ei \<notin> A" "A \<subseteq> issued (next_uuid s) \<Longrightarrow> uuid xi \<notin> A" for A
    using n(2,3) by (auto simp: issued_def)
  have "wf_entries (post_state i s (uuid ei) (uuid xi) n)"
    using wf nk n(4) up new
    by (cases "in_entry i")
      (auto simp: wf_store_def wf_entries_def post_state_def posted_rows_def key_taken_def list_ex_iff)
  moreover have "wf_expenses (post_state i s (uuid ei) (uuid xi) n)"
    using wf nk n(5) up new
    by (cases "in_expense i")
      (auto simp: wf_store_def wf_expenses_def post_state_def posted_rows_def key_taken_def list_ex_iff)
  moreover have "wf_accounts (post_state i s (uuid ei) (uuid xi) n)"
    "wf_periods (post_state i s (uuid ei) (uuid xi) n)"
    using wf up by (simp_all add: wf_store_def wf_accounts_def wf_periods_def post_state_def)
  ultimately show ?thesis by (simp add: wf_store_def)
qed

lemma wf_store_post: "wf_store s \<Longrightarrow> wf_store (snd (mem_post i s))"
proof (cases "frozen_under (map snd (periods s)) (in_periodGuard i)")
  case (Some p)
  assume "wf_store s"
  with mem_post_frozen [OF Some] show ?thesis by simp
next
  case None
  assume wf: "wf_store s"
  show ?thesis
  proof (cases "key_taken (entries s) (expenses s) i")
    case True
    with wf mem_post_taken [OF None True] show ?thesis by simp
  next
    case False
    from mem_post_accepted [OF None False] wf_store_post_state [OF wf False] show ?thesis by fastforce
  qed
qed

interpretation mem: costing_ledger InMemoryCostingRepository "\<lambda>s. map snd (accounts s)" entries expenses
  "\<lambda>s. map snd (periods s)" snapshots wf_store
proof (unfold_locales, goal_cases)
  case (8 s d tm)
  then show ?case
  proof (cases "List.find (\<lambda>a. acc_driverId a = d) (map snd (accounts s))")
    case None
    with 8 wf_store_ensureAccount [OF 8, of d tm] show ?thesis
      by (simp add: repo_simps mem_ensureAccount_new)
  next
    case (Some a)
    with 8 find_SomeD [OF Some] show ?thesis by (simp add: repo_simps mem_ensureAccount_def)
  qed
next
  case (11 s inp)
  from mem_post_accepted [OF 11(2,3)] wf_store_post [OF 11(1), of inp] show ?case
    by (fastforce simp: repo_simps post_state_def)
qed (simp_all add: repo_simps mem_findEntry_def mem_findEntryByCorrelation_def
    mem_findReversalOfEntry_def mem_findExpense_def mem_findExpenseByCorrelation_def
    mem_findReversalOfExpense_def mem_findAccountByDriver_def query_def
    mem_post_frozen mem_post_taken)

end
