(* ===== verification/TripLifecycle.thy ===== *)
theory TripLifecycle imports CostingTypes begin

text \<open>
  \<open>trips/trip-lifecycle.ts\<close>: the states of a trip and the one function that decides a transition.
  Cancelling is an edge of the graph that this function never takes: it belongs to its own path.
\<close>

datatype trip_status = PLANNED | IN_TRANSIT | DELIVERED | RECONCILED | CANCELLED

datatype trip_kind = OWN_DIRECT | EXTERNAL_CARRIER | PARTNER_REFERRED_INTERNAL_RUN

definition INITIAL_TRIP_STATUS :: trip_status where
  "INITIAL_TRIP_STATUS = PLANNED"

definition isTerminalTripStatus :: "trip_status \<Rightarrow> bool" where
  "isTerminalTripStatus status \<longleftrightarrow> status \<in> set [RECONCILED, CANCELLED]"

definition isInternallyOperated :: "trip_kind \<Rightarrow> bool" where
  "isInternallyOperated kind \<longleftrightarrow> kind \<noteq> EXTERNAL_CARRIER"

fun TRIP_EDGES :: "trip_status \<Rightarrow> trip_status list" where
  "TRIP_EDGES PLANNED = [IN_TRANSIT, CANCELLED]"
| "TRIP_EDGES IN_TRANSIT = [DELIVERED, CANCELLED]"
| "TRIP_EDGES DELIVERED = [RECONCILED, CANCELLED]"
| "TRIP_EDGES RECONCILED = []"
| "TRIP_EDGES CANCELLED = []"

record TripTransitionContext =
  tc_kind :: trip_kind
  tc_hasVehicle :: bool
  tc_hasDriver :: bool
  tc_hasCarrierPartner :: bool

datatype trip_denial =
    TRIP_ALREADY_TERMINAL
  | TRIP_ALREADY_IN_STATE
  | TRANSITION_NOT_PERMITTED
  | TRIP_RESOURCES_MISSING
  | TRIP_CARRIER_MISSING
  | TRIP_CANCEL_REQUIRES_DEDICATED_PATH

definition evaluateTripTransition ::
  "trip_status \<Rightarrow> trip_status \<Rightarrow> TripTransitionContext \<Rightarrow> trip_denial transition_decision" where
  "evaluateTripTransition from_status to_status context =
     (if isTerminalTripStatus from_status then Refused TRIP_ALREADY_TERMINAL
      else if from_status = to_status then Refused TRIP_ALREADY_IN_STATE
      else if to_status = CANCELLED then Refused TRIP_CANCEL_REQUIRES_DEDICATED_PATH
      else if to_status \<notin> set (TRIP_EDGES from_status) then Refused TRANSITION_NOT_PERMITTED
      else if to_status = IN_TRANSIT then
        (if isInternallyOperated (tc_kind context) then
           (if \<not> tc_hasVehicle context \<or> \<not> tc_hasDriver context
            then Refused TRIP_RESOURCES_MISSING else Allowed)
         else if \<not> tc_hasCarrierPartner context then Refused TRIP_CARRIER_MISSING
         else Allowed)
      else Allowed)"

text \<open>
  The machine a trip runs under: transitions through the function above, and cancelling, which the
  dedicated path takes from any state that is not terminal.
\<close>

inductive trip_step :: "trip_status \<Rightarrow> trip_status \<Rightarrow> bool" where
  move: "evaluateTripTransition s t context = Allowed \<Longrightarrow> trip_step s t"
| cancel: "\<not> isTerminalTripStatus s \<Longrightarrow> trip_step s CANCELLED"

inductive_simps trip_step_simps: "trip_step s t"

definition trip_progress :: "trip_status \<Rightarrow> nat" where
  "trip_progress s =
     (case s of PLANNED \<Rightarrow> 0 | IN_TRANSIT \<Rightarrow> 1 | DELIVERED \<Rightarrow> 2 | RECONCILED \<Rightarrow> 3 | CANCELLED \<Rightarrow> 3)"

lemma evaluate_Allowed_iff:
  "evaluateTripTransition s t context = Allowed \<longleftrightarrow>
     s = PLANNED \<and> t = IN_TRANSIT \<and>
       (if tc_kind context = EXTERNAL_CARRIER then tc_hasCarrierPartner context
        else tc_hasVehicle context \<and> tc_hasDriver context) \<or>
     s = IN_TRANSIT \<and> t = DELIVERED \<or> s = DELIVERED \<and> t = RECONCILED"
  by (cases s; cases t)
    (auto simp: evaluateTripTransition_def isTerminalTripStatus_def isInternallyOperated_def)

lemma trip_step_iff:
  "trip_step s t \<longleftrightarrow>
     (s, t) \<in> {(PLANNED, IN_TRANSIT), (IN_TRANSIT, DELIVERED), (DELIVERED, RECONCILED),
       (PLANNED, CANCELLED), (IN_TRANSIT, CANCELLED), (DELIVERED, CANCELLED)}"
proof -
  have "\<exists>context :: TripTransitionContext. tc_kind context = EXTERNAL_CARRIER \<and> tc_hasCarrierPartner context"
    by (rule exI [of _ "\<lparr>tc_kind = EXTERNAL_CARRIER, tc_hasVehicle = False, tc_hasDriver = False,
      tc_hasCarrierPartner = True\<rparr>"]) simp
  then show ?thesis
    by (cases s; cases t) (auto simp: trip_step_simps evaluate_Allowed_iff isTerminalTripStatus_def)
qed

text \<open>
  The trip machine is the graph of the source: a step is exactly an edge of the table, every
  step makes progress, so a trip takes at most three steps and never returns to a state it left,
  and the states without a step are exactly the terminal ones.
\<close>

theorem trip_steps_are_table_edges:
  "(trip_step s t \<longleftrightarrow> t \<in> set (TRIP_EDGES s)) \<and>
   (trip_step s t \<longrightarrow> trip_progress s < trip_progress t) \<and>
   ((\<nexists>u. trip_step s u) \<longleftrightarrow> isTerminalTripStatus s) \<and>
   ((trip_step ^^ n) s t \<longrightarrow> n \<le> 3)"
proof (intro conjI impI)
  show e: "trip_step s t \<longleftrightarrow> t \<in> set (TRIP_EDGES s)" for s t
    by (cases s; cases t) (simp_all add: trip_step_iff)
  show p: "trip_step s t \<Longrightarrow> trip_progress s < trip_progress t" for s t
    by (auto simp: trip_step_iff trip_progress_def)
  show "(\<nexists>u. trip_step s u) \<longleftrightarrow> isTerminalTripStatus s"
    by (cases s) (auto simp: e isTerminalTripStatus_def)
  have "(trip_step ^^ n) s t \<Longrightarrow> trip_progress s + n \<le> trip_progress t"
  proof (induction n arbitrary: t)
    case (Suc n)
    then obtain u where "(trip_step ^^ n) s u" "trip_step u t" by auto
    with Suc.IH p show ?case by fastforce
  qed simp
  moreover have "trip_progress t \<le> 3" by (cases t) (simp_all add: trip_progress_def)
  ultimately show "(trip_step ^^ n) s t \<Longrightarrow> n \<le> 3" by linarith
qed

theorem trip_steps_are_table_edges_witness:
  "trip_step PLANNED IN_TRANSIT \<and> (trip_step ^^ 1) PLANNED IN_TRANSIT \<and> (1::nat) \<le> 3"
proof -
  have "trip_step PLANNED IN_TRANSIT"
    using trip_steps_are_table_edges [of PLANNED IN_TRANSIT 0] by simp
  then show ?thesis using trip_steps_are_table_edges [of PLANNED IN_TRANSIT 1] by (simp add: eq_OO)
qed

text \<open>
  Nothing sets off without its means: a trip gets into transit only from the planned state, with
  vehicle and driver when the company runs it and with the carrier named when it does not; and the
  general transition never produces a cancelled trip.
\<close>

theorem departure_needs_resources:
  "(evaluateTripTransition s IN_TRANSIT context = Allowed \<longleftrightarrow>
     s = PLANNED \<and>
       (if isInternallyOperated (tc_kind context) then tc_hasVehicle context \<and> tc_hasDriver context
        else tc_hasCarrierPartner context)) \<and>
   evaluateTripTransition s CANCELLED context \<noteq> Allowed"
  by (auto simp: evaluate_Allowed_iff isInternallyOperated_def)

end
