(* ===== verification/CostingService.thy ===== *)
theory CostingService imports InMemoryCosting TripLifecycle begin

text \<open>
  \<open>costing/costing-guards.ts\<close>, \<open>costing/costing-policy.ts\<close> (the category list) and
  \<open>costing/costing.service.ts\<close>: the driver fund and trip cost commands, over any store \<open>R\<close>. A method
  runs its awaits in order against one state; the identifiers, the keys generated for callers that
  send none and the audit log are part of that state. Telemetry is an optional collaborator that
  only observes and is left out; so are the \<open>before\<close> and \<open>after\<close> images of audit rows.
\<close>

section \<open>What the services read\<close>

record TripFacts =
  tf_id :: ident
  tf_code :: string
  tf_kind :: trip_kind
  tf_status :: trip_status

record DriverFacts =
  df_id :: ident
  df_fullName :: string

record TransportCoreFacts =
  findTrip :: "ident \<Rightarrow> TripFacts option"
  findDriver :: "ident \<Rightarrow> DriverFacts option"
  findDriverByAuthUserId :: "ident \<Rightarrow> DriverFacts option"
  wasDriverEverAssignedToTrip :: "ident \<Rightarrow> ident \<Rightarrow> bool"

text \<open>The injected collaborators: facts, policy, clock, and the runtime's date formatter.\<close>

record costing_env =
  core :: TransportCoreFacts
  expenseCategories :: "string list"
  timeZone :: string
  clock :: timestamp
  intl :: "string \<Rightarrow> (int \<Rightarrow> date_parts) option"

record audit_row =
  au_actor :: string
  au_action :: string
  au_entityType :: string
  au_entityId :: "ident option"

record 's costing_world =
  w_store :: 's
  w_audit :: "audit_row list"
  w_keys :: nat

type_synonym ('s, 'a) service = "('s costing_world, js_error, 'a) stateful"

definition on_store :: "('s, js_error, 'a) stateful \<Rightarrow> ('s, 'a) service" where
  "on_store m w = (case m (w_store w) of (r, s') \<Rightarrow> (r, w\<lparr>w_store := s'\<rparr>))"

definition audit_append :: "string \<Rightarrow> string \<Rightarrow> string \<Rightarrow> ident option \<Rightarrow> ('s, unit) service" where
  "audit_append actor action entityType entityId w =
     (Inr (), w\<lparr>w_audit := w_audit w @ [\<lparr>au_actor = actor, au_action = action,
        au_entityType = entityType, au_entityId = entityId\<rparr>]\<rparr>)"

definition newCorrelationKey :: "('s, string) service" where
  "newCorrelationKey w = (Inr (uuid (w_keys w)), w\<lparr>w_keys := Suc (w_keys w)\<rparr>)"

section \<open>Guards\<close>

definition requireTripFacts :: "TransportCoreFacts \<Rightarrow> ident \<Rightarrow> js_error + TripFacts" where
  "requireTripFacts c tripId =
     (case findTrip c tripId of None \<Rightarrow> Inl (notFound ''TRIP_NOT_FOUND'') | Some t \<Rightarrow> Inr t)"

definition requireDriverFacts :: "TransportCoreFacts \<Rightarrow> ident \<Rightarrow> js_error + DriverFacts" where
  "requireDriverFacts c driverId =
     (case findDriver c driverId of None \<Rightarrow> Inl (notFound ''DRIVER_NOT_FOUND'') | Some d \<Rightarrow> Inr d)"

definition resolveCostingBusinessDate ::
  "(string \<Rightarrow> (int \<Rightarrow> date_parts) option) \<Rightarrow> string option \<Rightarrow> timestamp \<Rightarrow> string \<Rightarrow> js_error + business_date" where
  "resolveCostingBusinessDate fmt provided now tz =
     (case provided of
        None \<Rightarrow> toBusinessDate fmt (Some now) tz
      | Some d \<Rightarrow>
          (case assertBusinessDate d of
             Inl BusinessDateError \<Rightarrow> Inl (invalid ''BUSINESS_DATE_INVALID'')
           | r \<Rightarrow> r))"

definition requireNonNegativeAmount :: "jsnum \<Rightarrow> js_error + int" where
  "requireNonNegativeAmount x =
     (case nonNegativeMoney x of
        Inl MoneyError \<Rightarrow> Inl (invalid ''MONEY_INVALID'')
      | Inl e \<Rightarrow> Inl e
      | Inr m \<Rightarrow> Inr (amount m))"

definition mapLedgerError :: "js_error + int \<Rightarrow> js_error + int" where
  "mapLedgerError r =
     (case r of
        Inl LedgerSignError \<Rightarrow> Inl (invalid ''FUND_AMOUNT_INVALID'')
      | Inl MoneyError \<Rightarrow> Inl (invalid ''MONEY_INVALID'')
      | _ \<Rightarrow> r)"

definition amount_of :: "js_error + Money \<Rightarrow> js_error + int" where
  "amount_of r = rbind r (\<lambda>m. Inr (amount m))"

definition requireMagnitude :: "fund_entry_kind \<Rightarrow> jsnum \<Rightarrow> js_error + int" where
  "requireMagnitude kind x = mapLedgerError (amount_of (signedAmountFor kind x))"

definition requireLedgerSign :: "fund_entry_kind \<Rightarrow> jsnum \<Rightarrow> js_error + int" where
  "requireLedgerSign kind x = mapLedgerError (amount_of (assertLedgerSign kind x))"

definition requireCategory :: "string list \<Rightarrow> string \<Rightarrow> js_error + unit" where
  "requireCategory allowed categoryCode =
     (if 0 < length allowed \<and> categoryCode \<notin> set allowed
      then Inl (invalid ''EXPENSE_CATEGORY_UNKNOWN'') else Inr ())"

definition expenseCatalogue :: "costing_env \<Rightarrow> string list \<times> bool" where
  "expenseCatalogue env = (expenseCategories env, length (expenseCategories env) = 0)"

text \<open>JavaScript truthiness of an optional string: the empty string counts as absent.\<close>

definition truthy :: "string option \<Rightarrow> bool" where
  "truthy v = (case v of None \<Rightarrow> False | Some s \<Rightarrow> s \<noteq> [])"

definition requireDriverIdForFund :: "ident option \<Rightarrow> js_error + ident" where
  "requireDriverIdForFund driverId =
     (case driverId of
        Some d \<Rightarrow> if d = [] then Inl (invalid ''FUND_ACCOUNT_NOT_FOUND'') else Inr d
      | None \<Rightarrow> Inl (invalid ''FUND_ACCOUNT_NOT_FOUND''))"

definition guardTripAcceptsExpense :: "TripFacts \<Rightarrow> expense_funding_source \<Rightarrow> js_error + unit" where
  "guardTripAcceptsExpense trip fundedBy =
     (if tf_status trip = RECONCILED then Inl (denied ''EXPENSE_TRIP_RECONCILED'')
      else if tf_status trip = CANCELLED then Inl (denied ''EXPENSE_TRIP_CANCELLED'')
      else if tf_kind trip = EXTERNAL_CARRIER \<and> fundedBy = DRIVER_FUND
        then Inl (denied ''EXPENSE_TRIP_OUTSOURCED'')
      else Inr ())"

definition requireDriverAssignedToTrip :: "TransportCoreFacts \<Rightarrow> TripFacts \<Rightarrow> ident \<Rightarrow> js_error + unit" where
  "requireDriverAssignedToTrip c trip driverId =
     (if wasDriverEverAssignedToTrip c (tf_id trip) driverId then Inr ()
      else Inl (denied ''EXPENSE_DRIVER_NOT_ASSIGNED''))"

section \<open>The guarded write\<close>

datatype frozen_period_gate = GATE_POST_ENTRY | GATE_TRIP_EXPENSE | GATE_REVERSAL

fun FROZEN_PERIOD_REASONS :: "frozen_period_gate \<Rightarrow> reason" where
  "FROZEN_PERIOD_REASONS GATE_POST_ENTRY = ''FUND_ENTRY_PERIOD_FROZEN''"
| "FROZEN_PERIOD_REASONS GATE_TRIP_EXPENSE = ''EXPENSE_PERIOD_FROZEN''"
| "FROZEN_PERIOD_REASONS GATE_REVERSAL = ''REVERSAL_PERIOD_FROZEN''"

definition postGuarded ::
  "'s costing_repository \<Rightarrow> frozen_period_gate \<Rightarrow> CorrelatedPostingInput \<Rightarrow> ('s, CorrelatedPosting) service" where
  "postGuarded R gate i w =
     (case on_store (post R i) w of
        (Inl (FundPeriodFrozenError p), w') \<Rightarrow> (Inl (denied (FROZEN_PERIOD_REASONS gate)), w')
      | (r, w') \<Rightarrow> (r, w'))"

definition denyCorrelationReuse :: js_error where
  "denyCorrelationReuse = conflict ''CORRELATION_KEY_REUSED''"

definition assertSameEntry :: "DriverFundEntry \<Rightarrow> FundEntryIdentity \<Rightarrow> js_error + unit" where
  "assertSameEntry existing incoming =
     (if isSameFundEntry (fundEntryIdentityOf existing) incoming then Inr ()
      else Inl denyCorrelationReuse)"

definition assertSameExpense ::
  "TripExpense \<Rightarrow> TripExpenseIdentity \<Rightarrow> DriverFundEntry option \<Rightarrow> DriverFundAccount option \<Rightarrow> js_error + unit" where
  "assertSameExpense existing incoming existingLeg account =
     (if \<not> isSameTripExpense (tripExpenseIdentityOf existing) incoming then Inl denyCorrelationReuse
      else if map_option acc_id account \<noteq> map_option e_accountId existingLeg
        then Inl denyCorrelationReuse
      else Inr ())"

section \<open>Fund movements\<close>

record FundMovement =
  fm_driverId :: ident
  fm_businessDate :: "string option"
  fm_tripId :: "ident option"
  fm_note :: "string option"
  fm_correlationKey :: "string option"

definition correlation_key :: "string option \<Rightarrow> ('s, string) service" where
  "correlation_key provided =
     (case provided of Some k \<Rightarrow> ret k | None \<Rightarrow> newCorrelationKey)"

definition movement_input ::
  "fund_entry_kind \<Rightarrow> int \<Rightarrow> ident \<Rightarrow> business_date \<Rightarrow> FundMovement \<Rightarrow> string \<Rightarrow> timestamp \<Rightarrow> string \<Rightarrow>
   CorrelatedPostingInput" where
  "movement_input kind signed accountId d input key now actor =
     \<lparr>in_correlationKey = key, in_at = now,
      in_entry = Some \<lparr>pe_accountId = accountId, pe_kind = kind, pe_signedAmount = signed,
        pe_businessDate = d, pe_tripId = fm_tripId input, pe_runId = None, pe_legId = None,
        pe_reversalOfId = None, pe_note = fm_note input, pe_recordedBy = actor\<rparr>,
      in_expense = None,
      in_periodGuard = Some \<lparr>g_accountId = accountId, g_businessDate = d\<rparr>\<rparr>"

text \<open>The checks before the first write, and the rest: account, replay of the same event, or posting.\<close>

definition movement_checks :: "costing_env \<Rightarrow> FundMovement \<Rightarrow> js_error + business_date" where
  "movement_checks env input =
     rbind (resolveCostingBusinessDate (intl env) (fm_businessDate input) (clock env) (timeZone env)) (\<lambda>d.
     rbind (requireDriverFacts (core env) (fm_driverId input)) (\<lambda>_.
     rbind (if truthy (fm_tripId input)
            then rbind (requireTripFacts (core env) (the (fm_tripId input))) (\<lambda>_. Inr ()) else Inr ()) (\<lambda>_.
       Inr d)))"

definition commit_movement ::
  "'s costing_repository \<Rightarrow> costing_env \<Rightarrow> fund_entry_kind \<Rightarrow> FundMovement \<Rightarrow> int \<Rightarrow> business_date \<Rightarrow> string \<Rightarrow>
   DriverFundAccount \<Rightarrow> string \<Rightarrow> ('s, DriverFundEntry \<times> bool) service" where
  "commit_movement R env kind input signed d actor account key =
     bnd (on_store (findEntryByCorrelation R key)) (\<lambda>replay.
       case replay of
         Some existing \<Rightarrow>
           bnd (lift (assertSameEntry existing (fundEntryIdentity (acc_id account) kind signed d
                  (fm_tripId input) None None (fm_note input)))) (\<lambda>_.
             ret (existing, True))
       | None \<Rightarrow>
           bnd (postGuarded R GATE_POST_ENTRY
                  (movement_input kind signed (acc_id account) d input key (clock env) actor)) (\<lambda>posted.
             case cp_entry posted of
               None \<Rightarrow> throw PlainError
             | Some entry \<Rightarrow>
                 bnd (audit_append actor ''transport.costing.driver_fund.post''
                        ''TransportDriverFundEntry'' (Some (e_id entry))) (\<lambda>_.
                   ret (entry, False))))"

definition postEntryDetailed ::
  "'s costing_repository \<Rightarrow> costing_env \<Rightarrow> fund_entry_kind \<Rightarrow> FundMovement \<Rightarrow> int \<Rightarrow> string \<Rightarrow>
   ('s, DriverFundEntry \<times> bool) service" where
  "postEntryDetailed R env kind input signed actor =
     bnd (lift (movement_checks env input)) (\<lambda>d.
     bnd (on_store (ensureAccount R (fm_driverId input) (clock env))) (\<lambda>account.
     bnd (correlation_key (fm_correlationKey input)) (\<lambda>key.
       commit_movement R env kind input signed d actor account key)))"

definition postEntryOnly ::
  "'s costing_repository \<Rightarrow> costing_env \<Rightarrow> fund_entry_kind \<Rightarrow> FundMovement \<Rightarrow> int \<Rightarrow> string \<Rightarrow>
   ('s, DriverFundEntry) service" where
  "postEntryOnly R env kind input signed actor =
     bnd (postEntryDetailed R env kind input signed actor) (\<lambda>r. ret (fst r))"

definition postMovement ::
  "'s costing_repository \<Rightarrow> costing_env \<Rightarrow> fund_entry_kind \<Rightarrow> FundMovement \<Rightarrow> jsnum \<Rightarrow> string \<Rightarrow>
   ('s, DriverFundEntry) service" where
  "postMovement R env kind input magnitude actor =
     bnd (lift (requireMagnitude kind magnitude)) (\<lambda>signed.
       postEntryOnly R env kind input signed actor)"

definition postAdvance where
  "postAdvance R env input magnitude actor = postMovement R env ADVANCE input magnitude actor"

definition postReturn where
  "postReturn R env input magnitude actor = postMovement R env RETURN input magnitude actor"

definition postAdjustment ::
  "'s costing_repository \<Rightarrow> costing_env \<Rightarrow> FundMovement \<Rightarrow> jsnum \<Rightarrow> string \<Rightarrow> ('s, DriverFundEntry) service" where
  "postAdjustment R env input signed actor =
     bnd (lift (requireLedgerSign ADJUSTMENT signed)) (\<lambda>v.
       postEntryOnly R env ADJUSTMENT input v actor)"

definition postReimbursement ::
  "'s costing_repository \<Rightarrow> costing_env \<Rightarrow> FundMovement \<Rightarrow> jsnum \<Rightarrow> string \<Rightarrow>
   ('s, DriverFundEntry \<times> bool) service" where
  "postReimbursement R env input magnitude actor =
     bnd (lift (requireMagnitude REIMBURSEMENT magnitude)) (\<lambda>signed.
       postEntryDetailed R env REIMBURSEMENT input signed actor)"

section \<open>Trip expenses\<close>

record RecordTripExpenseCommand =
  c_tripId :: ident
  c_categoryCode :: string
  c_amount :: jsnum
  c_fundedBy :: expense_funding_source
  c_driverId :: "ident option"
  c_businessDate :: "string option"
  c_evidenceLocator :: "string option"
  c_note :: "string option"
  c_correlationKey :: "string option"

text \<open>The posting of one expense: the cost row, and for a fund-paid one the fund entry of the same key.\<close>

definition trip_expense_input ::
  "RecordTripExpenseCommand \<Rightarrow> DriverFundAccount option \<Rightarrow> ident option \<Rightarrow> business_date \<Rightarrow> string \<Rightarrow>
   int \<Rightarrow> int \<Rightarrow> timestamp \<Rightarrow> string \<Rightarrow> CorrelatedPostingInput" where
  "trip_expense_input command account driverId d key fundAmount costAmount now actor =
     \<lparr>in_correlationKey = key, in_at = now,
      in_entry = map_option (\<lambda>a. \<lparr>pe_accountId = acc_id a, pe_kind = TRIP_EXPENSE,
        pe_signedAmount = fundAmount, pe_businessDate = d, pe_tripId = Some (c_tripId command),
        pe_runId = None, pe_legId = None, pe_reversalOfId = None, pe_note = c_note command,
        pe_recordedBy = actor\<rparr>) account,
      in_expense = Some \<lparr>px_tripId = c_tripId command, px_kind = EXPENSE,
        px_categoryCode = c_categoryCode command, px_signedAmount = costAmount, px_businessDate = d,
        px_fundedBy = c_fundedBy command, px_driverId = driverId, px_reversalOfId = None,
        px_evidenceLocator = c_evidenceLocator command, px_note = c_note command,
        px_recordedBy = actor\<rparr>,
      in_periodGuard = map_option (\<lambda>a. \<lparr>g_accountId = acc_id a, g_businessDate = d\<rparr>) account\<rparr>"

text \<open>The part before the write: which fund, if any, pays; its driver must have driven the trip.\<close>

definition expense_account ::
  "'s costing_repository \<Rightarrow> costing_env \<Rightarrow> RecordTripExpenseCommand \<Rightarrow> TripFacts \<Rightarrow>
   ('s, ident option \<times> DriverFundAccount option) service" where
  "expense_account R env command trip =
     (if c_fundedBy command = DRIVER_FUND then
        bnd (lift (requireDriverIdForFund (c_driverId command))) (\<lambda>driverId.
        bnd (lift (requireDriverFacts (core env) driverId)) (\<lambda>_.
        bnd (lift (requireDriverAssignedToTrip (core env) trip driverId)) (\<lambda>_.
        bnd (on_store (ensureAccount R driverId (clock env))) (\<lambda>account.
          ret (Some driverId, Some account)))))
      else ret (None, None))"

text \<open>The part after it: replay of the same command, or the guarded posting.\<close>

definition commit_expense ::
  "'s costing_repository \<Rightarrow> costing_env \<Rightarrow> RecordTripExpenseCommand \<Rightarrow> business_date \<Rightarrow> int \<Rightarrow>
   ident option \<Rightarrow> DriverFundAccount option \<Rightarrow> string \<Rightarrow> ('s, CorrelatedPosting) service" where
  "commit_expense R env command d magnitude driverId account actor =
     bnd (correlation_key (c_correlationKey command)) (\<lambda>key.
     bnd (lift (amount_of (assertExpenseSign EXPENSE (num_of_int magnitude)))) (\<lambda>costAmount.
     bnd (on_store (findExpenseByCorrelation R key)) (\<lambda>replay.
       case replay of
         Some existing \<Rightarrow>
           bnd (on_store (findEntryByCorrelation R key)) (\<lambda>replayLeg.
           bnd (lift (assertSameExpense existing
                  (tripExpenseIdentity (c_tripId command) costAmount d (c_fundedBy command)
                     (c_categoryCode command) driverId (c_evidenceLocator command) (c_note command))
                  replayLeg account)) (\<lambda>_.
             ret \<lparr>cp_entry = replayLeg, cp_expense = Some existing\<rparr>))
       | None \<Rightarrow>
           bnd (if account = None then ret 0
                else lift (amount_of (signedAmountFor TRIP_EXPENSE (num_of_int magnitude)))) (\<lambda>fundAmount.
           bnd (postGuarded R GATE_TRIP_EXPENSE
                  (trip_expense_input command account driverId d key fundAmount costAmount (clock env) actor))
             (\<lambda>posted.
           bnd (audit_append actor ''transport.costing.expense.record'' ''TransportTripExpense''
                  (map_option x_id (cp_expense posted))) (\<lambda>_.
             ret posted))))))"

definition recordTripExpense ::
  "'s costing_repository \<Rightarrow> costing_env \<Rightarrow> RecordTripExpenseCommand \<Rightarrow> string \<Rightarrow> ('s, CorrelatedPosting) service" where
  "recordTripExpense R env command actor =
     bnd (lift (resolveCostingBusinessDate (intl env) (c_businessDate command) (clock env) (timeZone env))) (\<lambda>d.
     bnd (lift (requireTripFacts (core env) (c_tripId command))) (\<lambda>trip.
     bnd (lift (requireCategory (expenseCategories env) (c_categoryCode command))) (\<lambda>_.
     bnd (lift (requireNonNegativeAmount (c_amount command))) (\<lambda>magnitude.
     bnd (lift (guardTripAcceptsExpense trip (c_fundedBy command))) (\<lambda>_.
     bnd (expense_account R env command trip) (\<lambda>(driverId, account).
       commit_expense R env command d magnitude driverId account actor))))))"

definition requireSelfDriver :: "TransportCoreFacts \<Rightarrow> ident \<Rightarrow> js_error + DriverFacts" where
  "requireSelfDriver c authUserId =
     (case findDriverByAuthUserId c authUserId of
        None \<Rightarrow> Inl (denied ''SELF_EXPENSE_SCOPE_NO_DRIVER_BINDING'')
      | Some driver \<Rightarrow> Inr driver)"

definition assertSelfTripExpenseAllowed :: "costing_env \<Rightarrow> ident \<Rightarrow> ident \<Rightarrow> js_error + unit" where
  "assertSelfTripExpenseAllowed env authUserId tripId =
     rbind (requireSelfDriver (core env) authUserId) (\<lambda>driver.
     rbind (requireTripFacts (core env) tripId) (\<lambda>trip.
       requireDriverAssignedToTrip (core env) trip (df_id driver)))"

definition recordSelfTripExpense ::
  "'s costing_repository \<Rightarrow> costing_env \<Rightarrow> ident \<Rightarrow> RecordTripExpenseCommand \<Rightarrow> string \<Rightarrow>
   ('s, CorrelatedPosting) service" where
  "recordSelfTripExpense R env authUserId input actor =
     bnd (lift (requireSelfDriver (core env) authUserId)) (\<lambda>driver.
       recordTripExpense R env
         (input\<lparr>c_driverId := Some (df_id driver), c_fundedBy := DRIVER_FUND\<rparr>) actor)"

section \<open>Reversal\<close>

definition denyReversal :: "reason \<Rightarrow> js_error" where
  "denyReversal r =
     (if r = ''REVERSAL_ALREADY_REVERSED'' then conflict ''ENTRY_ALREADY_REVERSED'' else denied r)"

definition reversal_input ::
  "DriverFundEntry option \<Rightarrow> TripExpense option \<Rightarrow> int \<Rightarrow> int \<Rightarrow> string \<Rightarrow> string \<Rightarrow> timestamp \<Rightarrow> string \<Rightarrow>
   CorrelatedPostingInput" where
  "reversal_input entry expense entryAmount expenseAmount key reasonText now actor =
     \<lparr>in_correlationKey = key @ '':reversal'', in_at = now,
      in_entry = map_option (\<lambda>e. \<lparr>pe_accountId = e_accountId e, pe_kind = REVERSAL,
        pe_signedAmount = entryAmount, pe_businessDate = e_businessDate e, pe_tripId = e_tripId e,
        pe_runId = e_runId e, pe_legId = e_legId e, pe_reversalOfId = Some (e_id e),
        pe_note = Some reasonText, pe_recordedBy = actor\<rparr>) entry,
      in_expense = map_option (\<lambda>x. \<lparr>px_tripId = x_tripId x, px_kind = EXPENSE_REVERSAL,
        px_categoryCode = x_categoryCode x, px_signedAmount = expenseAmount,
        px_businessDate = x_businessDate x, px_fundedBy = x_fundedBy x, px_driverId = x_driverId x,
        px_reversalOfId = Some (x_id x), px_evidenceLocator = None, px_note = Some reasonText,
        px_recordedBy = actor\<rparr>) expense,
      in_periodGuard = map_option (\<lambda>e. \<lparr>g_accountId = e_accountId e, g_businessDate = e_businessDate e\<rparr>) entry\<rparr>"

definition find_reversal ::
  "'s costing_repository \<Rightarrow> DriverFundEntry option \<Rightarrow> TripExpense option \<Rightarrow> ('s, bool) service" where
  "find_reversal R entry expense =
     bnd (case entry of None \<Rightarrow> ret None | Some e \<Rightarrow> on_store (findReversalOfEntry R (e_id e))) (\<lambda>re.
       if re \<noteq> None then ret True
       else bnd (case expense of None \<Rightarrow> ret None | Some x \<Rightarrow> on_store (findReversalOfExpense R (x_id x))) (\<lambda>rx.
         ret (rx \<noteq> None)))"

definition commit_reversal ::
  "'s costing_repository \<Rightarrow> costing_env \<Rightarrow> DriverFundEntry option \<Rightarrow> TripExpense option \<Rightarrow> string \<Rightarrow>
   string \<Rightarrow> string \<Rightarrow> ('s, CorrelatedPosting) service" where
  "commit_reversal R env entry expense key reasonText actor =
     bnd (case entry of None \<Rightarrow> ret 0
          | Some e \<Rightarrow> lift (amount_of (assertLedgerSign REVERSAL (num_of_int (- e_signedAmount e))))) (\<lambda>ea.
     bnd (case expense of None \<Rightarrow> ret 0
          | Some x \<Rightarrow> lift (amount_of (assertExpenseSign EXPENSE_REVERSAL (num_of_int (- x_signedAmount x))))) (\<lambda>xa.
     bnd (postGuarded R GATE_REVERSAL
            (reversal_input entry expense ea xa key reasonText (clock env) actor)) (\<lambda>posted.
     bnd (audit_append actor ''transport.costing.reversal'' ''TransportCostingCorrelation'' (Some key)) (\<lambda>_.
       ret posted))))"

definition reverseCorrelation ::
  "'s costing_repository \<Rightarrow> costing_env \<Rightarrow> string \<Rightarrow> string \<Rightarrow> string \<Rightarrow> ('s, CorrelatedPosting) service" where
  "reverseCorrelation R env key reasonText actor =
     bnd (on_store (findEntryByCorrelation R key)) (\<lambda>entry.
     bnd (on_store (findExpenseByCorrelation R key)) (\<lambda>expense.
       if entry = None \<and> expense = None then throw (notFound ''FUND_ENTRY_NOT_FOUND'')
       else if map_option e_kind entry = Some REVERSAL \<or> map_option x_kind expense = Some EXPENSE_REVERSAL
         then throw (denyReversal ''REVERSAL_OF_REVERSAL_DENIED'')
       else
         bnd (find_reversal R entry expense) (\<lambda>already.
           if already then throw (denyReversal ''REVERSAL_ALREADY_REVERSED'')
           else
             commit_reversal R env entry expense key reasonText actor)))"

definition reverseExpense ::
  "'s costing_repository \<Rightarrow> costing_env \<Rightarrow> ident \<Rightarrow> string \<Rightarrow> string \<Rightarrow> ('s, CorrelatedPosting) service" where
  "reverseExpense R env expenseId reasonText actor =
     bnd (on_store (findExpense R expenseId)) (\<lambda>expense.
       case expense of
         None \<Rightarrow> throw (notFound ''TRIP_EXPENSE_NOT_FOUND'')
       | Some x \<Rightarrow> reverseCorrelation R env (x_correlationKey x) reasonText actor)"

definition reverseFundEntry ::
  "'s costing_repository \<Rightarrow> costing_env \<Rightarrow> ident \<Rightarrow> string \<Rightarrow> string \<Rightarrow> ('s, CorrelatedPosting) service" where
  "reverseFundEntry R env entryId reasonText actor =
     bnd (on_store (findEntry R entryId)) (\<lambda>entry.
       case entry of
         None \<Rightarrow> throw (notFound ''FUND_ENTRY_NOT_FOUND'')
       | Some e \<Rightarrow> reverseCorrelation R env (e_correlationKey e) reasonText actor)"

end
