(* ===== verification/CostingReadService.thy ===== *)
theory CostingReadService imports CostingService begin

text \<open>\<open>costing/costing-read.service.ts\<close>: statements and breakdowns. Every method leaves the store alone.\<close>

record DriverFundStatement =
  st_account :: "DriverFundAccount option"
  st_driverId :: ident
  st_balance :: int
  st_balanceStance :: fund_balance_stance
  st_currencyCode :: string
  st_entries :: "DriverFundEntry list"

record TripCostBreakdown =
  bd_tripId :: ident
  bd_currencyCode :: string
  bd_directCost :: int
  bd_expenses :: "TripExpense list"

definition driverFundStatement ::
  "'s costing_repository \<Rightarrow> costing_env \<Rightarrow> ident \<Rightarrow> ('s, DriverFundStatement) service" where
  "driverFundStatement R env driverId =
     bnd (lift (requireDriverFacts (core env) driverId)) (\<lambda>_.
     bnd (on_store (findAccountByDriver R driverId)) (\<lambda>account.
       case account of
         None \<Rightarrow> ret \<lparr>st_account = None, st_driverId = driverId, st_balance = 0,
                   st_balanceStance = describeFundBalance 0, st_currencyCode = TRANSPORT_CURRENCY,
                   st_entries = []\<rparr>
       | Some a \<Rightarrow>
           bnd (on_store (listEntries R (acc_id a))) (\<lambda>es.
           bnd (on_store (sumSignedAmounts R (acc_id a) None)) (\<lambda>total.
             ret \<lparr>st_account = Some a, st_driverId = driverId, st_balance = fst total,
                  st_balanceStance = describeFundBalance (fst total),
                  st_currencyCode = acc_currencyCode a, st_entries = es\<rparr>))))"

definition selfFundStatement ::
  "'s costing_repository \<Rightarrow> costing_env \<Rightarrow> ident \<Rightarrow> ('s, DriverFundStatement) service" where
  "selfFundStatement R env authUserId =
     (case findDriverByAuthUserId (core env) authUserId of
        None \<Rightarrow> throw (denied ''SELF_FUND_SCOPE_NO_DRIVER_BINDING'')
      | Some driver \<Rightarrow> driverFundStatement R env (df_id driver))"

definition tripCostBreakdown ::
  "'s costing_repository \<Rightarrow> costing_env \<Rightarrow> ident \<Rightarrow> ('s, TripCostBreakdown) service" where
  "tripCostBreakdown R env tripId =
     bnd (lift (requireTripFacts (core env) tripId)) (\<lambda>_.
     bnd (on_store (listExpenses R tripId)) (\<lambda>xs.
       ret \<lparr>bd_tripId = tripId,
            bd_currencyCode = (case xs of [] \<Rightarrow> TRANSPORT_CURRENCY | x # _ \<Rightarrow> x_currencyCode x),
            bd_directCost = js_sum (map x_signedAmount xs), bd_expenses = xs\<rparr>))"

definition selfTripExpenseEvidence ::
  "'s costing_repository \<Rightarrow> costing_env \<Rightarrow> ident \<Rightarrow> ident \<Rightarrow> ('s, ident \<times> string) service" where
  "selfTripExpenseEvidence R env authUserId expenseId =
     bnd (lift (requireSelfDriver (core env) authUserId)) (\<lambda>driver.
     bnd (on_store (findExpense R expenseId)) (\<lambda>expense.
       case expense of
         None \<Rightarrow> throw (notFound ''TRIP_EXPENSE_NOT_FOUND'')
       | Some x \<Rightarrow>
           if x_driverId x \<noteq> Some (df_id driver) then throw (notFound ''TRIP_EXPENSE_NOT_FOUND'')
           else (case x_evidenceLocator x of
                   None \<Rightarrow> throw (notFound ''EVIDENCE_NOT_ON_RECORD'')
                 | Some l \<Rightarrow> ret (x_id x, l))))"

end
