(* ===== verification/DriverSettlement.thy ===== *)
theory DriverSettlement imports WageCredit CostingReadService begin

text \<open>
  The stores and ports of \<open>driver-settlement/\<close>: the rows (\<open>driver-settlement.types.ts\<close>), the store
  interface (\<open>driver-settlement.repository.ts\<close>), its in-memory class, and the ports through which
  the component reads payroll and drives the driver fund (\<open>driver-settlement.ports.ts\<close>). A timestamp is
  an instant; \<open>toISOString\<close> sorts like the instant.
\<close>

section \<open>Rows\<close>

record DriverCashout =
  dc_id :: ident
  dc_driverId :: ident
  dc_kind :: cashout_kind
  dc_status :: cashout_status
  dc_businessDate :: business_date
  dc_currencyCode :: string
  dc_method :: string
  dc_reference :: "string option"
  dc_reversesId :: "ident option"
  dc_reversalReason :: "string option"
  dc_note :: "string option"
  dc_correlationKey :: string
  dc_recordedBy :: string
  dc_createdAt :: timestamp

record DriverCashoutAllocation = PostedAllocation +
  da_id :: ident
  da_cashoutId :: ident
  da_note :: "string option"
  da_createdAt :: timestamp

record DriverCashoutDetail =
  det_cashout :: DriverCashout
  det_allocations :: "DriverCashoutAllocation list"

section \<open>The store\<close>

record CashoutAllocationWriteInput = PostedAllocation +
  wi_note :: "string option"

record RecordCashoutInput =
  ri_driverId :: ident
  ri_kind :: cashout_kind
  ri_businessDate :: business_date
  ri_currencyCode :: string
  ri_method :: string
  ri_reference :: "string option"
  ri_reversesId :: "ident option"
  ri_reversalReason :: "string option"
  ri_note :: "string option"
  ri_correlationKey :: string
  ri_recordedBy :: string
  ri_at :: timestamp
  ri_allocations :: "CashoutAllocationWriteInput list"

datatype RecordCashoutOutcome =
    RECORDED DriverCashoutDetail
  | DUPLICATE_KEY DriverCashoutDetail
  | OUTCOME_ALREADY_REVERSED
  | TARGET_NOT_FOUND

record 's settlement_repository =
  record_cashout :: "RecordCashoutInput \<Rightarrow> ('s, js_error, RecordCashoutOutcome) stateful"
  find_cashout :: "ident \<Rightarrow> ('s, js_error, DriverCashoutDetail option) stateful"
  find_cashout_key :: "string \<Rightarrow> ('s, js_error, DriverCashoutDetail option) stateful"
  listByDriver :: "ident \<Rightarrow> ('s, js_error, DriverCashoutDetail list) stateful"

definition cashout_row :: "RecordCashoutInput \<Rightarrow> ident \<Rightarrow> DriverCashout" where
  "cashout_row i new_id =
     \<lparr>dc_id = new_id, dc_driverId = ri_driverId i, dc_kind = ri_kind i, dc_status = POSTED,
      dc_businessDate = ri_businessDate i, dc_currencyCode = ri_currencyCode i, dc_method = ri_method i,
      dc_reference = ri_reference i, dc_reversesId = ri_reversesId i,
      dc_reversalReason = ri_reversalReason i, dc_note = ri_note i,
      dc_correlationKey = ri_correlationKey i, dc_recordedBy = ri_recordedBy i, dc_createdAt = ri_at i\<rparr>"

definition allocation_row ::
  "CashoutAllocationWriteInput \<Rightarrow> ident \<Rightarrow> timestamp \<Rightarrow> ident \<Rightarrow> DriverCashoutAllocation" where
  "allocation_row a cashoutId tm new_id =
     \<lparr>pa_source = pa_source a, pa_amount = pa_amount a, pa_payslipId = pa_payslipId a,
      pa_driverFundEntryId = pa_driverFundEntryId a, da_id = new_id, da_cashoutId = cashoutId,
      da_note = wi_note a, da_createdAt = tm\<rparr>"

definition allocation_rows :: "RecordCashoutInput \<Rightarrow> ident \<Rightarrow> nat \<Rightarrow> DriverCashoutAllocation list" where
  "allocation_rows i cashoutId n =
     map2 (\<lambda>a k. allocation_row a cashoutId (ri_at i) (uuid k)) (ri_allocations i)
       [n ..< n + length (ri_allocations i)]"

section \<open>The in-memory store\<close>

record settlement_state =
  ds_cashouts :: "(ident \<times> DriverCashout) list"
  ds_allocations :: "(ident \<times> DriverCashoutAllocation list) list"
  ds_next :: nat

definition empty_settlement :: settlement_state where
  "empty_settlement = \<lparr>ds_cashouts = [], ds_allocations = [], ds_next = 0\<rparr>"

definition mem_detail :: "settlement_state \<Rightarrow> ident \<Rightarrow> DriverCashoutDetail option" where
  "mem_detail s i =
     (case map_of (ds_cashouts s) i of
        None \<Rightarrow> None
      | Some c \<Rightarrow> Some \<lparr>det_cashout = c,
          det_allocations = (case map_of (ds_allocations s) i of None \<Rightarrow> [] | Some as \<Rightarrow> as)\<rparr>)"

definition mem_detailByCorrelation :: "settlement_state \<Rightarrow> string \<Rightarrow> DriverCashoutDetail option" where
  "mem_detailByCorrelation s k =
     (case List.find (\<lambda>c. dc_correlationKey c = k) (map snd (ds_cashouts s)) of
        None \<Rightarrow> None
      | Some c \<Rightarrow> mem_detail s (dc_id c))"

text \<open>The first half of \<open>record\<close>: the original of a reversal must be posted and becomes reversed.\<close>

definition mark_reversed :: "ident option \<Rightarrow> settlement_state \<Rightarrow> RecordCashoutOutcome + settlement_state" where
  "mark_reversed target s =
     (case target of
        None \<Rightarrow> Inr s
      | Some i \<Rightarrow>
          (case map_of (ds_cashouts s) i of
             None \<Rightarrow> Inl TARGET_NOT_FOUND
           | Some c \<Rightarrow>
               if dc_status c \<noteq> POSTED then Inl OUTCOME_ALREADY_REVERSED
               else Inr (s\<lparr>ds_cashouts := AList.update (dc_id c) (c\<lparr>dc_status := REVERSED\<rparr>) (ds_cashouts s)\<rparr>)))"

definition mem_record :: "RecordCashoutInput \<Rightarrow> (settlement_state, js_error, RecordCashoutOutcome) stateful" where
  "mem_record input s =
     (case mem_detailByCorrelation s (ri_correlationKey input) of
        Some existing \<Rightarrow> (Inr (DUPLICATE_KEY existing), s)
      | None \<Rightarrow>
          (case mark_reversed (ri_reversesId input) s of
             Inl outcome \<Rightarrow> (Inr outcome, s)
           | Inr s1 \<Rightarrow>
               let i = uuid (ds_next s1);
                   rows = allocation_rows input i (Suc (ds_next s1));
                   s2 = s1\<lparr>ds_cashouts := AList.update i (cashout_row input i) (ds_cashouts s1),
                     ds_allocations := AList.update i rows (ds_allocations s1),
                     ds_next := Suc (ds_next s1) + length rows\<rparr>
               in (case mem_detail s2 i of
                     None \<Rightarrow> (Inl PlainError, s2)
                   | Some detail \<Rightarrow> (Inr (RECORDED detail), s2))))"

definition mem_find :: "ident \<Rightarrow> (settlement_state, js_error, DriverCashoutDetail option) stateful" where
  "mem_find i = query (\<lambda>s. mem_detail s i)"

definition mem_findByCorrelation :: "string \<Rightarrow> (settlement_state, js_error, DriverCashoutDetail option) stateful" where
  "mem_findByCorrelation k = query (\<lambda>s. mem_detailByCorrelation s k)"

definition mem_listByDriver :: "ident \<Rightarrow> (settlement_state, js_error, DriverCashoutDetail list) stateful" where
  "mem_listByDriver d =
     query (\<lambda>s. List.map_filter (\<lambda>c. mem_detail s (dc_id c))
       (sort_key dc_createdAt (filter (\<lambda>c. dc_driverId c = d) (map snd (ds_cashouts s)))))"

definition InMemoryDriverSettlementRepository :: "settlement_state settlement_repository" where
  "InMemoryDriverSettlementRepository =
     \<lparr>record_cashout = mem_record, find_cashout = mem_find, find_cashout_key = mem_findByCorrelation,
      listByDriver = mem_listByDriver\<rparr>"

section \<open>Ports\<close>

record SettlementDriverFacts =
  sd_id :: ident
  sd_fullName :: string

record DriverSettlementCoreFacts =
  settlement_findDriver :: "ident \<Rightarrow> SettlementDriverFacts option"
  settlement_findDriverByAuthUserId :: "ident \<Rightarrow> SettlementDriverFacts option"
  listActiveDriverIds :: "ident list"

text \<open>The three reads of the workforce store that the payroll adapter joins.\<close>

record workforce_view =
  listPayslipsByDriver :: "ident \<Rightarrow> Payslip list"
  findPayrollRun :: "ident \<Rightarrow> PayrollRun option"
  findPayrollPeriod :: "ident \<Rightarrow> PayrollPeriod option"

definition payslip_fact :: "workforce_view \<Rightarrow> Payslip \<Rightarrow> PostedPayslipFact option" where
  "payslip_fact facts p =
     (case findPayrollRun facts (ps_runId p) of
        None \<Rightarrow> None
      | Some r \<Rightarrow>
          (case findPayrollPeriod facts (pr_periodId r) of
             None \<Rightarrow> None
           | Some period \<Rightarrow> Some
               \<lparr>pf_payslipId = ps_id p, pf_periodId = pp_id period, pf_periodLabel = pp_label period,
                pf_periodStartDate = pp_startDate period, pf_periodEndDate = pp_endDate period,
                pf_runId = pr_id r, pf_kind = ps_kind p, pf_status = ps_status p,
                pf_netAmount = ps_netAmount p, pf_currencyCode = ps_currencyCode p\<rparr>))"

definition postedPayslipsOf :: "workforce_view \<Rightarrow> ident \<Rightarrow> PostedPayslipFact list" where
  "postedPayslipsOf facts driverId = List.map_filter (payslip_fact facts) (listPayslipsByDriver facts driverId)"

record ReimbursementEntryFacts =
  re_id :: ident
  re_signedAmount :: int
  re_businessDate :: business_date

record PostReimbursementInput =
  pri_driverId :: ident
  pri_amount :: jsnum
  pri_businessDate :: business_date
  pri_correlationKey :: string
  pri_note :: "string option"

record 'f fund_port =
  balanceOf :: "ident \<Rightarrow> ('f, js_error, int) stateful"
  port_postReimbursement ::
    "PostReimbursementInput \<Rightarrow> string \<Rightarrow> ('f, js_error, ReimbursementEntryFacts \<times> bool) stateful"
  port_reverseReimbursement ::
    "ident \<Rightarrow> string \<Rightarrow> string \<Rightarrow> ('f, js_error, ReimbursementEntryFacts) stateful"

definition toEntryFacts :: "DriverFundEntry \<Rightarrow> ReimbursementEntryFacts" where
  "toEntryFacts e = \<lparr>re_id = e_id e, re_signedAmount = e_signedAmount e, re_businessDate = e_businessDate e\<rparr>"

definition adapter_balanceOf :: "'s costing_repository \<Rightarrow> costing_env \<Rightarrow> ident \<Rightarrow> ('s, int) service" where
  "adapter_balanceOf R env driverId =
     bnd (driverFundStatement R env driverId) (\<lambda>statement. ret (st_balance statement))"

definition adapter_postReimbursement ::
  "'s costing_repository \<Rightarrow> costing_env \<Rightarrow> PostReimbursementInput \<Rightarrow> string \<Rightarrow>
   ('s, ReimbursementEntryFacts \<times> bool) service" where
  "adapter_postReimbursement R env input actor =
     bnd (postReimbursement R env
            \<lparr>fm_driverId = pri_driverId input, fm_businessDate = Some (pri_businessDate input),
             fm_tripId = None, fm_note = pri_note input,
             fm_correlationKey = Some (pri_correlationKey input)\<rparr> (pri_amount input) actor)
       (\<lambda>posted. ret (toEntryFacts (fst posted), snd posted))"

definition adapter_reverseReimbursement ::
  "'s costing_repository \<Rightarrow> costing_env \<Rightarrow> ident \<Rightarrow> string \<Rightarrow> string \<Rightarrow> ('s, ReimbursementEntryFacts) service" where
  "adapter_reverseReimbursement R env entryId reasonText actor =
     bnd (reverseFundEntry R env entryId reasonText actor) (\<lambda>posted.
       case cp_entry posted of None \<Rightarrow> throw PlainError | Some e \<Rightarrow> ret (toEntryFacts e))"

definition DriverSettlementFundPortAdapter ::
  "'s costing_repository \<Rightarrow> costing_env \<Rightarrow> 's costing_world fund_port" where
  "DriverSettlementFundPortAdapter R env =
     \<lparr>balanceOf = adapter_balanceOf R env,
      port_postReimbursement = adapter_postReimbursement R env,
      port_reverseReimbursement = adapter_reverseReimbursement R env\<rparr>"

end
