(* ===== verification/DriverSettlementService.thy ===== *)
theory DriverSettlementService imports DriverSettlement begin

text \<open>
  \<open>driver-settlement/driver-settlement-read.service.ts\<close> and \<open>driver-settlement.service.ts\<close>: the balance
  of a driver and the two commands, recording a payment and reversing one, over any cash-out store
  and any driver fund port. The fund port is optional as in the constructor. \<open>others\<close> is whatever
  other requests do between the capacity check of a payment and its write: the code awaits there and
  holds no transaction. Telemetry only observes and is left out.
\<close>

record 'f settlement_env =
  se_core :: DriverSettlementCoreFacts
  se_payroll :: "ident \<Rightarrow> PostedPayslipFact list"
  se_timeZone :: string
  se_clock :: timestamp
  se_intl :: "string \<Rightarrow> (int \<Rightarrow> date_parts) option"
  se_fund :: "'f fund_port option"

record ('c, 'f) settlement_world =
  sw_cashouts :: 'c
  sw_fund :: 'f
  sw_keys :: nat

type_synonym ('c, 'f, 'a) settlement = "(('c, 'f) settlement_world, js_error, 'a) stateful"

definition on_cashouts :: "('c, js_error, 'a) stateful \<Rightarrow> ('c, 'f, 'a) settlement" where
  "on_cashouts m w = (case m (sw_cashouts w) of (r, s') \<Rightarrow> (r, w\<lparr>sw_cashouts := s'\<rparr>))"

definition on_fund :: "('f, js_error, 'a) stateful \<Rightarrow> ('c, 'f, 'a) settlement" where
  "on_fund m w = (case m (sw_fund w) of (r, s') \<Rightarrow> (r, w\<lparr>sw_fund := s'\<rparr>))"

section \<open>Reading\<close>

record DriverSettlementBalance =
  bal_driverId :: ident
  bal_currencyCode :: string
  bal_wageCredited :: int
  bal_wageCashedOut :: int
  bal_wageRemaining :: int
  bal_fundBalance :: int
  bal_fundStance :: fund_balance_stance
  bal_reimbursementOutstanding :: int
  bal_reimbursementCashedOut :: int

record DriverSettlementSnapshot =
  snap_balance :: DriverSettlementBalance
  snap_months :: "WageMonth list"
  snap_cashouts :: "DriverCashoutDetail list"
  snap_capacity :: CashoutCapacity

definition allocations_of :: "DriverCashoutDetail list \<Rightarrow> DriverCashoutAllocation list" where
  "allocations_of details = concat (map det_allocations details)"

definition cashed_step :: "DriverCashoutAllocation \<Rightarrow> (ident \<times> int) list \<Rightarrow> (ident \<times> int) list" where
  "cashed_step a m =
     (case pa_payslipId a of
        None \<Rightarrow> m
      | Some p \<Rightarrow> if pa_source a \<noteq> WAGE then m else AList.update p (js_add (map_get m p) (pa_amount a)) m)"

definition cashedOutByPayslip :: "DriverCashoutAllocation list \<Rightarrow> (ident \<times> int) list" where
  "cashedOutByPayslip as = fold cashed_step as []"

definition remaining_step ::
  "(ident \<times> int) list \<Rightarrow> PostedPayslipFact \<Rightarrow> (ident \<times> int) list \<Rightarrow> (ident \<times> int) list" where
  "remaining_step out p m =
     (if pf_netAmount p \<le> 0 then m
      else let remaining = js_add (pf_netAmount p) (- map_get out (pf_payslipId p))
           in if 0 < remaining then AList.update (pf_payslipId p) remaining m else m)"

definition wageRemainingByPayslip ::
  "PostedPayslipFact list \<Rightarrow> (ident \<times> int) list \<Rightarrow> (ident \<times> int) list" where
  "wageRemainingByPayslip payslips out = fold (remaining_step out) payslips []"

definition settlement_balance ::
  "ident \<Rightarrow> string \<Rightarrow> int \<Rightarrow> int \<Rightarrow> int \<Rightarrow> int \<Rightarrow> DriverSettlementBalance" where
  "settlement_balance driverId currency credited cashedOut reimbursed fundBalance =
     \<lparr>bal_driverId = driverId, bal_currencyCode = currency, bal_wageCredited = credited,
      bal_wageCashedOut = cashedOut, bal_wageRemaining = js_add credited (- cashedOut),
      bal_fundBalance = fundBalance, bal_fundStance = describeFundBalance fundBalance,
      bal_reimbursementOutstanding = max 0 (- fundBalance), bal_reimbursementCashedOut = reimbursed\<rparr>"

definition payslips_currency :: "PostedPayslipFact list \<Rightarrow> string" where
  "payslips_currency payslips = (case payslips of [] \<Rightarrow> TRANSPORT_CURRENCY | p # _ \<Rightarrow> pf_currencyCode p)"

definition settlement_capacity ::
  "DriverSettlementBalance \<Rightarrow> (ident \<times> int) list \<Rightarrow> CashoutCapacity" where
  "settlement_capacity balance remaining =
     \<lparr>cap_currencyCode = bal_currencyCode balance, cap_wageRemainingByPayslip = remaining,
      cap_wageRemainingTotal = bal_wageRemaining balance,
      cap_reimbursementOutstanding = bal_reimbursementOutstanding balance\<rparr>"

definition source_amounts :: "cashout_source \<Rightarrow> DriverCashoutAllocation list \<Rightarrow> int list" where
  "source_amounts src as = map pa_amount (filter (\<lambda>a. pa_source a = src) as)"

definition snapshotOf ::
  "'c settlement_repository \<Rightarrow> 'f settlement_env \<Rightarrow> ident \<Rightarrow> ('c, 'f, DriverSettlementSnapshot) settlement" where
  "snapshotOf S env driverId =
     (let payslips = se_payroll env driverId in
      bnd (on_cashouts (listByDriver S driverId)) (\<lambda>details.
      let as = allocations_of details; out = cashedOutByPayslip as in
      bnd (lift (foldWageMonths payslips out)) (\<lambda>months.
      bnd (lift (foldAllocations (map wm_credited months))) (\<lambda>credited.
      bnd (lift (foldAllocations (source_amounts WAGE as))) (\<lambda>cashedOut.
      bnd (lift (foldAllocations (source_amounts REIMBURSEMENT_OUT as))) (\<lambda>reimbursed.
      bnd (case se_fund env of None \<Rightarrow> ret 0 | Some fund \<Rightarrow> on_fund (balanceOf fund driverId)) (\<lambda>fundBalance.
      let balance = settlement_balance driverId (payslips_currency payslips) credited cashedOut reimbursed
            fundBalance in
      ret \<lparr>snap_balance = balance, snap_months = months, snap_cashouts = details,
           snap_capacity = settlement_capacity balance (wageRemainingByPayslip payslips out)\<rparr>)))))))"

definition settlement_today :: "'f settlement_env \<Rightarrow> js_error + business_date" where
  "settlement_today env = toBusinessDate (se_intl env) (Some (se_clock env)) (se_timeZone env)"

record DriverSettlementStatement =
  sst_balance :: DriverSettlementBalance
  sst_months :: "WageMonth list"
  sst_cashouts :: "DriverCashoutDetail list"
  sst_unsettled :: "UnsettledWageMonth list"
  sst_settlementWindowDays :: int

definition settlementStatement ::
  "'c settlement_repository \<Rightarrow> 'f settlement_env \<Rightarrow> ident \<Rightarrow> ('c, 'f, DriverSettlementStatement) settlement" where
  "settlementStatement S env driverId =
     (case settlement_findDriver (se_core env) driverId of
        None \<Rightarrow> throw (notFound ''CASHOUT_DRIVER_NOT_FOUND'')
      | Some driver \<Rightarrow>
          bnd (snapshotOf S env driverId) (\<lambda>snap.
          bnd (lift (settlement_today env)) (\<lambda>today.
          bnd (lift (unsettledBeyondWindow (snap_months snap) today WAGE_SETTLEMENT_WINDOW_DAYS)) (\<lambda>unsettled.
            ret \<lparr>sst_balance = snap_balance snap, sst_months = snap_months snap,
                 sst_cashouts = snap_cashouts snap, sst_unsettled = unsettled,
                 sst_settlementWindowDays = WAGE_SETTLEMENT_WINDOW_DAYS\<rparr>))))"

record DriverSettlementSelfStatement =
  self_driverId :: ident
  self_driverName :: string
  self_currencyCode :: string
  self_wageCredited :: int
  self_wageCashedOut :: int
  self_wageRemaining :: int
  self_reimbursementOutstanding :: int
  self_reimbursementCashedOut :: int
  self_months :: "WageMonth list"
  self_cashouts :: "DriverCashoutDetail list"

definition selfSettlementStatement ::
  "'c settlement_repository \<Rightarrow> 'f settlement_env \<Rightarrow> ident \<Rightarrow> ('c, 'f, DriverSettlementSelfStatement) settlement" where
  "selfSettlementStatement S env authUserId =
     (case settlement_findDriverByAuthUserId (se_core env) authUserId of
        None \<Rightarrow> throw (denied ''CASHOUT_SELF_DRIVER_NOT_LINKED'')
      | Some driver \<Rightarrow>
          bnd (snapshotOf S env (sd_id driver)) (\<lambda>snap.
            let b = snap_balance snap in
            ret \<lparr>self_driverId = sd_id driver, self_driverName = sd_fullName driver,
                 self_currencyCode = bal_currencyCode b, self_wageCredited = bal_wageCredited b,
                 self_wageCashedOut = bal_wageCashedOut b, self_wageRemaining = bal_wageRemaining b,
                 self_reimbursementOutstanding = bal_reimbursementOutstanding b,
                 self_reimbursementCashedOut = bal_reimbursementCashedOut b,
                 self_months = snap_months snap, self_cashouts = snap_cashouts snap\<rparr>))"

fun collect_balances ::
  "'c settlement_repository \<Rightarrow> 'f settlement_env \<Rightarrow> ident list \<Rightarrow> ('c, 'f, DriverSettlementBalance list) settlement" where
  "collect_balances S env [] = ret []"
| "collect_balances S env (d # ds) =
     bnd (snapshotOf S env d) (\<lambda>snap. bnd (collect_balances S env ds) (\<lambda>bs. ret (snap_balance snap # bs)))"

definition fleetBalances ::
  "'c settlement_repository \<Rightarrow> 'f settlement_env \<Rightarrow> ('c, 'f, DriverSettlementBalance list) settlement" where
  "fleetBalances S env = collect_balances S env (listActiveDriverIds (se_core env))"

section \<open>Recording a payment\<close>

record RecordCashoutCommand =
  rcc_driverId :: ident
  rcc_businessDate :: "string option"
  rcc_method :: string
  rcc_reference :: "string option"
  rcc_note :: "string option"
  rcc_lines :: "CashoutLine list"
  rcc_correlationKey :: "string option"

fun denial_reason :: "cashout_denial \<Rightarrow> reason" where
  "denial_reason CASHOUT_NO_ALLOCATIONS = ''CASHOUT_NO_ALLOCATIONS''"
| "denial_reason CASHOUT_AMOUNT_INVALID = ''CASHOUT_AMOUNT_INVALID''"
| "denial_reason CASHOUT_ALLOCATION_SHAPE_INVALID = ''CASHOUT_ALLOCATION_SHAPE_INVALID''"
| "denial_reason CASHOUT_PAYSLIP_NOT_CREDITED = ''CASHOUT_PAYSLIP_NOT_CREDITED''"
| "denial_reason CASHOUT_PAYSLIP_DUPLICATED = ''CASHOUT_PAYSLIP_DUPLICATED''"
| "denial_reason CASHOUT_PAYSLIP_OVER_ALLOCATED = ''CASHOUT_PAYSLIP_OVER_ALLOCATED''"
| "denial_reason CASHOUT_WAGE_EXCEEDS_REMAINING = ''CASHOUT_WAGE_EXCEEDS_REMAINING''"
| "denial_reason CASHOUT_REIMBURSEMENT_DUPLICATED = ''CASHOUT_REIMBURSEMENT_DUPLICATED''"
| "denial_reason CASHOUT_REIMBURSEMENT_EXCEEDS_OUTSTANDING = ''CASHOUT_REIMBURSEMENT_EXCEEDS_OUTSTANDING''"
| "denial_reason CASHOUT_CURRENCY_MISMATCH = ''CASHOUT_CURRENCY_MISMATCH''"

fun reversal_denial_reason :: "cashout_reversal_denial \<Rightarrow> reason" where
  "reversal_denial_reason CASHOUT_ALREADY_REVERSED = ''CASHOUT_ALREADY_REVERSED''"
| "reversal_denial_reason CASHOUT_IS_A_REVERSAL = ''CASHOUT_IS_A_REVERSAL''"

definition settlement_businessDate :: "'f settlement_env \<Rightarrow> string option \<Rightarrow> js_error + business_date" where
  "settlement_businessDate env provided =
     (case provided of Some d \<Rightarrow> assertBusinessDate d | None \<Rightarrow> settlement_today env)"

definition cashout_key :: "string option \<Rightarrow> ('c, 'f, string) settlement" where
  "cashout_key provided w =
     (case provided of
        Some k \<Rightarrow> (Inr k, w)
      | None \<Rightarrow> (Inr (''driver-cashout:'' @ uuid (sw_keys w)), w\<lparr>sw_keys := Suc (sw_keys w)\<rparr>))"

text \<open>The stored amount of a line equals the requested number exactly when the number is that integer.\<close>

definition same_line :: "CashoutLine \<Rightarrow> DriverCashoutAllocation \<Rightarrow> bool" where
  "same_line line a \<longleftrightarrow>
     pa_source a = cl_source line \<and> num_of_int (pa_amount a) = cl_amount line \<and> pa_payslipId a = cl_payslipId line"

definition same_cashout ::
  "DriverCashoutDetail \<Rightarrow> RecordCashoutCommand \<Rightarrow> business_date \<Rightarrow> string \<Rightarrow> bool" where
  "same_cashout existing command d payment_method \<longleftrightarrow>
     dc_driverId (det_cashout existing) = rcc_driverId command \<and>
     dc_businessDate (det_cashout existing) = d \<and>
     dc_method (det_cashout existing) = payment_method \<and>
     length (det_allocations existing) = length (rcc_lines command) \<and>
     list_all (\<lambda>line. list_ex (same_line line) (det_allocations existing)) (rcc_lines command)"

definition assertSameCashout ::
  "DriverCashoutDetail \<Rightarrow> RecordCashoutCommand \<Rightarrow> business_date \<Rightarrow> string \<Rightarrow> js_error + DriverCashoutDetail" where
  "assertSameCashout existing command d payment_method =
     (if \<not> same_cashout existing command d payment_method
      then Inl (conflict ''CASHOUT_REPLAY_CONTENT_MISMATCH'') else Inr existing)"

definition fund_unavailable :: js_error where
  "fund_unavailable = denied ''CASHOUT_FUND_UNAVAILABLE''"

definition requireFund :: "'f settlement_env \<Rightarrow> js_error + 'f fund_port" where
  "requireFund env = (case se_fund env of None \<Rightarrow> Inl fund_unavailable | Some fund \<Rightarrow> Inr fund)"

definition wage_write :: "CashoutLine \<Rightarrow> CashoutAllocationWriteInput" where
  "wage_write line =
     \<lparr>pa_source = WAGE, pa_amount = line_amount line, pa_payslipId = cl_payslipId line,
      pa_driverFundEntryId = None, wi_note = cl_note line\<rparr>"

definition fund_write :: "CashoutLine \<Rightarrow> ident \<Rightarrow> CashoutAllocationWriteInput" where
  "fund_write line entryId =
     \<lparr>pa_source = REIMBURSEMENT_OUT, pa_amount = line_amount line, pa_payslipId = None,
      pa_driverFundEntryId = Some entryId, wi_note = cl_note line\<rparr>"

definition reimbursement_input :: "ident \<Rightarrow> CashoutLine \<Rightarrow> business_date \<Rightarrow> string \<Rightarrow> PostReimbursementInput" where
  "reimbursement_input driverId line d key =
     \<lparr>pri_driverId = driverId, pri_amount = cl_amount line, pri_businessDate = d,
      pri_correlationKey = key @ '':reimbursement'', pri_note = cl_note line\<rparr>"

fun pay_lines ::
  "'f settlement_env \<Rightarrow> ident \<Rightarrow> business_date \<Rightarrow> string \<Rightarrow> string \<Rightarrow> CashoutLine list \<Rightarrow>
   ('c, 'f, CashoutAllocationWriteInput list) settlement" where
  "pay_lines env driverId d key actor [] = ret []"
| "pay_lines env driverId d key actor (line # ls) =
     (if cl_source line = WAGE then
        bnd (pay_lines env driverId d key actor ls) (\<lambda>rest. ret (wage_write line # rest))
      else
        bnd (lift (requireFund env)) (\<lambda>fund.
        bnd (on_fund (port_postReimbursement fund (reimbursement_input driverId line d key) actor)) (\<lambda>posted.
        bnd (pay_lines env driverId d key actor ls) (\<lambda>rest.
          ret (fund_write line (re_id (fst posted)) # rest)))))"

definition cashout_input ::
  "RecordCashoutCommand \<Rightarrow> ident \<Rightarrow> business_date \<Rightarrow> string \<Rightarrow> string \<Rightarrow> string \<Rightarrow> string \<Rightarrow> timestamp \<Rightarrow>
   CashoutAllocationWriteInput list \<Rightarrow> RecordCashoutInput" where
  "cashout_input command driverId d currency payment_method key actor now as =
     \<lparr>ri_driverId = driverId, ri_kind = ORIGINAL, ri_businessDate = d, ri_currencyCode = currency,
      ri_method = payment_method, ri_reference = rcc_reference command, ri_reversesId = None,
      ri_reversalReason = None, ri_note = rcc_note command, ri_correlationKey = key,
      ri_recordedBy = actor, ri_at = now, ri_allocations = as\<rparr>"

definition write_cashout ::
  "'c settlement_repository \<Rightarrow> RecordCashoutInput \<Rightarrow> RecordCashoutCommand \<Rightarrow> business_date \<Rightarrow> string \<Rightarrow>
   ('c, 'f, DriverCashoutDetail) settlement" where
  "write_cashout S input command d payment_method =
     bnd (on_cashouts (record_cashout S input)) (\<lambda>outcome.
       case outcome of
         RECORDED detail \<Rightarrow> ret detail
       | DUPLICATE_KEY existing \<Rightarrow> lift (assertSameCashout existing command d payment_method)
       | _ \<Rightarrow> throw (conflict ''CASHOUT_REPLAY_CONTENT_MISMATCH''))"

text \<open>The check of a fresh payment against the snapshot, then the fund entry, then the write.\<close>

definition pay_driver ::
  "'c settlement_repository \<Rightarrow> 'f settlement_env \<Rightarrow> (('c, 'f) settlement_world \<Rightarrow> ('c, 'f) settlement_world) \<Rightarrow>
   RecordCashoutCommand \<Rightarrow> ident \<Rightarrow> business_date \<Rightarrow> string \<Rightarrow> string \<Rightarrow> string \<Rightarrow>
   ('c, 'f, DriverCashoutDetail) settlement" where
  "pay_driver S env others command driverId d payment_method key actor =
     bnd (snapshotOf S env driverId) (\<lambda>snap w.
       case evaluateCashout (rcc_lines command) (snap_capacity snap) (cap_currencyCode (snap_capacity snap)) of
         CashoutDenied why who \<Rightarrow> throw (invalid (denial_reason why)) w
       | CashoutAllowed wage reimbursed paid \<Rightarrow>
           if 0 < reimbursed \<and> se_fund env = None then throw fund_unavailable w
           else bnd (pay_lines env driverId d key actor (rcc_lines command)) (\<lambda>as.
                  write_cashout S (cashout_input command driverId d (cap_currencyCode (snap_capacity snap))
                    payment_method key actor (se_clock env) as) command d payment_method) (others w))"

definition recordCashout ::
  "'c settlement_repository \<Rightarrow> 'f settlement_env \<Rightarrow> (('c, 'f) settlement_world \<Rightarrow> ('c, 'f) settlement_world) \<Rightarrow>
   RecordCashoutCommand \<Rightarrow> string \<Rightarrow> ('c, 'f, DriverCashoutDetail) settlement" where
  "recordCashout S env others command actor =
     bnd (lift (settlement_businessDate env (rcc_businessDate command))) (\<lambda>d.
     let payment_method = js_trim (rcc_method command) in
     if length payment_method = 0 then throw (invalid ''CASHOUT_METHOD_BLANK'')
     else (case settlement_findDriver (se_core env) (rcc_driverId command) of
         None \<Rightarrow> throw (notFound ''CASHOUT_DRIVER_NOT_FOUND'')
       | Some driver \<Rightarrow>
           bnd (cashout_key (rcc_correlationKey command)) (\<lambda>key.
           bnd (on_cashouts (find_cashout_key S key)) (\<lambda>replay.
             case replay of
               Some existing \<Rightarrow> lift (assertSameCashout existing command d payment_method)
             | None \<Rightarrow> pay_driver S env others command (sd_id driver) d payment_method key actor))))"

section \<open>Reversing a payment\<close>

definition wage_undo :: "ident \<times> int \<Rightarrow> CashoutAllocationWriteInput" where
  "wage_undo l =
     \<lparr>pa_source = WAGE, pa_amount = snd l, pa_payslipId = Some (fst l), pa_driverFundEntryId = None,
      wi_note = None\<rparr>"

definition fund_undo :: "int \<Rightarrow> ident \<Rightarrow> CashoutAllocationWriteInput" where
  "fund_undo v entryId =
     \<lparr>pa_source = REIMBURSEMENT_OUT, pa_amount = v, pa_payslipId = None,
      pa_driverFundEntryId = Some entryId, wi_note = None\<rparr>"

fun undo_lines ::
  "'f settlement_env \<Rightarrow> string \<Rightarrow> string \<Rightarrow> (ident \<times> int) list \<Rightarrow>
   ('c, 'f, CashoutAllocationWriteInput list) settlement" where
  "undo_lines env reasonText actor [] = ret []"
| "undo_lines env reasonText actor (l # ls) =
     bnd (lift (requireFund env)) (\<lambda>fund.
     bnd (on_fund (port_reverseReimbursement fund (fst l) reasonText actor)) (\<lambda>reversed.
     bnd (undo_lines env reasonText actor ls) (\<lambda>rest.
       ret (fund_undo (snd l) (re_id reversed) # rest))))"

definition reversal_cashout ::
  "DriverCashout \<Rightarrow> business_date \<Rightarrow> string \<Rightarrow> string \<Rightarrow> timestamp \<Rightarrow> CashoutAllocationWriteInput list \<Rightarrow>
   RecordCashoutInput" where
  "reversal_cashout target d reasonText actor now as =
     \<lparr>ri_driverId = dc_driverId target, ri_kind = REVERSAL_OUT, ri_businessDate = d,
      ri_currencyCode = dc_currencyCode target, ri_method = dc_method target,
      ri_reference = dc_reference target, ri_reversesId = Some (dc_id target),
      ri_reversalReason = Some reasonText, ri_note = None,
      ri_correlationKey = dc_correlationKey target @ '':reversal'', ri_recordedBy = actor,
      ri_at = now, ri_allocations = as\<rparr>"

definition write_reversal ::
  "'c settlement_repository \<Rightarrow> RecordCashoutInput \<Rightarrow> ('c, 'f, DriverCashoutDetail) settlement" where
  "write_reversal S input =
     bnd (on_cashouts (record_cashout S input)) (\<lambda>outcome.
       case outcome of
         RECORDED detail \<Rightarrow> ret detail
       | DUPLICATE_KEY existing \<Rightarrow> ret existing
       | OUTCOME_ALREADY_REVERSED \<Rightarrow> throw (conflict ''CASHOUT_ALREADY_REVERSED'')
       | TARGET_NOT_FOUND \<Rightarrow> throw (notFound ''CASHOUT_NOT_FOUND''))"

definition undo_cashout ::
  "'c settlement_repository \<Rightarrow> 'f settlement_env \<Rightarrow> DriverCashoutDetail \<Rightarrow> string \<Rightarrow> string \<Rightarrow>
   ('c, 'f, DriverCashoutDetail) settlement" where
  "undo_cashout S env target reasonText actor =
     (let plan = reversalPlanOf (det_allocations target) in
      if 0 < length (rp_reimbursement plan) \<and> se_fund env = None then throw fund_unavailable
      else bnd (undo_lines env reasonText actor (rp_reimbursement plan)) (\<lambda>undone.
           bnd (lift (settlement_businessDate env None)) (\<lambda>d.
             write_reversal S (reversal_cashout (det_cashout target) d reasonText actor (se_clock env)
               (map wage_undo (rp_wage plan) @ undone)))))"

definition reverseCashout ::
  "'c settlement_repository \<Rightarrow> 'f settlement_env \<Rightarrow> ident \<Rightarrow> string \<Rightarrow> string \<Rightarrow>
   ('c, 'f, DriverCashoutDetail) settlement" where
  "reverseCashout S env i reasonText actor =
     (let trimmed = js_trim reasonText in
      if length trimmed = 0 then throw (invalid ''CASHOUT_REVERSAL_REASON_BLANK'')
      else bnd (on_cashouts (find_cashout S i)) (\<lambda>found.
        case found of
          None \<Rightarrow> throw (notFound ''CASHOUT_NOT_FOUND'')
        | Some target \<Rightarrow>
            (case evaluateCashoutReversal (dc_kind (det_cashout target)) (dc_status (det_cashout target)) of
               ReversalDenied why \<Rightarrow> throw (conflict (reversal_denial_reason why))
             | ReversalAllowed \<Rightarrow> undo_cashout S env target trimmed actor)))"

end
