(* ===== verification/FundPeriodService.thy ===== *)
theory FundPeriodService imports CostingService begin

text \<open>
  \<open>costing/fund-period.service.ts\<close>: opening, closing and reopening a fund period. Closing is two
  writes with an await between them, so \<open>closePeriod\<close> takes what the other requests do to the store
  in that gap as an argument; \<open>id\<close> is the undisturbed run.
\<close>

record OpenFundPeriodInput =
  op_driverId :: ident
  op_startDate :: string
  op_endDate :: string

definition periodBusinessDate :: "costing_env \<Rightarrow> string \<Rightarrow> js_error + business_date" where
  "periodBusinessDate env provided =
     resolveCostingBusinessDate (intl env) (Some provided) (clock env) (timeZone env)"

definition openPeriod ::
  "'s costing_repository \<Rightarrow> costing_env \<Rightarrow> OpenFundPeriodInput \<Rightarrow> string \<Rightarrow> ('s, DriverFundPeriod) service" where
  "openPeriod R env input actor =
     bnd (lift (requireDriverFacts (core env) (op_driverId input))) (\<lambda>_.
     bnd (lift (periodBusinessDate env (op_startDate input))) (\<lambda>from_day.
     bnd (lift (periodBusinessDate env (op_endDate input))) (\<lambda>to_day.
       if to_day < from_day then throw (invalid ''FUND_PERIOD_RANGE_INVALID'')
       else
         bnd (on_store (ensureAccount R (op_driverId input) (clock env))) (\<lambda>account.
         bnd (on_store (listPeriods R (acc_id account))) (\<lambda>existing.
         case List.find (\<lambda>p. periodsOverlap (range_of p) \<lparr>startDate = from_day, endDate = to_day\<rparr>) existing of
           Some clash \<Rightarrow> throw (conflict ''FUND_PERIOD_OVERLAP'')
         | None \<Rightarrow>
             bnd (on_store (createPeriod R (acc_id account) \<lparr>startDate = from_day, endDate = to_day\<rparr> (clock env))) (\<lambda>period.
             bnd (audit_append actor ''transport.costing.period.open'' ''TransportDriverFundPeriod'' (Some (p_id period))) (\<lambda>_.
               ret period)))))))"

definition requirePeriod :: "'s costing_repository \<Rightarrow> ident \<Rightarrow> ('s, DriverFundPeriod) service" where
  "requirePeriod R i =
     bnd (on_store (findPeriod R i)) (\<lambda>period.
       case period of None \<Rightarrow> throw (notFound ''FUND_PERIOD_NOT_FOUND'') | Some p \<Rightarrow> ret p)"

definition requireTransitionAllowed :: "DriverFundPeriod \<Rightarrow> fund_period_status \<Rightarrow> js_error + unit" where
  "requireTransitionAllowed period to_status =
     (case evaluateFundPeriodTransition (p_status period) to_status of
        Allowed \<Rightarrow> Inr ()
      | Refused r \<Rightarrow> Inl (denied r))"

definition transition ::
  "'s costing_repository \<Rightarrow> costing_env \<Rightarrow> DriverFundPeriod \<Rightarrow> fund_period_status \<Rightarrow> string \<Rightarrow> string option \<Rightarrow>
   ('s, DriverFundPeriod) service" where
  "transition R env period to_status actor reopenReason =
     bnd (lift (requireTransitionAllowed period to_status)) (\<lambda>_.
     bnd (on_store (setPeriodStatus R (p_id period) (p_status period) to_status
            \<lparr>patch_at = clock env, patch_actor = actor, patch_reopenReason = reopenReason\<rparr>)) (\<lambda>nextp.
       case nextp of
         None \<Rightarrow> throw (conflict ''FUND_PERIOD_STATUS_RACE'')
       | Some p \<Rightarrow> ret p))"

definition others_run :: "('s \<Rightarrow> 's) \<Rightarrow> ('s, unit) service" where
  "others_run f w = (Inr (), w\<lparr>w_store := f (w_store w)\<rparr>)"

definition closePeriod ::
  "'s costing_repository \<Rightarrow> costing_env \<Rightarrow> ('s \<Rightarrow> 's) \<Rightarrow> ident \<Rightarrow> string \<Rightarrow> ('s, FinalizedClosePeriod) service" where
  "closePeriod R env others periodId actor =
     bnd (requirePeriod R periodId) (\<lambda>period.
     bnd (if p_status period \<noteq> CLOSING then transition R env period CLOSING actor None else ret period) (\<lambda>closing.
     bnd (lift (requireTransitionAllowed closing CLOSED)) (\<lambda>_.
     bnd (others_run others) (\<lambda>_.
     bnd (on_store (finalizeClose R (p_id closing) actor (clock env))) (\<lambda>finalized.
       case finalized of
         None \<Rightarrow> throw (conflict ''FUND_PERIOD_STATUS_RACE'')
       | Some f \<Rightarrow>
           bnd (audit_append actor ''transport.costing.period.close'' ''TransportDriverFundPeriod''
                  (Some (p_id (fc_period f)))) (\<lambda>_.
             ret f))))))"

definition reopenPeriod ::
  "'s costing_repository \<Rightarrow> costing_env \<Rightarrow> ident \<Rightarrow> string \<Rightarrow> string \<Rightarrow> ('s, DriverFundPeriod) service" where
  "reopenPeriod R env periodId reasonText actor =
     bnd (requirePeriod R periodId) (\<lambda>period.
     bnd (transition R env period REOPENED actor (Some reasonText)) (\<lambda>reopened.
     bnd (audit_append actor ''transport.costing.period.reopen'' ''TransportDriverFundPeriod'' (Some (p_id reopened))) (\<lambda>_.
       ret reopened)))"

definition fundPeriods ::
  "'s costing_repository \<Rightarrow> costing_env \<Rightarrow> ident \<Rightarrow> ('s, DriverFundPeriod list) service" where
  "fundPeriods R env driverId =
     bnd (lift (requireDriverFacts (core env) driverId)) (\<lambda>_.
     bnd (on_store (findAccountByDriver R driverId)) (\<lambda>account.
       case account of None \<Rightarrow> ret [] | Some a \<Rightarrow> on_store (listPeriods R (acc_id a))))"

definition fundSnapshots :: "'s costing_repository \<Rightarrow> ident \<Rightarrow> ('s, FundPeriodSnapshot list) service" where
  "fundSnapshots R periodId =
     bnd (requirePeriod R periodId) (\<lambda>_. on_store (listSnapshots R periodId))"

end
