(* ===== verification/RunExpenseService.thy ===== *)
theory RunExpenseService imports CostingService begin

text \<open>
  \<open>costing/run-expense.service.ts\<close> with the ports of \<open>costing-run-context.port.ts\<close>: an expense paid for a
  vehicle run instead of a trip. Two requests with one key may both find no replay before either
  has posted; what the other requests do in that gap is the argument \<open>others\<close>.
\<close>

record CostingRunFacts =
  rf_id :: ident
  rf_code :: string
  rf_vehicleId :: ident

record CostingLegFacts =
  lf_id :: ident
  lf_runId :: ident
  lf_sequence :: nat

record run_assignment =
  ra_driverId :: ident

text \<open>The adapter over the movement repository, which keeps runs, legs and assignment histories.\<close>

record movement_store =
  mv_findRun :: "ident \<Rightarrow> CostingRunFacts option"
  mv_findLeg :: "ident \<Rightarrow> CostingLegFacts option"
  mv_listRunAssignments :: "ident \<Rightarrow> run_assignment list"

definition findRun :: "movement_store \<Rightarrow> ident \<Rightarrow> CostingRunFacts option" where
  "findRun m runId =
     map_option (\<lambda>r. \<lparr>rf_id = rf_id r, rf_code = rf_code r, rf_vehicleId = rf_vehicleId r\<rparr>) (mv_findRun m runId)"

definition findLeg :: "movement_store \<Rightarrow> ident \<Rightarrow> CostingLegFacts option" where
  "findLeg m legId =
     map_option (\<lambda>l. \<lparr>lf_id = lf_id l, lf_runId = lf_runId l, lf_sequence = lf_sequence l\<rparr>) (mv_findLeg m legId)"

definition wasDriverEverAssignedToRun :: "movement_store \<Rightarrow> ident \<Rightarrow> ident \<Rightarrow> bool" where
  "wasDriverEverAssignedToRun m runId driverId =
     list_ex (\<lambda>a. ra_driverId a = driverId) (mv_listRunAssignments m runId)"

record RecordRunExpenseCommand =
  rc_driverId :: ident
  rc_runId :: ident
  rc_legId :: "ident option"
  rc_amount :: jsnum
  rc_businessDate :: "string option"
  rc_note :: "string option"
  rc_correlationKey :: string

definition denyRunExpense :: "reason \<Rightarrow> js_error" where
  "denyRunExpense r = (if r = ''RUN_EXPENSE_RUN_NOT_FOUND'' then notFound r else denied r)"

text \<open>An existing row under the key is a replay only when it is the same event by the same driver.\<close>

definition replayOf ::
  "'s costing_repository \<Rightarrow> string \<Rightarrow> ident \<Rightarrow> (ident \<Rightarrow> FundEntryIdentity) \<Rightarrow> ('s, DriverFundEntry option) service" where
  "replayOf R key driverId incoming =
     bnd (on_store (findEntryByCorrelation R key)) (\<lambda>existing.
     bnd (on_store (findExpenseByCorrelation R key)) (\<lambda>expense.
       if existing = None \<and> expense = None then ret None
       else
         bnd (if existing \<noteq> None then on_store (findAccountByDriver R driverId) else ret None) (\<lambda>account.
           let isSameEvent = (case (existing, account) of
                 (Some e, Some a) \<Rightarrow> isSameFundEntry (fundEntryIdentityOf e) (incoming (acc_id a))
               | _ \<Rightarrow> False)
           in if expense \<noteq> None \<or> existing = None \<or> \<not> isSameEvent
              then throw (conflict ''CORRELATION_KEY_REUSED'') else ret existing)))"

definition requireRunContext ::
  "movement_store \<Rightarrow> RecordRunExpenseCommand \<Rightarrow> js_error + CostingRunFacts" where
  "requireRunContext m command =
     (case findRun m (rc_runId command) of
        None \<Rightarrow> Inl (denyRunExpense ''RUN_EXPENSE_RUN_NOT_FOUND'')
      | Some run \<Rightarrow>
          rbind (case rc_legId command of
                   None \<Rightarrow> Inr ()
                 | Some l \<Rightarrow>
                     (case findLeg m l of
                        None \<Rightarrow> Inl (denyRunExpense ''RUN_EXPENSE_LEG_NOT_IN_RUN'')
                      | Some leg \<Rightarrow> if lf_runId leg \<noteq> rf_id run
                          then Inl (denyRunExpense ''RUN_EXPENSE_LEG_NOT_IN_RUN'') else Inr ()))
            (\<lambda>_. if \<not> wasDriverEverAssignedToRun m (rf_id run) (rc_driverId command)
                 then Inl (denyRunExpense ''RUN_EXPENSE_DRIVER_NOT_ASSIGNED'') else Inr run))"

definition run_expense_identity ::
  "RecordRunExpenseCommand \<Rightarrow> int \<Rightarrow> business_date \<Rightarrow> ident \<Rightarrow> ident \<Rightarrow> FundEntryIdentity" where
  "run_expense_identity command signed d runId accountId =
     fundEntryIdentity accountId RUN_EXPENSE signed d None (Some runId) (rc_legId command) (rc_note command)"

definition run_expense_input ::
  "RecordRunExpenseCommand \<Rightarrow> int \<Rightarrow> business_date \<Rightarrow> ident \<Rightarrow> ident \<Rightarrow> timestamp \<Rightarrow> string \<Rightarrow> CorrelatedPostingInput" where
  "run_expense_input command signed d runId accountId now actor =
     \<lparr>in_correlationKey = rc_correlationKey command, in_at = now,
      in_entry = Some \<lparr>pe_accountId = accountId, pe_kind = RUN_EXPENSE, pe_signedAmount = signed,
        pe_businessDate = d, pe_tripId = None, pe_runId = Some runId, pe_legId = rc_legId command,
        pe_reversalOfId = None, pe_note = rc_note command, pe_recordedBy = actor\<rparr>,
      in_expense = None,
      in_periodGuard = Some \<lparr>g_accountId = accountId, g_businessDate = d\<rparr>\<rparr>"

definition isCorrelationConflict :: "js_error \<Rightarrow> bool" where
  "isCorrelationConflict e =
     (case e of TransportDomainError k r \<Rightarrow> r = ''CORRELATION_KEY_REUSED'' | _ \<Rightarrow> False)"

definition postRunExpense ::
  "'s costing_repository \<Rightarrow> (ident \<Rightarrow> FundEntryIdentity) \<Rightarrow> RecordRunExpenseCommand \<Rightarrow> CorrelatedPostingInput \<Rightarrow>
   string \<Rightarrow> ('s, DriverFundEntry \<times> bool) service" where
  "postRunExpense R incoming command inp actor w =
     (case on_store (post R inp) w of
        (Inr posted, w') \<Rightarrow>
          (case cp_entry posted of
             None \<Rightarrow> throw PlainError w'
           | Some entry \<Rightarrow>
               bnd (audit_append actor ''transport.costing.driver_fund.run_expense''
                      ''TransportDriverFundEntry'' (Some (e_id entry))) (\<lambda>_. ret (entry, False)) w')
      | (Inl (FundPeriodFrozenError p), w') \<Rightarrow> throw (denyRunExpense ''RUN_EXPENSE_PERIOD_FROZEN'') w'
      | (Inl e, w') \<Rightarrow>
          if \<not> isCorrelationConflict e then throw e w'
          else bnd (replayOf R (rc_correlationKey command) (rc_driverId command) incoming) (\<lambda>converged.
                 case converged of None \<Rightarrow> throw e | Some entry \<Rightarrow> ret (entry, True)) w')"

definition recordRunExpense ::
  "'s costing_repository \<Rightarrow> costing_env \<Rightarrow> movement_store \<Rightarrow> ('s \<Rightarrow> 's) \<Rightarrow> RecordRunExpenseCommand \<Rightarrow> string \<Rightarrow>
   ('s, DriverFundEntry \<times> bool) service" where
  "recordRunExpense R env m others command actor =
     bnd (lift (resolveCostingBusinessDate (intl env) (rc_businessDate command) (clock env) (timeZone env))) (\<lambda>d.
     bnd (lift (requireNonNegativeAmount (rc_amount command))) (\<lambda>magnitude.
     bnd (lift (mapLedgerError (amount_of (rbind (signedAmountFor RUN_EXPENSE (num_of_int magnitude))
            (\<lambda>v. assertLedgerSign RUN_EXPENSE (num_of_int (amount v))))))) (\<lambda>signed.
     bnd (lift (requireDriverFacts (core env) (rc_driverId command))) (\<lambda>_.
     bnd (lift (requireRunContext m command)) (\<lambda>run.
     let incoming = run_expense_identity command signed d (rf_id run) in
     bnd (replayOf R (rc_correlationKey command) (rc_driverId command) incoming) (\<lambda>replay.
       case replay of
         Some existing \<Rightarrow> ret (existing, True)
       | None \<Rightarrow>
           bnd (on_store (ensureAccount R (rc_driverId command) (clock env))) (\<lambda>account w.
             postRunExpense R incoming command
               (run_expense_input command signed d (rf_id run) (acc_id account) (clock env) actor) actor
               (w\<lparr>w_store := others (w_store w)\<rparr>))))))))"

end
