(* ===== verification/CostingLedger.thy ===== *)
theory CostingLedger imports FundPeriodService RunExpenseService CostingReadService begin

text \<open>
  What the costing commands do to the two ledgers. An abstract posting is one of three kinds of event
  (a fund movement, a trip expense with its fund leg, the reversal of an earlier event); \<open>ledger_ok\<close> is
  the invariant of the ledgers. Inside the contract \<open>costing_ledger\<close> every command is shown to be
  either quiet on the ledgers or one admissible posting, and everything else follows from that.
\<close>

section \<open>The three events\<close>

definition movement_event :: "CorrelatedPostingInput \<Rightarrow> bool" where
  "movement_event i \<longleftrightarrow>
     (\<exists>r. in_entry i = Some r \<and> in_expense i = None \<and> pe_kind r \<notin> {TRIP_EXPENSE, REVERSAL} \<and>
        sign_ok (pe_kind r) (pe_signedAmount r) \<and> valid_amount (pe_signedAmount r) \<and>
        pe_reversalOfId r = None)"

definition expense_event :: "CorrelatedPostingInput \<Rightarrow> bool" where
  "expense_event i \<longleftrightarrow>
     (\<exists>x. in_expense i = Some x \<and> px_kind x = EXPENSE \<and> 0 < px_signedAmount x \<and>
        valid_amount (px_signedAmount x) \<and> px_reversalOfId x = None \<and>
        (case in_entry i of
           None \<Rightarrow> px_fundedBy x = COMPANY_DIRECT
         | Some r \<Rightarrow> px_fundedBy x = DRIVER_FUND \<and> pe_kind r = TRIP_EXPENSE \<and>
             pe_signedAmount r = - px_signedAmount x \<and> pe_businessDate r = px_businessDate x \<and>
             pe_tripId r = Some (px_tripId x) \<and> pe_reversalOfId r = None))"

definition negated :: "('a \<Rightarrow> int) \<Rightarrow> 'a option \<Rightarrow> int" where
  "negated f v = (case v of None \<Rightarrow> 0 | Some a \<Rightarrow> - f a)"

definition reversal_event :: "DriverFundEntry list \<Rightarrow> TripExpense list \<Rightarrow> CorrelatedPostingInput \<Rightarrow> bool" where
  "reversal_event es xs i \<longleftrightarrow>
     (\<exists>k why now actor.
        let eo = List.find (\<lambda>e. e_correlationKey e = k) es;
            xo = List.find (\<lambda>x. x_correlationKey x = k) xs
        in (eo \<noteq> None \<or> xo \<noteq> None) \<and>
           (\<forall>e. eo = Some e \<longrightarrow> e_kind e \<noteq> REVERSAL \<and> (\<forall>e' \<in> set es. e_reversalOfId e' \<noteq> Some (e_id e))) \<and>
           (\<forall>x. xo = Some x \<longrightarrow> x_kind x = EXPENSE \<and> (\<forall>x' \<in> set xs. x_reversalOfId x' \<noteq> Some (x_id x))) \<and>
           i = reversal_input eo xo (negated e_signedAmount eo) (negated x_signedAmount xo) k why now actor)"

text \<open>Every event is guarded by the period of the fund entry it writes, if it writes one.\<close>

definition entry_guard :: "CorrelatedPostingInput \<Rightarrow> FundPeriodWriteGuard option" where
  "entry_guard i =
     map_option (\<lambda>r. \<lparr>g_accountId = pe_accountId r, g_businessDate = pe_businessDate r\<rparr>) (in_entry i)"

definition admissible :: "DriverFundEntry list \<Rightarrow> TripExpense list \<Rightarrow> CorrelatedPostingInput \<Rightarrow> bool" where
  "admissible es xs i \<longleftrightarrow>
     in_periodGuard i = entry_guard i \<and> (movement_event i \<or> expense_event i \<or> reversal_event es xs i)"

section \<open>The ledger invariant\<close>

definition reverses_entry :: "DriverFundEntry \<Rightarrow> DriverFundEntry \<Rightarrow> bool" where
  "reverses_entry e original \<longleftrightarrow>
     e_reversalOfId e = Some (e_id original) \<and> e_kind original \<noteq> REVERSAL \<and>
     e_signedAmount e = - e_signedAmount original \<and> e_accountId e = e_accountId original \<and>
     e_businessDate e = e_businessDate original \<and> e_tripId e = e_tripId original \<and>
     e_runId e = e_runId original \<and> e_legId e = e_legId original \<and>
     e_correlationKey e = e_correlationKey original @ '':reversal''"

definition reverses_expense :: "TripExpense \<Rightarrow> TripExpense \<Rightarrow> bool" where
  "reverses_expense x original \<longleftrightarrow>
     x_reversalOfId x = Some (x_id original) \<and> x_kind original = EXPENSE \<and>
     x_signedAmount x = - x_signedAmount original \<and> x_tripId x = x_tripId original \<and>
     x_businessDate x = x_businessDate original \<and> x_fundedBy x = x_fundedBy original \<and>
     x_correlationKey x = x_correlationKey original @ '':reversal''"

definition entry_ok :: "DriverFundEntry set \<Rightarrow> DriverFundEntry \<Rightarrow> bool" where
  "entry_ok es e \<longleftrightarrow>
     sign_ok (e_kind e) (e_signedAmount e) \<and> valid_amount (e_signedAmount e) \<and>
     (if e_kind e = REVERSAL then \<exists>original \<in> es. reverses_entry e original
      else e_reversalOfId e = None)"

definition expense_ok :: "DriverFundEntry set \<Rightarrow> TripExpense set \<Rightarrow> TripExpense \<Rightarrow> bool" where
  "expense_ok es xs x \<longleftrightarrow>
     valid_amount (x_signedAmount x) \<and>
     (case x_kind x of
        EXPENSE \<Rightarrow> 0 < x_signedAmount x \<and> x_reversalOfId x = None
      | EXPENSE_REVERSAL \<Rightarrow> \<exists>original \<in> xs. reverses_expense x original) \<and>
     (x_fundedBy x = DRIVER_FUND \<longrightarrow>
        (\<exists>e \<in> es. x_driverFundEntryId x = Some (e_id e) \<and> e_correlationKey e = x_correlationKey x \<and>
           e_signedAmount e = - x_signedAmount x \<and> e_businessDate e = x_businessDate x \<and>
           e_tripId e = Some (x_tripId x)))"

definition ledger_ok :: "DriverFundEntry list \<Rightarrow> TripExpense list \<Rightarrow> bool" where
  "ledger_ok es xs \<longleftrightarrow>
     distinct (map e_correlationKey es) \<and> distinct (map x_correlationKey xs) \<and>
     (\<forall>e \<in> set es. entry_ok (set es) e) \<and> (\<forall>x \<in> set xs. expense_ok (set es) (set xs) x) \<and>
     distinct (filter (\<lambda>r. r \<noteq> None) (map e_reversalOfId es)) \<and>
     distinct (filter (\<lambda>r. r \<noteq> None) (map x_reversalOfId xs))"

lemma ledger_ok_empty: "ledger_ok [] []"
  by (simp add: ledger_ok_def)

lemma entry_ok_mono: "entry_ok es e \<Longrightarrow> es \<subseteq> es' \<Longrightarrow> entry_ok es' e"
  by (auto simp: entry_ok_def split: if_splits)

lemma expense_ok_mono: "expense_ok es xs x \<Longrightarrow> es \<subseteq> es' \<Longrightarrow> xs \<subseteq> xs' \<Longrightarrow> expense_ok es' xs' x"
  unfolding expense_ok_def by (cases "x_kind x"; fastforce)

text \<open>What one posting adds, as the two rows of its event.\<close>

abbreviation new_entries :: "CorrelatedPostingInput \<Rightarrow> ident \<Rightarrow> DriverFundEntry list" where
  "new_entries i ei \<equiv> opt_list (cp_entry (posted_rows i ei ei))"

lemma cp_entry_posted [simp]:
  "cp_entry (posted_rows i ei xi) = map_option (\<lambda>r. entry_row r (in_correlationKey i) (in_at i) ei) (in_entry i)"
  by (simp add: posted_rows_def)

lemma cp_expense_posted [simp]:
  "cp_expense (posted_rows i ei xi) =
     map_option (\<lambda>r. expense_row r (in_correlationKey i) (in_at i) xi
       (map_option (\<lambda>_. ei) (in_entry i))) (in_expense i)"
  by (simp add: posted_rows_def)

lemma entry_row_sel [simp]:
  "e_accountId (entry_row r k t i) = pe_accountId r" "e_kind (entry_row r k t i) = pe_kind r"
  "e_signedAmount (entry_row r k t i) = pe_signedAmount r"
  "e_businessDate (entry_row r k t i) = pe_businessDate r" "e_tripId (entry_row r k t i) = pe_tripId r"
  "e_runId (entry_row r k t i) = pe_runId r" "e_legId (entry_row r k t i) = pe_legId r"
  "e_reversalOfId (entry_row r k t i) = pe_reversalOfId r" "e_note (entry_row r k t i) = pe_note r"
  by (simp_all add: entry_row_def)

lemma expense_row_sel [simp]:
  "x_tripId (expense_row r k t i e) = px_tripId r" "x_kind (expense_row r k t i e) = px_kind r"
  "x_categoryCode (expense_row r k t i e) = px_categoryCode r"
  "x_signedAmount (expense_row r k t i e) = px_signedAmount r"
  "x_businessDate (expense_row r k t i e) = px_businessDate r"
  "x_fundedBy (expense_row r k t i e) = px_fundedBy r"
  "x_driverFundEntryId (expense_row r k t i e) = e" "x_driverId (expense_row r k t i e) = px_driverId r"
  "x_reversalOfId (expense_row r k t i e) = px_reversalOfId r"
  "x_evidenceLocator (expense_row r k t i e) = px_evidenceLocator r"
  "x_note (expense_row r k t i e) = px_note r"
  by (simp_all add: expense_row_def)

lemma reversal_input_sel [simp]:
  "in_correlationKey (reversal_input eo xo ea xa k why now actor) = k @ '':reversal''"
  "in_at (reversal_input eo xo ea xa k why now actor) = now"
  "in_entry (reversal_input eo xo ea xa k why now actor) = map_option (\<lambda>e. \<lparr>pe_accountId = e_accountId e,
     pe_kind = REVERSAL, pe_signedAmount = ea, pe_businessDate = e_businessDate e, pe_tripId = e_tripId e,
     pe_runId = e_runId e, pe_legId = e_legId e, pe_reversalOfId = Some (e_id e), pe_note = Some why,
     pe_recordedBy = actor\<rparr>) eo"
  "in_expense (reversal_input eo xo ea xa k why now actor) = map_option (\<lambda>x. \<lparr>px_tripId = x_tripId x,
     px_kind = EXPENSE_REVERSAL, px_categoryCode = x_categoryCode x, px_signedAmount = xa,
     px_businessDate = x_businessDate x, px_fundedBy = x_fundedBy x, px_driverId = x_driverId x,
     px_reversalOfId = Some (x_id x), px_evidenceLocator = None, px_note = Some why,
     px_recordedBy = actor\<rparr>) xo"
  "in_periodGuard (reversal_input eo xo ea xa k why now actor) =
     map_option (\<lambda>e. \<lparr>g_accountId = e_accountId e, g_businessDate = e_businessDate e\<rparr>) eo"
  by (simp_all add: reversal_input_def)

lemma negated_simps [simp]: "negated f None = 0" "negated f (Some a) = - f a"
  by (simp_all add: negated_def)

section \<open>Postings keep the invariant\<close>

lemma ledger_ok_append:
  assumes ok: "ledger_ok es xs"
    and ke: "\<And>e. e \<in> set es' \<Longrightarrow> e_correlationKey e \<notin> e_correlationKey ` set es"
    and kx: "\<And>x. x \<in> set xs' \<Longrightarrow> x_correlationKey x \<notin> x_correlationKey ` set xs"
    and one: "length es' \<le> 1" "length xs' \<le> 1"
    and eo: "\<And>e. e \<in> set es' \<Longrightarrow> entry_ok (set es \<union> set es') e"
    and xo: "\<And>x. x \<in> set xs' \<Longrightarrow> expense_ok (set es \<union> set es') (set xs \<union> set xs') x"
    and re: "\<And>e i. e \<in> set es' \<Longrightarrow> e_reversalOfId e = Some i \<Longrightarrow> Some i \<notin> e_reversalOfId ` set es"
    and rx: "\<And>x i. x \<in> set xs' \<Longrightarrow> x_reversalOfId x = Some i \<Longrightarrow> Some i \<notin> x_reversalOfId ` set xs"
  shows "ledger_ok (es @ es') (xs @ xs')"
proof -
  have old: "entry_ok (set es \<union> set es') e" if "e \<in> set es" for e
    using ok that entry_ok_mono [of "set es" e "set es \<union> set es'"] by (auto simp: ledger_ok_def)
  have oldx: "expense_ok (set es \<union> set es') (set xs \<union> set xs') x" if "x \<in> set xs" for x
    using ok that expense_ok_mono [of "set es" "set xs" x "set es \<union> set es'" "set xs \<union> set xs'"]
    by (auto simp: ledger_ok_def)
  have "distinct (map e_correlationKey (es @ es'))"
    using ok by (intro distinct_map_append_one one ke) (simp add: ledger_ok_def)
  moreover have "distinct (map x_correlationKey (xs @ xs'))"
    using ok by (intro distinct_map_append_one one kx) (simp add: ledger_ok_def)
  moreover have "distinct (filter (\<lambda>r. r \<noteq> None) (map e_reversalOfId (es @ es')))"
    by (intro distinct_somes_append_one one re) (use ok in \<open>simp add: ledger_ok_def\<close>)
  moreover have "distinct (filter (\<lambda>r. r \<noteq> None) (map x_reversalOfId (xs @ xs')))"
    by (intro distinct_somes_append_one one rx) (use ok in \<open>simp add: ledger_ok_def\<close>)
  ultimately show ?thesis
    using old oldx eo xo by (auto simp: ledger_ok_def)
qed

lemma fresh_keys:
  assumes "\<not> key_taken es xs i"
  shows "e \<in> set (opt_list (cp_entry (posted_rows i ei xi))) \<Longrightarrow> e_correlationKey e \<notin> e_correlationKey ` set es"
    and "x \<in> set (opt_list (cp_expense (posted_rows i ei xi))) \<Longrightarrow> x_correlationKey x \<notin> x_correlationKey ` set xs"
  using assms by (auto simp: key_taken_def list_ex_iff)

lemma opt_list_length: "length (opt_list v) \<le> 1"
  by (cases v) simp_all

lemma sign_ok_REVERSAL [simp]: "sign_ok REVERSAL v"
  by (simp add: sign_ok_def)

lemma sign_ok_TRIP_EXPENSE [simp]: "sign_ok TRIP_EXPENSE v \<longleftrightarrow> v \<le> 0"
  by (simp add: sign_ok_def)

lemma ledger_ok_movement:
  assumes "ledger_ok es xs" "movement_event i" "\<not> key_taken es xs i"
  shows "ledger_ok (es @ opt_list (cp_entry (posted_rows i ei xi))) (xs @ opt_list (cp_expense (posted_rows i ei xi)))"
  using assms(2) fresh_keys [OF assms(3), of _ ei xi]
  by (intro ledger_ok_append [OF assms(1)] opt_list_length)
    (auto simp: movement_event_def entry_ok_def)

lemma ledger_ok_expense:
  assumes "ledger_ok es xs" "expense_event i" "\<not> key_taken es xs i"
  shows "ledger_ok (es @ opt_list (cp_entry (posted_rows i ei xi))) (xs @ opt_list (cp_expense (posted_rows i ei xi)))"
  using assms(2) fresh_keys [OF assms(3), of _ ei xi]
  by (intro ledger_ok_append [OF assms(1)] opt_list_length)
    (auto simp: expense_event_def entry_ok_def expense_ok_def split: option.splits)

lemma find_key_unique:
  assumes "distinct (map k ys)" "y \<in> set ys" "k y = v"
  shows "List.find (\<lambda>y. k y = v) ys = Some y"
  using find_distinct_key [OF assms(1,2)] assms(3) by simp

lemma reversal_keeps_pair:
  assumes ok: "ledger_ok es xs" and x: "List.find (\<lambda>x. x_correlationKey x = k) xs = Some x"
    and fund: "x_fundedBy x = DRIVER_FUND"
  obtains e where "List.find (\<lambda>e. e_correlationKey e = k) es = Some e" "e \<in> set es"
    "e_signedAmount e = - x_signedAmount x" "e_businessDate e = x_businessDate x"
    "e_tripId e = Some (x_tripId x)"
proof -
  from x have "x \<in> set xs" and k: "x_correlationKey x = k" by (auto dest: find_SomeD)
  with ok fund obtain e where e: "e \<in> set es" "e_correlationKey e = k"
      "e_signedAmount e = - x_signedAmount x" "e_businessDate e = x_businessDate x"
      "e_tripId e = Some (x_tripId x)"
    by (auto simp: ledger_ok_def expense_ok_def)
  from ok have "distinct (map e_correlationKey es)" by (simp add: ledger_ok_def)
  from find_key_unique [OF this e(1,2)] that e show ?thesis by blast
qed

lemma ledger_ok_reversal:
  assumes ok: "ledger_ok es xs" and ev: "reversal_event es xs i" and nk: "\<not> key_taken es xs i"
  shows "ledger_ok (es @ opt_list (cp_entry (posted_rows i ei xi))) (xs @ opt_list (cp_expense (posted_rows i ei xi)))"
proof -
  obtain k why now actor where i:
      "i = reversal_input (List.find (\<lambda>e. e_correlationKey e = k) es)
         (List.find (\<lambda>x. x_correlationKey x = k) xs)
         (negated e_signedAmount (List.find (\<lambda>e. e_correlationKey e = k) es))
         (negated x_signedAmount (List.find (\<lambda>x. x_correlationKey x = k) xs)) k why now actor"
    and eo: "\<And>e. List.find (\<lambda>e. e_correlationKey e = k) es = Some e \<Longrightarrow>
        e_kind e \<noteq> REVERSAL \<and> (\<forall>e' \<in> set es. e_reversalOfId e' \<noteq> Some (e_id e))"
    and xo: "\<And>x. List.find (\<lambda>x. x_correlationKey x = k) xs = Some x \<Longrightarrow>
        x_kind x = EXPENSE \<and> (\<forall>x' \<in> set xs. x_reversalOfId x' \<noteq> Some (x_id x))"
    using ev unfolding reversal_event_def Let_def by blast
  let ?E = "opt_list (cp_entry (posted_rows i ei xi))" and ?X = "opt_list (cp_expense (posted_rows i ei xi))"
  show ?thesis
  proof (rule ledger_ok_append [OF ok])
    fix e assume e: "e \<in> set ?E"
    then obtain o' where o: "List.find (\<lambda>e. e_correlationKey e = k) es = Some o'"
      by (auto simp: i)
    from find_SomeD [OF o] have o': "o' \<in> set es" "e_correlationKey o' = k" by auto
    from ok o'(1) have "valid_amount (e_signedAmount o')" by (auto simp: ledger_ok_def entry_ok_def)
    with e o o' eo [OF o] show "entry_ok (set es \<union> set ?E) e"
      by (auto simp: i entry_ok_def reverses_entry_def)
    from e o eo [OF o] show "e_reversalOfId e = Some j \<Longrightarrow> Some j \<notin> e_reversalOfId ` set es" for j
      by (auto simp: i)
  next
    fix x assume x: "x \<in> set ?X"
    then obtain o' where o: "List.find (\<lambda>x. x_correlationKey x = k) xs = Some o'"
      by (auto simp: i)
    from find_SomeD [OF o] have o': "o' \<in> set xs" "x_correlationKey o' = k" by auto
    from ok o'(1) have v: "valid_amount (x_signedAmount o')" by (auto simp: ledger_ok_def expense_ok_def)
    show "expense_ok (set es \<union> set ?E) (set xs \<union> set ?X) x"
    proof (cases "x_fundedBy o' = DRIVER_FUND")
      case True
      from reversal_keeps_pair [OF ok o True] obtain e where
          "List.find (\<lambda>e. e_correlationKey e = k) es = Some e"
          "e_signedAmount e = - x_signedAmount o'" "e_businessDate e = x_businessDate o'"
          "e_tripId e = Some (x_tripId o')" by blast
      with x o o' v xo [OF o] show ?thesis
        by (auto simp: i expense_ok_def reverses_expense_def)
    next
      case False
      with x o o' v xo [OF o] show ?thesis by (auto simp: i expense_ok_def reverses_expense_def)
    qed
    from x o xo [OF o] show "x_reversalOfId x = Some j \<Longrightarrow> Some j \<notin> x_reversalOfId ` set xs" for j
      by (auto simp: i)
  qed (use fresh_keys [OF nk] opt_list_length in blast)+
qed

lemma ledger_ok_admissible:
  assumes "ledger_ok es xs" "admissible es xs i" "\<not> key_taken es xs i"
  shows "ledger_ok (es @ opt_list (cp_entry (posted_rows i ei xi))) (xs @ opt_list (cp_expense (posted_rows i ei xi)))"
  using assms(2) unfolding admissible_def
  by (elim conjE disjE ledger_ok_movement [OF assms(1) _ assms(3)]
      ledger_ok_expense [OF assms(1) _ assms(3)] ledger_ok_reversal [OF assms(1) _ assms(3)])

section \<open>The abstract ledger\<close>

text \<open>
  The abstract machine the costing commands implement: its state is the two ledgers, the periods and their snapshots,
  its only move is an admissible posting that no frozen period and no earlier row of its key stops.
\<close>

type_synonym ledgers = "DriverFundEntry list \<times> TripExpense list \<times> DriverFundPeriod list \<times> FundPeriodSnapshot list"

inductive ledger_step :: "ledgers \<Rightarrow> ledgers \<Rightarrow> bool" where
  quiet: "ledger_step v v"
| posting: "admissible es xs i \<Longrightarrow> frozen_under ps (in_periodGuard i) = None \<Longrightarrow> \<not> key_taken es xs i \<Longrightarrow>
    ledger_step (es, xs, ps, ss) (es @ opt_list (cp_entry (posted_rows i ei xi)),
      xs @ opt_list (cp_expense (posted_rows i ei xi)), ps, ss)"

inductive_cases ledger_stepE: "ledger_step v v'"

lemma ledger_step_cases:
  assumes "ledger_step (es, xs, ps, ss) (es', xs', ps', ss')"
  obtains (quiet) "es' = es" "xs' = xs" "ps' = ps" "ss' = ss"
  | (posting) i ei xi where "admissible es xs i" "frozen_under ps (in_periodGuard i) = None"
      "\<not> key_taken es xs i" "es' = es @ opt_list (cp_entry (posted_rows i ei xi))"
      "xs' = xs @ opt_list (cp_expense (posted_rows i ei xi))" "ps' = ps" "ss' = ss"
  using assms
proof (cases rule: ledger_step.cases)
  case (posting i ei xi)
  show ?thesis by (rule that(2)) (fact posting)+
qed (use that(1) in blast)

lemma ledger_step_appends:
  assumes "ledger_step (es, xs, ps, ss) (es', xs', ps', ss')"
  shows "\<exists>new newx. es' = es @ new \<and> xs' = xs @ newx \<and> length new \<le> 1 \<and> length newx \<le> 1 \<and> ps' = ps \<and> ss' = ss"
  using assms
proof (cases rule: ledger_step_cases)
  case (posting i ei xi)
  show ?thesis by (intro exI conjI) (fact posting opt_list_length)+
qed auto

lemma ledger_step_ok:
  assumes "ledger_step (es, xs, ps, ss) (es', xs', ps', ss')" "ledger_ok es xs"
  shows "ledger_ok es' xs'"
  using assms(1)
proof (cases rule: ledger_step_cases)
  case (posting i ei xi)
  with ledger_ok_admissible [OF assms(2)] show ?thesis by blast
qed (use assms(2) in simp)

lemma ledger_step_frozen:
  assumes "ledger_step (es, xs, ps, ss) (es @ new, xs', ps', ss')" "e \<in> set new" "p \<in> set ps"
    "p_accountId p = e_accountId e" "periodCovers (range_of p) (e_businessDate e)"
  shows "\<not> isFrozenFundPeriod (p_status p)"
  using assms(1)
proof (cases rule: ledger_step_cases)
  case quiet
  with assms(2) show ?thesis by simp
next
  case (posting i ei xi)
  with assms(2) obtain r where r: "in_entry i = Some r" "e = entry_row r (in_correlationKey i) (in_at i) ei"
    by auto
  from posting r have "in_periodGuard i = Some \<lparr>g_accountId = pe_accountId r, g_businessDate = pe_businessDate r\<rparr>"
    by (simp add: admissible_def entry_guard_def)
  with posting r assms(3-5) show ?thesis
    by (auto simp: frozen_under_def find_None_iff_ball)
qed

section \<open>Commands that implement it\<close>

definition calm_at :: "('s \<Rightarrow> bool) \<Rightarrow> ('s \<Rightarrow> ledgers) \<Rightarrow> ('s, 'a) service \<Rightarrow> 's costing_world \<Rightarrow> bool" where
  "calm_at I V m w \<longleftrightarrow> (I (w_store w) \<longrightarrow>
     I (w_store (snd (m w))) \<and> V (w_store (snd (m w))) = V (w_store w))"

definition refines_at :: "('s \<Rightarrow> bool) \<Rightarrow> ('s \<Rightarrow> ledgers) \<Rightarrow> ('s, 'a) service \<Rightarrow> 's costing_world \<Rightarrow> bool" where
  "refines_at I V m w \<longleftrightarrow> (I (w_store w) \<longrightarrow>
     I (w_store (snd (m w))) \<and> ledger_step (V (w_store w)) (V (w_store (snd (m w)))))"

lemma refines_cong: "m w = m' w \<Longrightarrow> refines_at I V m' w \<Longrightarrow> refines_at I V m w"
  by (simp add: refines_at_def)

lemma refines_calm: "calm_at I V m w \<Longrightarrow> refines_at I V m w"
  by (auto simp: calm_at_def refines_at_def intro: quiet)

lemma calm_pure [simp]:
  "calm_at I V (lift r) w" "calm_at I V (ret a) w" "calm_at I V (throw e) w"
  "calm_at I V (audit_append actor action ty i) w" "calm_at I V newCorrelationKey w"
  "calm_at I V (correlation_key k) w"
  by (simp_all add: calm_at_def step_simps audit_append_def newCorrelationKey_def correlation_key_def
      split: option.split)

lemma calm_bnd:
  assumes "calm_at I V m w" "\<And>a w'. m w = (Inr a, w') \<Longrightarrow> calm_at I V (f a) w'"
  shows "calm_at I V (bnd m f) w"
  using assms by (cases "m w"; cases "fst (m w)") (auto simp: calm_at_def bnd_eq)

lemma refines_bnd:
  assumes "calm_at I V m w" "\<And>a w'. m w = (Inr a, w') \<Longrightarrow> refines_at I V (f a) w'"
  shows "refines_at I V (bnd m f) w"
  using assms by (cases "m w"; cases "fst (m w)") (auto simp: calm_at_def refines_at_def bnd_eq intro: quiet)

lemma refines_bnd_after:
  assumes "refines_at I V m w" "\<And>a w'. calm_at I V (f a) w'"
  shows "refines_at I V (bnd m f) w"
proof (cases "m w")
  case (Pair r w')
  with assms show ?thesis
    by (cases r) (auto simp: calm_at_def refines_at_def bnd_eq)
qed

lemmas refines_lift = refines_bnd [where m = "lift _", simplified, unfolded lift_Inr_iff]

lemma amount_of_Inr: "amount_of r = Inr v \<longleftrightarrow> (\<exists>m. r = Inr m \<and> v = amount m)"
  by (auto simp: amount_of_def rbind_Inr_iff)

lemma mapLedgerError_Inr: "mapLedgerError r = Inr v \<longleftrightarrow> r = Inr v"
  by (auto simp: mapLedgerError_def split: sum.splits js_error.splits)

lemma requireMagnitude_ok:
  "requireMagnitude kind x = Inr v \<Longrightarrow> sign_ok kind v \<and> valid_amount v"
  by (auto simp: requireMagnitude_def mapLedgerError_Inr amount_of_Inr dest: signedAmountFor_sign_ok)

lemma requireLedgerSign_ok:
  "requireLedgerSign kind x = Inr v \<Longrightarrow> sign_ok kind v \<and> valid_amount v"
  by (auto simp: requireLedgerSign_def mapLedgerError_Inr amount_of_Inr assertLedgerSign_Inr)

lemma movement_input_admissible:
  assumes "kind \<notin> {TRIP_EXPENSE, REVERSAL}" "sign_ok kind v" "valid_amount v"
  shows "admissible es xs (movement_input kind v acc d input key now actor)"
  using assms by (simp add: admissible_def movement_event_def movement_input_def entry_guard_def)

lemma run_expense_input_admissible:
  assumes "sign_ok RUN_EXPENSE v" "valid_amount v"
  shows "admissible es xs (run_expense_input command v d r acc now actor)"
  using assms by (simp add: admissible_def movement_event_def run_expense_input_def entry_guard_def)

lemma trip_expense_input_admissible:
  assumes "amount_of (assertExpenseSign EXPENSE (num_of_int m)) = Inr cost"
    and "account = None \<longleftrightarrow> c_fundedBy command = COMPANY_DIRECT"
    and "account \<noteq> None \<Longrightarrow> amount_of (signedAmountFor TRIP_EXPENSE (num_of_int m)) = Inr fund"
  shows "admissible es xs (trip_expense_input command account driver d key fund cost now actor)"
  using assms
  by (cases account; cases "c_fundedBy command")
    (auto simp: admissible_def expense_event_def trip_expense_input_def entry_guard_def
      amount_of_Inr assertExpenseSign_Inr signedAmountFor_Inr)

lemma reversal_input_admissible:
  assumes entry: "entry = List.find (\<lambda>e. e_correlationKey e = key) es"
    and expense: "expense = List.find (\<lambda>x. x_correlationKey x = key) xs"
    and "\<not> (entry = None \<and> expense = None)"
    and kinds: "map_option e_kind entry \<noteq> Some REVERSAL" "map_option x_kind expense \<noteq> Some EXPENSE_REVERSAL"
    and none: "\<And>e e'. entry = Some e \<Longrightarrow> e' \<in> set es \<Longrightarrow> e_reversalOfId e' \<noteq> Some (e_id e)"
      "\<And>x x'. expense = Some x \<Longrightarrow> x' \<in> set xs \<Longrightarrow> x_reversalOfId x' \<noteq> Some (x_id x)"
  shows "admissible es xs
    (reversal_input entry expense (negated e_signedAmount entry) (negated x_signedAmount expense) key why now actor)"
proof -
  have "x_kind x = EXPENSE" if "expense = Some x" for x
    using kinds(2) that by (cases "x_kind x") auto
  then have "reversal_event es xs
      (reversal_input entry expense (negated e_signedAmount entry) (negated x_signedAmount expense) key why now actor)"
    unfolding reversal_event_def Let_def
    using assms(3) kinds(1) none
    by (intro exI [of _ key] exI [of _ why] exI [of _ now] exI [of _ actor])
      (auto simp: entry [symmetric] expense [symmetric])
  then show ?thesis by (cases entry) (simp_all add: admissible_def entry_guard_def)
qed

lemma reversal_amounts:
  "(case entry of None \<Rightarrow> ret 0
    | Some e \<Rightarrow> lift (amount_of (assertLedgerSign REVERSAL (num_of_int (- e_signedAmount e))))) w = (Inr ea, w') \<Longrightarrow>
    ea = negated e_signedAmount entry \<and> w' = w"
  "(case expense of None \<Rightarrow> ret 0
    | Some x \<Rightarrow> lift (amount_of (assertExpenseSign EXPENSE_REVERSAL (num_of_int (- x_signedAmount x))))) w = (Inr xa, w') \<Longrightarrow>
    xa = negated x_signedAmount expense \<and> w' = w"
  by (auto simp: lift_Inr_iff ret_Inr_iff amount_of_Inr assertLedgerSign_Inr assertExpenseSign_Inr
      split: option.splits)

context costing_ledger
begin

abbreviation view :: "'s \<Rightarrow> ledgers" where
  "view s \<equiv> (entries_of s, expenses_of s, periods_of s, snapshots_of s)"

abbreviation calm :: "('s, 'b) service \<Rightarrow> 's costing_world \<Rightarrow> bool" where
  "calm \<equiv> calm_at inv view"

abbreviation refines :: "('s, 'b) service \<Rightarrow> 's costing_world \<Rightarrow> bool" where
  "refines \<equiv> refines_at inv view"

lemma on_find [simp]:
  "on_store (findEntry R i) w = (Inr (List.find (\<lambda>e. e_id e = i) (entries_of (w_store w))), w)"
  "on_store (findEntryByCorrelation R k) w =
     (Inr (List.find (\<lambda>e. e_correlationKey e = k) (entries_of (w_store w))), w)"
  "on_store (findReversalOfEntry R i) w =
     (Inr (List.find (\<lambda>e. e_reversalOfId e = Some i) (entries_of (w_store w))), w)"
  "on_store (findExpense R i) w = (Inr (List.find (\<lambda>x. x_id x = i) (expenses_of (w_store w))), w)"
  "on_store (findExpenseByCorrelation R k) w =
     (Inr (List.find (\<lambda>x. x_correlationKey x = k) (expenses_of (w_store w))), w)"
  "on_store (findReversalOfExpense R i) w =
     (Inr (List.find (\<lambda>x. x_reversalOfId x = Some i) (expenses_of (w_store w))), w)"
  "on_store (findAccountByDriver R d) w =
     (Inr (List.find (\<lambda>a. acc_driverId a = d) (accounts_of (w_store w))), w)"
  by (simp_all add: on_store_def find_entry find_entry_key find_entry_reversal find_expense
      find_expense_key find_expense_reversal find_account_driver)

lemma calm_find [simp]:
  "calm (on_store (findEntry R i)) w" "calm (on_store (findEntryByCorrelation R k)) w"
  "calm (on_store (findReversalOfEntry R i)) w" "calm (on_store (findExpense R i)) w"
  "calm (on_store (findExpenseByCorrelation R k)) w" "calm (on_store (findReversalOfExpense R i)) w"
  "calm (on_store (findAccountByDriver R d)) w"
  by (simp_all add: calm_at_def)

lemma ensure_cases:
  assumes "inv (w_store w)"
  obtains a where "on_store (ensureAccount R d tm) w = (Inr a, w)" "acc_driverId a = d"
      "List.find (\<lambda>a. acc_driverId a = d) (accounts_of (w_store w)) = Some a"
  | a s' where "on_store (ensureAccount R d tm) w = (Inr a, w\<lparr>w_store := s'\<rparr>)" "acc_driverId a = d"
      "List.find (\<lambda>a. acc_driverId a = d) (accounts_of (w_store w)) = None"
      "accounts_of s' = accounts_of (w_store w) @ [a]" "view s' = view (w_store w)" "inv s'"
proof -
  from ensure_account [OF assms, of d tm] obtain a s' where
      r: "ensureAccount R d tm (w_store w) = (Inr a, s')" and a: "acc_driverId a = d" "inv s'"
    and c: "case List.find (\<lambda>a. acc_driverId a = d) (accounts_of (w_store w)) of
       Some b \<Rightarrow> a = b \<and> s' = w_store w
     | None \<Rightarrow> accounts_of s' = accounts_of (w_store w) @ [a] \<and> entries_of s' = entries_of (w_store w) \<and>
         expenses_of s' = expenses_of (w_store w) \<and> periods_of s' = periods_of (w_store w) \<and>
         snapshots_of s' = snapshots_of (w_store w)"
    by blast
  show ?thesis
  proof (cases "List.find (\<lambda>a. acc_driverId a = d) (accounts_of (w_store w))")
    case None
    with r a c show ?thesis by (intro that(2)) (simp_all add: on_store_def)
  next
    case (Some b)
    with r a c show ?thesis by (intro that(1)) (simp_all add: on_store_def)
  qed
qed

lemma calm_ensure [simp]: "calm (on_store (ensureAccount R d tm)) w"
  unfolding calm_at_def
proof
  assume I: "inv (w_store w)"
  show "inv (w_store (snd (on_store (ensureAccount R d tm) w))) \<and>
      view (w_store (snd (on_store (ensureAccount R d tm) w))) = view (w_store w)"
    by (rule ensure_cases [OF I, of d tm]) (simp_all add: I)
qed

lemma refines_post:
  assumes "admissible (entries_of (w_store w)) (expenses_of (w_store w)) i"
  shows "refines (on_store (post R i)) w"
proof -
  { assume I: "inv (w_store w)"
    have "inv (w_store (snd (on_store (post R i) w))) \<and>
        ledger_step (view (w_store w)) (view (w_store (snd (on_store (post R i) w))))"
    proof (cases rule: post_cases [OF I, of i])
      case (3 ei xi s')
      from posting [OF assms 3(1,2), of _ ei xi] 3 show ?thesis
        by (simp add: on_store_def del: cp_entry_posted cp_expense_posted)
    qed (simp_all add: on_store_def quiet I) }
  then show ?thesis by (simp add: refines_at_def)
qed

lemma postGuarded_world: "w_store (snd (postGuarded R g i w)) = w_store (snd (on_store (post R i) w))"
  by (simp add: postGuarded_def split: prod.split sum.split js_error.split)

lemma refines_postGuarded:
  assumes "admissible (entries_of (w_store w)) (expenses_of (w_store w)) i"
  shows "refines (postGuarded R g i) w"
  using refines_post [OF assms] by (simp add: refines_at_def postGuarded_world)

lemma refines_movement:
  assumes "kind \<notin> {TRIP_EXPENSE, REVERSAL}" "sign_ok kind v" "valid_amount v"
  shows "refines (postEntryDetailed R env kind input v actor) w"
  unfolding postEntryDetailed_def commit_movement_def
proof (intro refines_bnd, goal_cases)
  case (5 d w1 acc w2 key w3 replay w4)
  then show ?case
    by (cases replay)
      (auto intro!: refines_bnd_after refines_postGuarded movement_input_admissible [OF assms] calm_bnd
        intro: refines_calm calm_bnd split: option.split)
qed simp_all

lemma refines_postMovement:
  assumes "kind \<notin> {TRIP_EXPENSE, REVERSAL}"
  shows "refines (postMovement R env kind input x actor) w"
  unfolding postMovement_def postEntryOnly_def
  using requireMagnitude_ok [of kind x] assms
  by (intro refines_bnd refines_bnd_after refines_movement) (auto simp: lift_Inr_iff)

lemma refines_postAdjustment: "refines (postAdjustment R env input x actor) w"
  unfolding postAdjustment_def postEntryOnly_def
  using requireLedgerSign_ok [of ADJUSTMENT x]
  by (intro refines_bnd refines_bnd_after refines_movement) (auto simp: lift_Inr_iff)

lemma refines_postReimbursement: "refines (postReimbursement R env input x actor) w"
  unfolding postReimbursement_def
  using requireMagnitude_ok [of REIMBURSEMENT x]
  by (intro refines_bnd refines_movement) (auto simp: lift_Inr_iff)

lemma calm_expense_account: "calm (expense_account R env command trip) w"
  by (auto simp: expense_account_def intro!: calm_bnd)

lemma expense_account_shape:
  "expense_account R env command trip w = (Inr (driver, account), w') \<Longrightarrow>
     account = None \<longleftrightarrow> c_fundedBy command = COMPANY_DIRECT"
  by (cases "c_fundedBy command") (auto simp: expense_account_def method_iffs ret_def)

lemma refines_commit_expense:
  assumes "account = None \<longleftrightarrow> c_fundedBy command = COMPANY_DIRECT"
  shows "refines (commit_expense R env command d m driver account actor) w"
  unfolding commit_expense_def
proof (intro refines_bnd, goal_cases)
  case (4 key w1 cost w2 replay w3)
  show ?case
  proof (cases replay)
    case (Some x)
    then show ?thesis by (auto intro!: refines_calm calm_bnd)
  next
    case None
    { fix fund w4
      assume "(if account = None then ret 0
          else lift (amount_of (signedAmountFor TRIP_EXPENSE (num_of_int m)))) w3 = (Inr fund, w4)"
      then have "admissible es xs
          (trip_expense_input command account driver d key fund cost (clock env) actor)" for es xs
        using 4 assms by (intro trip_expense_input_admissible) (auto simp: lift_Inr_iff) }
    note adm = this
    have "calm (if account = None then ret 0
        else lift (amount_of (signedAmountFor TRIP_EXPENSE (num_of_int m)))) w3"
      by (cases "account = None") simp_all
    then show ?thesis
      unfolding None option.case
      by (rule refines_bnd) (intro refines_bnd_after refines_postGuarded calm_bnd adm calm_pure)
  qed
qed simp_all

lemma refines_recordTripExpense: "refines (recordTripExpense R env command actor) w"
  unfolding recordTripExpense_def
  by (intro refines_bnd calm_expense_account)
    (auto intro: refines_commit_expense dest: expense_account_shape)

lemma refines_recordSelfTripExpense: "refines (recordSelfTripExpense R env u command actor) w"
  unfolding recordSelfTripExpense_def by (intro refines_bnd refines_recordTripExpense) simp

lemma find_reversal_result:
  "find_reversal R entry expense w = (Inr b, w') \<Longrightarrow> w' = w \<and>
     (\<not> b \<longrightarrow> (\<forall>e. entry = Some e \<longrightarrow> (\<forall>e' \<in> set (entries_of (w_store w)). e_reversalOfId e' \<noteq> Some (e_id e))) \<and>
        (\<forall>x. expense = Some x \<longrightarrow> (\<forall>x' \<in> set (expenses_of (w_store w)). x_reversalOfId x' \<noteq> Some (x_id x))))"
  by (cases entry; cases expense)
    (auto simp: find_reversal_def step_simps find_None_iff_ball split: if_splits)

lemma calm_find_reversal [simp]: "calm (find_reversal R entry expense) w"
  by (cases entry; cases expense) (auto simp: find_reversal_def intro!: calm_bnd)

lemma refines_commit_reversal:
  assumes "admissible (entries_of (w_store w)) (expenses_of (w_store w))
    (reversal_input entry expense (negated e_signedAmount entry) (negated x_signedAmount expense) key why (clock env) actor)"
  shows "refines (commit_reversal R env entry expense key why actor) w"
  unfolding commit_reversal_def
proof (rule refines_bnd, goal_cases)
  case (2 ea w1)
  from reversal_amounts(1) [OF 2] have ea: "ea = negated e_signedAmount entry" "w1 = w" by simp_all
  show ?case
    unfolding ea
  proof (rule refines_bnd, goal_cases)
    case (2 xa w2)
    from reversal_amounts(2) [OF 2] assms show ?case
      by (auto intro!: refines_bnd_after [OF refines_postGuarded] calm_bnd)
  qed (simp split: option.split)
qed (simp split: option.split)

lemma refines_reverseCorrelation: "refines (reverseCorrelation R env key why actor) w"
proof -
  let ?entry = "List.find (\<lambda>e. e_correlationKey e = key) (entries_of (w_store w))"
  let ?expense = "List.find (\<lambda>x. x_correlationKey x = key) (expenses_of (w_store w))"
  let ?checked = "bnd (find_reversal R ?entry ?expense) (\<lambda>already.
      if already then throw (denyReversal ''REVERSAL_ALREADY_REVERSED'')
      else commit_reversal R env ?entry ?expense key why actor)"
  have "refines ?checked w"
    if present: "\<not> (?entry = None \<and> ?expense = None)"
      and kinds: "map_option e_kind ?entry \<noteq> Some REVERSAL" "map_option x_kind ?expense \<noteq> Some EXPENSE_REVERSAL"
  proof (rule refines_bnd [OF calm_find_reversal])
    fix already w3
    assume "find_reversal R ?entry ?expense w = (Inr already, w3)"
    from find_reversal_result [OF this] have w3: "w3 = w"
      and none: "\<not> already \<Longrightarrow> ?entry = Some e \<Longrightarrow> e' \<in> set (entries_of (w_store w)) \<Longrightarrow> e_reversalOfId e' \<noteq> Some (e_id e)"
        "\<not> already \<Longrightarrow> ?expense = Some x \<Longrightarrow> x' \<in> set (expenses_of (w_store w)) \<Longrightarrow> x_reversalOfId x' \<noteq> Some (x_id x)"
      for e e' x x' by blast+
    show "refines (if already then throw (denyReversal ''REVERSAL_ALREADY_REVERSED'')
      else commit_reversal R env ?entry ?expense key why actor) w3"
    proof (cases already)
      case True
      then show ?thesis by (simp add: refines_calm)
    next
      case False
      from none [OF False] have "refines (commit_reversal R env ?entry ?expense key why actor) w"
        by (intro refines_commit_reversal reversal_input_admissible [OF refl refl present kinds])
      with False show ?thesis by (simp add: w3)
    qed
  qed
  note checked = this
  let ?m = "if ?entry = None \<and> ?expense = None then throw (notFound ''FUND_ENTRY_NOT_FOUND'')
      else if map_option e_kind ?entry = Some REVERSAL \<or> map_option x_kind ?expense = Some EXPENSE_REVERSAL
        then throw (denyReversal ''REVERSAL_OF_REVERSAL_DENIED'')
      else ?checked"
  have "refines (throw e :: ('s, CorrelatedPosting) service) w" for e
    by (rule refines_calm) simp
  with checked have "refines ?m w" by (simp only: de_Morgan_disj split: if_split) blast
  moreover have "reverseCorrelation R env key why actor w = ?m w"
    by (simp add: reverseCorrelation_def bnd_eq)
  ultimately show ?thesis by (simp add: refines_at_def)
qed

lemma refines_reverseExpense: "refines (reverseExpense R env i why actor) w"
  unfolding reverseExpense_def
  by (intro refines_bnd calm_find) (auto intro: refines_calm refines_reverseCorrelation split: option.split)

lemma refines_reverseFundEntry: "refines (reverseFundEntry R env i why actor) w"
  unfolding reverseFundEntry_def
  by (intro refines_bnd calm_find) (auto intro: refines_calm refines_reverseCorrelation split: option.split)

lemma calm_replayOf [simp]: "calm (replayOf R key driver incoming) w"
  by (auto simp: replayOf_def Let_def intro!: calm_bnd)

text \<open>\<open>postRunExpense\<close> in two parts: the guarded posting, and what follows each of its outcomes.\<close>

definition after_run_post ::
  "(ident \<Rightarrow> FundEntryIdentity) \<Rightarrow> RecordRunExpenseCommand \<Rightarrow> string \<Rightarrow> js_error + CorrelatedPosting \<Rightarrow>
   ('s, DriverFundEntry \<times> bool) service" where
  "after_run_post incoming command actor r =
     (case r of
        Inr posted \<Rightarrow>
          (case cp_entry posted of
             None \<Rightarrow> throw PlainError
           | Some entry \<Rightarrow>
               bnd (audit_append actor ''transport.costing.driver_fund.run_expense''
                      ''TransportDriverFundEntry'' (Some (e_id entry))) (\<lambda>_. ret (entry, False)))
      | Inl (FundPeriodFrozenError p) \<Rightarrow> throw (denyRunExpense ''RUN_EXPENSE_PERIOD_FROZEN'')
      | Inl e \<Rightarrow>
          if \<not> isCorrelationConflict e then throw e
          else bnd (replayOf R (rc_correlationKey command) (rc_driverId command) incoming) (\<lambda>converged.
                 case converged of None \<Rightarrow> throw e | Some entry \<Rightarrow> ret (entry, True)))"

lemma postRunExpense_eq:
  "postRunExpense R incoming command i actor w =
     after_run_post incoming command actor (fst (on_store (post R i) w)) (snd (on_store (post R i) w))"
  by (simp add: postRunExpense_def after_run_post_def split: prod.split sum.split option.split js_error.split)

lemma calm_after_run_post: "calm (after_run_post incoming command actor r) w"
  by (auto simp: after_run_post_def intro!: calm_bnd split: sum.split option.split js_error.split)

lemma refines_postRunExpense:
  assumes "admissible (entries_of (w_store w)) (expenses_of (w_store w)) i"
  shows "refines (postRunExpense R incoming command i actor) w"
  using refines_post [OF assms]
    calm_after_run_post [of incoming command actor "fst (on_store (post R i) w)" "snd (on_store (post R i) w)"]
  by (simp add: refines_at_def calm_at_def postRunExpense_eq)

lemma run_expense_amount:
  "mapLedgerError (amount_of (rbind (signedAmountFor RUN_EXPENSE (num_of_int m))
     (\<lambda>v. assertLedgerSign RUN_EXPENSE (num_of_int (amount v))))) = Inr v \<Longrightarrow>
   sign_ok RUN_EXPENSE v \<and> valid_amount v"
  by (auto simp: mapLedgerError_Inr amount_of_Inr rbind_Inr_iff assertLedgerSign_Inr)

lemma refines_recordRunExpense: "refines (recordRunExpense R env m id command actor) w"
  unfolding recordRunExpense_def Let_def
proof (intro refines_bnd, goal_cases)
  case (7 d w1 mag w2 v w3 u w4 run w5 replay w6)
  then have v: "sign_ok RUN_EXPENSE v" "valid_amount v"
    by (auto simp: lift_Inr_iff dest: run_expense_amount)
  show ?case
  proof (cases replay)
    case None
    then show ?thesis
      by (auto intro!: refines_bnd refines_postRunExpense run_expense_input_admissible v)
  qed (simp add: refines_calm)
qed simp_all

end

end
