(* ===== verification/CostingPeriods.thy ===== *)
theory CostingPeriods imports CostingLedger begin

text \<open>
  The fund periods over the in-memory store: what the three period commands write, the invariants of
  the periods and their snapshots, and the step relation of the whole costing component.
\<close>

definition period_at :: "costing_state \<Rightarrow> ident \<Rightarrow> DriverFundPeriod option" where
  "period_at s i = map_of (periods s) i"

definition period_sums :: "costing_state \<Rightarrow> DriverFundPeriod \<Rightarrow> int \<times> nat" where
  "period_sums s p =
     (let es = matching s (p_accountId p) (Some (within_range (range_of p)))
      in (js_sum (map e_signedAmount es), length es))"

definition snapshots_for :: "costing_state \<Rightarrow> ident \<Rightarrow> FundPeriodSnapshot list" where
  "snapshots_for s i = filter (\<lambda>r. s_periodId r = i) (snapshots s)"

text \<open>The last snapshot of a closed period still says what the ledger says.\<close>

definition snapshot_current :: "costing_state \<Rightarrow> DriverFundPeriod \<Rightarrow> bool" where
  "snapshot_current s p \<longleftrightarrow>
     (let rs = snapshots_for s (p_id p)
      in rs \<noteq> [] \<and> (s_periodNet (last rs), s_entryCount (last rs)) = period_sums s p)"

definition periods_ok :: "costing_state \<Rightarrow> bool" where
  "periods_ok s \<longleftrightarrow>
     (\<forall>i p. period_at s i = Some p \<longrightarrow> valid_date (startDate p) \<and> valid_date (endDate p) \<and> startDate p \<le> endDate p \<and>
        (p_status p = CLOSED \<longrightarrow> snapshot_current s p))"

lemma wf_period_id: "wf_store s \<Longrightarrow> period_at s i = Some p \<Longrightarrow> p_id p = i"
  by (auto simp: wf_store_def wf_periods_def period_at_def dest: map_of_SomeD)

lemma period_at_mem: "period_at s i = Some p \<Longrightarrow> p \<in> snd ` set (periods s)"
  by (force simp: period_at_def dest: map_of_SomeD)

lemma mem_period_at: "wf_store s \<Longrightarrow> p \<in> snd ` set (periods s) \<Longrightarrow> period_at s (p_id p) = Some p"
  by (force simp: wf_store_def wf_periods_def period_at_def)

section \<open>The writes\<close>

definition with_status :: "DriverFundPeriod \<Rightarrow> fund_period_status \<Rightarrow> FundPeriodStatusPatch \<Rightarrow> DriverFundPeriod" where
  "with_status p to_status patch =
     p\<lparr>p_status := to_status, p_updatedAt := patch_at patch,
       p_closedAt := if to_status = CLOSED then Some (patch_at patch) else p_closedAt p,
       p_closedBy := if to_status = CLOSED then Some (patch_actor patch) else p_closedBy p,
       p_reopenedAt := if to_status = REOPENED then Some (patch_at patch) else p_reopenedAt p,
       p_reopenedBy := if to_status = REOPENED then Some (patch_actor patch) else p_reopenedBy p,
       p_reopenReason := if to_status = REOPENED then patch_reopenReason patch else p_reopenReason p\<rparr>"

lemma with_status_sel [simp]:
  "p_status (with_status p t patch) = t" "p_id (with_status p t patch) = p_id p"
  "p_accountId (with_status p t patch) = p_accountId p"
  "startDate (with_status p t patch) = startDate p" "endDate (with_status p t patch) = endDate p"
  "range_of (with_status p t patch) = range_of p"
  by (simp_all add: with_status_def range_of_def date_range.truncate_def)

lemma mem_setPeriodStatus_eq:
  "mem_setPeriodStatus i f t patch s =
     (case period_at s i of
        Some p \<Rightarrow> if p_status p = f
          then (Inr (Some (with_status p t patch)), s\<lparr>periods := AList.update i (with_status p t patch) (periods s)\<rparr>)
          else (Inr None, s)
      | None \<Rightarrow> (Inr None, s))"
  by (auto simp: mem_setPeriodStatus_def period_at_def with_status_def Let_def split: option.split)

lemma period_at_update [simp]:
  "period_at (s\<lparr>periods := AList.update i p (periods s)\<rparr>) j = (if j = i then Some p else period_at s j)"
  by (simp add: period_at_def update_conv')

lemma snapshots_for_periods [simp]: "snapshots_for (s\<lparr>periods := ps\<rparr>) i = snapshots_for s i"
  by (simp add: snapshots_for_def)

lemma matching_cong: "entries s' = entries s \<Longrightarrow> matching s' a r = matching s a r"
  by (simp add: matching_def)

lemma period_sums_cong:
  "entries s' = entries s \<Longrightarrow> p_accountId p' = p_accountId p \<Longrightarrow> range_of p' = range_of p \<Longrightarrow>
   period_sums s' p' = period_sums s p"
  by (simp add: period_sums_def matching_def)

text \<open>Rewriting a period in place keeps the store well-formed.\<close>

lemma update_existing:
  "map_of xs k = Some v \<Longrightarrow> distinct (map fst xs) \<Longrightarrow>
   AList.update k w xs = map (\<lambda>x. if fst x = k then (k, w) else x) xs"
proof (induction xs)
  case (Cons x xs)
  show ?case
  proof (cases "fst x = k")
    case True
    with Cons.prems(2) have "map (\<lambda>x. if fst x = k then (k, w) else x) xs = xs"
      by (auto intro!: map_idI simp: image_iff)
    with True show ?thesis by (cases x) simp
  next
    case False
    with Cons show ?thesis by (cases x) auto
  qed
qed simp

lemma wf_store_setStatus:
  assumes wf: "wf_store s" and p: "period_at s i = Some p"
  shows "wf_store (s\<lparr>periods := AList.update i (with_status p t patch) (periods s)\<rparr>)"
proof -
  from wf_period_id [OF wf p] have id: "p_id p = i" .
  from wf have d: "distinct (map fst (periods s))" by (simp add: wf_store_def wf_periods_def)
  let ?r = "AList.update i (with_status p t patch) (periods s)"
  note up = update_existing [OF p [unfolded period_at_def] d, of "with_status p t patch"]
  have fst_up: "map fst ?r = map fst (periods s)"
    by (auto simp: up)
  have members: "q \<in> snd ` set (periods s) \<or> q = with_status p t patch" if "q \<in> snd ` set ?r" for q
    using that by (auto simp: up split: if_splits)
  have keys: "\<forall>(k, q) \<in> set ?r. k = p_id q"
    using wf id by (auto simp: up wf_store_def wf_periods_def split: if_splits)
  have pm: "p \<in> snd ` set (periods s)" by (rule period_at_mem [OF p])
  have disj: "\<not> periodsOverlap (range_of a) (range_of b)"
    if "a \<in> snd ` set (periods s)" "b \<in> snd ` set (periods s)" "p_id a \<noteq> p_id b" "p_accountId a = p_accountId b" for a b
    using wf that unfolding wf_store_def wf_periods_def by blast
  have sep: "\<not> periodsOverlap (range_of a) (range_of b)"
    if "a \<in> snd ` set ?r" "b \<in> snd ` set ?r" "p_id a \<noteq> p_id b" "p_accountId a = p_accountId b" for a b
    using members [OF that(1)] members [OF that(2)] that(3,4)
    by (metis disj pm with_status_sel(2,3,6))
  have keyset: "fst ` set ?r = fst ` set (periods s)"
    by (metis fst_up set_map)
  have "wf_periods (s\<lparr>periods := ?r\<rparr>)"
    unfolding wf_periods_def
    using keys sep wf
    by (simp add: wf_store_def wf_periods_def fst_up keyset)
  with wf show ?thesis
    by (simp add: wf_store_def wf_accounts_def wf_entries_def wf_expenses_def)
qed

definition fresh_period :: "costing_state \<Rightarrow> ident \<Rightarrow> date_range \<Rightarrow> timestamp \<Rightarrow> DriverFundPeriod" where
  "fresh_period s a r tm =
     \<lparr>startDate = startDate r, endDate = endDate r, p_id = uuid (next_uuid s), p_accountId = a,
      p_status = OPEN, p_closedAt = None, p_closedBy = None, p_reopenedAt = None,
      p_reopenedBy = None, p_reopenReason = None, p_createdAt = tm, p_updatedAt = tm\<rparr>"

lemma fresh_period_sel [simp]:
  "startDate (fresh_period s a r tm) = startDate r" "endDate (fresh_period s a r tm) = endDate r"
  "p_id (fresh_period s a r tm) = uuid (next_uuid s)" "p_accountId (fresh_period s a r tm) = a"
  "p_status (fresh_period s a r tm) = OPEN"
  by (simp_all add: fresh_period_def)

lemma periodsOverlap_cong:
  "startDate p = startDate p' \<Longrightarrow> endDate p = endDate p' \<Longrightarrow> periodsOverlap p q = periodsOverlap p' q"
  "startDate p = startDate p' \<Longrightarrow> endDate p = endDate p' \<Longrightarrow> periodsOverlap q p = periodsOverlap q p'"
  by (simp_all add: periodsOverlap_def)

lemma periodsOverlap_sym: "periodsOverlap p q \<longleftrightarrow> periodsOverlap q p"
  by (auto simp: periodsOverlap_def)

lemma mem_createPeriod_cases:
  assumes wf: "wf_store s"
  obtains (clash) "mem_createPeriod a r tm s = (Inl PlainError, s)"
  | (created) "mem_createPeriod a r tm s =
      (Inr (fresh_period s a r tm), s\<lparr>periods := periods s @ [(uuid (next_uuid s), fresh_period s a r tm)],
         next_uuid := Suc (next_uuid s)\<rparr>)"
      "\<And>p. p \<in> snd ` set (periods s) \<Longrightarrow> p_accountId p = a \<Longrightarrow> \<not> periodsOverlap (range_of p) r"
proof (cases "List.find (\<lambda>p. p_accountId p = a \<and> periodsOverlap (range_of p) r) (map snd (periods s))")
  case (Some p)
  then show ?thesis by (intro that(1)) (simp add: mem_createPeriod_def)
next
  case None
  from wf have "fst ` set (periods s) \<subseteq> issued (next_uuid s)" by (simp add: wf_store_def wf_periods_def)
  from fresh_key [OF this] None show ?thesis
    by (intro that(2))
      (simp add: mem_createPeriod_def INITIAL_FUND_PERIOD_STATUS_def fresh_period_def Let_def,
        auto simp: find_None_iff_ball)
qed

lemma wf_store_createPeriod:
  assumes wf: "wf_store s"
  shows "wf_store (snd (mem_createPeriod a r tm s))"
  using wf
proof (cases rule: mem_createPeriod_cases [of s a r tm])
  case created
  have q: "periodsOverlap x (range_of (fresh_period s b r tm)) = periodsOverlap x r"
    "periodsOverlap (range_of (fresh_period s b r tm)) x = periodsOverlap r x" for x b
    by (auto simp: periodsOverlap_def)
  have sep: "\<not> periodsOverlap (range_of (snd x)) r" "\<not> periodsOverlap r (range_of (snd x))"
    if "x \<in> set (periods s)" "p_accountId (snd x) = a" for x
    using created(2) [of "snd x"] that by (auto simp: periodsOverlap_sym [of r])
  from wf have P: "wf_periods s" by (simp add: wf_store_def)
  have "wf_periods (snd (mem_createPeriod a r tm s))"
    unfolding created(1) wf_periods_def
    using P sep
    by (auto simp: wf_periods_def q issued_step not_issued)
  with wf created show ?thesis
    by (auto simp: wf_store_def wf_accounts_def wf_entries_def wf_expenses_def issued_step)
qed (use wf in simp)

definition close_snapshot :: "costing_state \<Rightarrow> DriverFundPeriod \<Rightarrow> string \<Rightarrow> timestamp \<Rightarrow> FundPeriodSnapshot" where
  "close_snapshot s p by_actor tm =
     (let opening = js_sum (map e_signedAmount (matching s (p_accountId p) (Some (before_range (startDate p)))));
          totals = period_sums s p
      in \<lparr>s_id = uuid (next_uuid s), s_periodId = p_id p, s_sequence = length (snapshots_for s (p_id p)) + 1,
          s_openingBalance = opening, s_periodNet = fst totals, s_closingBalance = js_add opening (fst totals),
          s_entryCount = snd totals, s_currencyCode = TRANSPORT_CURRENCY, s_takenAt = tm, s_takenBy = by_actor\<rparr>)"

definition closed_row :: "DriverFundPeriod \<Rightarrow> string \<Rightarrow> timestamp \<Rightarrow> DriverFundPeriod" where
  "closed_row p by_actor tm =
     with_status p CLOSED \<lparr>patch_at = tm, patch_actor = by_actor, patch_reopenReason = None\<rparr>"

lemma mem_finalizeClose_eq:
  assumes wf: "wf_store s"
  shows "mem_finalizeClose i by_actor tm s =
     (case period_at s i of
        Some p \<Rightarrow> if p_status p = CLOSING
          then (Inr (Some \<lparr>fc_period = closed_row p by_actor tm, fc_snapshot = close_snapshot s p by_actor tm\<rparr>),
            s\<lparr>snapshots := snapshots s @ [close_snapshot s p by_actor tm], next_uuid := Suc (next_uuid s),
              periods := AList.update i (closed_row p by_actor tm) (periods s)\<rparr>)
          else (Inr None, s)
      | None \<Rightarrow> (Inr None, s))"
proof (cases "period_at s i")
  case None
  then show ?thesis by (simp add: mem_finalizeClose_def period_at_def)
next
  case (Some p)
  from wf_period_id [OF wf Some] have id: "p_id p = i" .
  show ?thesis
  proof (cases "p_status p = CLOSING")
    case True
    have "period_at (s\<lparr>snapshots := x, next_uuid := n\<rparr>) i = Some p" for x n
      using Some by (simp add: period_at_def)
    with True Some show ?thesis
      by (simp add: mem_finalizeClose_def period_at_def step_simps mem_sumSignedAmounts_def
          mem_appendSnapshot_def mem_setPeriodStatus_eq closed_row_def close_snapshot_def
          period_sums_def snapshots_for_def id Let_def)
  next
    case False
    with Some show ?thesis by (simp add: mem_finalizeClose_def period_at_def)
  qed
qed

section \<open>The commands of the component\<close>

definition ledger_view :: "costing_state \<Rightarrow> ledgers" where
  "ledger_view s = (entries s, expenses s, map snd (periods s), snapshots s)"

text \<open>The commands that write the ledgers; the result is not looked at, so refusals are steps too.\<close>

inductive posting_command ::
  "costing_env \<Rightarrow> costing_state costing_world \<Rightarrow> costing_state costing_world \<Rightarrow> bool" for env where
  "posting_command env w (snd (postAdvance InMemoryCostingRepository env input x actor w))"
| "posting_command env w (snd (postReturn InMemoryCostingRepository env input x actor w))"
| "posting_command env w (snd (postAdjustment InMemoryCostingRepository env input x actor w))"
| "posting_command env w (snd (postReimbursement InMemoryCostingRepository env input x actor w))"
| "posting_command env w (snd (recordTripExpense InMemoryCostingRepository env command actor w))"
| "posting_command env w (snd (recordSelfTripExpense InMemoryCostingRepository env user command actor w))"
| "posting_command env w (snd (recordRunExpense InMemoryCostingRepository env runs id run_command actor w))"
| "posting_command env w (snd (reverseExpense InMemoryCostingRepository env i why actor w))"
| "posting_command env w (snd (reverseFundEntry InMemoryCostingRepository env i why actor w))"

text \<open>The commands on periods; the third is a close that stopped after its first write.\<close>

definition startClose ::
  "'s costing_repository \<Rightarrow> costing_env \<Rightarrow> ident \<Rightarrow> string \<Rightarrow> ('s, DriverFundPeriod) service" where
  "startClose R env i actor =
     bnd (requirePeriod R i) (\<lambda>p. if p_status p \<noteq> CLOSING then transition R env p CLOSING actor None else ret p)"

inductive period_command ::
  "costing_env \<Rightarrow> costing_state costing_world \<Rightarrow> costing_state costing_world \<Rightarrow> bool" for env where
  "period_command env w (snd (openPeriod InMemoryCostingRepository env input actor w))"
| "period_command env w (snd (closePeriod InMemoryCostingRepository env id i actor w))"
| "period_command env w (snd (startClose InMemoryCostingRepository env i actor w))"
| "period_command env w (snd (reopenPeriod InMemoryCostingRepository env i why actor w))"

definition costing_step ::
  "costing_env \<Rightarrow> costing_state costing_world \<Rightarrow> costing_state costing_world \<Rightarrow> bool" where
  "costing_step env w w' \<longleftrightarrow> posting_command env w w' \<or> period_command env w w'"

inductive costing_reachable :: "costing_state costing_world \<Rightarrow> bool" where
  boot: "w_store w = empty_costing \<Longrightarrow> costing_reachable w"
| step: "costing_reachable w \<Longrightarrow> costing_step env w w' \<Longrightarrow> costing_reachable w'"

lemma posting_refines:
  assumes "posting_command env w w'" "wf_store (w_store w)"
  shows "wf_store (w_store w') \<and> ledger_step (ledger_view (w_store w)) (ledger_view (w_store w'))"
proof -
  have "refines_at wf_store ledger_view (\<lambda>w. (r, w')) w" for r :: "js_error + unit"
    using assms(1)
    by (cases rule: posting_command.cases)
      (insert mem.refines_postMovement mem.refines_postAdjustment mem.refines_postReimbursement
        mem.refines_recordTripExpense mem.refines_recordSelfTripExpense mem.refines_recordRunExpense
        mem.refines_reverseExpense mem.refines_reverseFundEntry,
        simp_all add: refines_at_def ledger_view_def postAdvance_def postReturn_def)
  with assms(2) show ?thesis by (simp add: refines_at_def)
qed

section \<open>What the period commands do\<close>

lemma on_mem [simp]: "on_store (findPeriod InMemoryCostingRepository i) w = (Inr (period_at (w_store w) i), w)"
  by (simp add: on_store_def repo_simps mem_findPeriod_def query_def period_at_def)

lemma requirePeriod_eq:
  "requirePeriod InMemoryCostingRepository i w =
     (case period_at (w_store w) i of None \<Rightarrow> Inl (notFound ''FUND_PERIOD_NOT_FOUND'') | Some p \<Rightarrow> Inr p, w)"
  by (simp add: requirePeriod_def step_simps split: option.split)

definition put_period :: "ident \<Rightarrow> DriverFundPeriod \<Rightarrow> costing_state \<Rightarrow> costing_state" where
  "put_period i p s = s\<lparr>periods := AList.update i p (periods s)\<rparr>"

lemma transition_eq:
  assumes "wf_store (w_store w)" "period_at (w_store w) i = Some p"
  shows "transition InMemoryCostingRepository env p t actor why w =
    (case evaluateFundPeriodTransition (p_status p) t of
       Allowed \<Rightarrow>
         let q = with_status p t \<lparr>patch_at = clock env, patch_actor = actor, patch_reopenReason = why\<rparr>
         in (Inr q, w\<lparr>w_store := put_period i q (w_store w)\<rparr>)
     | Refused r \<Rightarrow> (Inl (denied r), w))"
  using wf_period_id [OF assms] assms(2)
  by (auto simp: transition_def requireTransitionAllowed_def bnd_eq lift_eq on_store_def repo_simps
      mem_setPeriodStatus_eq ret_eq put_period_def Let_def split: transition_decision.split)

definition finalized :: "costing_state \<Rightarrow> ident \<Rightarrow> DriverFundPeriod \<Rightarrow> string \<Rightarrow> timestamp \<Rightarrow> costing_state" where
  "finalized s i p by_actor tm =
     s\<lparr>snapshots := snapshots s @ [close_snapshot s p by_actor tm], next_uuid := Suc (next_uuid s),
       periods := AList.update i (closed_row p by_actor tm) (periods s)\<rparr>"

definition closing_row :: "DriverFundPeriod \<Rightarrow> string \<Rightarrow> timestamp \<Rightarrow> DriverFundPeriod" where
  "closing_row p by_actor tm =
     (if p_status p = CLOSING then p
      else with_status p CLOSING \<lparr>patch_at = tm, patch_actor = by_actor, patch_reopenReason = None\<rparr>)"

lemma closing_row_sel [simp]:
  "p_status (closing_row p a tm) = CLOSING" "p_id (closing_row p a tm) = p_id p"
  "p_accountId (closing_row p a tm) = p_accountId p" "startDate (closing_row p a tm) = startDate p"
  "endDate (closing_row p a tm) = endDate p" "range_of (closing_row p a tm) = range_of p"
  by (simp_all add: closing_row_def)

lemma closed_row_sel [simp]:
  "p_status (closed_row p a tm) = CLOSED" "p_id (closed_row p a tm) = p_id p"
  "p_accountId (closed_row p a tm) = p_accountId p" "startDate (closed_row p a tm) = startDate p"
  "endDate (closed_row p a tm) = endDate p" "range_of (closed_row p a tm) = range_of p"
  by (simp_all add: closed_row_def)

lemma put_period_simps [simp]:
  "entries (put_period i p s) = entries s" "expenses (put_period i p s) = expenses s"
  "snapshots (put_period i p s) = snapshots s" "accounts (put_period i p s) = accounts s"
  "period_at (put_period i p s) j = (if j = i then Some p else period_at s j)"
  "snapshots_for (put_period i p s) j = snapshots_for s j"
  by (simp_all add: put_period_def snapshots_for_def)

lemma finalized_simps [simp]:
  "entries (finalized s i p a tm) = entries s" "expenses (finalized s i p a tm) = expenses s"
  "snapshots (finalized s i p a tm) = snapshots s @ [close_snapshot s p a tm]"
  "period_at (finalized s i p a tm) j = (if j = i then Some (closed_row p a tm) else period_at s j)"
  by (simp_all add: finalized_def period_at_def update_conv')

text \<open>An undisturbed close, from every state of the period.\<close>

lemma closePeriod_eq:
  assumes wf: "wf_store (w_store w)" and p: "period_at (w_store w) i = Some p"
  shows "closePeriod InMemoryCostingRepository env id i actor w =
    (if p_status p = CLOSED then (Inl (denied ''PERIOD_TRANSITION_NOT_PERMITTED''), w)
     else
       let p1 = closing_row p actor (clock env);
           s1 = (if p_status p = CLOSING then w_store w else put_period i p1 (w_store w))
       in (Inr \<lparr>fc_period = closed_row p1 actor (clock env), fc_snapshot = close_snapshot s1 p1 actor (clock env)\<rparr>,
           w\<lparr>w_store := finalized s1 i p1 actor (clock env),
             w_audit := w_audit w @ [\<lparr>au_actor = actor, au_action = ''transport.costing.period.close'',
               au_entityType = ''TransportDriverFundPeriod'', au_entityId = Some i\<rparr>]\<rparr>))"
proof -
  from wf_period_id [OF wf p] have id: "p_id p = i" .
  have up: "wf_store (put_period i (with_status p CLOSING patch) (w_store w))" for patch
    unfolding put_period_def by (rule wf_store_setStatus [OF wf p])
  show ?thesis
    using p id wf up
    by (cases "p_status p")
      (simp_all add: closePeriod_def step_simps requirePeriod_eq transition_eq [OF wf p]
        requireTransitionAllowed_def evaluateFundPeriodTransition_def others_run_def on_store_def
        repo_sel mem_finalizeClose_eq audit_append_def Let_def closing_row_def finalized_def)
qed

lemma wf_store_finalized:
  assumes "wf_store s" "period_at s i = Some p"
  shows "wf_store (finalized s i p a tm)"
proof -
  have up: "wf_store (s\<lparr>periods := AList.update i (closed_row p a tm) (periods s)\<rparr>)"
    unfolding closed_row_def by (rule wf_store_setStatus [OF assms])
  then show ?thesis
    by (auto simp: finalized_def wf_store_def wf_accounts_def wf_entries_def wf_expenses_def wf_periods_def issued_Suc)
qed

lemma periods_ok_put:
  assumes "periods_ok s" "period_at s i = Some p" "t \<noteq> CLOSED"
  shows "periods_ok (put_period i (with_status p t patch) s)"
proof -
  have "snapshot_current (put_period i (with_status p t patch) s) q = snapshot_current s q" for q
    using period_sums_cong [of "put_period i (with_status p t patch) s" s q q] by (simp add: snapshot_current_def)
  with assms show ?thesis by (auto simp: periods_ok_def)
qed

lemma periods_ok_finalized:
  assumes ok: "periods_ok s" and wf: "wf_store s" and p: "period_at s i = Some p"
  shows "periods_ok (finalized s i p a tm)"
  unfolding periods_ok_def
proof (intro allI impI)
  fix j q
  assume q: "period_at (finalized s i p a tm) j = Some q"
  have sums_eq: "period_sums (finalized s i p a tm) x = period_sums s x" for x
    by (rule period_sums_cong) simp_all
  show "valid_date (startDate q) \<and> valid_date (endDate q) \<and> startDate q \<le> endDate q \<and>
      (p_status q = CLOSED \<longrightarrow> snapshot_current (finalized s i p a tm) q)"
  proof (cases "j = i")
    case True
    with q have "q = closed_row p a tm" by simp
    moreover have "period_sums s (closed_row p a tm) = period_sums s p"
      by (rule period_sums_cong) simp_all
    ultimately show ?thesis
      using ok p
      by (auto simp: periods_ok_def snapshot_current_def snapshots_for_def sums_eq close_snapshot_def Let_def)
  next
    case False
    with q have qs: "period_at s j = Some q" by simp
    from wf_period_id [OF wf qs] wf_period_id [OF wf p] False have "p_id q \<noteq> p_id p" by simp
    then have "snapshot_current (finalized s i p a tm) q = snapshot_current s q"
      by (simp add: snapshot_current_def snapshots_for_def sums_eq close_snapshot_def Let_def)
    with ok qs show ?thesis by (simp add: periods_ok_def)
  qed
qed

section \<open>Invariants\<close>

lemma period_at_iff:
  "wf_store s \<Longrightarrow> period_at s i = Some p \<longleftrightarrow> p \<in> set (map snd (periods s)) \<and> p_id p = i"
  using mem_period_at [of s p] wf_period_id [of s i p] period_at_mem [of s i p] by auto

lemma inRange_within: "inRange d (Some (within_range (range_of p))) \<longleftrightarrow> periodCovers (range_of p) d"
  by (auto simp: inRange_def within_range_def periodCovers_def)

lemma ledger_step_periods_ok:
  assumes wf: "wf_store s" "wf_store s'" and ok: "periods_ok s"
    and step: "ledger_step (ledger_view s) (ledger_view s')"
  shows "periods_ok s'"
proof -
  from ledger_step_appends [OF step [unfolded ledger_view_def]] obtain new where
      new: "entries s' = entries s @ new" and same: "map snd (periods s') = map snd (periods s)" "snapshots s' = snapshots s"
    by blast
  have pa: "period_at s' i = Some p \<longleftrightarrow> period_at s i = Some p" for i p
    using wf same(1) by (simp add: period_at_iff del: set_map)
  have "snapshot_current s' p" if p: "period_at s i = Some p" "p_status p = CLOSED" for i p
  proof -
    from p(1) wf(1) have pm: "p \<in> set (map snd (periods s))" by (simp add: period_at_iff)
    have "filter (\<lambda>e. e_accountId e = p_accountId p \<and>
        inRange (e_businessDate e) (Some (within_range (range_of p)))) new = []"
      using ledger_step_frozen [OF step [unfolded ledger_view_def new] _ pm] p(2)
      by (auto simp: filter_empty_conv inRange_within isFrozenFundPeriod_def eq_commute [of "p_accountId p"])
    then have "period_sums s' p = period_sums s p"
      by (simp add: period_sums_def matching_def new)
    with ok p same(2) show ?thesis
      by (auto simp: periods_ok_def snapshot_current_def snapshots_for_def)
  qed
  with ok pa show ?thesis by (auto simp: periods_ok_def)
qed

lemma posting_periods_ok:
  "posting_command env w w' \<Longrightarrow> wf_store (w_store w) \<Longrightarrow> periods_ok (w_store w) \<Longrightarrow> periods_ok (w_store w')"
  using posting_refines ledger_step_periods_ok by blast

lemma periodBusinessDate_valid: "periodBusinessDate env d = Inr d' \<Longrightarrow> d' = d \<and> valid_date d"
  by (auto simp: periodBusinessDate_def resolveCostingBusinessDate_def assertBusinessDate_eq
      split: if_splits)

text \<open>The store after \<open>openPeriod\<close>: untouched, with a new account, or with the new period.\<close>

definition accounts_grow :: "costing_state \<Rightarrow> costing_state \<Rightarrow> bool" where
  "accounts_grow s s' \<longleftrightarrow>
     wf_store s' \<and> entries s' = entries s \<and> expenses s' = expenses s \<and> periods s' = periods s \<and>
     snapshots s' = snapshots s"

lemma ensure_grows:
  assumes "wf_store s"
  obtains a s' where "mem_ensureAccount d tm s = (Inr a, s')" "accounts_grow s s'" "acc_driverId a = d"
proof (cases "List.find (\<lambda>a. acc_driverId a = d) (map snd (accounts s))")
  case None
  with that mem_ensureAccount_new [OF assms None, of tm] wf_store_ensureAccount [OF assms, of d tm]
  show ?thesis by (simp add: accounts_grow_def)
next
  case (Some b)
  with that assms find_SomeD [OF Some] show ?thesis by (simp add: mem_ensureAccount_def accounts_grow_def)
qed

lemma openPeriod_store:
  assumes wf: "wf_store (w_store w)"
  obtains (rejected) e where "fst (openPeriod InMemoryCostingRepository env input actor w) = Inl e"
      "accounts_grow (w_store w) (w_store (snd (openPeriod InMemoryCostingRepository env input actor w)))"
  | (opened) s1 r and a :: DriverFundAccount where "accounts_grow (w_store w) s1" "r = \<lparr>startDate = op_startDate input, endDate = op_endDate input\<rparr>"
      "valid_date (startDate r)" "valid_date (endDate r)" "startDate r \<le> endDate r"
      "\<And>p. p \<in> snd ` set (periods s1) \<Longrightarrow> p_accountId p = acc_id a \<Longrightarrow> \<not> periodsOverlap (range_of p) r"
      "acc_driverId a = op_driverId input"
      "fst (openPeriod InMemoryCostingRepository env input actor w) = Inr (fresh_period s1 (acc_id a) r (clock env))"
      "w_store (snd (openPeriod InMemoryCostingRepository env input actor w)) =
         s1\<lparr>periods := periods s1 @ [(uuid (next_uuid s1), fresh_period s1 (acc_id a) r (clock env))],
            next_uuid := Suc (next_uuid s1)\<rparr>"
proof -
  let ?run = "openPeriod InMemoryCostingRepository env input actor w"
  have same: "accounts_grow (w_store w) (w_store w)" using wf by (simp add: accounts_grow_def)
  obtain a s1 where a: "mem_ensureAccount (op_driverId input) (clock env) (w_store w) = (Inr a, s1)"
      "accounts_grow (w_store w) s1" "acc_driverId a = op_driverId input"
    by (rule ensure_grows [OF wf])
  then have wf1: "wf_store s1" by (simp add: accounts_grow_def)
  let ?r = "\<lparr>startDate = op_startDate input, endDate = op_endDate input\<rparr>"
  show ?thesis
  proof (cases "requireDriverFacts (core env) (op_driverId input)")
    case (Inl e)
    with same show ?thesis by (intro rejected [of e]) (simp_all add: openPeriod_def step_simps)
  next
    case driver: (Inr u)
    show ?thesis
    proof (cases "valid_date (op_startDate input) \<and> valid_date (op_endDate input) \<and> \<not> op_endDate input < op_startDate input")
      case False
      with driver have "w_store (snd ?run) = w_store w \<and> (\<exists>e. fst ?run = Inl e)"
        by (auto simp: openPeriod_def step_simps periodBusinessDate_def resolveCostingBusinessDate_def
            assertBusinessDate_eq)
      with same show ?thesis by (auto intro: rejected)
    next
      case True
      then have dates: "periodBusinessDate env (op_startDate input) = Inr (op_startDate input)"
        "periodBusinessDate env (op_endDate input) = Inr (op_endDate input)"
        by (simp_all add: periodBusinessDate_def resolveCostingBusinessDate_def assertBusinessDate_eq)
      show ?thesis
      proof (cases rule: mem_createPeriod_cases [OF wf1, of "acc_id a" ?r "clock env"])
        case 1
        with driver dates True a have "\<exists>e. fst ?run = Inl e \<and> w_store (snd ?run) = s1"
          by (simp add: openPeriod_def step_simps on_store_def repo_sel mem_listPeriods_def split: option.split)
        with a(2) show ?thesis by (auto intro: rejected)
      next
        case 2
        from 2(2) have "List.find (\<lambda>p. periodsOverlap (range_of p) ?r)
            (sort_key startDate (filter (\<lambda>p. p_accountId p = acc_id a) (map snd (periods s1)))) = None"
          by (auto simp: find_None_iff_ball)
        with driver dates True a(1) 2(1) have
            "fst ?run = Inr (fresh_period s1 (acc_id a) ?r (clock env)) \<and> w_store (snd ?run) =
              s1\<lparr>periods := periods s1 @ [(uuid (next_uuid s1), fresh_period s1 (acc_id a) ?r (clock env))],
                next_uuid := Suc (next_uuid s1)\<rparr>"
          by (simp add: openPeriod_def step_simps on_store_def repo_sel mem_listPeriods_def audit_append_def)
        note result = this
        show ?thesis
        proof (rule opened [OF a(2) refl, where a = a])
          show "\<And>p. p \<in> snd ` set (periods s1) \<Longrightarrow> p_accountId p = acc_id a \<Longrightarrow> \<not> periodsOverlap (range_of p) ?r"
            by (rule 2(2))
        qed (use True result a(3) in \<open>simp_all add: not_less\<close>)
      qed
    qed
  qed
qed

lemma accounts_grow_keeps:
  assumes "accounts_grow s s'"
  shows "wf_store s' \<and> (periods_ok s \<longrightarrow> periods_ok s') \<and> entries s' = entries s \<and> expenses s' = expenses s"
proof -
  have "period_at s' = period_at s" "snapshot_current s' = snapshot_current s"
    using assms
    by (auto simp: fun_eq_iff accounts_grow_def period_at_def snapshot_current_def snapshots_for_def
        period_sums_def matching_def)
  with assms show ?thesis by (simp add: accounts_grow_def periods_ok_def)
qed

lemma periods_ok_created:
  assumes ok: "periods_ok s" and wf: "wf_store s"
    and r: "valid_date (startDate r)" "valid_date (endDate r)" "startDate r \<le> endDate r"
  shows "periods_ok (s\<lparr>periods := periods s @ [(uuid (next_uuid s), fresh_period s a r tm)], next_uuid := n\<rparr>)"
proof -
  let ?s = "s\<lparr>periods := periods s @ [(uuid (next_uuid s), fresh_period s a r tm)], next_uuid := n\<rparr>"
  have "period_at ?s i = Some p \<Longrightarrow> period_at s i = Some p \<or> p = fresh_period s a r tm" for i p
    by (auto simp: period_at_def map_add_def split: option.splits if_splits)
  moreover have "snapshot_current ?s p = snapshot_current s p" for p
    by (simp add: snapshot_current_def snapshots_for_def period_sums_def matching_def)
  ultimately show ?thesis
    using ok r by (fastforce simp: periods_ok_def)
qed

definition period_keeps :: "costing_state \<Rightarrow> costing_state \<Rightarrow> bool" where
  "period_keeps s s' \<longleftrightarrow>
     wf_store s' \<and> (periods_ok s \<longrightarrow> periods_ok s') \<and> entries s' = entries s \<and> expenses s' = expenses s"

lemma period_keeps_refl: "wf_store s \<Longrightarrow> period_keeps s s"
  by (simp add: period_keeps_def)

lemma period_keeps_put:
  assumes "wf_store s" "period_at s i = Some p" "t \<noteq> CLOSED"
  shows "period_keeps s (put_period i (with_status p t patch) s)"
  using wf_store_setStatus [OF assms(1,2)] periods_ok_put [OF _ assms(2,3)]
  by (simp add: period_keeps_def put_period_def)

lemma period_keeps_finalized:
  assumes "wf_store s" "period_at s i = Some p"
  shows "period_keeps s (finalized s i p a tm)"
  using wf_store_finalized [OF assms] periods_ok_finalized [OF _ assms]
  by (simp add: period_keeps_def)

lemma period_keeps_trans: "period_keeps s t \<Longrightarrow> period_keeps t u \<Longrightarrow> period_keeps s u"
  by (simp add: period_keeps_def)

lemma transition_keeps:
  assumes "wf_store (w_store w)" "period_at (w_store w) i = Some p" "t \<noteq> CLOSED"
  shows "period_keeps (w_store w) (w_store (snd (transition InMemoryCostingRepository env p t actor why w)))"
  using period_keeps_put [OF assms] period_keeps_refl [OF assms(1)]
  by (simp add: transition_eq [OF assms(1,2)] Let_def split: transition_decision.split)

lemma closePeriod_keeps:
  assumes wf: "wf_store (w_store w)"
  shows "period_keeps (w_store w) (w_store (snd (closePeriod InMemoryCostingRepository env id i actor w)))"
proof (cases "period_at (w_store w) i")
  case None
  with wf show ?thesis by (simp add: closePeriod_def step_simps requirePeriod_eq period_keeps_refl)
next
  case (Some p)
  show ?thesis
  proof (cases "p_status p = CLOSED")
    case True
    with wf show ?thesis by (simp add: closePeriod_eq [OF wf Some] period_keeps_refl)
  next
    case False
    let ?p1 = "closing_row p actor (clock env)"
    let ?s1 = "if p_status p = CLOSING then w_store w else put_period i ?p1 (w_store w)"
    have s1: "period_keeps (w_store w) ?s1"
      using period_keeps_put [OF wf Some] period_keeps_refl [OF wf] by (simp add: closing_row_def)
    moreover have "period_at ?s1 i = Some ?p1"
      using Some by (simp add: closing_row_def)
    with s1 have "period_keeps ?s1 (finalized ?s1 i ?p1 actor (clock env))"
      by (intro period_keeps_finalized) (simp_all add: period_keeps_def)
    ultimately show ?thesis
      using False period_keeps_trans by (simp add: closePeriod_eq [OF wf Some] Let_def split del: if_split)
  qed
qed

lemma period_command_keeps:
  assumes "period_command env w w'" "wf_store (w_store w)"
  shows "period_keeps (w_store w) (w_store w')"
  using assms(1)
proof (cases rule: period_command.cases)
  case (1 input actor)
  show ?thesis
    using assms(2)
  proof (cases rule: openPeriod_store [of w env input actor])
    case rejected
    then show ?thesis unfolding 1 period_keeps_def using accounts_grow_keeps by blast
  next
    case (opened s1 r a)
    let ?s2 = "snd (mem_createPeriod (acc_id a) r (clock env) s1)"
    from opened(1) have g: "wf_store s1" by (simp add: accounts_grow_def)
    from opened(6) have "List.find (\<lambda>p. p_accountId p = acc_id a \<and> periodsOverlap (range_of p) r)
        (map snd (periods s1)) = None" by (auto simp: find_None_iff_ball)
    with opened(9) fresh_key [of "periods s1" "next_uuid s1"] g have w': "w_store w' = ?s2"
      unfolding 1
      by (simp add: mem_createPeriod_def Let_def wf_store_def wf_periods_def fresh_period_def
          INITIAL_FUND_PERIOD_STATUS_def)
    from wf_store_createPeriod [OF g] w' have "wf_store (w_store w')" by simp
    with accounts_grow_keeps [OF opened(1)] periods_ok_created [OF _ g opened(3-5)] opened(9) show ?thesis
      unfolding 1 by (simp add: period_keeps_def)
  qed
next
  case (2 i actor)
  with closePeriod_keeps [OF assms(2)] show ?thesis by simp
next
  case (3 i actor)
  then show ?thesis
    using assms(2) transition_keeps [OF assms(2)]
    by (cases "period_at (w_store w) i")
      (auto simp: startClose_def step_simps requirePeriod_eq period_keeps_refl)
next
  case (4 i why actor)
  then show ?thesis
    using assms(2) transition_keeps [OF assms(2)]
    by (cases "period_at (w_store w) i")
      (auto simp: reopenPeriod_def step_simps requirePeriod_eq period_keeps_refl audit_append_def split: sum.split)
qed

definition costing_inv :: "costing_state \<Rightarrow> bool" where
  "costing_inv s \<longleftrightarrow> wf_store s \<and> ledger_ok (entries s) (expenses s) \<and> periods_ok s"

lemma costing_inv_empty: "costing_inv empty_costing"
  using wf_store_empty ledger_ok_empty
  by (simp add: costing_inv_def empty_costing_def periods_ok_def period_at_def)

lemma costing_inv_step:
  assumes "costing_step env w w'" "costing_inv (w_store w)"
  shows "costing_inv (w_store w')"
  using assms(1) unfolding costing_step_def
proof
  assume c: "posting_command env w w'"
  from posting_refines [OF c] posting_periods_ok [OF c] ledger_step_ok assms(2) show ?thesis
    by (auto simp: costing_inv_def ledger_view_def)
next
  assume "period_command env w w'"
  from period_command_keeps [OF this] assms(2) show ?thesis
    by (simp add: costing_inv_def period_keeps_def)
qed

lemma reachable_inv: "costing_reachable w \<Longrightarrow> costing_inv (w_store w)"
  by (induction rule: costing_reachable.induct) (simp_all add: costing_inv_empty costing_inv_step)

end
