(* ===== verification/SettlementStore.thy ===== *)
theory SettlementStore imports DriverSettlementService CostingPeriods begin

text \<open>
  What \<open>DriverSettlementService\<close> relies on: the contract of a cash-out store (locale \<open>cashout_store\<close>)
  and of a driver fund port (locale \<open>reimbursement_fund\<close>). The in-memory store satisfies the first, and
  the adapter onto the costing services over the in-memory ledger satisfies the second.
\<close>

section \<open>The cash-out store\<close>

definition cashout_id :: "DriverCashoutDetail \<Rightarrow> ident" where
  "cashout_id d = dc_id (det_cashout d)"

definition cashout_corr :: "DriverCashoutDetail \<Rightarrow> string" where
  "cashout_corr d = dc_correlationKey (det_cashout d)"

definition settle_mark :: "ident option \<Rightarrow> DriverCashoutDetail \<Rightarrow> DriverCashoutDetail" where
  "settle_mark target d =
     (if target = Some (cashout_id d) then d\<lparr>det_cashout := (det_cashout d)\<lparr>dc_status := REVERSED\<rparr>\<rparr> else d)"

definition recorded_detail :: "RecordCashoutInput \<Rightarrow> ident \<Rightarrow> nat \<Rightarrow> DriverCashoutDetail" where
  "recorded_detail i new_id n =
     \<lparr>det_cashout = cashout_row i new_id, det_allocations = allocation_rows i new_id n\<rparr>"

text \<open>Why a reversal cannot be written.\<close>

definition target_refusal :: "DriverCashoutDetail list \<Rightarrow> ident option \<Rightarrow> RecordCashoutOutcome option" where
  "target_refusal ds target =
     (case target of
        None \<Rightarrow> None
      | Some t \<Rightarrow>
          (case List.find (\<lambda>d. cashout_id d = t) ds of
             None \<Rightarrow> Some TARGET_NOT_FOUND
           | Some d \<Rightarrow> if dc_status (det_cashout d) \<noteq> POSTED then Some OUTCOME_ALREADY_REVERSED else None))"

locale cashout_store =
  fixes S :: "'c settlement_repository"
    and cashouts_of :: "'c \<Rightarrow> DriverCashoutDetail list"
    and cinv :: "'c \<Rightarrow> bool"
  assumes unique: "cinv s \<Longrightarrow> distinct (map cashout_id (cashouts_of s)) \<and> distinct (map cashout_corr (cashouts_of s))"
    and find_id: "cinv s \<Longrightarrow> find_cashout S i s = (Inr (List.find (\<lambda>d. cashout_id d = i) (cashouts_of s)), s)"
    and find_key: "cinv s \<Longrightarrow>
      find_cashout_key S k s = (Inr (List.find (\<lambda>d. cashout_corr d = k) (cashouts_of s)), s)"
    and list_driver: "cinv s \<Longrightarrow> listByDriver S driver s =
      (Inr (sort_key (\<lambda>d. dc_createdAt (det_cashout d))
         (filter (\<lambda>d. dc_driverId (det_cashout d) = driver) (cashouts_of s))), s)"
    and record_duplicate: "cinv s \<Longrightarrow>
      List.find (\<lambda>d. cashout_corr d = ri_correlationKey inp) (cashouts_of s) = Some d \<Longrightarrow>
      record_cashout S inp s = (Inr (DUPLICATE_KEY d), s)"
    and record_refused: "cinv s \<Longrightarrow>
      List.find (\<lambda>d. cashout_corr d = ri_correlationKey inp) (cashouts_of s) = None \<Longrightarrow>
      target_refusal (cashouts_of s) (ri_reversesId inp) = Some outcome \<Longrightarrow>
      record_cashout S inp s = (Inr outcome, s)"
    and record_new: "cinv s \<Longrightarrow>
      List.find (\<lambda>d. cashout_corr d = ri_correlationKey inp) (cashouts_of s) = None \<Longrightarrow>
      target_refusal (cashouts_of s) (ri_reversesId inp) = None \<Longrightarrow>
      \<exists>i n s'. record_cashout S inp s = (Inr (RECORDED (recorded_detail inp i n)), s') \<and> cinv s' \<and>
        cashouts_of s' = map (settle_mark (ri_reversesId inp)) (cashouts_of s) @ [recorded_detail inp i n]"

definition mem_view :: "settlement_state \<Rightarrow> DriverCashoutDetail list" where
  "mem_view s =
     map (\<lambda>(i, c). \<lparr>det_cashout = c,
        det_allocations = (case map_of (ds_allocations s) i of None \<Rightarrow> [] | Some as \<Rightarrow> as)\<rparr>) (ds_cashouts s)"

definition wf_settlement :: "settlement_state \<Rightarrow> bool" where
  "wf_settlement s \<longleftrightarrow>
     (\<forall>(k, c) \<in> set (ds_cashouts s). dc_id c = k) \<and> distinct (map fst (ds_cashouts s)) \<and>
     fst ` set (ds_cashouts s) \<subseteq> issued (ds_next s) \<and>
     distinct (map dc_correlationKey (map snd (ds_cashouts s)))"

lemma wf_settlement_empty: "wf_settlement empty_settlement"
  by (simp add: wf_settlement_def empty_settlement_def)

lemma find_map: "List.find P (map f xs) = map_option f (List.find (P \<circ> f) xs)"
  by (induction xs) auto

lemma find_assoc: "map_option snd (List.find (\<lambda>x. fst x = k) xs) = map_of xs k"
  by (induction xs) auto

lemma find_cong_set: "(\<And>x. x \<in> set xs \<Longrightarrow> P x = Q x) \<Longrightarrow> List.find P xs = List.find Q xs"
  by (induction xs) auto

lemma mem_view_ids [simp]:
  "map cashout_corr (mem_view s) = map dc_correlationKey (map snd (ds_cashouts s))"
  "wf_settlement s \<Longrightarrow> map cashout_id (mem_view s) = map fst (ds_cashouts s)"
  by (auto simp: mem_view_def cashout_corr_def cashout_id_def wf_settlement_def split: prod.splits)

lemma mem_detail_view:
  "wf_settlement s \<Longrightarrow> mem_detail s i = List.find (\<lambda>d. cashout_id d = i) (mem_view s)"
proof -
  assume wf: "wf_settlement s"
  have "List.find (\<lambda>d. cashout_id d = i) (mem_view s) =
      map_option (\<lambda>(i, c). \<lparr>det_cashout = c,
        det_allocations = (case map_of (ds_allocations s) i of None \<Rightarrow> [] | Some as \<Rightarrow> as)\<rparr>)
        (List.find (\<lambda>x. fst x = i) (ds_cashouts s))"
    using wf unfolding mem_view_def find_map
    by (intro arg_cong [where f = "map_option _"] find_cong_set)
      (auto simp: wf_settlement_def cashout_id_def split: prod.splits)
  moreover have "map_of (ds_cashouts s) i = map_option snd (List.find (\<lambda>x. fst x = i) (ds_cashouts s))"
    by (simp add: find_assoc)
  ultimately show ?thesis
    by (auto simp: mem_detail_def split: option.splits dest!: find_SomeD)
qed

lemma mem_detail_entry:
  "wf_settlement s \<Longrightarrow> (k, c) \<in> set (ds_cashouts s) \<Longrightarrow> mem_detail s (dc_id c) =
     Some \<lparr>det_cashout = c,
       det_allocations = (case map_of (ds_allocations s) (dc_id c) of None \<Rightarrow> [] | Some as \<Rightarrow> as)\<rparr>"
proof -
  assume wf: "wf_settlement s" and m: "(k, c) \<in> set (ds_cashouts s)"
  then have "dc_id c = k" "map_of (ds_cashouts s) k = Some c"
    by (auto simp: wf_settlement_def intro: map_of_is_SomeI)
  then show ?thesis by (simp add: mem_detail_def)
qed

lemma mem_key_view:
  "wf_settlement s \<Longrightarrow> mem_detailByCorrelation s k = List.find (\<lambda>d. cashout_corr d = k) (mem_view s)"
proof -
  assume wf: "wf_settlement s"
  show ?thesis
  proof (cases "List.find (\<lambda>x. dc_correlationKey (snd x) = k) (ds_cashouts s)")
    case None
    then show ?thesis
      by (simp add: mem_detailByCorrelation_def mem_view_def find_map cashout_corr_def comp_def case_prod_beta)
  next
    case (Some x)
    from find_SomeD [OF this] have "(fst x, snd x) \<in> set (ds_cashouts s)" by simp
    from mem_detail_entry [OF wf this] this wf Some show ?thesis
      by (auto simp: mem_detailByCorrelation_def mem_view_def find_map cashout_corr_def comp_def case_prod_beta
          wf_settlement_def)
  qed
qed

lemma map_filter_Some: "(\<And>x. x \<in> set xs \<Longrightarrow> f x = Some (g x)) \<Longrightarrow> List.map_filter f xs = map g xs"
  by (induction xs) (simp_all add: List.map_filter_simps)

lemma insort_key_map:
  "insort_key f (g x) (map g xs) = map g (insort_key (\<lambda>x. f (g x)) x xs)"
  by (induction xs) auto

lemma sort_key_map: "sort_key f (map g xs) = map g (sort_key (\<lambda>x. f (g x)) xs)"
  by (induction xs) (simp_all add: insort_key_map)

lemma mem_list_view:
  assumes "wf_settlement s"
  shows "mem_listByDriver d s =
    (Inr (sort_key (\<lambda>d. dc_createdAt (det_cashout d))
       (filter (\<lambda>x. dc_driverId (det_cashout x) = d) (mem_view s))), s)"
proof -
  let ?g = "\<lambda>x. \<lparr>det_cashout = snd x,
      det_allocations = (case map_of (ds_allocations s) (fst x) of None \<Rightarrow> [] | Some as \<Rightarrow> as)\<rparr>"
  let ?xs = "sort_key (\<lambda>x. dc_createdAt (snd x)) (filter (\<lambda>x. dc_driverId (snd x) = d) (ds_cashouts s))"
  have "List.map_filter (\<lambda>c. mem_detail s (dc_id c)) (map snd ?xs) = map ?g ?xs"
  proof -
    have "List.map_filter (\<lambda>c. mem_detail s (dc_id c)) (map snd ?xs) =
        List.map_filter (\<lambda>x. mem_detail s (dc_id (snd x))) ?xs"
      by (simp add: List.map_filter_def filter_map comp_def)
    also have "\<dots> = map ?g ?xs"
    proof (rule map_filter_Some)
      fix x assume "x \<in> set ?xs"
      then have m: "(fst x, snd x) \<in> set (ds_cashouts s)" by simp
      with assms have "dc_id (snd x) = fst x" by (auto simp: wf_settlement_def)
      with mem_detail_entry [OF assms m] show "mem_detail s (dc_id (snd x)) = Some (?g x)" by simp
    qed
    finally show ?thesis .
  qed
  then show ?thesis
    by (simp add: mem_listByDriver_def query_def mem_view_def case_prod_beta filter_map comp_def sort_key_map)
qed

lemma settle_mark_ids [simp]:
  "cashout_id (settle_mark t d) = cashout_id d" "cashout_corr (settle_mark t d) = cashout_corr d"
  by (simp_all add: settle_mark_def cashout_id_def cashout_corr_def)

lemma settle_mark_None [simp]: "map (settle_mark None) ds = ds"
  by (simp add: settle_mark_def map_idI)

lemma mark_reversed_cases:
  assumes "wf_settlement s"
  shows "case target_refusal (mem_view s) t of
      Some outcome \<Rightarrow> mark_reversed t s = Inl outcome
    | None \<Rightarrow> \<exists>s1. mark_reversed t s = Inr s1 \<and> wf_settlement s1 \<and> mem_view s1 = map (settle_mark t) (mem_view s) \<and>
        ds_next s1 = ds_next s"
proof (cases t)
  case None
  with assms show ?thesis by (simp add: target_refusal_def mark_reversed_def)
next
  case (Some i)
  have d: "List.find (\<lambda>d. cashout_id d = i) (mem_view s) = mem_detail s i"
    by (simp add: mem_detail_view [OF assms])
  show ?thesis
  proof (cases "map_of (ds_cashouts s) i")
    case None
    with Some d show ?thesis by (simp add: target_refusal_def mark_reversed_def mem_detail_def)
  next
    case c: (Some c)
    then have m: "(i, c) \<in> set (ds_cashouts s)" by (rule map_of_SomeD)
    with assms have i: "dc_id c = i" by (auto simp: wf_settlement_def)
    show ?thesis
    proof (cases "dc_status c = POSTED")
      case False
      with Some c d show ?thesis by (simp add: target_refusal_def mark_reversed_def mem_detail_def)
    next
      case True
      let ?f = "\<lambda>x. if fst x = i then (i, c\<lparr>dc_status := REVERSED\<rparr>) else x"
      let ?s1 = "s\<lparr>ds_cashouts := map ?f (ds_cashouts s)\<rparr>"
      have dist: "distinct (map fst (ds_cashouts s))" using assms by (simp add: wf_settlement_def)
      have u: "AList.update i (c\<lparr>dc_status := REVERSED\<rparr>) (ds_cashouts s) = map ?f (ds_cashouts s)"
        by (rule update_existing [OF c dist])
      have only: "snd x = c" if "x \<in> set (ds_cashouts s)" "fst x = i" for x
        using that c dist by (metis map_of_eq_Some_iff option.inject prod.collapse)
      have fst: "map fst (map ?f (ds_cashouts s)) = map fst (ds_cashouts s)" by auto
      have key: "map dc_correlationKey (map snd (map ?f (ds_cashouts s))) =
          map dc_correlationKey (map snd (ds_cashouts s))"
        using only by auto
      have sel: "ds_cashouts ?s1 = map ?f (ds_cashouts s)" "ds_next ?s1 = ds_next s" by simp_all
      have "fst ` set (map ?f (ds_cashouts s)) = fst ` set (ds_cashouts s)"
        unfolding set_map [symmetric] fst ..
      then have "wf_settlement ?s1"
        using assms unfolding wf_settlement_def sel fst key by (auto simp: i)
      moreover have "mem_view ?s1 = map (settle_mark t) (mem_view s)"
        using only assms Some
        by (auto simp: mem_view_def settle_mark_def cashout_id_def wf_settlement_def i split: prod.splits)
      ultimately show ?thesis
        using Some c d True by (auto simp: target_refusal_def mark_reversed_def mem_detail_def i u)
    qed
  qed
qed

lemma mem_record_new:
  assumes wf: "wf_settlement s"
    and key: "List.find (\<lambda>d. cashout_corr d = ri_correlationKey inp) (mem_view s) = None"
    and target: "target_refusal (mem_view s) (ri_reversesId inp) = None"
  shows "\<exists>i n s'. mem_record inp s = (Inr (RECORDED (recorded_detail inp i n)), s') \<and> wf_settlement s' \<and>
     mem_view s' = map (settle_mark (ri_reversesId inp)) (mem_view s) @ [recorded_detail inp i n]"
proof -
  from mark_reversed_cases [OF wf, of "ri_reversesId inp"] target obtain s1 where
      s1: "mark_reversed (ri_reversesId inp) s = Inr s1" "wf_settlement s1"
        "mem_view s1 = map (settle_mark (ri_reversesId inp)) (mem_view s)" "ds_next s1 = ds_next s"
    by auto
  let ?i = "uuid (ds_next s1)" and ?n = "Suc (ds_next s1)"
  let ?rows = "allocation_rows inp ?i ?n"
  let ?s2 = "s1\<lparr>ds_cashouts := ds_cashouts s1 @ [(?i, cashout_row inp ?i)],
    ds_allocations := AList.update ?i ?rows (ds_allocations s1), ds_next := ?n + length ?rows\<rparr>"
  have fresh: "?i \<notin> fst ` set (ds_cashouts s1)" using s1(2) by (auto simp: wf_settlement_def issued_def)
  have upd: "AList.update ?i (cashout_row inp ?i) (ds_cashouts s1) = ds_cashouts s1 @ [(?i, cashout_row inp ?i)]"
    by (rule AList_update_fresh [OF fresh])
  have k: "ri_correlationKey inp \<notin> set (map dc_correlationKey (map snd (ds_cashouts s1)))"
    using key unfolding mem_view_ids(1) [of s1, symmetric] s1(3) find_None_image set_map
    by (simp add: image_image)
  have up: "fst ` set (ds_cashouts s1) \<subseteq> issued (?n + length ?rows)"
    using s1(2) issued_mono [of "ds_next s1" "?n + length ?rows"] by (auto simp: wf_settlement_def)
  have "mem_view ?s2 = mem_view s1 @ [recorded_detail inp ?i ?n]"
    using fresh by (force simp: mem_view_def recorded_detail_def update_conv' split: prod.splits)
  moreover have "wf_settlement ?s2"
    using s1(2) fresh k up by (auto simp: wf_settlement_def cashout_row_def)
  moreover have "mem_detail ?s2 ?i = Some (recorded_detail inp ?i ?n)"
    using fresh by (simp add: mem_detail_def recorded_detail_def update_conv' map_of_append map_add_def
        map_of_eq_None_iff [THEN iffD2])
  ultimately show ?thesis
    using key s1(1,3) mem_key_view [OF wf, of "ri_correlationKey inp"]
    by (auto simp: mem_record_def Let_def upd simp del: upt_Suc)
qed

interpretation mem_cashouts: cashout_store InMemoryDriverSettlementRepository mem_view wf_settlement
proof (unfold_locales, goal_cases)
  case (1 s)
  then show ?case by (simp add: wf_settlement_def)
next
  case (6 s inp outcome)
  then show ?case
    using mark_reversed_cases [of s "ri_reversesId inp"] mem_key_view [of s "ri_correlationKey inp"]
    by (simp add: InMemoryDriverSettlementRepository_def mem_record_def)
next
  case (7 s inp)
  from mem_record_new [OF this] show ?case by (simp add: InMemoryDriverSettlementRepository_def)
qed (simp_all add: InMemoryDriverSettlementRepository_def mem_find_def mem_findByCorrelation_def query_def
    mem_detail_view mem_key_view mem_list_view mem_record_def)

end
