(* ===== verification/CostingReplay.thy ===== *)
theory CostingReplay imports CostingPeriods begin

text \<open>
  Retries. A command repeated under its key answers with the rows the first run wrote and writes
  nothing; a second reversal is refused; two concurrent run expenses of one key converge. All of it
  rests on the contract \<open>costing_ledger\<close> only.
\<close>

lemma entry_identity_of_row [simp]:
  "fundEntryIdentityOf (entry_row r k t i) =
     fundEntryIdentity (pe_accountId r) (pe_kind r) (pe_signedAmount r) (pe_businessDate r)
       (pe_tripId r) (pe_runId r) (pe_legId r) (pe_note r)"
  by (simp add: fundEntryIdentityOf_def)

lemma expense_identity_of_row [simp]:
  "tripExpenseIdentityOf (expense_row r k t i e) =
     tripExpenseIdentity (px_tripId r) (px_signedAmount r) (px_businessDate r) (px_fundedBy r)
       (px_categoryCode r) (px_driverId r) (px_evidenceLocator r) (px_note r)"
  by (simp add: tripExpenseIdentityOf_def)

lemma assertSameEntry_Inr: "assertSameEntry e i = Inr u \<longleftrightarrow> fundEntryIdentityOf e = i"
  by (simp add: assertSameEntry_def isSameFundEntry_iff)

lemma assertSameExpense_Inr:
  "assertSameExpense x i leg account = Inr u \<longleftrightarrow>
     tripExpenseIdentityOf x = i \<and> map_option acc_id account = map_option e_accountId leg"
  by (simp add: assertSameExpense_def isSameTripExpense_iff)

lemma on_store_world: "on_store m (w\<lparr>w_store := s\<rparr>) = (fst (m s), w\<lparr>w_store := snd (m s)\<rparr>)"
  by (simp add: on_store_def split: prod.split)

lemma postGuarded_Inr:
  "postGuarded R g i w = (Inr posted, w') \<longleftrightarrow> on_store (post R i) w = (Inr posted, w')"
  by (auto simp: postGuarded_def split: prod.splits sum.splits js_error.splits)

lemma correlation_key_given [simp]: "correlation_key (Some k) w = (Inr k, w)"
  by (simp add: correlation_key_def ret_eq)

text \<open>With the day given, the clock is not asked.\<close>

lemma resolve_given:
  "resolveCostingBusinessDate f (Some d) now tz = (if valid_date d then Inr d else Inl (invalid ''BUSINESS_DATE_INVALID''))"
  by (simp add: resolveCostingBusinessDate_def assertBusinessDate_eq)

lemma movement_checks_clock [simp]:
  "fm_businessDate input = Some d \<Longrightarrow> movement_checks (env\<lparr>clock := now\<rparr>) input = movement_checks env input"
  by (simp add: movement_checks_def resolve_given)

text \<open>The checks of a run expense, which all come before its first read of the ledger.\<close>

definition run_checks ::
  "costing_env \<Rightarrow> movement_store \<Rightarrow> RecordRunExpenseCommand \<Rightarrow> js_error + (business_date \<times> int \<times> CostingRunFacts)" where
  "run_checks env m command =
     rbind (resolveCostingBusinessDate (intl env) (rc_businessDate command) (clock env) (timeZone env)) (\<lambda>d.
     rbind (requireNonNegativeAmount (rc_amount command)) (\<lambda>magnitude.
     rbind (mapLedgerError (amount_of (rbind (signedAmountFor RUN_EXPENSE (num_of_int magnitude))
            (\<lambda>v. assertLedgerSign RUN_EXPENSE (num_of_int (amount v)))))) (\<lambda>signed.
     rbind (requireDriverFacts (core env) (rc_driverId command)) (\<lambda>_.
     rbind (requireRunContext m command) (\<lambda>run. Inr (d, signed, run))))))"

context costing_ledger
begin

definition account_for :: "'s costing_world \<Rightarrow> ident \<Rightarrow> DriverFundAccount option" where
  "account_for w d = List.find (\<lambda>a. acc_driverId a = d) (accounts_of (w_store w))"

lemma ensure_found:
  assumes "inv (w_store w)" "account_for w d = Some a"
  shows "on_store (ensureAccount R d tm) w = (Inr a, w)"
  by (rule ensure_cases [OF assms(1), of d tm]) (use assms(2) in \<open>simp_all add: account_for_def\<close>)

lemma ensure_then_found:
  assumes "inv (w_store w)" "on_store (ensureAccount R d tm) w = (r, w1)"
  obtains a where "r = Inr a" "account_for w1 d = Some a" "inv (w_store w1)"
    "view (w_store w1) = view (w_store w)" "w1 = w\<lparr>w_store := w_store w1\<rparr>" "w_audit w1 = w_audit w"
  by (rule ensure_cases [OF assms(1), of d tm])
    (use assms in \<open>auto simp: account_for_def find_append intro!: that\<close>)

lemma post_Inr:
  assumes "inv (w_store w)" "on_store (post R i) w = (Inr posted, w')"
  obtains ei xi where "posted = posted_rows i ei xi" "\<not> key_taken (entries_of (w_store w)) (expenses_of (w_store w)) i"
    "frozen_under (periods_of (w_store w)) (in_periodGuard i) = None"
    "entries_of (w_store w') = entries_of (w_store w) @ opt_list (cp_entry posted)"
    "expenses_of (w_store w') = expenses_of (w_store w) @ opt_list (cp_expense posted)"
    "accounts_of (w_store w') = accounts_of (w_store w)" "inv (w_store w')" "w_audit w' = w_audit w"
    "periods_of (w_store w') = periods_of (w_store w)"
proof (rule post_cases [OF assms(1), of i])
  fix ei xi s'
  assume "frozen_under (periods_of (w_store w)) (in_periodGuard i) = None"
    "\<not> key_taken (entries_of (w_store w)) (expenses_of (w_store w)) i"
    "post R i (w_store w) = (Inr (posted_rows i ei xi), s')"
    "entries_of s' = entries_of (w_store w) @ opt_list (cp_entry (posted_rows i ei xi))"
    "expenses_of s' = expenses_of (w_store w) @ opt_list (cp_expense (posted_rows i ei xi))"
    "accounts_of s' = accounts_of (w_store w)" "inv s'" "periods_of s' = periods_of (w_store w)"
  with assms(2) show thesis
    by (intro that [of ei xi]) (auto simp: on_store_def)
qed (use assms(2) in \<open>auto simp: on_store_def\<close>)

lemma key_fresh_find:
  "\<not> key_taken es xs i \<Longrightarrow> in_entry i \<noteq> None \<Longrightarrow> List.find (\<lambda>e. e_correlationKey e = in_correlationKey i) es = None"
  "\<not> key_taken es xs i \<Longrightarrow> in_expense i \<noteq> None \<Longrightarrow> List.find (\<lambda>x. x_correlationKey x = in_correlationKey i) xs = None"
  by (auto simp: key_taken_def list_ex_iff find_None_iff_ball)

lemma commit_movement_settles:
  assumes inv: "inv (w_store w)" and acc: "account_for w driver = Some a"
    and run: "commit_movement R env kind input v d actor a k w = (Inr (e, b), w')"
  shows "account_for w' driver = Some a \<and> inv (w_store w') \<and>
    List.find (\<lambda>e. e_correlationKey e = k) (entries_of (w_store w')) = Some e \<and>
    fundEntryIdentityOf e = fundEntryIdentity (acc_id a) kind v d (fm_tripId input) None None (fm_note input)"
proof (cases "List.find (\<lambda>e. e_correlationKey e = k) (entries_of (w_store w))")
  case (Some existing)
  with assms show ?thesis by (auto simp: commit_movement_def method_iffs assertSameEntry_Inr)
next
  case None
  with run obtain posted w2 where
      p: "on_store (post R (movement_input kind v (acc_id a) d input k (clock env) actor)) w = (Inr posted, w2)"
      "cp_entry posted = Some e" "w_store w' = w_store w2"
    by (auto simp: commit_movement_def bnd_Inr_iff ret_Inr_iff postGuarded_Inr audit_append_def
        split: option.splits)
  show ?thesis
    by (rule post_Inr [OF inv p(1)])
      (use p(2,3) acc None in \<open>auto simp: account_for_def find_append movement_input_def\<close>)
qed

lemma movement_replay:
  assumes inv: "inv (w_store w)"
    and first: "postEntryDetailed R env kind input v actor w = (Inr (e, b), w')"
    and key: "fm_correlationKey input = Some k" and date: "fm_businessDate input = Some d0"
  shows "postEntryDetailed R (env\<lparr>clock := now\<rparr>) kind input v actor' w' = (Inr (e, True), w')"
proof -
  from first obtain d a w1 where
      checks: "movement_checks env input = Inr d"
    and acc: "on_store (ensureAccount R (fm_driverId input) (clock env)) w = (Inr a, w1)"
    and rest: "commit_movement R env kind input v d actor a k w1 = (Inr (e, b), w')"
    by (auto simp: postEntryDetailed_def bnd_Inr_iff lift_Inr_iff key)
  from acc have "account_for w1 (fm_driverId input) = Some a" "inv (w_store w1)"
    by (auto elim: ensure_then_found [OF inv])
  from commit_movement_settles [OF this(2,1) rest] checks show ?thesis
    by (simp add: postEntryDetailed_def commit_movement_def bnd_eq lift_eq ret_eq key date
        ensure_found assertSameEntry_def isSameFundEntry_iff)
qed

lemma commit_expense_settles:
  assumes inv: "inv (w_store w)"
    and acc: "\<And>a. account = Some a \<Longrightarrow> account_for w driver' = Some a"
    and key: "c_correlationKey command = Some k"
    and run: "commit_expense R env command d m driver account actor w = (Inr posted, w')"
  shows "inv (w_store w') \<and> (\<forall>a. account = Some a \<longrightarrow> account_for w' driver' = Some a) \<and>
    (\<exists>x cost. List.find (\<lambda>x. x_correlationKey x = k) (expenses_of (w_store w')) = Some x \<and>
      cp_expense posted = Some x \<and>
      amount_of (assertExpenseSign EXPENSE (num_of_int m)) = Inr cost \<and>
      tripExpenseIdentityOf x = tripExpenseIdentity (c_tripId command) cost d (c_fundedBy command)
         (c_categoryCode command) driver (c_evidenceLocator command) (c_note command)) \<and>
    map_option acc_id account = map_option e_accountId (cp_entry posted) \<and>
    (account = None \<or> List.find (\<lambda>e. e_correlationKey e = k) (entries_of (w_store w')) = cp_entry posted)"
proof -
  from run obtain cost where cost: "amount_of (assertExpenseSign EXPENSE (num_of_int m)) = Inr cost"
    by (auto simp: commit_expense_def bnd_Inr_iff lift_Inr_iff key)
  show ?thesis
  proof (cases "List.find (\<lambda>x. x_correlationKey x = k) (expenses_of (w_store w))")
    case (Some x)
    with run cost assms(1,2) show ?thesis
      by (auto simp: commit_expense_def bnd_Inr_iff lift_Inr_iff ret_Inr_iff key assertSameExpense_Inr)
  next
    case None
    with run cost obtain fund w2 where
        p: "on_store (post R (trip_expense_input command account driver d k fund cost (clock env) actor)) w = (Inr posted, w2)"
        "w_store w' = w_store w2"
      by (auto simp: commit_expense_def bnd_Inr_iff lift_Inr_iff ret_Inr_iff key postGuarded_Inr
          audit_append_def split: if_splits)
    show ?thesis
    proof (rule post_Inr [OF inv p(1)], goal_cases)
      case (1 ei xi)
      note fresh = key_fresh_find [OF 1(2)]
      show ?case
        using 1 fresh p(2) acc cost None
        by (cases account) (auto simp: account_for_def find_append trip_expense_input_def)
    qed
  qed
qed

lemma expense_account_Inr:
  assumes inv: "inv (w_store w)" and run: "expense_account R env command trip w = (Inr (driver, account), w1)"
  obtains (company) "c_fundedBy command = COMPANY_DIRECT" "driver = None" "account = None" "w1 = w"
  | (fund) d a where "c_fundedBy command = DRIVER_FUND" "driver = Some d" "account = Some a"
      "account_for w1 d = Some a" "inv (w_store w1)"
      "\<And>w2 now. inv (w_store w2) \<Longrightarrow> account_for w2 d = Some a \<Longrightarrow>
         expense_account R (env\<lparr>clock := now\<rparr>) command trip w2 = (Inr (driver, account), w2)"
proof (cases "c_fundedBy command")
  case COMPANY_DIRECT
  with run show ?thesis by (intro company) (simp_all add: expense_account_def ret_def)
next
  case DRIVER_FUND
  with run obtain d a where
      checks: "requireDriverIdForFund (c_driverId command) = Inr d"
      "\<exists>u. requireDriverFacts (core env) d = Inr u" "requireDriverAssignedToTrip (core env) trip d = Inr ()"
    and acc: "on_store (ensureAccount R d (clock env)) w = (Inr a, w1)"
    and r: "driver = Some d" "account = Some a"
    by (auto simp: expense_account_def method_iffs)
  from acc have f: "account_for w1 d = Some a" "inv (w_store w1)"
    by (auto elim: ensure_then_found [OF inv])
  show ?thesis
  proof (rule fund [OF DRIVER_FUND r f])
    fix w2 now
    assume "inv (w_store w2)" "account_for w2 d = Some a"
    with checks r DRIVER_FUND show "expense_account R (env\<lparr>clock := now\<rparr>) command trip w2 = (Inr (driver, account), w2)"
      by (auto simp: expense_account_def bnd_eq lift_eq ret_eq ensure_found)
  qed
qed

text \<open>The retry finds the row; what it answers depends on the fund entry of the same key.\<close>

lemma commit_expense_retry:
  assumes x: "List.find (\<lambda>x. x_correlationKey x = k) (expenses_of (w_store w)) = Some x"
      "amount_of (assertExpenseSign EXPENSE (num_of_int m)) = Inr cost"
      "tripExpenseIdentityOf x = tripExpenseIdentity (c_tripId command) cost d (c_fundedBy command)
         (c_categoryCode command) driver (c_evidenceLocator command) (c_note command)"
    and key: "c_correlationKey command = Some k"
  shows "commit_expense R env command d m driver account actor w =
    (let leg = List.find (\<lambda>e. e_correlationKey e = k) (entries_of (w_store w))
     in if map_option acc_id account = map_option e_accountId leg
        then (Inr \<lparr>cp_entry = leg, cp_expense = Some x\<rparr>, w) else (Inl denyCorrelationReuse, w))"
  using x by (simp add: commit_expense_def key bnd_eq lift_eq ret_eq assertSameExpense_def isSameTripExpense_iff Let_def)

lemma expense_replay:
  assumes inv: "inv (w_store w)"
    and first: "recordTripExpense R env command actor w = (Inr posted, w')"
    and key: "c_correlationKey command = Some k" and date: "c_businessDate command = Some d0"
  shows "recordTripExpense R (env\<lparr>clock := now\<rparr>) command actor' w' =
    (if c_fundedBy command = COMPANY_DIRECT \<and>
        List.find (\<lambda>e. e_correlationKey e = k) (entries_of (w_store w')) \<noteq> None
     then (Inl denyCorrelationReuse, w') else (Inr posted, w'))"
proof -
  from first obtain d trip m driver account w1 where
      checks: "valid_date d0" "d = d0" "requireTripFacts (core env) (c_tripId command) = Inr trip"
      "requireCategory (expenseCategories env) (c_categoryCode command) = Inr ()"
      "requireNonNegativeAmount (c_amount command) = Inr m"
      "guardTripAcceptsExpense trip (c_fundedBy command) = Inr ()"
    and acc: "expense_account R env command trip w = (Inr (driver, account), w1)"
    and run: "commit_expense R env command d m driver account actor w1 = (Inr posted, w')"
    by (auto simp: recordTripExpense_def bnd_Inr_iff lift_Inr_iff date resolve_given split: if_splits)
  have retry: "recordTripExpense R (env\<lparr>clock := now\<rparr>) command actor' w' =
      bnd (expense_account R (env\<lparr>clock := now\<rparr>) command trip)
        (\<lambda>(driver, account). commit_expense R (env\<lparr>clock := now\<rparr>) command d m driver account actor') w'"
    using checks by (simp add: recordTripExpense_def bnd_eq lift_eq date resolve_given)
  show ?thesis
  proof (cases rule: expense_account_Inr [OF inv acc])
    case 1
    with commit_expense_settles [OF _ _ key run, of undefined] inv obtain x cost where
        x: "List.find (\<lambda>x. x_correlationKey x = k) (expenses_of (w_store w')) = Some x" "cp_expense posted = Some x"
        "amount_of (assertExpenseSign EXPENSE (num_of_int m)) = Inr cost"
        "tripExpenseIdentityOf x = tripExpenseIdentity (c_tripId command) cost d (c_fundedBy command)
         (c_categoryCode command) driver (c_evidenceLocator command) (c_note command)"
      and leg: "cp_entry posted = None"
      by auto
    have "expense_account R (env\<lparr>clock := now\<rparr>) command trip w' = (Inr (driver, account), w')"
      using 1 by (simp add: expense_account_def ret_eq)
    with retry commit_expense_retry [OF x(1,3,4) key] 1 x(2) leg show ?thesis
      by (cases posted) (auto simp: bnd_eq Let_def)
  next
    case (2 dr a)
    have "account_for w1 dr = Some b" if "account = Some b" for b
      using that 2 by simp
    from commit_expense_settles [OF 2(5) this key run] 2(3) obtain x cost where
        x: "List.find (\<lambda>x. x_correlationKey x = k) (expenses_of (w_store w')) = Some x" "cp_expense posted = Some x"
        "amount_of (assertExpenseSign EXPENSE (num_of_int m)) = Inr cost"
        "tripExpenseIdentityOf x = tripExpenseIdentity (c_tripId command) cost d (c_fundedBy command)
         (c_categoryCode command) driver (c_evidenceLocator command) (c_note command)"
      and leg: "map_option acc_id account = map_option e_accountId (cp_entry posted)"
        "List.find (\<lambda>e. e_correlationKey e = k) (entries_of (w_store w')) = cp_entry posted"
      and w': "inv (w_store w')" "account_for w' dr = Some a"
      by auto
    from 2(6) [OF w'] retry commit_expense_retry [OF x(1,3,4) key] 2(1) x(2) leg show ?thesis
      by (cases posted) (auto simp: bnd_eq Let_def)
  qed
qed

lemma reverseCorrelation_Inr:
  assumes "reverseCorrelation R env k why actor w = (Inr posted, w')"
  obtains w2 where
    "on_store (post R (reversal_input (List.find (\<lambda>e. e_correlationKey e = k) (entries_of (w_store w)))
       (List.find (\<lambda>x. x_correlationKey x = k) (expenses_of (w_store w)))
       (negated e_signedAmount (List.find (\<lambda>e. e_correlationKey e = k) (entries_of (w_store w))))
       (negated x_signedAmount (List.find (\<lambda>x. x_correlationKey x = k) (expenses_of (w_store w))))
       k why (clock env) actor)) w = (Inr posted, w2)"
    "w_store w' = w_store w2"
    "\<And>e. List.find (\<lambda>e. e_correlationKey e = k) (entries_of (w_store w)) = Some e \<Longrightarrow> e_kind e \<noteq> REVERSAL"
    "\<And>x. List.find (\<lambda>x. x_correlationKey x = k) (expenses_of (w_store w)) = Some x \<Longrightarrow> x_kind x = EXPENSE"
proof -
  let ?entry = "List.find (\<lambda>e. e_correlationKey e = k) (entries_of (w_store w))"
  let ?expense = "List.find (\<lambda>x. x_correlationKey x = k) (expenses_of (w_store w))"
  from assms have kinds: "map_option e_kind ?entry \<noteq> Some REVERSAL" "map_option x_kind ?expense \<noteq> Some EXPENSE_REVERSAL"
    and "bnd (find_reversal R ?entry ?expense) (\<lambda>already.
      if already then throw (denyReversal ''REVERSAL_ALREADY_REVERSED'')
      else commit_reversal R env ?entry ?expense k why actor) w = (Inr posted, w')"
    by (auto simp: reverseCorrelation_def bnd_Inr_iff split: if_splits)
  then have "commit_reversal R env ?entry ?expense k why actor w = (Inr posted, w')"
    by (auto simp: bnd_Inr_iff dest: find_reversal_result split: if_splits)
  then obtain w2 where
      "on_store (post R (reversal_input ?entry ?expense (negated e_signedAmount ?entry)
         (negated x_signedAmount ?expense) k why (clock env) actor)) w = (Inr posted, w2)" "w_store w' = w_store w2"
    by (auto simp: commit_reversal_def bnd_Inr_iff ret_Inr_iff postGuarded_Inr audit_append_def
        dest!: reversal_amounts)
  with kinds show ?thesis
    by (intro that [of w2]) (auto intro: trip_expense_kind.exhaust)
qed

lemma reversal_cancels:
  assumes inv: "inv (w_store w)" and ok: "ledger_ok (entries_of (w_store w)) (expenses_of (w_store w))"
    and e: "List.find (\<lambda>e. e_id e = i) (entries_of (w_store w)) = Some e"
    and run: "reverseFundEntry R env i why actor w = (Inr posted, w')"
  obtains r where "cp_entry posted = Some r" "reverses_entry r e"
    "entries_of (w_store w') = entries_of (w_store w) @ [r]"
    "expenses_of (w_store w') = expenses_of (w_store w) @ opt_list (cp_expense posted)"
    "\<And>x. x \<in> set (expenses_of (w_store w)) \<Longrightarrow> x_correlationKey x = e_correlationKey e \<Longrightarrow>
       \<exists>rx. cp_expense posted = Some rx \<and> reverses_expense rx x"
    "\<And>env' why' actor'. reverseFundEntry R env' i why' actor' w' = (Inl (conflict ''ENTRY_ALREADY_REVERSED''), w')"
proof -
  let ?k = "e_correlationKey e" and ?es = "entries_of (w_store w)" and ?xs = "expenses_of (w_store w)"
  from find_SomeD [OF e] have em: "e \<in> set ?es" "e_id e = i" by auto
  from ok have dk: "distinct (map e_correlationKey ?es)" "distinct (map x_correlationKey ?xs)"
    by (simp_all add: ledger_ok_def)
  have fk: "List.find (\<lambda>y. e_correlationKey y = ?k) ?es = Some e"
    by (rule find_distinct_key [OF dk(1) em(1)])
  from run have rc: "reverseCorrelation R env ?k why actor w = (Inr posted, w')"
    by (simp add: reverseFundEntry_def bnd_eq e)
  show ?thesis
  proof (rule reverseCorrelation_Inr [OF rc], goal_cases)
    case (1 w2)
    note kind_e = 1(3) [OF fk] and kind_x = 1(4)
    show ?case
    proof (rule post_Inr [OF inv 1(1)], goal_cases)
      case (1 ei xi)
      then obtain r where r: "cp_entry posted = Some r" "reverses_entry r e"
        using kind_e by (auto simp: fk reverses_entry_def)
      have "\<exists>rx. cp_expense posted = Some rx \<and> reverses_expense rx x"
        if "x \<in> set ?xs" "x_correlationKey x = ?k" for x
        using find_key_unique [OF dk(2) that] kind_x 1(1) that(2) by (auto simp: reverses_expense_def)
      note reversed = this
      have w': "w_store w' = w_store w2" by fact
      have es': "entries_of (w_store w') = ?es @ [r]" using 1(4) r(1) by (simp add: w')
      have xs': "expenses_of (w_store w') = ?xs @ opt_list (cp_expense posted)" using 1(5) by (simp add: w')
      have new_key: "x_correlationKey rx \<noteq> ?k" if "cp_expense posted = Some rx" for rx
        using that 1(1) by (auto simp: fk)
      have fx: "List.find (\<lambda>x. x_correlationKey x = ?k) (expenses_of (w_store w')) = List.find (\<lambda>x. x_correlationKey x = ?k) ?xs"
        using new_key by (cases "cp_expense posted") (auto simp: xs' find_append split: option.split)
      have not_reversal: "\<nexists>x. List.find (\<lambda>x. x_correlationKey x = ?k) ?xs = Some x \<and> x_kind x = EXPENSE_REVERSAL"
        using kind_x by fastforce
      have "List.find (\<lambda>e'. e_reversalOfId e' = Some (e_id e)) (?es @ [r]) \<noteq> None"
        using r(2) by (auto simp: find_None_iff_ball reverses_entry_def)
      then have again: "reverseFundEntry R env' i why' actor' w' = (Inl (conflict ''ENTRY_ALREADY_REVERSED''), w')"
        for env' why' actor'
        using e fk kind_e fx not_reversal
        by (auto simp: reverseFundEntry_def reverseCorrelation_def find_reversal_def bnd_eq es' find_append
            throw_eq ret_eq denyReversal_def)
      from that [OF r es' xs' reversed again] show ?case by blast
    qed
  qed
qed

text \<open>Two run expenses of one key, the second running entirely inside the gap of the first.\<close>

lemma replayOf_absent:
  assumes "List.find (\<lambda>e. e_correlationKey e = k) (entries_of (w_store w)) = None"
    "List.find (\<lambda>x. x_correlationKey x = k) (expenses_of (w_store w)) = None"
  shows "replayOf R k d incoming w = (Inr None, w)"
  using assms by (simp add: replayOf_def bnd_eq ret_eq)

lemma replayOf_same:
  assumes "List.find (\<lambda>e. e_correlationKey e = k) (entries_of (w_store w)) = Some e"
    "List.find (\<lambda>x. x_correlationKey x = k) (expenses_of (w_store w)) = None"
    "account_for w d = Some a" "fundEntryIdentityOf e = incoming (acc_id a)"
  shows "replayOf R k d incoming w = (Inr (Some e), w)"
  using assms by (simp add: replayOf_def bnd_eq ret_eq account_for_def isSameFundEntry_iff Let_def)

lemma recordRunExpense_eq:
  "recordRunExpense R env m others command actor w =
     (case run_checks env m command of
        Inl e \<Rightarrow> (Inl e, w)
      | Inr (d, signed, run) \<Rightarrow>
          bnd (replayOf R (rc_correlationKey command) (rc_driverId command) (run_expense_identity command signed d (rf_id run)))
            (\<lambda>replay. case replay of
               Some existing \<Rightarrow> ret (existing, True)
             | None \<Rightarrow>
                 bnd (on_store (ensureAccount R (rc_driverId command) (clock env))) (\<lambda>account w.
                   postRunExpense R (run_expense_identity command signed d (rf_id run)) command
                     (run_expense_input command signed d (rf_id run) (acc_id account) (clock env) actor) actor
                     (w\<lparr>w_store := others (w_store w)\<rparr>))) w)"
  by (simp add: recordRunExpense_def run_checks_def bnd_eq lift_eq Let_def split: sum.split)

lemma replayOf_None:
  "replayOf R k d incoming w = (Inr None, w') \<Longrightarrow>
     List.find (\<lambda>e. e_correlationKey e = k) (entries_of (w_store w)) = None \<and>
     List.find (\<lambda>x. x_correlationKey x = k) (expenses_of (w_store w)) = None \<and> w' = w"
  by (auto simp: replayOf_def bnd_Inr_iff ret_Inr_iff Let_def split: if_splits)

text \<open>A run expense that reports a new entry wrote it, and nothing else wrote the key.\<close>

lemma run_expense_posted:
  assumes inv: "inv (w_store w)" and run: "recordRunExpense R env m id command actor w = (Inr (e, False), w2)"
  obtains d signed r a w1 posted w3 where "run_checks env m command = Inr (d, signed, r)"
    "List.find (\<lambda>e. e_correlationKey e = rc_correlationKey command) (entries_of (w_store w)) = None"
    "List.find (\<lambda>x. x_correlationKey x = rc_correlationKey command) (expenses_of (w_store w)) = None"
    "on_store (ensureAccount R (rc_driverId command) (clock env)) w = (Inr a, w1)"
    "on_store (post R (run_expense_input command signed d (rf_id r) (acc_id a) (clock env) actor)) w1 = (Inr posted, w3)"
    "cp_entry posted = Some e" "w_store w2 = w_store w3"
proof -
  from run obtain d signed r where checks: "run_checks env m command = Inr (d, signed, r)"
    by (auto simp: recordRunExpense_eq split: sum.splits)
  from run checks have "\<exists>w'. replayOf R (rc_correlationKey command) (rc_driverId command)
      (run_expense_identity command signed d (rf_id r)) w = (Inr None, w')"
    by (auto simp: recordRunExpense_eq bnd_Inr_iff ret_Inr_iff split: option.splits)
  with replayOf_None have replay: "replayOf R (rc_correlationKey command) (rc_driverId command)
      (run_expense_identity command signed d (rf_id r)) w = (Inr None, w)" by blast
  from run checks replay obtain a w1 where
    acc: "on_store (ensureAccount R (rc_driverId command) (clock env)) w = (Inr a, w1)"
    and rest: "postRunExpense R (run_expense_identity command signed d (rf_id r)) command
        (run_expense_input command signed d (rf_id r) (acc_id a) (clock env) actor) actor w1 = (Inr (e, False), w2)"
    by (auto simp: recordRunExpense_eq bnd_Inr_iff ret_Inr_iff)
  from rest obtain posted w3 where
      "on_store (post R (run_expense_input command signed d (rf_id r) (acc_id a) (clock env) actor)) w1 = (Inr posted, w3)"
      "cp_entry posted = Some e" "w_store w2 = w_store w3"
    by (cases "on_store (post R (run_expense_input command signed d (rf_id r) (acc_id a) (clock env) actor)) w1")
      (auto simp: postRunExpense_eq after_run_post_def bnd_Inr_iff ret_Inr_iff audit_append_def
        split: sum.splits option.splits js_error.splits if_splits)
  with that [OF checks _ _ acc] replayOf_None [OF replay] show ?thesis by blast
qed

lemma run_expense_converges:
  assumes inv: "inv (w_store w)"
    and other: "recordRunExpense R env m id command actor2 w = (Inr (e, False), w2)"
  shows "recordRunExpense R env m (\<lambda>s. w_store (snd (recordRunExpense R env m id command actor2 (w\<lparr>w_store := s\<rparr>))))
      command actor w = (Inr (e, True), w\<lparr>w_store := w_store w2\<rparr>) \<and>
    entries_of (w_store w2) = entries_of (w_store w) @ [e]"
proof (rule run_expense_posted [OF inv other], goal_cases)
  case (1 d signed r a w1 posted w3)
  let ?k = "rc_correlationKey command" and ?inc = "run_expense_identity command signed d (rf_id r)"
  let ?inp = "run_expense_input command signed d (rf_id r) (acc_id a) (clock env)"
  note facts = 1
  show ?case
  proof (rule ensure_then_found [OF inv facts(4)], goal_cases)
    case (1 a')
    then have acc: "account_for w1 (rc_driverId command) = Some a" "inv (w_store w1)"
        "view (w_store w1) = view (w_store w)" and w1: "w\<lparr>w_store := w_store w1\<rparr> = w1"
      by simp_all
    have absent1: "replayOf R ?k (rc_driverId command) ?inc w1 = (Inr None, w1)"
      using facts(2,3) acc(3) by (intro replayOf_absent) simp_all
    have absent: "replayOf R ?k (rc_driverId command) ?inc w = (Inr None, w)"
      using facts(2,3) by (rule replayOf_absent)
    have second: "w_store (snd (recordRunExpense R env m id command actor2 w1)) = w_store w2"
      using facts(1,5,6,7) absent1 ensure_found [OF acc(2,1)]
      by (simp add: recordRunExpense_eq bnd_eq postRunExpense_eq after_run_post_def audit_append_def ret_eq)
    show ?case
    proof (rule post_Inr [OF acc(2) facts(5)], goal_cases)
      case (1 ei xi)
      let ?w3 = "w\<lparr>w_store := w_store w2\<rparr>"
      have e: "e = entry_row (the (in_entry (?inp actor2))) ?k (clock env) ei"
        using 1(1) facts(6) by (simp add: run_expense_input_def)
      have entries3: "entries_of (w_store ?w3) = entries_of (w_store w) @ [e]"
        and expenses3: "expenses_of (w_store ?w3) = expenses_of (w_store w)"
        using 1(1,4,5) facts(6,7) acc(3) by (auto simp: run_expense_input_def)
      have "frozen_under (periods_of (w_store ?w3)) (in_periodGuard (?inp actor)) = None"
        using 1(3,9) facts(7) by (simp add: run_expense_input_def)
      moreover have "key_taken (entries_of (w_store ?w3)) (expenses_of (w_store ?w3)) (?inp actor)"
        using e entries3 by (simp add: key_taken_def run_expense_input_def)
      ultimately have post: "on_store (post R (?inp actor)) ?w3 = (Inl (conflict ''CORRELATION_KEY_REUSED''), ?w3)"
        by (simp add: on_store_def post_key_taken)
      have "replayOf R ?k (rc_driverId command) ?inc ?w3 = (Inr (Some e), ?w3)"
      proof (rule replayOf_same)
        show "List.find (\<lambda>e. e_correlationKey e = ?k) (entries_of (w_store ?w3)) = Some e"
          unfolding entries3 using facts(2) e by (simp add: find_append)
        show "List.find (\<lambda>x. x_correlationKey x = ?k) (expenses_of (w_store ?w3)) = None"
          unfolding expenses3 by (rule facts(3))
        show "account_for ?w3 (rc_driverId command) = Some a"
          using acc(1) 1(6) facts(7) by (simp add: account_for_def)
        show "fundEntryIdentityOf e = ?inc (acc_id a)"
          by (simp add: e run_expense_input_def run_expense_identity_def)
      qed
      with post have "postRunExpense R ?inc command (?inp actor) actor ?w3 = (Inr (e, True), ?w3)"
        by (simp add: postRunExpense_eq after_run_post_def isCorrelationConflict_def bnd_eq ret_eq conflict_def)
      moreover have "w1\<lparr>w_store := w_store w2\<rparr> = ?w3"
        by (subst w1 [symmetric]) simp
      ultimately have "recordRunExpense R env m (\<lambda>s. w_store (snd (recordRunExpense R env m id command actor2 (w\<lparr>w_store := s\<rparr>))))
          command actor w = (Inr (e, True), ?w3)"
        using facts(1,4) absent second
        by (subst recordRunExpense_eq) (simp add: bnd_eq w1)
      with entries3 show ?case by simp
    qed
  qed
qed

end

end
