(* ===== verification/SettlementFund.thy ===== *)
theory SettlementFund imports SettlementStore CostingReplay begin

text \<open>
  The contract of the driver fund port and its proof for the adapter onto the costing services over
  the in-memory ledger: a reimbursement moves the balance of its driver by its amount exactly when
  it is new, a retried one is answered with the entry it wrote, and a reversal takes its entry back
  once.
\<close>

section \<open>The contract\<close>

locale reimbursement_fund =
  fixes P :: "'f fund_port"
    and finv :: "'f \<Rightarrow> bool"
    and bal :: "'f \<Rightarrow> ident \<Rightarrow> int"
    and known :: "ident \<Rightarrow> bool"
    and entry_of :: "'f \<Rightarrow> ident \<Rightarrow> (ident \<times> int) option"
  assumes balance: "finv f \<Longrightarrow> known d \<Longrightarrow> balanceOf P d f = (Inr (bal f d), f)"
    and post_new: "finv f \<Longrightarrow> port_postReimbursement P i actor f = (Inr (e, False), f') \<Longrightarrow>
      finv f' \<and> pri_amount i = num_of_int (re_signedAmount e) \<and>
      bal f' = (bal f)(pri_driverId i := js_add (bal f (pri_driverId i)) (re_signedAmount e)) \<and>
      entry_of f' (re_id e) = Some (pri_driverId i, re_signedAmount e)"
    and post_quiet: "finv f \<Longrightarrow> port_postReimbursement P i actor f = (r, f') \<Longrightarrow>
      \<forall>e. r \<noteq> Inr (e, False) \<Longrightarrow> finv f' \<and> bal f' = bal f"
    and post_again: "finv f \<Longrightarrow> port_postReimbursement P i actor f = (Inr (e, b), f') \<Longrightarrow>
      port_postReimbursement P i actor' f' = (Inr (e, True), f')"
    and reverse_done: "finv f \<Longrightarrow> port_reverseReimbursement P j why actor f = (Inr e, f') \<Longrightarrow>
      \<exists>d. entry_of f j = Some (d, - re_signedAmount e) \<and> finv f' \<and>
        bal f' = (bal f)(d := js_add (bal f d) (re_signedAmount e))"
    and reverse_again: "finv f \<Longrightarrow> port_reverseReimbursement P j why actor f = (Inr e, f') \<Longrightarrow>
      port_reverseReimbursement P j why' actor' f' = (Inl (conflict ''ENTRY_ALREADY_REVERSED''), f')"
    and reverse_refused: "finv f \<Longrightarrow> port_reverseReimbursement P j why actor f = (Inl x, f') \<Longrightarrow> f' = f"

section \<open>The balance of the in-memory ledger\<close>

definition fund_accounts :: "costing_state \<Rightarrow> DriverFundAccount list" where
  "fund_accounts s = map snd (accounts s)"

definition account_balance :: "costing_state \<Rightarrow> ident \<Rightarrow> int" where
  "account_balance s a = js_sum (map e_signedAmount (filter (\<lambda>e. e_accountId e = a) (entries s)))"

definition fund_balance :: "costing_state \<Rightarrow> ident \<Rightarrow> int" where
  "fund_balance s d =
     (case List.find (\<lambda>a. acc_driverId a = d) (fund_accounts s) of
        None \<Rightarrow> 0
      | Some a \<Rightarrow> account_balance s (acc_id a))"

definition fund_entry :: "costing_state \<Rightarrow> ident \<Rightarrow> (ident \<times> int) option" where
  "fund_entry s i =
     (case List.find (\<lambda>e. e_id e = i) (entries s) of
        None \<Rightarrow> None
      | Some e \<Rightarrow>
          map_option (\<lambda>a. (acc_driverId a, e_signedAmount e))
            (List.find (\<lambda>a. acc_id a = e_accountId e) (fund_accounts s)))"

definition owned :: "costing_state \<Rightarrow> bool" where
  "owned s \<longleftrightarrow> e_accountId ` set (entries s) \<subseteq> acc_id ` set (fund_accounts s)"

definition fund_inv :: "costing_state \<Rightarrow> bool" where
  "fund_inv s \<longleftrightarrow> wf_store s \<and> ledger_ok (entries s) (expenses s) \<and> owned s"

lemma fund_inv_empty: "fund_inv empty_costing"
  using wf_store_empty ledger_ok_empty by (simp add: fund_inv_def empty_costing_def owned_def fund_accounts_def)

lemma wf_account_ids: "wf_store s \<Longrightarrow> distinct (map acc_id (fund_accounts s))"
proof -
  assume "wf_store s"
  then have "map acc_id (fund_accounts s) = map fst (accounts s)" "distinct (map fst (accounts s))"
    by (auto simp: wf_store_def wf_accounts_def fund_accounts_def split: prod.splits)
  then show ?thesis by (simp only:)
qed

lemma wf_account_drivers: "wf_store s \<Longrightarrow> distinct (map acc_driverId (fund_accounts s))"
  by (simp add: wf_store_def wf_accounts_def fund_accounts_def)

lemma js_sum_snoc: "js_sum (xs @ [x]) = js_add (js_sum xs) x"
  by (simp add: js_sum_def)

lemma js_sum_Nil [simp]: "js_sum [] = 0"
  by (simp add: js_sum_def)

text \<open>The store that the fund commands leave: the accounts, perhaps with a new one for the driver.\<close>

definition same_accounts :: "ident \<Rightarrow> costing_state \<Rightarrow> costing_state \<Rightarrow> bool" where
  "same_accounts d s s' \<longleftrightarrow>
     fund_accounts s' = fund_accounts s \<or>
     (\<exists>a. fund_accounts s' = fund_accounts s @ [a] \<and> acc_driverId a = d \<and>
        d \<notin> acc_driverId ` set (fund_accounts s))"

lemma quiet_balance:
  assumes "wf_store s'" "owned s" "same_accounts d s s'" "entries s' = entries s"
  shows "fund_balance s' = fund_balance s" "owned s'"
proof -
  show "owned s'" using assms(2-4) by (auto simp: owned_def same_accounts_def)
  show "fund_balance s' = fund_balance s"
  proof (cases "fund_accounts s' = fund_accounts s")
    case False
    with assms(3) obtain a where a: "fund_accounts s' = fund_accounts s @ [a]"
        "acc_driverId a = d" "d \<notin> acc_driverId ` set (fund_accounts s)"
      by (auto simp: same_accounts_def)
    have "acc_id a \<notin> acc_id ` set (fund_accounts s)"
      using wf_account_ids [OF assms(1)] by (simp add: a(1))
    then have "filter (\<lambda>e. e_accountId e = acc_id a) (entries s) = []"
      using assms(2) unfolding owned_def filter_empty_conv by (metis image_eqI subsetD)
    then show ?thesis
      using a assms(4)
      by (auto simp: fun_eq_iff fund_balance_def account_balance_def find_append split: option.splits)
  qed (simp add: fun_eq_iff fund_balance_def account_balance_def assms(4) split: option.split)
qed

lemma account_of_driver:
  assumes "wf_store s" "List.find (\<lambda>a. acc_driverId a = d) (fund_accounts s) = Some a"
  shows "List.find (\<lambda>b. acc_id b = acc_id a) (fund_accounts s) = Some a"
  using find_SomeD [OF assms(2)] find_distinct_key [OF wf_account_ids [OF assms(1)]] by blast

lemma posted_balance:
  assumes wf: "wf_store s'" and acc: "fund_accounts s' = fund_accounts s"
    and a: "List.find (\<lambda>a. acc_id a = e_accountId e) (fund_accounts s) = Some a"
    and es: "entries s' = entries s @ [e]"
  shows "fund_balance s' = (fund_balance s)(acc_driverId a := js_add (fund_balance s (acc_driverId a)) (e_signedAmount e))"
    and "fund_entry s' (e_id e) = Some (acc_driverId a, e_signedAmount e)"
proof -
  from find_SomeD [OF a] have m: "a \<in> set (fund_accounts s')" and i: "e_accountId e = acc_id a"
    by (auto simp: acc)
  have f: "List.find (\<lambda>b. acc_driverId b = acc_driverId a) (fund_accounts s) = Some a"
    using find_distinct_key [OF wf_account_drivers [OF wf] m] by (simp add: acc)
  have other: "acc_id b \<noteq> acc_id a" if "List.find (\<lambda>b. acc_driverId b = d) (fund_accounts s) = Some b"
      "d \<noteq> acc_driverId a" for b d
    using that m find_SomeD [OF that(1)] wf_account_ids [OF wf]
    by (auto simp: acc distinct_map inj_on_def)
  show "fund_balance s' = (fund_balance s)(acc_driverId a := js_add (fund_balance s (acc_driverId a)) (e_signedAmount e))"
    using f i by (auto simp: fun_eq_iff fund_balance_def account_balance_def acc es js_sum_snoc dest: other
        split: option.split)
  have "distinct (map e_id (entries s'))" using wf by (simp add: wf_store_def wf_entries_def)
  from find_distinct_key [OF this, of e] show "fund_entry s' (e_id e) = Some (acc_driverId a, e_signedAmount e)"
    using a by (simp add: fund_entry_def es acc)
qed

section \<open>The adapter satisfies the contract\<close>

lemma mem_post_Inl:
  assumes "wf_store (w_store w)" "on_store (post InMemoryCostingRepository i) w = (Inl e, w')"
  shows "w' = w"
  by (rule mem.post_cases [OF assms(1), of i]) (use assms(2) in \<open>auto simp: on_store_def\<close>)

lemma mem_guarded_Inl:
  assumes "wf_store (w_store w)" "postGuarded InMemoryCostingRepository g i w = (Inl e, w')"
  shows "w' = w"
  using assms(2) mem_post_Inl [OF assms(1)]
  by (auto simp: postGuarded_def split: prod.splits sum.splits js_error.splits)

lemma mem_ensure_effect:
  assumes "wf_store (w_store w)" "on_store (ensureAccount InMemoryCostingRepository d tm) w = (r, w1)"
  obtains a where "r = Inr a" "mem.account_for w1 d = Some a" "wf_store (w_store w1)"
    "same_accounts d (w_store w) (w_store w1)" "entries (w_store w1) = entries (w_store w)"
proof (rule mem.ensure_cases [OF assms(1), of d tm], goal_cases)
  case (1 a)
  then show ?case using assms by (intro that [of a]) (auto simp: mem.account_for_def same_accounts_def fund_accounts_def)
next
  case (2 a s')
  from 2 have "List.find (\<lambda>a. acc_driverId a = d) (map snd (accounts (w_store w)) @ [a]) = Some a"
    by (intro find_unique) (auto simp: find_None_iff_ball)
  with 2 show ?case using assms
    by (intro that [of a]) (auto simp: mem.account_for_def same_accounts_def fund_accounts_def find_None_iff_ball)
qed

lemma movement_effect:
  assumes wf: "wf_store (w_store w)"
    and run: "postEntryDetailed InMemoryCostingRepository env kind input v actor w = (r, w')"
    and key: "fm_correlationKey input = Some k"
  obtains (quiet) "\<forall>e. r \<noteq> Inr (e, False)" "entries (w_store w') = entries (w_store w)"
      "same_accounts (fm_driverId input) (w_store w) (w_store w')" "wf_store (w_store w')"
  | (posted) e a s1 where "r = Inr (e, False)" "wf_store s1" "entries s1 = entries (w_store w)"
      "same_accounts (fm_driverId input) (w_store w) s1"
      "List.find (\<lambda>a. acc_driverId a = fm_driverId input) (fund_accounts s1) = Some a"
      "e_accountId e = acc_id a" "e_signedAmount e = v" "fund_accounts (w_store w') = fund_accounts s1"
      "entries (w_store w') = entries s1 @ [e]" "wf_store (w_store w')"
proof (cases "movement_checks env input")
  case (Inl e)
  with run wf show ?thesis
    by (intro quiet) (auto simp: postEntryDetailed_def bnd_eq lift_eq same_accounts_def)
next
  case (Inr d)
  obtain a w1 where ens: "on_store (ensureAccount InMemoryCostingRepository (fm_driverId input) (clock env)) w = (Inr a, w1)"
    and w1: "mem.account_for w1 (fm_driverId input) = Some a" "wf_store (w_store w1)"
      "same_accounts (fm_driverId input) (w_store w) (w_store w1)" "entries (w_store w1) = entries (w_store w)"
    using mem_ensure_effect [OF wf] by (metis prod.exhaust)
  from run have run1: "commit_movement InMemoryCostingRepository env kind input v d actor a k w1 = (r, w')"
    by (simp add: postEntryDetailed_def bnd_eq lift_eq Inr ens key)
  show ?thesis
  proof (cases "List.find (\<lambda>e. e_correlationKey e = k) (entries (w_store w1))")
    case (Some existing)
    with run1 have "w' = w1" "\<forall>e. r \<noteq> Inr (e, False)"
      by (auto simp: commit_movement_def step_simps split: sum.splits)
    with w1 show ?thesis by (intro quiet) simp_all
  next
    case None
    let ?inp = "movement_input kind v (acc_id a) d input k (clock env) actor"
    obtain p w2 where post: "postGuarded InMemoryCostingRepository GATE_POST_ENTRY ?inp w1 = (p, w2)"
      by (metis prod.exhaust)
    show ?thesis
    proof (cases p)
      case (Inl x)
      from mem_guarded_Inl [OF w1(2) post [unfolded Inl]] run1 None post Inl
      have "w' = w1" "\<forall>e. r \<noteq> Inr (e, False)"
        by (auto simp: commit_movement_def step_simps)
      with w1 show ?thesis by (intro quiet) simp_all
    next
      case (Inr posted)
      from post [unfolded Inr postGuarded_Inr] show ?thesis
      proof (rule mem.post_Inr [OF w1(2)], goal_cases)
        case (1 ei xi)
        then obtain e where e: "cp_entry posted = Some e" "e_accountId e = acc_id a" "e_signedAmount e = v"
          by (simp add: movement_input_def)
        from run1 None post Inr e(1) have "r = Inr (e, False)" "w_store w' = w_store w2"
          by (auto simp: commit_movement_def step_simps audit_append_def)
        with 1 e w1 show ?case
          by (intro that(2) [of e "w_store w1" a]) (auto simp: mem.account_for_def fund_accounts_def)
      qed
    qed
  qed
qed

lemma refined_ledger_ok:
  assumes "refines_at wf_store ledger_view m w" "wf_store (w_store w)"
    and "ledger_ok (entries (w_store w)) (expenses (w_store w))"
  shows "ledger_ok (entries (w_store (snd (m w)))) (expenses (w_store (snd (m w)))) \<and> wf_store (w_store (snd (m w)))"
  using assms ledger_step_ok by (auto simp: refines_at_def ledger_view_def)

lemma mem_refines:
  "refines_at wf_store ledger_view (postReimbursement InMemoryCostingRepository env input x actor) w"
  "refines_at wf_store ledger_view (reverseFundEntry InMemoryCostingRepository env i why actor) w"
  using mem.refines_postReimbursement [of env input x actor w] mem.refines_reverseFundEntry [of env i why actor w]
  by (simp_all add: refines_at_def ledger_view_def)

lemma adapter_balance:
  assumes "findDriver (core env) d \<noteq> None"
  shows "adapter_balanceOf InMemoryCostingRepository env d w = (Inr (fund_balance (w_store w) d), w)"
  using assms
  by (auto simp: adapter_balanceOf_def driverFundStatement_def step_simps requireDriverFacts_def on_store_def
      repo_sel mem_findAccountByDriver_def mem_listEntries_def mem_sumSignedAmounts_def matching_def inRange_def
      fund_balance_def account_balance_def fund_accounts_def split: option.splits)

definition reimbursement_movement :: "PostReimbursementInput \<Rightarrow> FundMovement" where
  "reimbursement_movement i =
     \<lparr>fm_driverId = pri_driverId i, fm_businessDate = Some (pri_businessDate i), fm_tripId = None,
      fm_note = pri_note i, fm_correlationKey = Some (pri_correlationKey i)\<rparr>"

lemma adapter_post_eq:
  "adapter_postReimbursement R env i actor =
     bnd (postReimbursement R env (reimbursement_movement i) (pri_amount i) actor)
       (\<lambda>posted. ret (toEntryFacts (fst posted), snd posted))"
  by (simp add: adapter_postReimbursement_def reimbursement_movement_def)

lemma reimbursement_magnitude:
  "requireMagnitude REIMBURSEMENT x = Inr v \<Longrightarrow> x = num_of_int v"
  by (auto simp: requireMagnitude_def mapLedgerError_Inr amount_of_Inr signedAmountFor_Inr)

text \<open>The effect of a reimbursement on balances, accounts and rows.\<close>

lemma reimbursement_effect:
  assumes inv: "fund_inv (w_store w)"
    and run: "postReimbursement InMemoryCostingRepository env (reimbursement_movement i) x actor w = (r, w')"
  shows "fund_inv (w_store w') \<and>
    (case r of
       Inr (e, False) \<Rightarrow> x = num_of_int (e_signedAmount e) \<and>
         fund_balance (w_store w') = (fund_balance (w_store w))
           (pri_driverId i := js_add (fund_balance (w_store w) (pri_driverId i)) (e_signedAmount e)) \<and>
         fund_entry (w_store w') (e_id e) = Some (pri_driverId i, e_signedAmount e)
     | _ \<Rightarrow> fund_balance (w_store w') = fund_balance (w_store w))"
proof -
  from inv have wf: "wf_store (w_store w)" and ow: "owned (w_store w)"
    and lo: "ledger_ok (entries (w_store w)) (expenses (w_store w))" by (simp_all add: fund_inv_def)
  from refined_ledger_ok [OF mem_refines(1) wf lo, of env "reimbursement_movement i" x actor] run
  have ok': "ledger_ok (entries (w_store w')) (expenses (w_store w'))" "wf_store (w_store w')" by auto
  show ?thesis
  proof (cases "requireMagnitude REIMBURSEMENT x")
    case (Inl e)
    with run inv show ?thesis by (auto simp: postReimbursement_def step_simps)
  next
    case (Inr v)
    with run have run1: "postEntryDetailed InMemoryCostingRepository env REIMBURSEMENT (reimbursement_movement i) v actor w = (r, w')"
      by (simp add: postReimbursement_def step_simps)
    have key: "fm_correlationKey (reimbursement_movement i) = Some (pri_correlationKey i)"
      and drv: "fm_driverId (reimbursement_movement i) = pri_driverId i"
      by (simp_all add: reimbursement_movement_def)
    show ?thesis
    proof (cases rule: movement_effect [OF wf run1 key])
      case 1
      from quiet_balance [OF 1(4) ow 1(3) 1(2)] 1(1) ok' show ?thesis
        by (auto simp: fund_inv_def split: sum.split bool.split)
    next
      case (2 e a s1)
      from quiet_balance [OF 2(2) ow 2(4,3)] have s1: "fund_balance s1 = fund_balance (w_store w)" "owned s1" .
      have af: "List.find (\<lambda>a. acc_id a = e_accountId e) (fund_accounts s1) = Some a"
        using account_of_driver [OF 2(2)] 2(5,6) by (simp add: fund_accounts_def)
      have d: "acc_driverId a = pri_driverId i" using find_SomeD [OF 2(5)] by (simp add: drv)
      have acc: "fund_accounts (w_store w') = fund_accounts s1" using 2(8) by (simp add: fund_accounts_def)
      have "owned (w_store w')"
        using s1(2) find_SomeD [OF af] unfolding owned_def acc 2(9) by (auto intro: rev_image_eqI)
      with posted_balance [OF 2(10) acc af 2(9)] d s1(1) 2(1,7) ok' reimbursement_magnitude [OF Inr]
      show ?thesis by (simp add: fund_inv_def)
    qed
  qed
qed

lemma reversal_refused_quiet:
  assumes wf: "wf_store (w_store w)"
    and run: "reverseFundEntry InMemoryCostingRepository env j why actor w = (Inl x, w')"
  shows "w' = w"
proof -
  have fr: "w2 = w1 \<and> (\<exists>b. r = Inr b)" if "find_reversal InMemoryCostingRepository e y w1 = (r, w2)" for e y r w1 w2
    using that by (cases e; cases y) (auto simp: find_reversal_def step_simps split: if_splits)
  have cr: "w2 = w1" if "commit_reversal InMemoryCostingRepository env e y k why actor w1 = (Inl x, w2)"
      "wf_store (w_store w1)" for e y k w1 w2
    using that mem_guarded_Inl [OF that(2)]
    by (auto simp: commit_reversal_def bnd_Inl_iff bnd_Inr_iff lift_Inr_iff lift_Inl_iff ret_Inr_iff
        audit_append_def ret_eq split: option.splits)
  have rc: "w2 = w" if "reverseCorrelation InMemoryCostingRepository env k why actor w = (Inl x, w2)" for k w2
    using that wf
    by (auto simp: reverseCorrelation_def bnd_Inl_iff throw_eq split: if_splits dest: fr cr)
  show ?thesis
    using run by (auto simp: reverseFundEntry_def bnd_eq throw_eq split: option.splits dest: rc)
qed

lemma reversal_effect:
  assumes inv: "fund_inv (w_store w)"
    and run: "reverseFundEntry InMemoryCostingRepository env j why actor w = (Inr posted, w')"
  obtains r d where "cp_entry posted = Some r" "fund_entry (w_store w) j = Some (d, - e_signedAmount r)"
    "fund_inv (w_store w')"
    "fund_balance (w_store w') = (fund_balance (w_store w))
       (d := js_add (fund_balance (w_store w) d) (e_signedAmount r))"
    "\<And>env' why' actor'. reverseFundEntry InMemoryCostingRepository env' j why' actor' w' =
       (Inl (conflict ''ENTRY_ALREADY_REVERSED''), w')"
proof -
  from inv have wf: "wf_store (w_store w)" and ow: "owned (w_store w)"
    and lo: "ledger_ok (entries (w_store w)) (expenses (w_store w))" by (simp_all add: fund_inv_def)
  from refined_ledger_ok [OF mem_refines(2) wf lo, of env j why actor] run
  have ok': "ledger_ok (entries (w_store w')) (expenses (w_store w'))" "wf_store (w_store w')" by auto
  from run obtain e where e: "List.find (\<lambda>e. e_id e = j) (entries (w_store w)) = Some e"
    and rc: "reverseCorrelation InMemoryCostingRepository env (e_correlationKey e) why actor w = (Inr posted, w')"
    by (auto simp: reverseFundEntry_def bnd_eq throw_eq split: option.splits)
  have acc: "fund_accounts (w_store w') = fund_accounts (w_store w)"
  proof (rule mem.reverseCorrelation_Inr [OF rc], goal_cases)
    case (1 w2)
    show ?case
      by (rule mem.post_Inr [OF wf 1(1)]) (use 1(2) in \<open>simp add: fund_accounts_def\<close>)
  qed
  from ow find_SomeD [OF e] have "e_accountId e \<in> acc_id ` set (fund_accounts (w_store w))"
    by (auto simp: owned_def)
  then obtain a where fa: "List.find (\<lambda>a. acc_id a = e_accountId e) (fund_accounts (w_store w)) = Some a"
    by (cases "List.find (\<lambda>a. acc_id a = e_accountId e) (fund_accounts (w_store w))")
      (auto simp: find_None_iff_ball)
  note a = fa find_SomeD [OF fa]
  show ?thesis
  proof (rule mem.reversal_cancels [OF wf lo e run], goal_cases)
    case (1 r)
    then have r: "e_accountId r = e_accountId e" "e_signedAmount r = - e_signedAmount e"
      by (simp_all add: reverses_entry_def)
    have "owned (w_store w')"
      using ow a(2) unfolding owned_def acc 1(3) r(1) by (auto simp: r(1) intro: rev_image_eqI)
    with posted_balance(1) [OF ok'(2) acc _ 1(3), of a] a r ok' 1 show ?case
      by (intro that [of r "acc_driverId a"]) (auto simp: fund_inv_def fund_entry_def e)
  qed
qed

interpretation mem_fund: reimbursement_fund "DriverSettlementFundPortAdapter InMemoryCostingRepository env"
  "\<lambda>w. fund_inv (w_store w)" "\<lambda>w. fund_balance (w_store w)" "\<lambda>d. findDriver (core env) d \<noteq> None"
  "\<lambda>w. fund_entry (w_store w)" for env
proof (unfold_locales, goal_cases)
  case (1 f d)
  then show ?case by (simp add: DriverSettlementFundPortAdapter_def adapter_balance)
next
  case (2 f i actor e f')
  then show ?case
    using reimbursement_effect [OF 2(1)]
    by (fastforce simp: DriverSettlementFundPortAdapter_def adapter_post_eq bnd_Inr_iff ret_Inr_iff toEntryFacts_def)
next
  case (3 f i actor r f')
  obtain q w' where q: "postReimbursement InMemoryCostingRepository env (reimbursement_movement i) (pri_amount i) actor f = (q, w')"
    by (metis prod.exhaust)
  with 3(2) have "f' = w'" "r = (case q of Inl x \<Rightarrow> Inl x | Inr p \<Rightarrow> Inr (toEntryFacts (fst p), snd p))"
    by (auto simp: DriverSettlementFundPortAdapter_def adapter_post_eq bnd_eq ret_eq split: sum.splits)
  with reimbursement_effect [OF 3(1) q] 3(3) show ?case
    by (auto split: sum.splits bool.splits)
next
  case (4 f i actor e b f' actor')
  then obtain x v where q: "requireMagnitude REIMBURSEMENT (pri_amount i) = Inr v" "e = toEntryFacts x"
      "postEntryDetailed InMemoryCostingRepository env REIMBURSEMENT (reimbursement_movement i) v actor f = (Inr (x, b), f')"
    by (auto simp: DriverSettlementFundPortAdapter_def adapter_post_eq postReimbursement_def bnd_Inr_iff
        ret_Inr_iff lift_Inr_iff)
  have "wf_store (w_store f)" using 4(1) by (simp add: fund_inv_def)
  from mem.movement_replay [OF this q(3), of "pri_correlationKey i" "pri_businessDate i" "clock env" actor'] q
  show ?case
    by (simp add: DriverSettlementFundPortAdapter_def adapter_post_eq postReimbursement_def bnd_eq lift_eq ret_eq
        reimbursement_movement_def)
next
  case (5 f j why actor e f')
  then obtain p where p: "reverseFundEntry InMemoryCostingRepository env j why actor f = (Inr p, f')"
      "\<And>r. cp_entry p = Some r \<Longrightarrow> e = toEntryFacts r"
    by (auto simp: DriverSettlementFundPortAdapter_def adapter_reverseReimbursement_def bnd_Inr_iff ret_Inr_iff
        split: option.splits)
  show ?case
  proof (rule reversal_effect [OF 5(1) p(1)], goal_cases)
    case (1 r d)
    from p(2) [OF 1(1)] 1(2-4) show ?case by (intro exI [of _ d]) (simp add: toEntryFacts_def)
  qed
next
  case (6 f j why actor e f' why' actor')
  then obtain p where p: "reverseFundEntry InMemoryCostingRepository env j why actor f = (Inr p, f')"
    by (auto simp: DriverSettlementFundPortAdapter_def adapter_reverseReimbursement_def bnd_Inr_iff ret_Inr_iff
        split: option.splits)
  show ?case
  proof (rule reversal_effect [OF 6(1) p], goal_cases)
    case (1 r d)
    from 1(5) [of env why' actor'] show ?case
      by (simp add: DriverSettlementFundPortAdapter_def adapter_reverseReimbursement_def bnd_eq)
  qed
next
  case (7 f j why actor x f')
  show ?case
  proof (cases "fst (reverseFundEntry InMemoryCostingRepository env j why actor f)")
    case (Inl y)
    then have "reverseFundEntry InMemoryCostingRepository env j why actor f =
        (Inl y, snd (reverseFundEntry InMemoryCostingRepository env j why actor f))" by (simp add: prod_eq_iff)
    from reversal_refused_quiet [OF _ this] 7 Inl show ?thesis
      by (auto simp: fund_inv_def DriverSettlementFundPortAdapter_def adapter_reverseReimbursement_def bnd_eq)
  next
    case (Inr posted)
    then have run: "reverseFundEntry InMemoryCostingRepository env j why actor f =
        (Inr posted, snd (reverseFundEntry InMemoryCostingRepository env j why actor f))" by (simp add: prod_eq_iff)
    show ?thesis
    proof (rule reversal_effect [OF 7(1) run], goal_cases)
      case (1 r d)
      from 1(1) 7(2) Inr show ?case
        by (simp add: DriverSettlementFundPortAdapter_def adapter_reverseReimbursement_def bnd_eq ret_eq)
    qed
  qed
qed

end
