(* ===== verification/SettlementWages.thy ===== *)
theory SettlementWages imports SettlementFund begin

text \<open>
  What the two settlement commands do to the cash-out ledger: the effect of a command on any store that
  keeps the contract, the amounts drawn from a payslip, and the invariant that a payslip is never
  overdrawn as long as the commands run one after the other.
\<close>

section \<open>The effect of a payment\<close>

definition writes_line :: "CashoutLine \<Rightarrow> CashoutAllocationWriteInput \<Rightarrow> bool" where
  "writes_line line a \<longleftrightarrow>
     pa_source a = cl_source line \<and> pa_amount a = line_amount line \<and>
     pa_payslipId a = (if is_wage line then cl_payslipId line else None) \<and>
     (pa_driverFundEntryId a = None \<longleftrightarrow> is_wage line)"

lemma pay_lines_effect:
  "pay_lines env d dt key actor ls w = (r, w1) \<Longrightarrow>
     sw_cashouts w1 = sw_cashouts w \<and> (\<forall>as. r = Inr as \<longrightarrow> list_all2 writes_line ls as)"
proof (induction ls arbitrary: w r w1)
  case Nil
  then show ?case by (auto simp: ret_eq)
next
  case (Cons l ls)
  show ?case
  proof (cases "cl_source l = WAGE")
    case True
    with Cons.prems Cons.IH [of w] show ?thesis
      by (cases "pay_lines env d dt key actor ls w")
        (auto simp: bnd_eq ret_eq writes_line_def wage_write_def is_wage_def split: sum.splits)
  next
    case False
    then have src: "cl_source l = REIMBURSEMENT_OUT" by (cases "cl_source l") simp_all
    show ?thesis
    proof (cases "requireFund env")
      case (Inl e)
      with Cons.prems False show ?thesis by (auto simp: bnd_eq lift_eq)
    next
      case (Inr fund)
      obtain p f where p: "port_postReimbursement fund (reimbursement_input d l dt key) actor (sw_fund w) = (p, f)"
        by (metis prod.exhaust)
      show ?thesis
      proof (cases p)
        case (Inl e)
        with Cons.prems False p show ?thesis by (auto simp: bnd_eq lift_eq on_fund_def \<open>requireFund env = _\<close>)
      next
        case (Inr q)
        let ?w = "w\<lparr>sw_fund := f\<rparr>"
        obtain p2 w2 where p2: "pay_lines env d dt key actor ls ?w = (p2, w2)" by (metis prod.exhaust)
        have step: "pay_lines env d dt key actor (l # ls) w =
            bnd (pay_lines env d dt key actor ls) (\<lambda>rest. ret (fund_write l (re_id (fst q)) # rest)) ?w"
          by (simp add: False \<open>requireFund env = _\<close> bnd_def [of "lift _"] bnd_def [of "on_fund _"] lift_eq on_fund_def p Inr)
        have "(case p2 of Inl e \<Rightarrow> Inl e | Inr rest \<Rightarrow> Inr (fund_write l (re_id (fst q)) # rest)) = r \<and> w2 = w1"
          using Cons.prems unfolding step by (cases p2) (auto simp: bnd_def p2 ret_def)
        then have r: "r = (case p2 of Inl e \<Rightarrow> Inl e | Inr rest \<Rightarrow> Inr (fund_write l (re_id (fst q)) # rest))"
          and "w1 = w2" by simp_all
        from Cons.IH [OF p2] src show ?thesis
          unfolding r \<open>w1 = w2\<close> by (cases p2) (auto simp: writes_line_def fund_write_def is_wage_def)
      qed
    qed
  qed
qed

lemma cashout_key_effect:
  "cashout_key k w = (r, w1) \<Longrightarrow> sw_cashouts w1 = sw_cashouts w \<and> sw_fund w1 = sw_fund w \<and> (\<exists>key. r = Inr key)"
  by (auto simp: cashout_key_def split: option.splits)

text \<open>The capacity a payment is checked against.\<close>

definition listed :: "DriverCashoutDetail list \<Rightarrow> ident \<Rightarrow> DriverCashoutDetail list" where
  "listed ds driver =
     sort_key (\<lambda>d. dc_createdAt (det_cashout d)) (filter (\<lambda>d. dc_driverId (det_cashout d) = driver) ds)"

definition payslip_capacity :: "'f settlement_env \<Rightarrow> DriverCashoutDetail list \<Rightarrow> ident \<Rightarrow> (ident \<times> int) list" where
  "payslip_capacity env ds driver =
     wageRemainingByPayslip (se_payroll env driver) (cashedOutByPayslip (allocations_of (listed ds driver)))"

context cashout_store
begin

abbreviation rows :: "('c, 'f) settlement_world \<Rightarrow> DriverCashoutDetail list" where
  "rows w \<equiv> cashouts_of (sw_cashouts w)"

lemma on_cashouts_query [simp]:
  assumes "cinv (sw_cashouts w)"
  shows "on_cashouts (find_cashout S i) w = (Inr (List.find (\<lambda>d. cashout_id d = i) (rows w)), w)"
    and "on_cashouts (find_cashout_key S k) w = (Inr (List.find (\<lambda>d. cashout_corr d = k) (rows w)), w)"
    and "on_cashouts (listByDriver S driver) w = (Inr (listed (rows w) driver), w)"
  using assms by (simp_all add: on_cashouts_def find_id find_key list_driver listed_def)

lemma snapshot_effect:
  assumes "cinv (sw_cashouts w)" "snapshotOf S env driver w = (r, w1)"
  shows "sw_cashouts w1 = sw_cashouts w \<and>
    (\<forall>snap. r = Inr snap \<longrightarrow>
       cap_wageRemainingByPayslip (snap_capacity snap) = payslip_capacity env (rows w) driver)"
proof -
  have f: "sw_cashouts w2 = sw_cashouts w1"
    if "(case se_fund env of None \<Rightarrow> ret 0 | Some fund \<Rightarrow> on_fund (balanceOf fund driver)) w1 = (q, w2)" for q w1 w2
    using that by (auto simp: ret_eq on_fund_def split: option.splits prod.splits)
  show ?thesis
  proof (cases r)
    case (Inl e)
    with assms show ?thesis
      by (auto simp: snapshotOf_def Let_def bnd_Inl_iff lift_Inl_iff lift_Inr_iff ret_eq dest: f)
  next
    case (Inr snap)
    with assms show ?thesis
      by (auto simp: snapshotOf_def Let_def bnd_Inr_iff lift_Inr_iff ret_Inr_iff settlement_capacity_def
          payslip_capacity_def dest: f)
  qed
qed

text \<open>A payment that is new: what was checked and what is written.\<close>

lemma write_cashout_effect:
  assumes inv: "cinv (sw_cashouts w)" and new: "ri_reversesId inp = None"
    and run: "write_cashout S inp command d m w = (r, w')"
  shows "cinv (sw_cashouts w') \<and> sw_fund w' = sw_fund w \<and>
    (rows w' = rows w \<and> (\<forall>det. r = Inr det \<longrightarrow>
        det \<in> set (rows w) \<and> cashout_corr det = ri_correlationKey inp \<and> same_cashout det command d m) \<or>
     (\<exists>i n. r = Inr (recorded_detail inp i n) \<and> rows w' = rows w @ [recorded_detail inp i n] \<and>
        List.find (\<lambda>d. cashout_corr d = ri_correlationKey inp) (rows w) = None))"
proof (cases "List.find (\<lambda>d. cashout_corr d = ri_correlationKey inp) (rows w)")
  case None
  from record_new [OF inv None] new obtain i n s' where
    "record_cashout S inp (sw_cashouts w) = (Inr (RECORDED (recorded_detail inp i n)), s')" "cinv s'"
    "cashouts_of s' = rows w @ [recorded_detail inp i n]"
    by (auto simp: target_refusal_def)
  with run have "r = Inr (recorded_detail inp i n)" "w' = w\<lparr>sw_cashouts := s'\<rparr>"
    by (simp_all add: write_cashout_def bnd_eq on_cashouts_def ret_eq)
  with \<open>cinv s'\<close> \<open>cashouts_of s' = _\<close> None show ?thesis
    by (intro conjI disjI2 exI [of _ i] exI [of _ n]) simp_all
next
  case (Some e)
  from record_duplicate [OF inv Some] run inv find_SomeD [OF Some] show ?thesis
    by (auto simp: write_cashout_def bnd_eq on_cashouts_def lift_eq assertSameCashout_def split: if_splits)
qed

lemma pay_driver_effect:
  assumes inv: "cinv (sw_cashouts w)" and oinv: "\<And>v. cinv (sw_cashouts v) \<Longrightarrow> cinv (sw_cashouts (others v))"
    and run: "pay_driver S env others command driver d m key actor w = (r, w')"
  obtains (refused) e where "r = Inl e" "sw_cashouts w' = sw_cashouts w \<or> (\<exists>v. sw_cashouts v = sw_cashouts w \<and> rows w' = rows (others v))" "cinv (sw_cashouts w')"
  | (replayed) det v where "r = Inr det" "sw_cashouts v = sw_cashouts w" "rows w' = rows (others v)" "cinv (sw_cashouts w')"
      "det \<in> set (rows w')" "cashout_corr det = key" "same_cashout det command d m"
  | (paid) cap i n v as cur where "sw_cashouts v = sw_cashouts w"
      "r = Inr (recorded_detail (cashout_input command driver d cur m key actor (se_clock env) as) i n)"
      "rows w' = rows (others v) @ [recorded_detail (cashout_input command driver d cur m key actor (se_clock env) as) i n]"
      "cinv (sw_cashouts w')" "list_all2 writes_line (rcc_lines command) as"
      "\<exists>wage reimbursed paid. evaluateCashout (rcc_lines command) cap (cap_currencyCode cap) = CashoutAllowed wage reimbursed paid"
      "cap_wageRemainingByPayslip cap = payslip_capacity env (rows w) driver"
      "List.find (\<lambda>d. cashout_corr d = key) (rows (others v)) = None"
proof -
  obtain q w1 where q: "snapshotOf S env driver w = (q, w1)" by (metis prod.exhaust)
  from snapshot_effect [OF inv q] have s1: "sw_cashouts w1 = sw_cashouts w" by simp
  show ?thesis
  proof (cases q)
    case (Inl e)
    with run q s1 inv show ?thesis by (intro refused [of e]) (auto simp: pay_driver_def bnd_eq)
  next
    case (Inr snap)
    let ?cap = "snap_capacity snap"
    show ?thesis
    proof (cases "evaluateCashout (rcc_lines command) ?cap (cap_currencyCode ?cap)")
      case (CashoutDenied why who)
      with run q Inr s1 inv show ?thesis
        by (intro refused [of "invalid (denial_reason why)"]) (auto simp: pay_driver_def bnd_eq throw_eq)
    next
      case ok: (CashoutAllowed wage reimbursed total_paid)
      show ?thesis
      proof (cases "0 < reimbursed \<and> se_fund env = None")
        case True
        with run q Inr s1 inv ok show ?thesis
          by (intro refused [of fund_unavailable]) (auto simp: pay_driver_def bnd_eq throw_eq)
      next
        case False
        let ?inp = "\<lambda>as. cashout_input command driver d (cap_currencyCode ?cap) m key actor (se_clock env) as"
        obtain p w2 where p: "pay_lines env driver d key actor (rcc_lines command) (others w1) = (p, w2)"
          by (metis prod.exhaust)
        from pay_lines_effect [OF p] have s2: "sw_cashouts w2 = sw_cashouts (others w1)"
          and wl: "\<And>as. p = Inr as \<Longrightarrow> list_all2 writes_line (rcc_lines command) as" by auto
        have inv2: "cinv (sw_cashouts w2)" using oinv [of w1] inv s1 s2 by simp
        show ?thesis
        proof (cases p)
          case (Inl e)
          with run q \<open>q = Inr snap\<close> ok False p s1 s2 inv2 show ?thesis
            by (intro refused [of e]) (auto simp: pay_driver_def bnd_eq)
        next
          case (Inr as)
          with run q \<open>q = Inr snap\<close> ok False p have "write_cashout S (?inp as) command d m w2 = (r, w')"
            by (simp add: pay_driver_def bnd_eq split: if_splits)
          from write_cashout_effect [OF inv2 _ this] have e:
            "cinv (sw_cashouts w')"
            "rows w' = rows w2 \<and> (\<forall>det. r = Inr det \<longrightarrow>
                det \<in> set (rows w2) \<and> cashout_corr det = key \<and> same_cashout det command d m) \<or>
             (\<exists>i n. r = Inr (recorded_detail (?inp as) i n) \<and> rows w' = rows w2 @ [recorded_detail (?inp as) i n] \<and>
                List.find (\<lambda>d. cashout_corr d = key) (rows w2) = None)"
            by (simp_all add: cashout_input_def)
          from e(2) show ?thesis
          proof (elim disjE exE conjE)
            fix i n
            assume "r = Inr (recorded_detail (?inp as) i n)" "rows w' = rows w2 @ [recorded_detail (?inp as) i n]"
              "List.find (\<lambda>d. cashout_corr d = key) (rows w2) = None"
            then show ?thesis
              using e(1) s1 s2 ok wl [OF Inr] snapshot_effect [OF inv q] \<open>q = Inr snap\<close>
              by (intro paid [of w1 "cap_currencyCode ?cap" as i n ?cap]) auto
          next
            assume "rows w' = rows w2" "\<forall>det. r = Inr det \<longrightarrow>
              det \<in> set (rows w2) \<and> cashout_corr det = key \<and> same_cashout det command d m"
            then show ?thesis
              using e(1) s1 s2 by (cases r) (auto intro: refused replayed)
          qed
        qed
      qed
    qed
  qed
qed

end

section \<open>The effect of a reversal\<close>

definition undo_writes :: "string \<Rightarrow> DriverCashoutDetail \<Rightarrow> CashoutAllocationWriteInput list \<Rightarrow> CashoutAllocationWriteInput list" where
  "undo_writes reasonText target undone =
     map wage_undo (rp_wage (reversalPlanOf (det_allocations target))) @ undone"

lemma undo_lines_effect:
  "undo_lines env why actor ls w = (r, w1) \<Longrightarrow>
     sw_cashouts w1 = sw_cashouts w \<and> (\<forall>as. r = Inr as \<longrightarrow>
       map pa_amount as = map snd ls \<and> list_all (\<lambda>a. pa_source a = REIMBURSEMENT_OUT) as)"
proof (induction ls arbitrary: w r w1)
  case Nil
  then show ?case by (auto simp: ret_eq)
next
  case (Cons l ls)
  show ?case
  proof (cases "requireFund env")
    case (Inl e)
    with Cons.prems show ?thesis by (auto simp: bnd_eq lift_eq)
  next
    case fund: (Inr fund)
    obtain p f where p: "port_reverseReimbursement fund (fst l) why actor (sw_fund w) = (p, f)"
      by (metis prod.exhaust)
    show ?thesis
    proof (cases p)
      case (Inl e)
      with Cons.prems p fund show ?thesis by (auto simp: bnd_eq lift_eq on_fund_def)
    next
      case (Inr q)
      let ?w = "w\<lparr>sw_fund := f\<rparr>"
      obtain p2 w2 where p2: "undo_lines env why actor ls ?w = (p2, w2)" by (metis prod.exhaust)
      have step: "undo_lines env why actor (l # ls) w =
          bnd (undo_lines env why actor ls) (\<lambda>rest. ret (fund_undo (snd l) (re_id q) # rest)) ?w"
        by (simp add: fund bnd_def [of "lift _"] bnd_def [of "on_fund _"] lift_eq on_fund_def p Inr)
      show ?thesis
        using Cons.prems Cons.IH [OF p2] unfolding step
        by (cases p2) (auto simp: bnd_def p2 ret_def fund_undo_def)
    qed
  qed
qed

context cashout_store
begin

lemma write_reversal_effect:
  assumes inv: "cinv (sw_cashouts w)" and target: "ri_reversesId inp = Some i"
    and run: "write_reversal S inp w = (r, w')"
  shows "cinv (sw_cashouts w') \<and> sw_fund w' = sw_fund w \<and>
    (sw_cashouts w' = sw_cashouts w \<and>
       (\<forall>det. r = Inr det \<longrightarrow> List.find (\<lambda>d. cashout_corr d = ri_correlationKey inp) (rows w) = Some det) \<or>
     (\<exists>j n. r = Inr (recorded_detail inp j n) \<and>
        rows w' = map (settle_mark (Some i)) (rows w) @ [recorded_detail inp j n]))"
proof (cases "List.find (\<lambda>d. cashout_corr d = ri_correlationKey inp) (rows w)")
  case (Some e)
  from record_duplicate [OF inv Some] run inv Some show ?thesis
    by (auto simp: write_reversal_def bnd_eq on_cashouts_def ret_eq)
next
  case None
  show ?thesis
  proof (cases "target_refusal (rows w) (ri_reversesId inp)")
    case (Some outcome)
    then have "outcome = TARGET_NOT_FOUND \<or> outcome = OUTCOME_ALREADY_REVERSED"
      by (auto simp: target_refusal_def split: option.splits if_splits)
    with record_refused [OF inv None Some] run inv show ?thesis
      by (auto simp: write_reversal_def bnd_eq on_cashouts_def throw_eq)
  next
    case ok: None
    from record_new [OF inv None ok] target obtain j n s' where
      "record_cashout S inp (sw_cashouts w) = (Inr (RECORDED (recorded_detail inp j n)), s')" "cinv s'"
      "cashouts_of s' = map (settle_mark (Some i)) (rows w) @ [recorded_detail inp j n]"
      by auto
    with run have "r = Inr (recorded_detail inp j n)" "w' = w\<lparr>sw_cashouts := s'\<rparr>"
      by (simp_all add: write_reversal_def bnd_eq on_cashouts_def ret_eq)
    with \<open>cinv s'\<close> \<open>cashouts_of s' = _\<close> show ?thesis
      by (intro conjI disjI2 exI [of _ j] exI [of _ n]) simp_all
  qed
qed

lemma reverseCashout_effect:
  assumes inv: "cinv (sw_cashouts w)" and run: "reverseCashout S env i why actor w = (r, w')"
  obtains (quiet) "sw_cashouts w' = sw_cashouts w"
      "\<And>det. r = Inr det \<Longrightarrow> \<exists>target. List.find (\<lambda>d. cashout_id d = i) (rows w) = Some target \<and>
         List.find (\<lambda>d. cashout_corr d = cashout_corr target @ '':reversal'') (rows w) = Some det"
  | (reversed) target d undone j n where
      "List.find (\<lambda>d. cashout_id d = i) (rows w) = Some target"
      "dc_kind (det_cashout target) = ORIGINAL" "dc_status (det_cashout target) = POSTED"
      "map pa_amount undone = map snd (rp_reimbursement (reversalPlanOf (det_allocations target)))"
      "list_all (\<lambda>a. pa_source a = REIMBURSEMENT_OUT) undone"
      "r = Inr (recorded_detail (reversal_cashout (det_cashout target) d (js_trim why) actor (se_clock env)
         (undo_writes (js_trim why) target undone)) j n)"
      "rows w' = map (settle_mark (Some i)) (rows w) @ [recorded_detail (reversal_cashout (det_cashout target) d
         (js_trim why) actor (se_clock env) (undo_writes (js_trim why) target undone)) j n]"
      "cinv (sw_cashouts w')"
proof (cases "length (js_trim why) = 0")
  case True
  with run show ?thesis by (intro quiet) (auto simp: reverseCashout_def throw_eq)
next
  case nonblank: False
  show ?thesis
  proof (cases "List.find (\<lambda>d. cashout_id d = i) (rows w)")
    case None
    with run inv nonblank show ?thesis by (intro quiet) (auto simp: reverseCashout_def bnd_eq throw_eq)
  next
    case (Some target)
    from find_SomeD [OF Some] have id: "cashout_id target = i" by simp
    show ?thesis
    proof (cases "evaluateCashoutReversal (dc_kind (det_cashout target)) (dc_status (det_cashout target))")
      case (ReversalDenied x)
      with run inv nonblank Some show ?thesis by (intro quiet) (auto simp: reverseCashout_def bnd_eq throw_eq)
    next
      case ReversalAllowed
      then have st: "dc_kind (det_cashout target) = ORIGINAL" "dc_status (det_cashout target) = POSTED"
        by (cases "dc_kind (det_cashout target)"; cases "dc_status (det_cashout target)";
            simp add: evaluateCashoutReversal_def)+
      let ?plan = "reversalPlanOf (det_allocations target)"
      from run inv nonblank Some ReversalAllowed have undo: "undo_cashout S env target (js_trim why) actor w = (r, w')"
        by (simp add: reverseCashout_def bnd_eq)
      show ?thesis
      proof (cases "0 < length (rp_reimbursement ?plan) \<and> se_fund env = None")
        case True
        with undo show ?thesis by (intro quiet) (auto simp: undo_cashout_def throw_eq)
      next
        case False
        obtain p w1 where p: "undo_lines env (js_trim why) actor (rp_reimbursement ?plan) w = (p, w1)"
          by (metis prod.exhaust)
        note ue = undo_lines_effect [OF p]
        show ?thesis
        proof (cases p)
          case (Inl e)
          with undo False p ue show ?thesis by (intro quiet) (auto simp: undo_cashout_def Let_def bnd_eq split: if_splits)
        next
          case un: (Inr undone)
          show ?thesis
          proof (cases "settlement_businessDate env None")
            case (Inl e)
            with undo False p ue un show ?thesis
              by (intro quiet) (auto simp: undo_cashout_def Let_def bnd_eq lift_eq split: if_splits)
          next
            case d: (Inr d)
            let ?inp = "reversal_cashout (det_cashout target) d (js_trim why) actor (se_clock env)
              (undo_writes (js_trim why) target undone)"
            from undo False p un d have w: "write_reversal S ?inp w1 = (r, w')"
              by (auto simp: undo_cashout_def Let_def bnd_eq lift_eq undo_writes_def split: if_splits)
            have "ri_reversesId ?inp = Some i" "ri_correlationKey ?inp = cashout_corr target @ '':reversal''"
              using id by (simp_all add: reversal_cashout_def cashout_id_def cashout_corr_def)
            from write_reversal_effect [OF _ this(1) w] this(2) inv ue
            have "cinv (sw_cashouts w')" "sw_cashouts w' = sw_cashouts w \<and> (\<forall>det. r = Inr det \<longrightarrow>
                List.find (\<lambda>d. cashout_corr d = cashout_corr target @ '':reversal'') (rows w) = Some det) \<or>
              (\<exists>j n. r = Inr (recorded_detail ?inp j n) \<and>
                rows w' = map (settle_mark (Some i)) (rows w) @ [recorded_detail ?inp j n])" by auto
            from this(2) show ?thesis
            proof (elim disjE exE conjE)
              fix j n
              assume "r = Inr (recorded_detail ?inp j n)"
                "rows w' = map (settle_mark (Some i)) (rows w) @ [recorded_detail ?inp j n]"
              then show ?thesis
                using reversed [OF Some st, of undone d j n] ue un \<open>cinv (sw_cashouts w')\<close> by auto
            qed (use quiet Some in auto)
          qed
        qed
      qed
    qed
  qed
qed

end

section \<open>The amount drawn from a payslip\<close>

definition slip_sum :: "ident \<Rightarrow> 'a PostedAllocation_scheme list \<Rightarrow> int" where
  "slip_sum p as = sum_list (map pa_amount (filter (\<lambda>a. pa_source a = WAGE \<and> pa_payslipId a = Some p) as))"

definition drawn :: "DriverCashoutDetail list \<Rightarrow> ident \<Rightarrow> int" where
  "drawn ds p = sum_list (map (\<lambda>d. slip_sum p (det_allocations d)) ds)"

definition is_live :: "DriverCashoutDetail \<Rightarrow> bool" where
  "is_live d \<longleftrightarrow> dc_kind (det_cashout d) = ORIGINAL \<and> dc_status (det_cashout d) = POSTED"

definition live :: "DriverCashoutDetail list \<Rightarrow> ident \<Rightarrow> int" where
  "live ds p = sum_list (map (\<lambda>d. if is_live d then slip_sum p (det_allocations d) else 0) ds)"

text \<open>The magnitude of all money that ever moved: the bound under which the sums on doubles are exact.\<close>

definition volume :: "DriverCashoutDetail list \<Rightarrow> int" where
  "volume ds = sum_list (map (\<lambda>a. \<bar>pa_amount a\<bar>) (allocations_of ds))"

lemma slip_sum_append [simp]: "slip_sum p (as @ bs) = slip_sum p as + slip_sum p bs"
  by (simp add: slip_sum_def)

lemma slip_sum_Cons:
  "slip_sum p (a # as) = (if pa_source a = WAGE \<and> pa_payslipId a = Some p then pa_amount a else 0) + slip_sum p as"
  by (simp add: slip_sum_def)

lemma slip_sum_Nil [simp]: "slip_sum p [] = 0"
  by (simp add: slip_sum_def)

lemma drawn_append [simp]: "drawn (ds @ es) p = drawn ds p + drawn es p"
  by (simp add: drawn_def)

lemma live_append [simp]: "live (ds @ es) p = live ds p + live es p"
  by (simp add: live_def)

lemma rows_fields:
  "map2 (\<lambda>a k. f (allocation_row a i t (uuid k))) as [n ..< n + length as] = map g as"
  if "\<And>a k. f (allocation_row a i t k) = g a" for f :: "DriverCashoutAllocation \<Rightarrow> 'b"
  using that by (intro nth_equalityI) simp_all

lemma slip_sum_fields:
  "slip_sum p as = sum_list (map (\<lambda>(s, v, q). v) (filter (\<lambda>(s, v, q). s = WAGE \<and> q = Some p)
      (map (\<lambda>a. (pa_source a, pa_amount a, pa_payslipId a)) as)))"
  by (simp add: slip_sum_def filter_map comp_def)

lemma slip_sum_rows [simp]: "slip_sum p (allocation_rows inp i n) = slip_sum p (ri_allocations inp)"
proof -
  have "map (\<lambda>a. (pa_source a, pa_amount a, pa_payslipId a)) (allocation_rows inp i n) =
      map (\<lambda>a. (pa_source a, pa_amount a, pa_payslipId a)) (ri_allocations inp)"
    unfolding allocation_rows_def map_map
    using rows_fields [of "\<lambda>a. (pa_source a, pa_amount a, pa_payslipId a)" i "ri_at inp"
        "\<lambda>a. (pa_source a, pa_amount a, pa_payslipId a)" "ri_allocations inp" n]
    by (simp add: allocation_row_def comp_def case_prod_unfold)
  then show ?thesis by (simp only: slip_sum_fields)
qed

lemma plan_wage_Some:
  "plan_wage a = Some x \<longleftrightarrow> (\<exists>p. pa_source a = WAGE \<and> pa_payslipId a = Some p \<and> x = (p, - pa_amount a))"
  by (auto simp: plan_wage_def split: option.splits)

lemma rp_wage_mem:
  "(p, v) \<in> set (rp_wage (reversalPlanOf as)) \<Longrightarrow> \<exists>a \<in> set as. pa_source a = WAGE \<and> pa_payslipId a = Some p"
proof -
  assume "(p, v) \<in> set (rp_wage (reversalPlanOf as))"
  then obtain a where "a \<in> set as" "plan_wage a \<noteq> None" "the (plan_wage a) = (p, v)"
    by (auto simp: reversalPlanOf_def List.map_filter_def)
  then have "plan_wage a = Some (p, v)" by auto
  with \<open>a \<in> set as\<close> show ?thesis by (auto simp: plan_wage_Some)
qed

lemma slip_sum_undo:
  assumes "list_all (\<lambda>a. pa_source a = REIMBURSEMENT_OUT) undone"
  shows "slip_sum p (undo_writes why target undone) = - slip_sum p (det_allocations target)"
proof -
  have "slip_sum p (map wage_undo (List.map_filter plan_wage as)) = - slip_sum p as"
    for as :: "DriverCashoutAllocation list"
  proof (induction as)
    case (Cons a as)
    then show ?case
      by (cases "plan_wage a")
        (auto simp: List.map_filter_simps slip_sum_Cons wage_undo_def plan_wage_Some plan_wage_def
          split: option.splits if_splits)
  qed (simp add: List.map_filter_simps)
  moreover have "slip_sum p undone = 0"
    using assms by (induction undone) (simp_all add: slip_sum_Cons)
  ultimately show ?thesis by (simp add: undo_writes_def reversalPlanOf_def)
qed

section \<open>Reading it back exactly\<close>

lemma map_get_update: "map_get (AList.update k v m) j = (if j = k then v else map_get m j)"
  by (simp add: map_get_def update_conv')

lemma map_get_cashed:
  "map_get (fold cashed_step as m) p =
     fold (\<lambda>x acc. js_add acc x)
       (map pa_amount (filter (\<lambda>a. pa_source a = WAGE \<and> pa_payslipId a = Some p) as)) (map_get m p)"
proof (induction as arbitrary: m)
  case (Cons a as)
  then show ?case by (auto simp: cashed_step_def map_get_update split: option.split)
qed simp

lemma map_get_cashedOut:
  "map_get (cashedOutByPayslip as) p =
     js_sum (map pa_amount (filter (\<lambda>a. pa_source a = WAGE \<and> pa_payslipId a = Some p) as))"
  unfolding cashedOutByPayslip_def map_get_cashed js_sum_def by (simp add: map_get_def)

lemma sum_abs_filter_le: "sum_list (map (\<lambda>a. \<bar>f a\<bar>) (filter P as)) \<le> sum_list (map (\<lambda>a. \<bar>f a\<bar>) as)"
  for f :: "'a \<Rightarrow> int"
  by (induction as) auto

lemma map_get_cashedOut_exact:
  assumes "sum_list (map (\<lambda>a. \<bar>pa_amount a\<bar>) as) \<le> max_safe_integer"
  shows "map_get (cashedOutByPayslip as) p = slip_sum p as"
proof -
  have "sum_list (map abs (map pa_amount (filter (\<lambda>a. pa_source a = WAGE \<and> pa_payslipId a = Some p) as)))
      \<le> max_safe_integer"
    unfolding map_map comp_def by (rule order_trans [OF sum_abs_filter_le assms])
  from js_sum_exact [OF prefix_sums_safe_abs [OF this]] show ?thesis
    by (simp add: map_get_cashedOut slip_sum_def)
qed

lemma slip_sum_concat: "slip_sum p (concat xss) = sum_list (map (slip_sum p) xss)"
  by (induction xss) simp_all

lemma drawn_allocations: "drawn ds p = slip_sum p (allocations_of ds)"
  by (simp add: drawn_def allocations_of_def slip_sum_concat comp_def)

lemma sum_list_perm: "mset xs = mset ys \<Longrightarrow> sum_list xs = sum_list ys" for xs :: "int list"
  by (metis sum_mset_sum_list)

lemma drawn_listed:
  assumes "\<And>d. d \<in> set ds \<Longrightarrow> dc_driverId (det_cashout d) \<noteq> driver \<Longrightarrow> slip_sum p (det_allocations d) = 0"
  shows "drawn (listed ds driver) p = drawn ds p"
proof -
  have "drawn (listed ds driver) p = drawn (filter (\<lambda>d. dc_driverId (det_cashout d) = driver) ds) p"
    unfolding drawn_def listed_def by (intro sum_list_perm) simp
  also have "\<dots> = drawn ds p"
    using assms by (induction ds) (auto simp: drawn_def)
  finally show ?thesis .
qed

lemma volume_listed: "volume (listed ds driver) \<le> volume ds"
proof -
  have nn: "0 \<le> sum_list (map (\<lambda>a. \<bar>pa_amount a\<bar>) xs)" for xs :: "DriverCashoutAllocation list"
    by (rule sum_list_nonneg) auto
  have v: "volume es = sum_list (map (\<lambda>d. sum_list (map (\<lambda>a. \<bar>pa_amount a\<bar>) (det_allocations d))) es)" for es
    by (induction es) (simp_all add: volume_def allocations_of_def)
  have "volume (listed ds driver) = volume (filter (\<lambda>d. dc_driverId (det_cashout d) = driver) ds)"
    unfolding v listed_def by (intro sum_list_perm) simp
  also have "\<dots> \<le> volume ds"
    unfolding v by (induction ds) (auto intro: add_increasing nn)
  finally show ?thesis .
qed

lemma volume_append [simp]: "volume (ds @ es) = volume ds + volume es"
  by (simp add: volume_def allocations_of_def)

lemma volume_nonneg: "0 \<le> volume ds"
  unfolding volume_def by (rule sum_list_nonneg) auto

text \<open>What the capacity says of a payslip, given what payroll says of it.\<close>

lemma remaining_mem:
  "map_of (fold (remaining_step out) ps m) p = Some r \<Longrightarrow>
   map_of m p = Some r \<or> (\<exists>f \<in> set ps. pf_payslipId f = p \<and> 0 < pf_netAmount f \<and>
      r = js_add (pf_netAmount f) (- map_get out p) \<and> 0 < r)"
proof (induction ps arbitrary: m)
  case (Cons f ps)
  from Cons.IH [of "remaining_step out f m"] Cons.prems show ?case
    by (auto simp: remaining_step_def Let_def update_conv' split: if_splits)
qed simp

definition payroll_agrees :: "(ident \<Rightarrow> int) \<Rightarrow> (ident \<Rightarrow> ident) \<Rightarrow> 'f settlement_env \<Rightarrow> bool" where
  "payroll_agrees net owner env \<longleftrightarrow>
     (\<forall>d. \<forall>f \<in> set (se_payroll env d).
        net (pf_payslipId f) = pf_netAmount f \<and> owner (pf_payslipId f) = d \<and> valid_amount (pf_netAmount f)) \<and>
     (\<forall>d driver. settlement_findDriver (se_core env) d = Some driver \<longrightarrow> sd_id driver = d)"

text \<open>The invariant of the cash-out ledger.\<close>

definition wages_ok :: "(ident \<Rightarrow> int) \<Rightarrow> (ident \<Rightarrow> ident) \<Rightarrow> DriverCashoutDetail list \<Rightarrow> bool" where
  "wages_ok net owner ds \<longleftrightarrow>
     (\<forall>d \<in> set ds. \<forall>a \<in> set (det_allocations d). \<forall>p.
        pa_source a = WAGE \<longrightarrow> pa_payslipId a = Some p \<longrightarrow> owner p = dc_driverId (det_cashout d)) \<and>
     (\<forall>d \<in> set ds. dc_kind (det_cashout d) = ORIGINAL \<longrightarrow>
        (\<forall>a \<in> set (det_allocations d). pa_source a = WAGE \<longrightarrow> 0 < pa_amount a)) \<and>
     (\<forall>p. drawn ds p = live ds p) \<and> (\<forall>p. drawn ds p \<le> max 0 (net p))"

lemma slip_sum_zero:
  "(\<And>a. a \<in> set as \<Longrightarrow> pa_source a = WAGE \<Longrightarrow> pa_payslipId a \<noteq> Some p) \<Longrightarrow> slip_sum p as = 0"
  by (induction as) (auto simp: slip_sum_Cons)

lemma slip_sum_nonneg:
  "(\<And>a. a \<in> set as \<Longrightarrow> pa_source a = WAGE \<Longrightarrow> 0 < pa_amount a) \<Longrightarrow> 0 \<le> slip_sum p as"
  unfolding slip_sum_def by (rule sum_list_nonneg) force

lemma live_nonneg: "wages_ok net owner ds \<Longrightarrow> 0 \<le> live ds p"
  unfolding live_def
  by (rule sum_list_nonneg) (auto simp: wages_ok_def is_live_def intro!: slip_sum_nonneg)

lemma drawn_bounds: "wages_ok net owner ds \<Longrightarrow> 0 \<le> drawn ds p \<and> drawn ds p \<le> max 0 (net p)"
  by (frule live_nonneg [where p = p]) (auto simp: wages_ok_def)

lemma capacity_sound:
  assumes ok: "wages_ok net owner ds" and pay: "payroll_agrees net owner env"
    and vol: "volume ds \<le> max_safe_integer"
    and cap: "map_of (payslip_capacity env ds driver) p = Some r"
  shows "owner p = driver \<and> r = net p - drawn ds p"
proof -
  let ?out = "cashedOutByPayslip (allocations_of (listed ds driver))"
  from remaining_mem [of ?out "se_payroll env driver" "[]" p r] cap obtain f where
      f: "f \<in> set (se_payroll env driver)" "pf_payslipId f = p" "0 < pf_netAmount f"
      "r = js_add (pf_netAmount f) (- map_get ?out p)"
    by (auto simp: payslip_capacity_def wageRemainingByPayslip_def)
  with pay have n: "net p = pf_netAmount f" "owner p = driver" "valid_amount (net p)"
    unfolding payroll_agrees_def by metis+
  have "sum_list (map (\<lambda>a. \<bar>pa_amount a\<bar>) (allocations_of (listed ds driver))) \<le> max_safe_integer"
    using volume_listed [of ds driver] vol by (simp add: volume_def)
  from map_get_cashedOut_exact [OF this] have "map_get ?out p = drawn (listed ds driver) p"
    by (simp add: drawn_allocations)
  also have "\<dots> = drawn ds p"
    using ok n(2) by (intro drawn_listed slip_sum_zero) (auto simp: wages_ok_def)
  finally have "map_get ?out p = drawn ds p" .
  moreover have "\<bar>net p - drawn ds p\<bar> \<le> max_safe_integer"
    using drawn_bounds [OF ok, of p] n f(3) by (auto simp: valid_amount_def)
  ultimately show ?thesis
    using f(4) n js_add_exact [of "net p" "- drawn ds p"] by simp
qed

lemma allowed_lines:
  assumes "evaluateCashout ls cap cur = CashoutAllowed wage reimbursed total_paid"
  shows "(\<forall>l \<in> set ls. line_ok cap l) \<and> distinct (map (\<lambda>l. the (cl_payslipId l)) (wage_lines ls))"
  using assms by (auto simp: evaluateCashout_def scan_lines_Inr split: if_splits sum.splits)

lemma slip_sum_written:
  assumes "list_all2 writes_line ls as" "\<forall>l \<in> set ls. line_ok cap l"
    and "distinct (map (\<lambda>l. the (cl_payslipId l)) (wage_lines ls))"
  shows "slip_sum p as = 0 \<or>
    (\<exists>r. map_of (cap_wageRemainingByPayslip cap) p = Some r \<and> slip_sum p as \<le> r)"
  using assms
proof (induction rule: list_all2_induct)
  case (Cons l ls a as)
  show ?case
  proof (cases "is_wage l \<and> cl_payslipId l = Some p")
    case True
    have "slip_sum p as = 0"
    proof (rule slip_sum_zero)
      fix b assume b: "b \<in> set as" "pa_source b = WAGE"
      from Cons.hyps(2) b(1) obtain k where "k \<in> set ls" "writes_line k b"
        by (metis in_set_conv_nth list_all2_conv_all_nth)
      with b(2) Cons.prems True show "pa_payslipId b \<noteq> Some p"
        by (force simp: writes_line_def is_wage_def wage_lines_def)
    qed
    with True Cons.hyps(1) Cons.prems(1) show ?thesis
      by (auto simp: slip_sum_Cons writes_line_def line_ok_def split: option.splits)
  next
    case False
    with Cons show ?thesis
      by (auto simp: slip_sum_Cons writes_line_def is_wage_def wage_lines_def split: if_splits)
  qed
qed simp

section \<open>The commands keep the invariant\<close>

lemma wages_ok_Nil: "wages_ok net owner []"
  by (simp add: wages_ok_def drawn_def live_def)

lemma det_recorded [simp]:
  "det_allocations (recorded_detail inp i n) = allocation_rows inp i n"
  "dc_kind (det_cashout (recorded_detail inp i n)) = ri_kind inp"
  "dc_status (det_cashout (recorded_detail inp i n)) = POSTED"
  "dc_driverId (det_cashout (recorded_detail inp i n)) = ri_driverId inp"
  by (simp_all add: recorded_detail_def cashout_row_def)

lemma allocation_rows_mem:
  "b \<in> set (allocation_rows inp i n) \<Longrightarrow> \<exists>a \<in> set (ri_allocations inp).
     pa_source b = pa_source a \<and> pa_amount b = pa_amount a \<and> pa_payslipId b = pa_payslipId a"
  by (auto simp: allocation_rows_def allocation_row_def dest!: set_zip_leftD)

lemma writes_line_mem:
  "list_all2 writes_line ls as \<Longrightarrow> a \<in> set as \<Longrightarrow> \<exists>l \<in> set ls. writes_line l a"
  by (metis in_set_conv_nth list_all2_conv_all_nth)

lemma wages_ok_payment:
  assumes ok: "wages_ok net owner ds" and pay: "payroll_agrees net owner env"
    and vol: "volume ds \<le> max_safe_integer"
    and wl: "list_all2 writes_line (rcc_lines command) as"
    and allowed: "evaluateCashout (rcc_lines command) cap (cap_currencyCode cap) = CashoutAllowed wage reimbursed total_paid"
    and cap: "cap_wageRemainingByPayslip cap = payslip_capacity env ds driver"
    and inp: "ri_allocations inp = as" "ri_kind inp = ORIGINAL" "ri_driverId inp = driver"
  shows "wages_ok net owner (ds @ [recorded_detail inp i n])"
proof -
  note lines = allowed_lines [OF allowed]
  have line: "0 < pa_amount b \<and> (\<forall>p. pa_payslipId b = Some p \<longrightarrow> owner p = driver)"
    if b: "b \<in> set (allocation_rows inp i n)" "pa_source b = WAGE" for b
  proof -
    from allocation_rows_mem [OF b(1)] inp(1) obtain a where a: "a \<in> set as" "pa_source b = pa_source a"
        "pa_amount b = pa_amount a" "pa_payslipId b = pa_payslipId a" by auto
    from writes_line_mem [OF wl a(1)] obtain l where l: "l \<in> set (rcc_lines command)" "writes_line l a" by blast
    with lines have lok: "line_ok cap l" by blast
    have "owner p = driver" if "pa_payslipId b = Some p" for p
    proof -
      from that l(2) lok a b(2) obtain r where "map_of (payslip_capacity env ds driver) p = Some r"
        unfolding cap [symmetric] by (auto simp: writes_line_def line_ok_def is_wage_def split: option.splits)
      from capacity_sound [OF ok pay vol this] show ?thesis by simp
    qed
    with l(2) lok a(3) show ?thesis by (auto simp: writes_line_def line_ok_def)
  qed
  have bound: "drawn ds p + slip_sum p as \<le> max 0 (net p)" for p
    using slip_sum_written [OF wl lines [THEN conjunct1] lines [THEN conjunct2], of p]
  proof
    assume "slip_sum p as = 0"
    with drawn_bounds [OF ok, of p] show ?thesis by simp
  next
    assume "\<exists>r. map_of (cap_wageRemainingByPayslip cap) p = Some r \<and> slip_sum p as \<le> r"
    then obtain r where "map_of (payslip_capacity env ds driver) p = Some r" "slip_sum p as \<le> r"
      by (auto simp: cap)
    with capacity_sound [OF ok pay vol this(1)] show ?thesis by simp
  qed
  from ok bound line show ?thesis
    by (auto simp: wages_ok_def drawn_def [of "[_]"] live_def [of "[_]"] is_live_def inp)
qed

lemma sum_list_change_one:
  fixes g h :: "'a \<Rightarrow> int"
  assumes "distinct xs" "x \<in> set xs" "\<And>y. y \<in> set xs \<Longrightarrow> y \<noteq> x \<Longrightarrow> h y = g y"
  shows "sum_list (map h xs) = sum_list (map g xs) + (h x - g x)"
  using assms
proof (induction xs)
  case (Cons y xs)
  show ?case
  proof (cases "y = x")
    case True
    with Cons.prems have "map h xs = map g xs" by (intro map_cong) auto
    then show ?thesis unfolding True list.map sum_list.Cons by (simp only:)
  next
    case False
    with Cons show ?thesis by simp
  qed
qed simp

lemma wages_ok_reversal:
  assumes ok: "wages_ok net owner ds" and d: "distinct (map cashout_id ds)"
    and target: "List.find (\<lambda>d. cashout_id d = i) ds = Some target" "is_live target"
    and undone: "list_all (\<lambda>a. pa_source a = REIMBURSEMENT_OUT) undone"
    and inp: "ri_allocations inp = undo_writes why target undone" "ri_kind inp = REVERSAL_OUT"
      "ri_driverId inp = dc_driverId (det_cashout target)"
  shows "wages_ok net owner (map (settle_mark (Some i)) ds @ [recorded_detail inp j n])"
proof -
  let ?ds = "map (settle_mark (Some i)) ds"
  from find_SomeD [OF target(1)] have t: "target \<in> set ds" "cashout_id target = i" by auto
  have other: "cashout_id y \<noteq> i" if "y \<in> set ds" "y \<noteq> target" for y
    using that t d by (auto simp: distinct_map inj_on_def)
  have same: "det_allocations (settle_mark (Some i) y) = det_allocations y"
      "dc_driverId (det_cashout (settle_mark (Some i) y)) = dc_driverId (det_cashout y)"
      "dc_kind (det_cashout (settle_mark (Some i) y)) = dc_kind (det_cashout y)" for y
    by (simp_all add: settle_mark_def)
  have dr: "drawn ?ds p = drawn ds p" for p by (simp add: drawn_def comp_def same)
  have lv: "live ?ds p = live ds p - slip_sum p (det_allocations target)" for p
  proof -
    have "live ?ds p = sum_list (map (\<lambda>y. if is_live (settle_mark (Some i) y) then slip_sum p (det_allocations y) else 0) ds)"
      by (simp add: live_def comp_def same cong: if_cong)
    also have "\<dots> = live ds p + (0 - slip_sum p (det_allocations target))"
      unfolding live_def
    proof (subst sum_list_change_one [where x = target and g = "\<lambda>y. if is_live y then slip_sum p (det_allocations y) else 0"])
      show "distinct ds" using d by (simp add: distinct_map)
    qed (use t target(2) in \<open>auto simp: settle_mark_def is_live_def dest: other\<close>)
    finally show ?thesis by simp
  qed
  have mem: "\<exists>a \<in> set (det_allocations target). pa_source a = WAGE \<and> pa_payslipId a = Some p"
    if "b \<in> set (allocation_rows inp j n)" "pa_source b = WAGE" "pa_payslipId b = Some p" for b p
    using allocation_rows_mem [OF that(1)] that(2,3) undone
    by (auto simp: inp(1) undo_writes_def wage_undo_def list_all_iff dest: rp_wage_mem)
  have owner: "owner p = dc_driverId (det_cashout target)"
    if "b \<in> set (allocation_rows inp j n)" "pa_source b = WAGE" "pa_payslipId b = Some p" for b p
    using mem [OF that] ok t(1) unfolding wages_ok_def by blast
  have slip: "slip_sum p (ri_allocations inp) = - slip_sum p (det_allocations target)" for p
    by (simp add: inp(1) slip_sum_undo [OF undone])
  have nn: "0 \<le> slip_sum p (det_allocations target)" for p
    using ok t(1) target(2) by (intro slip_sum_nonneg) (auto simp: wages_ok_def is_live_def)
  have sums: "drawn (?ds @ [recorded_detail inp j n]) p = live (?ds @ [recorded_detail inp j n]) p \<and>
      drawn (?ds @ [recorded_detail inp j n]) p \<le> max 0 (net p)" for p
    using ok nn [of p] drawn_bounds [OF ok, of p]
    by (auto simp: dr lv slip drawn_def [of "[_]"] live_def [of "[_]"] is_live_def inp(2) wages_ok_def)
  have own: "owner p = dc_driverId (det_cashout y)"
    if "y \<in> set (?ds @ [recorded_detail inp j n])" "a \<in> set (det_allocations y)" "pa_source a = WAGE"
      "pa_payslipId a = Some p" for y a p
    using that ok inp(3) by (auto simp: wages_ok_def same dest: owner)
  have "\<forall>y \<in> set (?ds @ [recorded_detail inp j n]). dc_kind (det_cashout y) = ORIGINAL \<longrightarrow>
      (\<forall>a \<in> set (det_allocations y). pa_source a = WAGE \<longrightarrow> 0 < pa_amount a)"
    using ok inp(2) unfolding wages_ok_def by (auto simp: same)
  with sums own show ?thesis unfolding wages_ok_def by blast
qed

context cashout_store
begin

lemma recordCashout_effect:
  assumes inv: "cinv (sw_cashouts w)" and oinv: "\<And>v. cinv (sw_cashouts v) \<Longrightarrow> cinv (sw_cashouts (others v))"
    and drv: "\<And>d driver. settlement_findDriver (se_core env) d = Some driver \<Longrightarrow> sd_id driver = d"
    and run: "recordCashout S env others command actor w = (r, w')"
  obtains (same) "rows w' = rows w" "cinv (sw_cashouts w')"
  | (interfered) v where "sw_cashouts v = sw_cashouts w" "rows w' = rows (others v)" "cinv (sw_cashouts w')"
  | (paid) cap inp i n v where "sw_cashouts v = sw_cashouts w" "r = Inr (recorded_detail inp i n)"
      "rows w' = rows (others v) @ [recorded_detail inp i n]" "cinv (sw_cashouts w')"
      "list_all2 writes_line (rcc_lines command) (ri_allocations inp)" "ri_kind inp = ORIGINAL"
      "ri_driverId inp = rcc_driverId command"
      "\<exists>wage reimbursed paid. evaluateCashout (rcc_lines command) cap (cap_currencyCode cap) = CashoutAllowed wage reimbursed paid"
      "cap_wageRemainingByPayslip cap = payslip_capacity env (rows w) (rcc_driverId command)"
proof (cases "settlement_businessDate env (rcc_businessDate command)")
  case (Inl e)
  with run inv show ?thesis by (intro same) (auto simp: recordCashout_def bnd_eq lift_eq)
next
  case d: (Inr d)
  show ?thesis
  proof (cases "length (js_trim (rcc_method command)) = 0 \<or> settlement_findDriver (se_core env) (rcc_driverId command) = None")
    case True
    with run inv d show ?thesis
      by (intro same) (auto simp: recordCashout_def Let_def bnd_eq lift_eq throw_eq split: if_splits)
  next
    case False
    then obtain driver where driver: "settlement_findDriver (se_core env) (rcc_driverId command) = Some driver"
      by auto
    obtain q w1 where q: "cashout_key (rcc_correlationKey command) w = (q, w1)" by (metis prod.exhaust)
    from cashout_key_effect [OF q] obtain key where key: "q = Inr key" "sw_cashouts w1 = sw_cashouts w" by auto
    have inv1: "cinv (sw_cashouts w1)" using inv key by simp
    from run d False driver q key
    have rest: "bnd (on_cashouts (find_cashout_key S key)) (\<lambda>replay.
        case replay of
          Some existing \<Rightarrow> lift (assertSameCashout existing command d (js_trim (rcc_method command)))
        | None \<Rightarrow> pay_driver S env others command (sd_id driver) d (js_trim (rcc_method command)) key actor) w1 = (r, w')"
      by (simp add: recordCashout_def bnd_def [of "lift _"] bnd_def [of "cashout_key _"] lift_eq Let_def)
    show ?thesis
    proof (cases "List.find (\<lambda>d. cashout_corr d = key) (rows w1)")
      case (Some existing)
      with rest inv1 key show ?thesis by (intro same) (auto simp: bnd_eq lift_eq)
    next
      case None
      with rest inv1 have pd: "pay_driver S env others command (rcc_driverId command) d (js_trim (rcc_method command)) key actor w1 = (r, w')"
        using drv [OF driver] by (simp add: bnd_eq)
      show ?thesis
      proof (cases rule: pay_driver_effect [OF inv1 oinv pd])
        case (2 e)
        with key show ?thesis by (metis same interfered)
      next
        case (3 det v)
        with key show ?thesis by (metis interfered)
      next
        case (4 cap i n v as cur)
        then show ?thesis
          using key
          by (intro paid [of v "cashout_input command (rcc_driverId command) d cur (js_trim (rcc_method command)) key actor
                (se_clock env) as" i n cap]) (simp_all add: cashout_input_def)
      qed
    qed
  qed
qed

lemma payment_keeps_wages:
  assumes inv: "cinv (sw_cashouts w)" and pay: "payroll_agrees net owner env"
    and ok: "wages_ok net owner (rows w)" and vol: "volume (rows w) \<le> max_safe_integer"
    and run: "recordCashout S env id command actor w = (r, w')"
  shows "cinv (sw_cashouts w') \<and> wages_ok net owner (rows w')"
proof (cases rule: recordCashout_effect [OF inv _ _ run])
  case (2 d driver)
  with pay show ?case by (auto simp: payroll_agrees_def)
next
  case 3
  with ok show ?thesis by simp
next
  case (4 v)
  with ok show ?thesis by simp
next
  case (5 cap inp i n v)
  then obtain wage reimbursed paid where
      "evaluateCashout (rcc_lines command) cap (cap_currencyCode cap) = CashoutAllowed wage reimbursed paid" by blast
  from wages_ok_payment [OF ok pay vol 5(5) this 5(9) refl 5(6,7)] 5 show ?thesis by simp
qed simp

lemma reversal_keeps_wages:
  assumes inv: "cinv (sw_cashouts w)" and ok: "wages_ok net owner (rows w)"
    and run: "reverseCashout S env i why actor w = (r, w')"
  shows "cinv (sw_cashouts w') \<and> wages_ok net owner (rows w')"
proof (cases rule: reverseCashout_effect [OF inv run])
  case 1
  with inv ok show ?thesis by simp
next
  case (2 target d undone j n)
  have "distinct (map cashout_id (rows w))" using unique [OF inv] by simp
  from wages_ok_reversal [OF ok this 2(1) _ 2(5)] 2 show ?thesis
    by (simp add: is_live_def reversal_cashout_def)
qed

end

lemma volume_mark [simp]: "volume (map (settle_mark t) ds) = volume ds"
proof -
  have "map det_allocations (map (settle_mark t) ds) = map det_allocations ds"
    by (simp add: settle_mark_def)
  then show ?thesis unfolding volume_def allocations_of_def by (simp only:)
qed

context cashout_store
begin

lemma volume_grows:
  assumes inv: "cinv (sw_cashouts w)"
  shows "payroll_agrees net owner env \<Longrightarrow> recordCashout S env id command actor w = (r, w') \<Longrightarrow>
      volume (rows w) \<le> volume (rows w') \<and> cinv (sw_cashouts w')"
    and "reverseCashout S env i why actor w = (r, w') \<Longrightarrow>
      volume (rows w) \<le> volume (rows w') \<and> cinv (sw_cashouts w')"
proof -
  assume pay: "payroll_agrees net owner env" and run: "recordCashout S env id command actor w = (r, w')"
  show "volume (rows w) \<le> volume (rows w') \<and> cinv (sw_cashouts w')"
  proof (cases rule: recordCashout_effect [OF inv _ _ run])
    case (2 d driver)
    with pay show ?case by (auto simp: payroll_agrees_def)
  qed (use volume_nonneg in auto)
next
  assume run: "reverseCashout S env i why actor w = (r, w')"
  show "volume (rows w) \<le> volume (rows w') \<and> cinv (sw_cashouts w')"
    by (cases rule: reverseCashout_effect [OF inv run]) (use inv volume_nonneg in auto)
qed

end

end
