(* ===== verification/SettlementReplay.thy ===== *)
theory SettlementReplay imports SettlementWages begin

text \<open>
  Retries, races and reversals of payments to drivers, proved over any cash-out store and fund port that
  keep their contracts (locale \<open>driver_settlement\<close>), and the instance of that locale: the in-memory
  cash-out store with the adapter onto the costing services.
\<close>

lemma allocation_rows_fields:
  "map (\<lambda>a. (pa_source a, pa_amount a, pa_payslipId a, pa_driverFundEntryId a)) (allocation_rows inp i n) =
   map (\<lambda>a. (pa_source a, pa_amount a, pa_payslipId a, pa_driverFundEntryId a)) (ri_allocations inp)"
  unfolding allocation_rows_def map_map
  using rows_fields [of "\<lambda>a. (pa_source a, pa_amount a, pa_payslipId a, pa_driverFundEntryId a)" i "ri_at inp"
      "\<lambda>a. (pa_source a, pa_amount a, pa_payslipId a, pa_driverFundEntryId a)" "ri_allocations inp" n]
  by (simp add: allocation_row_def comp_def case_prod_unfold)

lemma length_allocation_rows [simp]: "length (allocation_rows inp i n) = length (ri_allocations inp)"
  by (simp add: allocation_rows_def)

lemma allocation_rows_has:
  assumes "a \<in> set (ri_allocations inp)"
  shows "\<exists>b \<in> set (allocation_rows inp i n).
    pa_source b = pa_source a \<and> pa_amount b = pa_amount a \<and> pa_payslipId b = pa_payslipId a"
proof -
  have "(pa_source a, pa_amount a, pa_payslipId a, pa_driverFundEntryId a) \<in>
      set (map (\<lambda>a. (pa_source a, pa_amount a, pa_payslipId a, pa_driverFundEntryId a)) (allocation_rows inp i n))"
    unfolding allocation_rows_fields using assms by auto
  then show ?thesis by auto
qed

lemma line_of_payment:
  assumes "line_ok cap l" "writes_line l a"
  shows "pa_source a = cl_source l \<and> num_of_int (pa_amount a) = cl_amount l \<and> pa_payslipId a = cl_payslipId l"
  using assms
  by (auto simp: line_ok_def writes_line_def line_amount_def is_wage_def js_integer_Some split: option.splits if_splits)

lemma paid_is_same_cashout:
  assumes wl: "list_all2 writes_line (rcc_lines command) (ri_allocations inp)"
    and ok: "\<forall>l \<in> set (rcc_lines command). line_ok cap l"
    and inp: "ri_driverId inp = rcc_driverId command" "ri_businessDate inp = d" "ri_method inp = m"
  shows "same_cashout (recorded_detail inp i n) command d m"
proof -
  have "\<exists>b \<in> set (allocation_rows inp i n). same_line l b" if l: "l \<in> set (rcc_lines command)" for l
  proof -
    from l wl obtain a where a: "a \<in> set (ri_allocations inp)" "writes_line l a"
      by (metis in_set_conv_nth list_all2_conv_all_nth)
    from allocation_rows_has [OF a(1)] line_of_payment [OF _ a(2)] ok l show ?thesis
      by (auto simp: same_line_def) metis
  qed
  with wl inp show ?thesis
    by (simp add: same_cashout_def recorded_detail_def cashout_row_def list_all_iff list_ex_iff list_all2_lengthD)
qed

lemma pay_lines_wage_only:
  "list_all is_wage ls \<Longrightarrow> pay_lines env driver d key actor ls w = (Inr (map wage_write ls), w)"
  by (induction ls) (simp_all add: is_wage_def bnd_eq ret_eq)

context cashout_store
begin

lemma recordCashout_given:
  assumes "cinv (sw_cashouts w)" "rcc_correlationKey command = Some k"
    "settlement_businessDate env (rcc_businessDate command) = Inr d"
    "js_trim (rcc_method command) \<noteq> []"
    "settlement_findDriver (se_core env) (rcc_driverId command) = Some driver"
  shows "recordCashout S env others command actor w =
    (case List.find (\<lambda>d. cashout_corr d = k) (rows w) of
       Some e \<Rightarrow> (assertSameCashout e command d (js_trim (rcc_method command)), w)
     | None \<Rightarrow> pay_driver S env others command (sd_id driver) d (js_trim (rcc_method command)) k actor w)"
  using assms by (simp add: recordCashout_def bnd_def lift_eq cashout_key_def Let_def split: option.split)

lemma recordCashout_Inr:
  assumes "recordCashout S env others command actor w = (Inr det, w')"
  obtains d driver where "settlement_businessDate env (rcc_businessDate command) = Inr d"
    "js_trim (rcc_method command) \<noteq> []"
    "settlement_findDriver (se_core env) (rcc_driverId command) = Some driver"
  using assms
  by (auto simp: recordCashout_def bnd_Inr_iff lift_Inr_iff Let_def split: if_splits option.splits)

lemma payment_retry:
  assumes inv: "cinv (sw_cashouts w)" and oinv: "\<And>v. cinv (sw_cashouts v) \<Longrightarrow> cinv (sw_cashouts (others v))"
    and key: "rcc_correlationKey command = Some k" and date: "rcc_businessDate command = Some dt"
    and drv: "\<And>d driver. settlement_findDriver (se_core env) d = Some driver \<Longrightarrow> sd_id driver = d"
    and run: "recordCashout S env others command actor w = (Inr det, w')"
    and core: "se_core env' = se_core env"
  shows "recordCashout S env' others' command actor' w' = (Inr det, w')"
proof -
  from run obtain d driver where
      d: "settlement_businessDate env (rcc_businessDate command) = Inr d"
    and m: "js_trim (rcc_method command) \<noteq> []"
    and driver: "settlement_findDriver (se_core env) (rcc_driverId command) = Some driver"
    by (rule recordCashout_Inr)
  have d': "settlement_businessDate env' (rcc_businessDate command) = Inr d"
    using d date by (simp add: settlement_businessDate_def)
  let ?m = "js_trim (rcc_method command)"
  have settled: ?thesis
    if "cinv (sw_cashouts w')" "det \<in> set (rows w')" "cashout_corr det = k" "same_cashout det command d ?m"
  proof -
    have "List.find (\<lambda>d. cashout_corr d = k) (rows w') = Some det"
      using find_distinct_key [of cashout_corr "rows w'" det] unique [OF that(1)] that(2,3) by simp
    with recordCashout_given [OF that(1) key d' m, of driver others' actor'] driver core that(4) show ?thesis
      by (simp add: assertSameCashout_def)
  qed
  note given = recordCashout_given [OF inv key d m driver, of others actor, unfolded run]
  show ?thesis
  proof (cases "List.find (\<lambda>d. cashout_corr d = k) (rows w)")
    case (Some e)
    with given have "w' = w" "det = e" "same_cashout e command d ?m"
      by (auto simp: assertSameCashout_def split: if_splits)
    with settled find_SomeD [OF Some] inv show ?thesis by simp
  next
    case None
    with given have pd: "pay_driver S env others command (sd_id driver) d ?m k actor w = (Inr det, w')" by simp
    show ?thesis
    proof (cases rule: pay_driver_effect [OF inv oinv pd])
      case (4 cap i n v as cur)
      let ?inp = "cashout_input command (sd_id driver) d cur ?m k actor (se_clock env) as"
      from 4(6) allowed_lines have "\<forall>l \<in> set (rcc_lines command). line_ok cap l" by blast
      moreover have "sd_id driver = rcc_driverId command" by (rule drv [OF driver])
      ultimately have "same_cashout (recorded_detail ?inp i n) command d ?m"
        using 4(5) by (intro paid_is_same_cashout [where cap = cap]) (simp_all add: cashout_input_def)
      with 4 show ?thesis
        by (intro settled) (simp_all add: recorded_detail_def cashout_corr_def cashout_row_def cashout_input_def)
    qed (use settled in auto)
  qed
qed

text \<open>Two payments checked against the same snapshot are both written, whatever the payslip still holds.\<close>

lemma racing_payments:
  assumes inv: "cinv (sw_cashouts w)"
    and key: "rcc_correlationKey c1 = Some k1"
    and wage: "list_all is_wage (rcc_lines c1)"
    and run1: "recordCashout S env id c1 actor w = (Inr d1, w1)" and new1: "rows w1 = rows w @ [d1]"
    and inv2: "cinv (sw_cashouts w2)" and new2: "rows w2 = rows w @ [d2]" and diff: "cashout_corr d2 \<noteq> k1"
  shows "\<exists>d w3. recordCashout S env (\<lambda>_. w2) c1 actor w = (Inr d, w3) \<and> rows w3 = rows w @ [d2, d] \<and>
    (\<forall>p. slip_sum p (det_allocations d) = slip_sum p (det_allocations d1))"
proof -
  from run1 obtain d driver where
      d: "settlement_businessDate env (rcc_businessDate c1) = Inr d"
    and m: "js_trim (rcc_method c1) \<noteq> []"
    and driver: "settlement_findDriver (se_core env) (rcc_driverId c1) = Some driver"
    by (rule recordCashout_Inr)
  let ?m = "js_trim (rcc_method c1)"
  note given = recordCashout_given [OF inv key d m driver, of _ actor]
  have fresh: "List.find (\<lambda>d. cashout_corr d = k1) (rows w) = None"
  proof (cases "List.find (\<lambda>d. cashout_corr d = k1) (rows w)")
    case (Some e)
    with given [of id] run1 have "rows w1 = rows w" by (auto simp: prod_eq_iff)
    with new1 show ?thesis by simp
  qed
  with given [of id] run1 have pd: "pay_driver S env id c1 (sd_id driver) d ?m k1 actor w = (Inr d1, w1)" by simp
  obtain snap v where snap: "snapshotOf S env (sd_id driver) w = (Inr snap, v)"
    using pd by (auto simp: pay_driver_def bnd_Inr_iff)
  from snapshot_effect [OF inv snap] have v: "sw_cashouts v = sw_cashouts w" by simp
  let ?as = "map wage_write (rcc_lines c1)"
  let ?inp = "cashout_input c1 (sd_id driver) d (cap_currencyCode (snap_capacity snap)) ?m k1 actor (se_clock env) ?as"
  obtain wage_t reimb_t sum_t where ev:
      "evaluateCashout (rcc_lines c1) (snap_capacity snap) (cap_currencyCode (snap_capacity snap)) =
        CashoutAllowed wage_t reimb_t sum_t"
    and av: "\<not> (0 < reimb_t \<and> se_fund env = None)"
    using pd snap by (auto simp: pay_driver_def bnd_eq throw_eq split: CashoutDecision.splits if_splits)
  have pay: "pay_driver S env others c1 (sd_id driver) d ?m k1 actor w = write_cashout S ?inp c1 d ?m (others v)" for others
    using av unfolding pay_driver_def by (auto simp: bnd_eq snap ev pay_lines_wage_only [OF wage])
  have key_inp: "ri_correlationKey ?inp = k1" "ri_reversesId ?inp = None" by (simp_all add: cashout_input_def)
  from pay [of id] pd have w1: "write_cashout S ?inp c1 d ?m v = (Inr d1, w1)" by simp
  from write_cashout_effect [OF _ key_inp(2) w1] inv v new1 obtain i n where d1: "d1 = recorded_detail ?inp i n" by auto
  have fresh2: "List.find (\<lambda>d. cashout_corr d = ri_correlationKey ?inp) (rows w2) = None"
    using fresh diff by (simp add: new2 find_append key_inp)
  from record_new [OF inv2 fresh2] obtain j l s' where
      "record_cashout S ?inp (sw_cashouts w2) = (Inr (RECORDED (recorded_detail ?inp j l)), s')"
      "cashouts_of s' = rows w2 @ [recorded_detail ?inp j l]"
    by (auto simp: target_refusal_def key_inp)
  then have "write_cashout S ?inp c1 d ?m w2 = (Inr (recorded_detail ?inp j l), w2\<lparr>sw_cashouts := s'\<rparr>)"
    by (simp add: write_cashout_def bnd_eq on_cashouts_def ret_eq)
  with pay [of "\<lambda>_. w2"] given [of "\<lambda>_. w2"] fresh
  have "recordCashout S env (\<lambda>_. w2) c1 actor w = (Inr (recorded_detail ?inp j l), w2\<lparr>sw_cashouts := s'\<rparr>)"
    by simp
  with \<open>cashouts_of s' = _\<close> show ?thesis
    by (intro exI [of _ "recorded_detail ?inp j l"] exI [of _ "w2\<lparr>sw_cashouts := s'\<rparr>"]) (simp add: new2 d1)
qed

end

end
