(* ===== verification/SettlementDebts.thy ===== *)
theory SettlementDebts imports SettlementReplay begin

text \<open>
  Payments that also pay back an advance: the cash-out store together with the driver fund port (locale
  \<open>driver_settlement\<close>). What a payment posts to the fund, why it never pays more than the company owes,
  and what a retry meets when the first attempt stopped between the fund entry and the cash-out.
\<close>

lemma single_fund_total:
  assumes "evaluateCashout ls cap cur = CashoutAllowed wage reimbursed paid"
    and "fund_lines ls = [l]" "cap_reimbursementOutstanding cap \<le> max_safe_integer"
  shows "cl_amount l = num_of_int (line_amount l) \<and> 0 < line_amount l \<and>
    line_amount l \<le> cap_reimbursementOutstanding cap \<and> reimbursed = line_amount l"
proof -
  from assms(2) have "l \<in> set ls" "\<not> is_wage l"
    by (auto simp: fund_lines_def dest: filter_eq_ConsD)
  from assms(1) obtain st where st: "scan_lines cap ls start_scan = Inr st"
      "sc_reimbursement st \<le> cap_reimbursementOutstanding cap" "reimbursed = sc_reimbursement st"
    by (auto simp: evaluateCashout_def split: if_splits sum.splits prod.splits)
  from st(1) have ok: "\<forall>k \<in> set ls. line_ok cap k"
    and sum_is: "sc_reimbursement st = fold (\<lambda>x acc. js_add acc x) [line_amount l] 0"
    by (auto simp: scan_lines_Inr start_scan_def assms(2))
  from ok \<open>l \<in> set ls\<close> have l: "0 < line_amount l" "js_integer (cl_amount l) \<noteq> None"
    by (auto simp: line_ok_def)
  then have a: "cl_amount l = num_of_int (line_amount l)"
    by (auto simp: line_amount_def js_integer_Some [symmetric])
  from l(1) have pos: "\<forall>x \<in> set [line_amount l]. 0 \<le> x" by simp
  from fold_js_add_le_iff [OF order_refl pos assms(3)] sum_is st(2,3) l a show ?thesis by simp
qed

lemma pay_lines_no_fund:
  "fund_lines ls = [] \<Longrightarrow> pay_lines env driver d key actor ls w = (Inr (map wage_write ls), w)"
  by (rule pay_lines_wage_only) (auto simp: fund_lines_def filter_empty_conv list_all_iff)

lemma pay_lines_single_fund:
  assumes "pay_lines env driver d key actor ls w = (Inr as, w')" "fund_lines ls = [l]" "se_fund env = Some P"
  shows "\<exists>e b. port_postReimbursement P (reimbursement_input driver l d key) actor (sw_fund w) =
      (Inr (e, b), sw_fund w') \<and> fund_write l (re_id e) \<in> set as"
  using assms
proof (induction ls arbitrary: w as)
  case (Cons k ls)
  show ?case
  proof (cases "is_wage k")
    case True
    with Cons.prems(1) obtain rest where "pay_lines env driver d key actor ls w = (Inr rest, w')"
        "as = wage_write k # rest"
      by (auto simp: is_wage_def bnd_Inr_iff ret_Inr_iff)
    with Cons.IH [of w rest] Cons.prems(2,3) True show ?thesis
      by (auto simp: fund_lines_def)
  next
    case False
    with Cons.prems(2) have k: "k = l" "fund_lines ls = []" by (auto simp: fund_lines_def)
    with Cons.prems(1,3) False show ?thesis
      by (auto simp: is_wage_def requireFund_def bnd_Inr_iff lift_Inr_iff ret_Inr_iff on_fund_def
          pay_lines_no_fund [OF k(2)] split: prod.splits)
  qed
qed (simp add: fund_lines_def)

locale driver_settlement = cashout_store S cashouts_of cinv + reimbursement_fund P finv bal known entry_of
  for S :: "'c settlement_repository" and cashouts_of and cinv and P :: "'f fund_port" and finv and bal and known
    and entry_of

context driver_settlement
begin

lemma snapshot_fund:
  assumes "cinv (sw_cashouts w)" "finv (sw_fund w)" "known driver" "se_fund env = Some P"
    and "snapshotOf S env driver w = (Inr snap, v)"
  shows "v = w \<and> cap_reimbursementOutstanding (snap_capacity snap) = max 0 (- bal (sw_fund w) driver)"
proof -
  have f: "on_fund (balanceOf P driver) w = (Inr (bal (sw_fund w) driver), w)"
    using assms by (simp add: on_fund_def balance)
  from assms show ?thesis
    by (auto simp: snapshotOf_def Let_def bnd_Inr_iff lift_Inr_iff ret_Inr_iff f settlement_capacity_def
        settlement_balance_def)
qed

text \<open>A payment that is new, run alone, with one line on the fund.\<close>

lemma pay_driver_fund:
  assumes inv: "cinv (sw_cashouts w)" "finv (sw_fund w)" "known driver" "se_fund env = Some P"
    and owed: "- bal (sw_fund w) driver \<le> max_safe_integer"
    and line: "fund_lines (rcc_lines command) = [l]"
    and run: "pay_driver S env id command driver d m key actor w = (Inr det, w')"
  shows "cl_amount l = num_of_int (line_amount l) \<and> 0 < line_amount l \<and>
    line_amount l \<le> - bal (sw_fund w) driver \<and>
    (\<exists>e b. port_postReimbursement P (reimbursement_input driver l d key) actor (sw_fund w) = (Inr (e, b), sw_fund w'))"
proof -
  from run obtain snap v where snap: "snapshotOf S env driver w = (Inr snap, v)"
    by (auto simp: pay_driver_def bnd_Inr_iff)
  note s = snapshot_fund [OF inv snap]
  let ?cap = "snap_capacity snap"
  from run snap s obtain wage reimbursed paid as w1 where
      ev: "evaluateCashout (rcc_lines command) ?cap (cap_currencyCode ?cap) = CashoutAllowed wage reimbursed paid"
    and p: "pay_lines env driver d key actor (rcc_lines command) w = (Inr as, w1)"
    and wr: "write_cashout S (cashout_input command driver d (cap_currencyCode ?cap) m key actor (se_clock env) as)
        command d m w1 = (Inr det, w')"
    by (auto simp: pay_driver_def bnd_Inr_iff throw_eq split: CashoutDecision.splits if_splits)
  from pay_lines_effect [OF p] inv(1) have "cinv (sw_cashouts w1)" by simp
  from write_cashout_effect [OF this _ wr] have "sw_fund w' = sw_fund w1" by (simp add: cashout_input_def)
  moreover from pay_lines_single_fund [OF p line inv(4)] obtain e b where
      "port_postReimbursement P (reimbursement_input driver l d key) actor (sw_fund w) = (Inr (e, b), sw_fund w1)" by blast
  moreover have "cap_reimbursementOutstanding ?cap \<le> max_safe_integer"
    using s owed by (simp add: max_safe_integer_def)
  from single_fund_total [OF ev line this] s have "cl_amount l = num_of_int (line_amount l)" "0 < line_amount l"
      "line_amount l \<le> - bal (sw_fund w) driver" by auto
  ultimately show ?thesis by auto
qed

lemma payment_pays_debt:
  assumes inv: "cinv (sw_cashouts w)" "finv (sw_fund w)" "known (rcc_driverId command)" "se_fund env = Some P"
    and drv: "\<And>d driver. settlement_findDriver (se_core env) d = Some driver \<Longrightarrow> sd_id driver = d"
    and key: "rcc_correlationKey command = Some k" "List.find (\<lambda>d. cashout_corr d = k) (rows w) = None"
    and owed: "- bal (sw_fund w) (rcc_driverId command) \<le> max_safe_integer"
    and line: "fund_lines (rcc_lines command) = [l]"
    and run: "recordCashout S env id command actor w = (Inr det, w')"
  obtains d e b where "settlement_businessDate env (rcc_businessDate command) = Inr d"
    "cl_amount l = num_of_int (line_amount l)" "0 < line_amount l"
    "line_amount l \<le> - bal (sw_fund w) (rcc_driverId command)"
    "port_postReimbursement P (reimbursement_input (rcc_driverId command) l d k) actor (sw_fund w) = (Inr (e, b), sw_fund w')"
    "bal (sw_fund w') (rcc_driverId command) =
       bal (sw_fund w) (rcc_driverId command) + (if b then 0 else line_amount l)"
proof -
  from run obtain d driver where
      d: "settlement_businessDate env (rcc_businessDate command) = Inr d"
    and m: "js_trim (rcc_method command) \<noteq> []"
    and driver: "settlement_findDriver (se_core env) (rcc_driverId command) = Some driver"
    by (rule recordCashout_Inr)
  from recordCashout_given [OF inv(1) key(1) d m driver, of id actor] run key(2) drv [OF driver]
  have "pay_driver S env id command (rcc_driverId command) d (js_trim (rcc_method command)) k actor w = (Inr det, w')"
    by simp
  from pay_driver_fund [OF inv owed line this] obtain e b where
      a: "cl_amount l = num_of_int (line_amount l)" "0 < line_amount l"
        "line_amount l \<le> - bal (sw_fund w) (rcc_driverId command)"
    and p: "port_postReimbursement P (reimbursement_input (rcc_driverId command) l d k) actor (sw_fund w) =
        (Inr (e, b), sw_fund w')" by blast
  have "bal (sw_fund w') (rcc_driverId command) =
      bal (sw_fund w) (rcc_driverId command) + (if b then 0 else line_amount l)"
  proof (cases b)
    case True
    with post_quiet [OF inv(2) p] show ?thesis by simp
  next
    case False
    with p have p: "port_postReimbursement P (reimbursement_input (rcc_driverId command) l d k) actor (sw_fund w) =
        (Inr (e, False), sw_fund w')" by simp
    note new = post_new [OF inv(2) p]
    from new a have "re_signedAmount e = line_amount l" by (simp add: reimbursement_input_def)
    moreover have "js_add (bal (sw_fund w) (rcc_driverId command)) (line_amount l) =
        bal (sw_fund w) (rcc_driverId command) + line_amount l"
      using a owed by (intro js_add_exact) (simp add: abs_le_iff)
    ultimately show ?thesis using new False by (simp add: reimbursement_input_def)
  qed
  with that [OF d a p] show ?thesis by simp
qed

text \<open>The fund entry is there, the cash-out is not, and the same command comes again.\<close>

lemma interrupted_payment_refused:
  assumes inv: "cinv (sw_cashouts w)" "finv (sw_fund w)" "known (rcc_driverId command)" "se_fund env = Some P"
    and drv: "\<And>d driver. settlement_findDriver (se_core env) d = Some driver \<Longrightarrow> sd_id driver = d"
    and key: "rcc_correlationKey command = Some k" "List.find (\<lambda>d. cashout_corr d = k) (rows w) = None"
    and owed: "- bal (sw_fund w) (rcc_driverId command) \<le> max_safe_integer"
      "- bal (sw_fund w) (rcc_driverId command) < 2 * line_amount l"
      "line_amount l \<le> max_safe_integer" "bal (sw_fund w) (rcc_driverId command) \<le> 0"
    and line: "fund_lines (rcc_lines command) = [l]" "cl_amount l = num_of_int (line_amount l)"
    and posted: "port_postReimbursement P (reimbursement_input (rcc_driverId command) l d k) actor (sw_fund w) = (Inr (e, False), f)"
  shows "recordCashout S env id command actor' (w\<lparr>sw_fund := f\<rparr>) \<noteq> (Inr det, w')"
proof
  assume run: "recordCashout S env id command actor' (w\<lparr>sw_fund := f\<rparr>) = (Inr det, w')"
  let ?b = "bal (sw_fund w) (rcc_driverId command)"
  note new = post_new [OF inv(2) posted]
  from new line(2) have amt: "re_signedAmount e = line_amount l" by (simp add: reimbursement_input_def)
  have "js_add ?b (line_amount l) = ?b + line_amount l"
    using owed by (intro js_add_exact) linarith
  with new amt have b: "bal f (rcc_driverId command) = ?b + line_amount l"
    by (simp add: reimbursement_input_def)
  show False
  proof (rule payment_pays_debt [where w = "w\<lparr>sw_fund := f\<rparr>" and l = l, OF _ _ inv(3,4) drv key(1) _ _ line(1) run],
      goal_cases)
    case (6 d' e' b')
    with b owed show ?case by simp
  qed (use inv new key b owed in auto)
qed

lemma undo_single:
  assumes "se_fund env = Some P"
  shows "undo_lines env why actor [(j, x)] w =
    (case port_reverseReimbursement P j why actor (sw_fund w) of
       (Inl e, f) \<Rightarrow> (Inl e, w\<lparr>sw_fund := f\<rparr>)
     | (Inr e, f) \<Rightarrow> (Inr [fund_undo x (re_id e)], w\<lparr>sw_fund := f\<rparr>))"
  using assms by (auto simp: requireFund_def bnd_def lift_def on_fund_def ret_def split: prod.split sum.split)

text \<open>Reversing a payment takes its fund entry back; a reversal that stopped after that step cannot be finished.\<close>

lemma reversal_returns_debt:
  assumes inv: "cinv (sw_cashouts w)" "finv (sw_fund w)" "se_fund env = Some P"
    and target: "List.find (\<lambda>d. cashout_id d = i) (rows w) = Some target"
      "rp_reimbursement (reversalPlanOf (det_allocations target)) = [(j, x)]"
    and run: "reverseCashout S env i why actor w = (Inr det, w')"
  obtains e d where "port_reverseReimbursement P j (js_trim why) actor (sw_fund w) = (Inr e, sw_fund w')"
    "entry_of (sw_fund w) j = Some (d, - re_signedAmount e)"
    "bal (sw_fund w') = (bal (sw_fund w))(d := js_add (bal (sw_fund w) d) (re_signedAmount e))"
proof -
  from run target(1) inv(1) have "undo_cashout S env target (js_trim why) actor w = (Inr det, w')"
    by (auto simp: reverseCashout_def Let_def bnd_eq throw_eq split: if_splits CashoutReversalDecision.splits)
  then obtain as w1 inp where u: "undo_lines env (js_trim why) actor [(j, x)] w = (Inr as, w1)"
    and wr: "write_reversal S inp w1 = (Inr det, w')" and t: "ri_reversesId inp = Some (dc_id (det_cashout target))"
    by (auto simp: undo_cashout_def Let_def target(2) bnd_Inr_iff lift_Inr_iff reversal_cashout_def
        split: if_splits)
  from u obtain e where e: "port_reverseReimbursement P j (js_trim why) actor (sw_fund w) = (Inr e, sw_fund w1)"
    by (auto simp: undo_single [OF inv(3)] simp del: undo_lines.simps split: prod.splits sum.splits)
  from undo_lines_effect [OF u] inv(1) have "cinv (sw_cashouts w1)" by simp
  from write_reversal_effect [OF this t wr] have "sw_fund w' = sw_fund w1" by simp
  with e reverse_done [OF inv(2) e] that show ?thesis by metis
qed

lemma interrupted_reversal_refused:
  assumes inv: "cinv (sw_cashouts w)" "finv (sw_fund w)" "se_fund env = Some P"
    and target: "List.find (\<lambda>d. cashout_id d = i) (rows w) = Some target" "is_live target"
      "rp_reimbursement (reversalPlanOf (det_allocations target)) = [(j, x)]"
    and undone: "port_reverseReimbursement P j why0 actor0 (sw_fund w) = (Inr e, f)"
    and why: "js_trim why \<noteq> []"
  shows "reverseCashout S env i why actor (w\<lparr>sw_fund := f\<rparr>) =
    (Inl (conflict ''ENTRY_ALREADY_REVERSED''), w\<lparr>sw_fund := f\<rparr>)"
proof -
  note again = reverse_again [OF inv(2) undone]
  have "undo_lines env (js_trim why) actor [(j, x)] (w\<lparr>sw_fund := f\<rparr>) =
      (Inl (conflict ''ENTRY_ALREADY_REVERSED''), w\<lparr>sw_fund := f\<rparr>)"
    by (simp only: undo_single [OF inv(3)]) (simp add: again)
  moreover have "evaluateCashoutReversal (dc_kind (det_cashout target)) (dc_status (det_cashout target)) = ReversalAllowed"
    using target(2) by (simp add: is_live_def evaluateCashoutReversal_def)
  ultimately show ?thesis
    using inv target why by (simp add: reverseCashout_def Let_def bnd_eq undo_cashout_def)
qed

end

interpretation mem_settlement: driver_settlement InMemoryDriverSettlementRepository mem_view wf_settlement
  "DriverSettlementFundPortAdapter InMemoryCostingRepository env" "\<lambda>w. fund_inv (w_store w)"
  "\<lambda>w. fund_balance (w_store w)" "\<lambda>d. findDriver (core env) d \<noteq> None" "\<lambda>w. fund_entry (w_store w)" for env
  by unfold_locales

end
