(* ===== verification/CostingGuarantees.thy ===== *)
theory CostingGuarantees imports CostingReplay "HOL-Library.Multiset" begin

text \<open>
  The guarantees of the costing component over the in-memory store: each is a consequence of the
  refinement, the invariants and the retry lemmas of the theories before it.
\<close>

section \<open>A small company\<close>

text \<open>One driver, one trip that driver made, one run: the inputs of the examples below.\<close>

definition sample_core :: TransportCoreFacts where
  "sample_core = \<lparr>
     findTrip = (\<lambda>i. if i = ''T1'' then Some \<lparr>tf_id = ''T1'', tf_code = ''TRIP-1'',
       tf_kind = OWN_DIRECT, tf_status = IN_TRANSIT\<rparr> else None),
     findDriver = (\<lambda>i. if i = ''D1'' then Some \<lparr>df_id = ''D1'', df_fullName = ''An''\<rparr> else None),
     findDriverByAuthUserId = (\<lambda>u. None),
     wasDriverEverAssignedToTrip = (\<lambda>t d. t = ''T1'' \<and> d = ''D1'')\<rparr>"

definition sample_env :: costing_env where
  "sample_env = \<lparr>core = sample_core, expenseCategories = [], timeZone = ''Asia/Ho_Chi_Minh'',
     clock = 1000, intl = (\<lambda>_. None)\<rparr>"

definition empty_world :: "costing_state costing_world" where
  "empty_world = \<lparr>w_store = empty_costing, w_audit = [], w_keys = 0\<rparr>"

definition sample_movement :: FundMovement where
  "sample_movement = \<lparr>fm_driverId = ''D1'', fm_businessDate = Some ''2026-03-01'', fm_tripId = None,
     fm_note = None, fm_correlationKey = Some ''K1''\<rparr>"

lemma empty_world_reachable: "costing_reachable empty_world"
  by (rule boot) (simp add: empty_world_def)

lemma empty_world_wf: "wf_store (w_store empty_world)"
  using wf_store_empty by (simp add: empty_world_def)

definition sample_advance :: "(js_error + DriverFundEntry) \<times> costing_state costing_world" where
  "sample_advance = postAdvance InMemoryCostingRepository sample_env sample_movement (num_of_int 500000) ''ops'' empty_world"

definition sample_row :: DriverFundEntry where
  "sample_row = entry_row \<lparr>pe_accountId = uuid 0, pe_kind = ADVANCE, pe_signedAmount = 500000,
     pe_businessDate = ''2026-03-01'', pe_tripId = None, pe_runId = None, pe_legId = None,
     pe_reversalOfId = None, pe_note = None, pe_recordedBy = ''ops''\<rparr> ''K1'' 1000 (uuid 1)"

lemma sample_magnitude: "requireMagnitude ADVANCE (num_of_int 500000) = Inr 500000"
  by (simp add: requireMagnitude_def signedAmountFor_def valid_amount_def max_safe_integer_def
      amount_of_def mapLedgerError_def vnd_def)

lemma sample_checks: "movement_checks sample_env sample_movement = Inr ''2026-03-01''"
  using sample_dates(2)
  by (simp add: movement_checks_def sample_env_def sample_movement_def sample_core_def
      resolve_given requireDriverFacts_def truthy_def)

lemma sample_advance_result:
  "fst sample_advance = Inr sample_row"
  "entries (w_store (snd sample_advance)) = [sample_row]"
  "expenses (w_store (snd sample_advance)) = []"
  "periods (w_store (snd sample_advance)) = []"
proof -
  have "fst sample_advance = Inr sample_row \<and> entries (w_store (snd sample_advance)) = [sample_row] \<and>
      expenses (w_store (snd sample_advance)) = [] \<and> periods (w_store (snd sample_advance)) = []"
    unfolding sample_advance_def postAdvance_def postMovement_def postEntryOnly_def postEntryDetailed_def
    by (simp add: bnd_eq lift_eq sample_magnitude sample_checks)
      (simp add: sample_movement_def sample_env_def empty_world_def empty_costing_def on_store_def
        repo_sel mem_ensureAccount_def commit_movement_def bnd_eq ret_eq mem_findEntryByCorrelation_def query_eq
        postGuarded_def mem_post_def movement_input_def mem_periodsCovering_def audit_append_def lift_eq
        sample_row_def Let_def)
  then show "fst sample_advance = Inr sample_row"
    "entries (w_store (snd sample_advance)) = [sample_row]"
    "expenses (w_store (snd sample_advance)) = []"
    "periods (w_store (snd sample_advance)) = []" by simp_all
qed

lemma sample_posting: "posting_command sample_env empty_world (snd sample_advance)"
  unfolding sample_advance_def by (rule posting_command.intros)

lemma sample_reachable: "costing_reachable (snd sample_advance)"
  using empty_world_reachable sample_posting by (auto intro: step simp: costing_step_def)

section \<open>The ledgers\<close>

text \<open>
  C1. Refinement. Every command that writes the ledgers, whatever its inputs and whether it
  succeeds or is refused, either leaves ledgers, periods and snapshots as they are or performs
  exactly one move of the abstract ledger: one admissible event (a signed fund movement, an expense
  with its fund leg, or the reversal of an unreversed event), appended at the end, under a key no row
  of its ledger has, on a day of its account that no frozen period covers. The store stays
  well-formed.
\<close>

theorem costing_commands_refine_ledger:
  assumes "posting_command env w w'" "wf_store (w_store w)"
  shows "ledger_step (ledger_view (w_store w)) (ledger_view (w_store w')) \<and> wf_store (w_store w')"
  using posting_refines [OF assms] by simp

theorem costing_commands_refine_ledger_witness:
  "ledger_step ([], [], [], []) (ledger_view (w_store (snd sample_advance))) \<and>
   entries (w_store (snd sample_advance)) = [sample_row]"
  using costing_commands_refine_ledger [OF sample_posting empty_world_wf] sample_advance_result(2)
  by (simp add: empty_world_def empty_costing_def ledger_view_def)

text \<open>
  C2. Invariant. In every state the commands can reach from an empty store, correlation keys are
  unique in each ledger, every entry has the sign of its kind and a safe amount, every reversal
  negates one earlier row of the same account, day, trip, run and leg, no row is reversed twice, and
  every fund-paid expense has a fund entry of the opposite amount, the same key, day and trip.
\<close>

theorem reachable_ledgers_consistent:
  assumes "costing_reachable w"
  shows "wf_store (w_store w) \<and> ledger_ok (entries (w_store w)) (expenses (w_store w))"
  using reachable_inv [OF assms] by (simp add: costing_inv_def)

theorem reachable_ledgers_consistent_witness:
  "ledger_ok [sample_row] []"
  using reachable_ledgers_consistent [OF sample_reachable] by (simp add: sample_advance_result)

text \<open>
  The ledgers are append-only: a command of the component, period commands included, keeps every
  row it finds unchanged and in place and adds at most one row to each ledger.
\<close>

theorem ledgers_append_only:
  assumes "costing_reachable w" "costing_step env w w'"
  shows "\<exists>new newx. entries (w_store w') = entries (w_store w) @ new \<and>
    expenses (w_store w') = expenses (w_store w) @ newx \<and> length new \<le> 1 \<and> length newx \<le> 1"
proof -
  from reachable_inv [OF assms(1)] have wf: "wf_store (w_store w)" by (simp add: costing_inv_def)
  from assms(2) show ?thesis
    unfolding costing_step_def
  proof
    assume "posting_command env w w'"
    from posting_refines [OF this wf] show ?thesis
      unfolding ledger_view_def by (blast dest: ledger_step_appends)
  next
    assume "period_command env w w'"
    from period_command_keeps [OF this wf] show ?thesis by (simp add: period_keeps_def)
  qed
qed

theorem ledgers_append_only_witness:
  "\<exists>new. entries (w_store (snd sample_advance)) = entries (w_store empty_world) @ new \<and> length new \<le> 1"
  using ledgers_append_only [OF empty_world_reachable, of sample_env "snd sample_advance"] sample_posting
  by (auto simp: costing_step_def)

text \<open>
  C4. Safety. No command that writes the ledgers adds a fund entry on a day of its account that lies
  in a period which is closing or closed.
\<close>

theorem frozen_period_takes_no_entry:
  assumes "posting_command env w w'" "wf_store (w_store w)"
    and "entries (w_store w') = entries (w_store w) @ new" "e \<in> set new"
    and "period_at (w_store w) i = Some p" "isFrozenFundPeriod (p_status p)"
  shows "\<not> (p_accountId p = e_accountId e \<and> periodCovers (range_of p) (e_businessDate e))"
proof
  assume "p_accountId p = e_accountId e \<and> periodCovers (range_of p) (e_businessDate e)"
  moreover from assms(2,5) have "p \<in> set (map snd (periods (w_store w)))" by (simp add: period_at_iff)
  moreover have "ledger_step (ledger_view (w_store w)) (ledger_view (w_store w'))"
    using posting_refines [OF assms(1,2)] by simp
  ultimately show False
    using ledger_step_frozen assms(3,4,6) unfolding ledger_view_def by metis
qed

text \<open>A store with one account and one period that is closing, on the day before the movement.\<close>

definition frozen_period :: DriverFundPeriod where
  "frozen_period = \<lparr>startDate = ''2026-02-28'', endDate = ''2026-02-28'', p_id = uuid 1, p_accountId = uuid 0,
     p_status = CLOSING, p_closedAt = None, p_closedBy = None, p_reopenedAt = None, p_reopenedBy = None,
     p_reopenReason = None, p_createdAt = 0, p_updatedAt = 0\<rparr>"

definition frozen_world :: "costing_state costing_world" where
  "frozen_world = \<lparr>w_store = \<lparr>accounts = [(uuid 0, \<lparr>acc_id = uuid 0, acc_driverId = ''D1'',
     acc_currencyCode = TRANSPORT_CURRENCY, acc_createdAt = 0, acc_updatedAt = 0\<rparr>)], entries = [], expenses = [],
     periods = [(uuid 1, frozen_period)], snapshots = [], next_uuid = 2\<rparr>, w_audit = [], w_keys = 0\<rparr>"

lemma frozen_world_wf: "wf_store (w_store frozen_world)"
  by (simp add: wf_store_defs frozen_world_def frozen_period_def)

lemma frozen_world_advance:
  "\<exists>e. entries (w_store (snd (postAdvance InMemoryCostingRepository sample_env sample_movement (num_of_int 500000) ''ops'' frozen_world)))
     = entries (w_store frozen_world) @ [e] \<and> e_accountId e = uuid 0 \<and> e_businessDate e = ''2026-03-01''"
proof -
  have "\<not> periodCovers (range_of frozen_period) ''2026-03-01''"
    using sample_dates(4) by (simp add: periodCovers_def frozen_period_def)
  then show ?thesis
    unfolding postAdvance_def postMovement_def postEntryOnly_def postEntryDetailed_def
    by (simp add: bnd_eq lift_eq sample_magnitude sample_checks)
      (simp add: sample_movement_def sample_env_def frozen_world_def on_store_def
        repo_sel mem_ensureAccount_def commit_movement_def bnd_eq ret_eq mem_findEntryByCorrelation_def query_eq
        postGuarded_def mem_post_def movement_input_def mem_periodsCovering_def audit_append_def lift_eq Let_def)
qed

theorem frozen_period_takes_no_entry_witness:
  "\<exists>e. entries (w_store (snd (postAdvance InMemoryCostingRepository sample_env sample_movement (num_of_int 500000) ''ops'' frozen_world)))
     = [e] \<and> \<not> periodCovers (range_of frozen_period) (e_businessDate e)"
proof -
  obtain e where e: "entries (w_store (snd (postAdvance InMemoryCostingRepository sample_env sample_movement
      (num_of_int 500000) ''ops'' frozen_world))) = entries (w_store frozen_world) @ [e]" "e_accountId e = uuid 0"
    using frozen_world_advance by blast
  have p: "period_at (w_store frozen_world) (uuid 1) = Some frozen_period" "isFrozenFundPeriod (p_status frozen_period)"
      "p_accountId frozen_period = uuid 0"
    by (simp_all add: period_at_def frozen_world_def frozen_period_def isFrozenFundPeriod_def)
  from frozen_period_takes_no_entry [OF posting_command.intros(1) frozen_world_wf e(1) _ p(1,2)] e p(3)
  show ?thesis by (auto simp: frozen_world_def)
qed

section \<open>Periods\<close>

text \<open>
  C3. A closed period keeps telling the truth: in every reachable state the last snapshot of a closed
  period has the net amount and the number of the entries its account has within the period now.
\<close>

theorem closed_snapshot_stays_current:
  assumes "costing_reachable w" "period_at (w_store w) i = Some p" "p_status p = CLOSED"
  shows "\<exists>rs r. snapshots_for (w_store w) i = rs @ [r] \<and>
    s_periodNet r = js_sum (map e_signedAmount (matching (w_store w) (p_accountId p) (Some (within_range (range_of p))))) \<and>
    s_entryCount r = length (matching (w_store w) (p_accountId p) (Some (within_range (range_of p))))"
proof -
  from reachable_inv [OF assms(1)] have inv: "wf_store (w_store w)" "periods_ok (w_store w)"
    by (simp_all add: costing_inv_def)
  from wf_period_id [OF inv(1) assms(2)] inv(2) assms(2,3) have "snapshot_current (w_store w) p" "p_id p = i"
    by (auto simp: periods_ok_def)
  then show ?thesis
    by (intro exI [of _ "butlast (snapshots_for (w_store w) i)"] exI [of _ "last (snapshots_for (w_store w) i)"])
      (simp add: snapshot_current_def period_sums_def Let_def)
qed

definition sample_period :: OpenFundPeriodInput where
  "sample_period = \<lparr>op_driverId = ''D1'', op_startDate = ''2026-02-28'', op_endDate = ''2026-02-28''\<rparr>"

definition opened_world :: "costing_state costing_world" where
  "opened_world = snd (openPeriod InMemoryCostingRepository sample_env sample_period ''ops'' empty_world)"

definition closed_world :: "costing_state costing_world" where
  "closed_world = snd (closePeriod InMemoryCostingRepository sample_env id (uuid 1) ''ops'' opened_world)"

lemma opened_world_reachable: "costing_reachable opened_world"
  by (rule step [OF empty_world_reachable, where env = sample_env])
    (simp add: opened_world_def costing_step_def period_command.intros(1))

lemma closed_world_reachable: "costing_reachable closed_world"
  by (rule step [OF opened_world_reachable, where env = sample_env])
    (simp add: closed_world_def costing_step_def period_command.intros(2))

definition first_period :: DriverFundPeriod where
  "first_period = \<lparr>startDate = ''2026-02-28'', endDate = ''2026-02-28'', p_id = uuid 1, p_accountId = uuid 0,
     p_status = OPEN, p_closedAt = None, p_closedBy = None, p_reopenedAt = None, p_reopenedBy = None,
     p_reopenReason = None, p_createdAt = 1000, p_updatedAt = 1000\<rparr>"

lemma opened_store:
  "w_store opened_world = \<lparr>accounts = [(uuid 0, \<lparr>acc_id = uuid 0, acc_driverId = ''D1'',
     acc_currencyCode = TRANSPORT_CURRENCY, acc_createdAt = 1000, acc_updatedAt = 1000\<rparr>)], entries = [],
     expenses = [], periods = [(uuid 1, first_period)], snapshots = [], next_uuid = 2\<rparr>"
  using sample_dates(1)
  by (simp add: opened_world_def openPeriod_def bnd_eq lift_eq ret_eq sample_env_def sample_core_def sample_period_def
      requireDriverFacts_def periodBusinessDate_def resolve_given on_store_def repo_sel empty_world_def
      empty_costing_def mem_ensureAccount_def mem_listPeriods_def query_eq mem_createPeriod_def
      audit_append_def INITIAL_FUND_PERIOD_STATUS_def first_period_def Let_def numeral_2_eq_2)

lemma opened_world_period: "period_at (w_store opened_world) (uuid 1) = Some first_period"
  by (simp add: opened_store period_at_def)

lemma opened_world_wf: "wf_store (w_store opened_world)"
  using reachable_inv [OF opened_world_reachable] by (simp add: costing_inv_def)

theorem closed_snapshot_stays_current_witness:
  "\<exists>p. period_at (w_store closed_world) (uuid 1) = Some p \<and> snapshots_for (w_store closed_world) (uuid 1) \<noteq> []"
proof -
  have "\<exists>q. period_at (w_store closed_world) (uuid 1) = Some q \<and> p_status q = CLOSED"
    unfolding closed_world_def closePeriod_eq [OF opened_world_wf opened_world_period]
    by (simp add: first_period_def Let_def)
  then obtain q where "period_at (w_store closed_world) (uuid 1) = Some q" "p_status q = CLOSED" by blast
  with closed_snapshot_stays_current [OF closed_world_reachable this] show ?thesis by auto
qed

text \<open>
  C15. Closing. A closed period is refused; from every other status the close succeeds (an interrupted
  close is resumed), with a new snapshot numbered after the earlier ones whose closing balance is the
  opening balance plus the net of the period, and the period and its snapshot are stored together.
\<close>

theorem closePeriod_outcome:
  assumes "wf_store (w_store w)" "period_at (w_store w) i = Some p"
  shows "case closePeriod InMemoryCostingRepository env id i actor w of
     (Inl err, w') \<Rightarrow> p_status p = CLOSED \<and> err = denied ''PERIOD_TRANSITION_NOT_PERMITTED'' \<and> w' = w
   | (Inr f, w') \<Rightarrow> p_status p \<noteq> CLOSED \<and> p_status (fc_period f) = CLOSED \<and>
       period_at (w_store w') i = Some (fc_period f) \<and>
       snapshots (w_store w') = snapshots (w_store w) @ [fc_snapshot f] \<and>
       s_sequence (fc_snapshot f) = length (snapshots_for (w_store w) i) + 1 \<and>
       (s_periodNet (fc_snapshot f), s_entryCount (fc_snapshot f)) = period_sums (w_store w) p \<and>
       s_closingBalance (fc_snapshot f) = js_add (s_openingBalance (fc_snapshot f)) (s_periodNet (fc_snapshot f)) \<and>
       entries (w_store w') = entries (w_store w)"
proof -
  have sums_eq: "period_sums s (closing_row p actor tm) = period_sums (w_store w) p" if "entries s = entries (w_store w)" for s tm
    by (rule period_sums_cong) (simp_all add: that)
  from wf_period_id [OF assms] have "p_id p = i" .
  then show ?thesis
    by (auto simp: closePeriod_eq [OF assms] Let_def close_snapshot_def sums_eq)
qed

theorem closePeriod_outcome_witness:
  "\<exists>f. fst (closePeriod InMemoryCostingRepository sample_env id (uuid 1) ''ops'' opened_world) = Inr f \<and>
     s_sequence (fc_snapshot f) = 1"
  using closePeriod_outcome [OF opened_world_wf opened_world_period, of sample_env "''ops''"]
  by (auto simp: first_period_def opened_store snapshots_for_def split: prod.splits sum.splits)

text \<open>C16. In every reachable state a business day of an account lies in at most one of its periods.\<close>

theorem no_day_in_two_periods:
  assumes "costing_reachable w" "period_at (w_store w) i = Some p" "period_at (w_store w) j = Some q"
    and "i \<noteq> j" "p_accountId p = p_accountId q"
  shows "\<not> (periodCovers (range_of p) d \<and> periodCovers (range_of q) d)"
proof -
  from reachable_inv [OF assms(1)] have wf: "wf_store (w_store w)" by (simp add: costing_inv_def)
  from wf_period_id [OF wf assms(2)] wf_period_id [OF wf assms(3)] assms(4) have "p_id p \<noteq> p_id q" by simp
  with wf period_at_mem [OF assms(2)] period_at_mem [OF assms(3)] assms(5)
  have "\<not> periodsOverlap (range_of p) (range_of q)"
    unfolding wf_store_def wf_periods_def by blast
  then show ?thesis by (auto simp: periodsOverlap_def periodCovers_def)
qed

definition second_world :: "costing_state costing_world" where
  "second_world = snd (openPeriod InMemoryCostingRepository sample_env
     \<lparr>op_driverId = ''D1'', op_startDate = ''2026-03-01'', op_endDate = ''2026-03-01''\<rparr> ''ops'' opened_world)"

lemma second_world_reachable: "costing_reachable second_world"
  by (rule step [OF opened_world_reachable, where env = sample_env])
    (simp add: second_world_def costing_step_def period_command.intros(1))

lemma second_world_periods:
  "period_at (w_store second_world) (uuid 1) = Some first_period \<and>
   (\<exists>q. period_at (w_store second_world) (uuid 2) = Some q \<and> p_accountId q = uuid 0)"
  using sample_dates(2,4)
  by (simp add: second_world_def openPeriod_def bnd_eq lift_eq ret_eq sample_env_def sample_core_def
      requireDriverFacts_def periodBusinessDate_def resolve_given on_store_def repo_sel opened_store
      mem_ensureAccount_def mem_listPeriods_def query_eq mem_createPeriod_def periodsOverlap_def
      audit_append_def period_at_def first_period_def INITIAL_FUND_PERIOD_STATUS_def Let_def not_le)

theorem no_day_in_two_periods_witness:
  "\<exists>q. period_at (w_store second_world) (uuid 2) = Some q \<and>
     \<not> (periodCovers (range_of first_period) ''2026-02-28'' \<and> periodCovers (range_of q) ''2026-02-28'')"
proof -
  obtain q where q: "period_at (w_store second_world) (uuid 2) = Some q" "p_accountId q = uuid 0"
    using second_world_periods by blast
  have f: "period_at (w_store second_world) (uuid 1) = Some first_period" "p_accountId first_period = p_accountId q"
    using second_world_periods q(2) by (simp_all add: first_period_def)
  from no_day_in_two_periods [OF second_world_reachable f(1) q(1) _ f(2)] q(1) show ?thesis by simp
qed

section \<open>Retries and reversals\<close>

text \<open>
  C13. Idempotence of fund movements. When a movement sent with a key and a day has returned an entry,
  sending it again, at any later time and by any actor, returns the same entry and changes nothing:
  neither the store nor the audit log.
\<close>

theorem movement_retry_is_idempotent:
  assumes "wf_store (w_store w)"
    and "postMovement InMemoryCostingRepository env kind input x actor w = (Inr e, w')"
    and "fm_correlationKey input = Some k" "fm_businessDate input = Some d"
  shows "postMovement InMemoryCostingRepository (env\<lparr>clock := now\<rparr>) kind input x actor' w' = (Inr e, w')"
proof -
  from assms(2) obtain v b where v: "requireMagnitude kind x = Inr v"
      "postEntryDetailed InMemoryCostingRepository env kind input v actor w = (Inr (e, b), w')"
    by (auto simp: postMovement_def postEntryOnly_def bnd_Inr_iff lift_Inr_iff ret_Inr_iff)
  from mem.movement_replay [OF assms(1) v(2) assms(3,4)] v(1) show ?thesis
    by (simp add: postMovement_def postEntryOnly_def bnd_eq lift_eq ret_eq)
qed

theorem movement_retry_is_idempotent_witness:
  "postMovement InMemoryCostingRepository (sample_env\<lparr>clock := 5000\<rparr>) ADVANCE sample_movement (num_of_int 500000) ''boss''
     (snd sample_advance) = (Inr sample_row, snd sample_advance)"
proof (rule movement_retry_is_idempotent [OF empty_world_wf])
  show "postMovement InMemoryCostingRepository sample_env ADVANCE sample_movement (num_of_int 500000) ''ops'' empty_world
      = (Inr sample_row, snd sample_advance)"
    using sample_advance_result(1) by (cases sample_advance) (simp add: sample_advance_def postAdvance_def)
qed (simp_all add: sample_movement_def)

text \<open>
  C12. Retrying a recorded trip expense. With its key and day given, a second run returns the rows of
  the first and changes nothing, with one exception the code has: an expense the company paid
  directly whose key some fund entry also bears is accepted the first time and refused as a reuse of
  the key when it is retried.
\<close>

theorem expense_retry:
  assumes "wf_store (w_store w)"
    and "recordTripExpense InMemoryCostingRepository env command actor w = (Inr posted, w')"
    and "c_correlationKey command = Some k" "c_businessDate command = Some d"
  shows "recordTripExpense InMemoryCostingRepository (env\<lparr>clock := now\<rparr>) command actor' w' =
    (if c_fundedBy command = COMPANY_DIRECT \<and> (\<exists>e \<in> set (entries (w_store w')). e_correlationKey e = k)
     then (Inl (conflict ''CORRELATION_KEY_REUSED''), w') else (Inr posted, w'))"
proof -
  have "List.find (\<lambda>e. e_correlationKey e = k) (entries (w_store w')) \<noteq> None \<longleftrightarrow>
      (\<exists>e \<in> set (entries (w_store w')). e_correlationKey e = k)"
    unfolding find_None_iff_ball by blast
  with mem.expense_replay [OF assms] show ?thesis
    by (simp add: denyCorrelationReuse_def)
qed

definition sample_expense :: RecordTripExpenseCommand where
  "sample_expense = \<lparr>c_tripId = ''T1'', c_categoryCode = ''TOLL'', c_amount = num_of_int 35000,
     c_fundedBy = COMPANY_DIRECT, c_driverId = None, c_businessDate = Some ''2026-03-01'',
     c_evidenceLocator = None, c_note = None, c_correlationKey = Some ''K1''\<rparr>"

lemma sample_amount:
  "requireNonNegativeAmount (num_of_int 35000) = Inr 35000"
  "amount_of (assertExpenseSign EXPENSE (num_of_int 35000)) = Inr 35000"
  by (simp_all add: requireNonNegativeAmount_def nonNegativeMoney_def amount_of_def assertExpenseSign_def
      valid_amount_def max_safe_integer_def vnd_def)

lemma sample_expense_recorded:
  "\<exists>posted w'. recordTripExpense InMemoryCostingRepository sample_env sample_expense ''ops'' (snd sample_advance) = (Inr posted, w')
     \<and> entries (w_store w') = [sample_row]"
proof -
  obtain st au ks where w: "snd sample_advance = \<lparr>w_store = st, w_audit = au, w_keys = ks\<rparr>"
    by (cases "snd sample_advance") simp
  with sample_advance_result have st: "entries st = [sample_row]" "expenses st = []" by simp_all
  show ?thesis
    using sample_dates(2) st
    by (simp add: w recordTripExpense_def sample_expense_def sample_env_def bnd_eq lift_eq resolve_given requireTripFacts_def
        sample_core_def requireCategory_def sample_amount guardTripAcceptsExpense_def expense_account_def ret_eq
        commit_expense_def on_store_def repo_sel mem_findExpenseByCorrelation_def query_eq postGuarded_def
        trip_expense_input_def mem_post_def audit_append_def Let_def)
qed

theorem expense_retry_witness:
  "\<exists>w'. fst (recordTripExpense InMemoryCostingRepository sample_env sample_expense ''ops'' (snd sample_advance)) \<noteq>
       Inl (conflict ''CORRELATION_KEY_REUSED'') \<and>
     recordTripExpense InMemoryCostingRepository (sample_env\<lparr>clock := 5000\<rparr>) sample_expense ''ops'' w' =
       (Inl (conflict ''CORRELATION_KEY_REUSED''), w')"
proof -
  have wf: "wf_store (w_store (snd sample_advance))"
    using reachable_inv [OF sample_reachable] by (simp add: costing_inv_def)
  obtain posted w' where r: "recordTripExpense InMemoryCostingRepository sample_env sample_expense ''ops'' (snd sample_advance)
      = (Inr posted, w')" "entries (w_store w') = [sample_row]"
    using sample_expense_recorded by blast
  have "recordTripExpense InMemoryCostingRepository (sample_env\<lparr>clock := 5000\<rparr>) sample_expense ''ops'' w' =
      (Inl (conflict ''CORRELATION_KEY_REUSED''), w')"
    using expense_retry [OF wf r(1), of "''K1''" "''2026-03-01''" 5000 "''ops''"] r(2)
    by (simp add: sample_expense_def sample_row_def)
  with r(1) show ?thesis by auto
qed

text \<open>
  C11. Reversal. Reversing a fund entry of a consistent ledger appends one entry with the opposite
  amount on the same account and day that points to it, reverses every expense of the same key with
  it, and leaves all earlier rows; a second reversal of the entry is refused and changes nothing.
\<close>

theorem reversal_cancels_once:
  assumes "costing_reachable w" "List.find (\<lambda>e. e_id e = i) (entries (w_store w)) = Some e"
    and "reverseFundEntry InMemoryCostingRepository env i why actor w = (Inr posted, w')"
  shows "\<exists>r. cp_entry posted = Some r \<and> e_signedAmount r + e_signedAmount e = 0 \<and>
      e_accountId r = e_accountId e \<and> e_businessDate r = e_businessDate e \<and> e_reversalOfId r = Some i \<and>
      entries (w_store w') = entries (w_store w) @ [r] \<and>
      (\<forall>x \<in> set (expenses (w_store w)). x_correlationKey x = e_correlationKey e \<longrightarrow>
        (\<exists>rx. cp_expense posted = Some rx \<and> x_signedAmount rx + x_signedAmount x = 0 \<and> x_reversalOfId rx = Some (x_id x))) \<and>
      reverseFundEntry InMemoryCostingRepository env' i why' actor' w' = (Inl (conflict ''ENTRY_ALREADY_REVERSED''), w')"
proof -
  from reachable_inv [OF assms(1)] have inv: "wf_store (w_store w)" "ledger_ok (entries (w_store w)) (expenses (w_store w))"
    by (simp_all add: costing_inv_def)
  from find_SomeD [OF assms(2)] have id: "e_id e = i" by simp
  show ?thesis
  proof (rule mem.reversal_cancels [OF inv assms(2,3)])
    fix r
    assume "cp_entry posted = Some r" "reverses_entry r e" "entries (w_store w') = entries (w_store w) @ [r]"
      and "\<And>x. x \<in> set (expenses (w_store w)) \<Longrightarrow> x_correlationKey x = e_correlationKey e \<Longrightarrow>
        \<exists>rx. cp_expense posted = Some rx \<and> reverses_expense rx x"
      and "\<And>env' why' actor'. reverseFundEntry InMemoryCostingRepository env' i why' actor' w' =
        (Inl (conflict ''ENTRY_ALREADY_REVERSED''), w')"
    then show ?thesis
      using id by (fastforce simp: reverses_entry_def reverses_expense_def)
  qed
qed

lemma sample_reversal:
  "\<exists>posted w'. reverseFundEntry InMemoryCostingRepository sample_env (uuid 1) ''typo'' ''ops'' (snd sample_advance) = (Inr posted, w')"
proof -
  obtain st au ks where w: "snd sample_advance = \<lparr>w_store = st, w_audit = au, w_keys = ks\<rparr>"
    by (cases "snd sample_advance") simp
  with sample_advance_result have st: "entries st = [sample_row]" "expenses st = []" "periods st = []" by simp_all
  have "amount_of (assertLedgerSign REVERSAL (num_of_int (- 500000))) = Inr (- 500000)"
    by (simp add: amount_of_def assertLedgerSign_def valid_amount_def max_safe_integer_def vnd_def)
  then show ?thesis
    using st
    by (simp add: w reverseFundEntry_def bnd_eq on_store_def repo_sel mem_findEntry_def query_eq sample_row_def
        reverseCorrelation_def mem_findEntryByCorrelation_def mem_findExpenseByCorrelation_def find_reversal_def
        mem_findReversalOfEntry_def ret_eq commit_reversal_def lift_eq postGuarded_def mem_post_def
        mem_periodsCovering_def audit_append_def Let_def)
qed

theorem reversal_cancels_once_witness:
  "\<exists>w' r. reverseFundEntry InMemoryCostingRepository sample_env (uuid 1) ''again'' ''ops'' w' =
     (Inl (conflict ''ENTRY_ALREADY_REVERSED''), w') \<and> entries (w_store w') = [sample_row, r] \<and> e_signedAmount r = - 500000"
proof -
  obtain posted w' where r: "reverseFundEntry InMemoryCostingRepository sample_env (uuid 1) ''typo'' ''ops'' (snd sample_advance) = (Inr posted, w')"
    using sample_reversal by blast
  have f: "List.find (\<lambda>e. e_id e = uuid 1) (entries (w_store (snd sample_advance))) = Some sample_row"
    by (simp add: sample_advance_result sample_row_def)
  from reversal_cancels_once [OF sample_reachable f r, of sample_env "''again''" "''ops''"]
  show ?thesis by (auto simp: sample_advance_result sample_row_def)
qed


definition sample_movements :: movement_store where
  "sample_movements = \<lparr>
     mv_findRun = (\<lambda>i. if i = ''R1'' then Some \<lparr>rf_id = ''R1'', rf_code = ''RUN-1'', rf_vehicleId = ''V1''\<rparr> else None),
     mv_findLeg = (\<lambda>_. None), mv_listRunAssignments = (\<lambda>_. [\<lparr>ra_driverId = ''D1''\<rparr>])\<rparr>"

definition sample_run_expense :: RecordRunExpenseCommand where
  "sample_run_expense = \<lparr>rc_driverId = ''D1'', rc_runId = ''R1'', rc_legId = None, rc_amount = num_of_int 35000,
     rc_businessDate = Some ''2026-03-01'', rc_note = None, rc_correlationKey = ''K9''\<rparr>"

lemma sample_run_checks:
  "run_checks sample_env sample_movements sample_run_expense =
     Inr (''2026-03-01'', - 35000, \<lparr>rf_id = ''R1'', rf_code = ''RUN-1'', rf_vehicleId = ''V1''\<rparr>)"
proof -
  have "mapLedgerError (amount_of (rbind (signedAmountFor RUN_EXPENSE (num_of_int 35000))
      (\<lambda>v. assertLedgerSign RUN_EXPENSE (num_of_int (amount v))))) = Inr (- 35000)"
    by (simp add: amount_of_def assertLedgerSign_def signedAmountFor_def valid_amount_def max_safe_integer_def
        vnd_def mapLedgerError_def)
  then show ?thesis
    using sample_dates(2)
    by (simp add: run_checks_def sample_run_expense_def resolve_given sample_amount requireDriverFacts_def sample_env_def
        sample_core_def requireRunContext_def findRun_def sample_movements_def wasDriverEverAssignedToRun_def)
qed

lemma sample_run_recorded:
  "\<exists>e w2. recordRunExpense InMemoryCostingRepository sample_env sample_movements id sample_run_expense ''ops'' empty_world
     = (Inr (e, False), w2)"
  by (simp add: mem.recordRunExpense_eq sample_run_checks)
    (simp add: sample_run_expense_def sample_env_def empty_world_def empty_costing_def replayOf_def bnd_eq on_store_def
      repo_sel mem_findEntryByCorrelation_def mem_findExpenseByCorrelation_def query_eq ret_eq mem_ensureAccount_def
      postRunExpense_def run_expense_input_def mem_post_def mem_periodsCovering_def audit_append_def Let_def)


section \<open>Reading and recording\<close>

text \<open>
  C17. The fund statement of a driver shows all entries of the driver's account and no others, ordered
  by day, then creation time, then id; its balance is their exact sum whenever the sum of the
  magnitudes is a safe integer; and reading changes nothing.
\<close>

theorem fund_statement_adds_up:
  assumes "driverFundStatement InMemoryCostingRepository env driver w = (Inr st, w')"
    and "st_account st = Some a"
    and "sum_list (map (\<lambda>e. \<bar>e_signedAmount e\<bar>) (st_entries st)) \<le> max_safe_integer"
  shows "w' = w \<and> acc_driverId a = driver \<and>
    mset (st_entries st) = mset (filter (\<lambda>e. e_accountId e = acc_id a) (entries (w_store w))) \<and>
    sorted (map entry_order (st_entries st)) \<and>
    st_balance st = sum_list (map e_signedAmount (st_entries st)) \<and>
    st_balanceStance st = describeFundBalance (st_balance st)"
proof -
  let ?es = "filter (\<lambda>e. e_accountId e = acc_id a) (entries (w_store w))"
  from assms(1,2) have f: "List.find (\<lambda>a. acc_driverId a = driver) (map snd (accounts (w_store w))) = Some a" "w' = w"
    and st: "st_entries st = sort_key entry_order ?es" "st_balance st = js_sum (map e_signedAmount ?es)"
      "st_balanceStance st = describeFundBalance (st_balance st)"
    by (auto simp: driverFundStatement_def bnd_Inr_iff lift_Inr_iff ret_Inr_iff on_store_def repo_sel
        mem_findAccountByDriver_def mem_listEntries_def mem_sumSignedAmounts_def query_def matching_def inRange_def
        split: option.splits)
  have m: "mset (st_entries st) = mset ?es" by (simp add: st(1))
  have total: "sum_list (map f (st_entries st)) = sum_list (map f ?es)" for f :: "DriverFundEntry \<Rightarrow> int"
  proof -
    have "mset (map f (st_entries st)) = mset (map f ?es)" using m by simp
    then show ?thesis by (metis sum_mset_sum_list)
  qed
  have "prefix_sums_safe 0 (map e_signedAmount ?es)"
    using assms(3) by (intro prefix_sums_safe_abs) (simp add: total comp_def)
  then have "st_balance st = sum_list (map e_signedAmount (st_entries st))"
    by (simp add: st(2) total js_sum_exact)
  moreover have "sorted (map entry_order (st_entries st))" by (simp add: st(1) sorted_sort_key)
  moreover have "acc_driverId a = driver" using find_SomeD [OF f(1)] by simp
  ultimately show ?thesis using f(2) m st(3) by blast
qed

lemma sample_statement:
  "\<exists>st a. driverFundStatement InMemoryCostingRepository sample_env ''D1'' opened_world = (Inr st, opened_world) \<and>
     st_account st = Some a \<and> st_entries st = []"
  by (simp add: driverFundStatement_def bnd_eq lift_eq sample_env_def sample_core_def requireDriverFacts_def
      on_store_def repo_sel mem_findAccountByDriver_def query_eq opened_store mem_listEntries_def
      mem_sumSignedAmounts_def ret_eq matching_def)

theorem fund_statement_adds_up_witness:
  "\<exists>st. driverFundStatement InMemoryCostingRepository sample_env ''D1'' opened_world = (Inr st, opened_world) \<and> st_balance st = 0"
proof -
  obtain st a where s: "driverFundStatement InMemoryCostingRepository sample_env ''D1'' opened_world = (Inr st, opened_world)"
      "st_account st = Some a" "st_entries st = []"
    using sample_statement by blast
  have "sum_list (map (\<lambda>e. \<bar>e_signedAmount e\<bar>) (st_entries st)) \<le> max_safe_integer"
    by (simp add: s(3) max_safe_integer_def)
  from fund_statement_adds_up [OF s(1,2) this] s show ?thesis by simp
qed

text \<open>
  C14. What recording a trip expense requires and writes. When it succeeds and the key was new, the
  amount was a positive integer, the trip exists, is neither reconciled nor cancelled, and the cost
  row carries that amount; paid from the driver's fund, the trip is not run by an outside carrier,
  the driver was at some time assigned to it, and the fund entry takes the amount off that driver's
  account; paid by the company, no fund entry is written.
\<close>

theorem recorded_expense_rows:
  assumes "wf_store (w_store w)"
    and "recordTripExpense InMemoryCostingRepository env command actor w = (Inr posted, w')"
    and "c_correlationKey command = Some k"
    and "k \<notin> x_correlationKey ` set (expenses (w_store w))"
  shows "\<exists>m t x. c_amount command = num_of_int m \<and> 0 < m \<and> m \<le> max_safe_integer \<and>
    findTrip (core env) (c_tripId command) = Some t \<and> tf_status t \<notin> {RECONCILED, CANCELLED} \<and>
    cp_expense posted = Some x \<and> x_signedAmount x = m \<and> x_tripId x = c_tripId command \<and>
    expenses (w_store w') = expenses (w_store w) @ [x] \<and>
    (case c_fundedBy command of
       COMPANY_DIRECT \<Rightarrow> cp_entry posted = None \<and> entries (w_store w') = entries (w_store w)
     | DRIVER_FUND \<Rightarrow> \<exists>d e a. c_driverId command = Some d \<and> tf_kind t \<noteq> EXTERNAL_CARRIER \<and>
         wasDriverEverAssignedToTrip (core env) (tf_id t) d \<and> a \<in> snd ` set (accounts (w_store w')) \<and>
         acc_driverId a = d \<and> cp_entry posted = Some e \<and> e_accountId e = acc_id a \<and> e_signedAmount e = - m \<and>
         x_driverFundEntryId x = Some (e_id e) \<and> entries (w_store w') = entries (w_store w) @ [e])"
proof -
  from assms(2) obtain d t m driver account w1 where
      trip: "requireTripFacts (core env) (c_tripId command) = Inr t"
    and m: "requireNonNegativeAmount (c_amount command) = Inr m"
    and g: "guardTripAcceptsExpense t (c_fundedBy command) = Inr ()"
    and acc: "expense_account InMemoryCostingRepository env command t w = (Inr (driver, account), w1)"
    and run: "commit_expense InMemoryCostingRepository env command d m driver account actor w1 = (Inr posted, w')"
    by (auto simp: recordTripExpense_def bnd_Inr_iff lift_Inr_iff)
  have t: "findTrip (core env) (c_tripId command) = Some t" "tf_status t \<notin> {RECONCILED, CANCELLED}"
    and outside: "c_fundedBy command = DRIVER_FUND \<Longrightarrow> tf_kind t \<noteq> EXTERNAL_CARRIER"
    using trip g by (auto simp: requireTripFacts_def guardTripAcceptsExpense_def split: option.splits if_splits)
  have num: "c_amount command = num_of_int m"
    using m by (auto simp: requireNonNegativeAmount_def nonNegativeMoney_def rbind_Inr_iff money_Inr_iff vnd_def
        split: sum.splits js_error.splits if_splits)
  have w1: "wf_store (w_store w1) \<and> entries (w_store w1) = entries (w_store w) \<and> expenses (w_store w1) = expenses (w_store w)"
    using mem.calm_expense_account [of env command t w] acc assms(1) by (simp add: calm_at_def)
  have "List.find (\<lambda>x. x_correlationKey x = k) (expenses (w_store w)) = None"
    using assms(4) by (auto simp: find_None_iff_ball)
  with run w1 obtain cost fund w2 where
      cost: "amount_of (assertExpenseSign EXPENSE (num_of_int m)) = Inr cost"
    and fund: "account \<noteq> None \<Longrightarrow> amount_of (signedAmountFor TRIP_EXPENSE (num_of_int m)) = Inr fund"
    and p: "on_store (post InMemoryCostingRepository (trip_expense_input command account driver d k fund cost (clock env) actor)) w1 = (Inr posted, w2)"
      "w_store w' = w_store w2"
    by (auto simp: commit_expense_def bnd_Inr_iff lift_Inr_iff ret_Inr_iff assms(3) postGuarded_Inr
        audit_append_def split: if_splits)
  from cost have c: "cost = m" "0 < m" "m \<le> max_safe_integer"
    by (auto simp: amount_of_Inr assertExpenseSign_Inr valid_amount_def)
  have f: "fund = - m" if "account \<noteq> None"
    using fund [OF that] by (auto simp: amount_of_Inr signedAmountFor_Inr)
  show ?thesis
  proof (rule mem.post_Inr [OF conjunct1 [OF w1] p(1)], goal_cases)
    case (1 ei xi)
    show ?case
    proof (cases rule: mem.expense_account_Inr [OF assms(1) acc])
      case 1
      note company = 1
      with \<open>posted = _\<close> \<open>expenses _ = _\<close> \<open>entries _ = _\<close> w1 c num t show ?thesis
        by (simp add: trip_expense_input_def p(2))
    next
      case (2 dr a)
      from acc 2(1,2) have dr: "c_driverId command = Some dr" "wasDriverEverAssignedToTrip (core env) (tf_id t) dr"
        by (auto simp: expense_account_def bnd_Inr_iff lift_Inr_iff ret_Inr_iff requireDriverIdForFund_def
            requireDriverAssignedToTrip_def split: option.splits if_splits)
      from 2(4) \<open>map snd (accounts (w_store w2)) = _\<close> have a: "a \<in> snd ` set (accounts (w_store w'))" "acc_driverId a = dr"
        by (auto simp: mem.account_for_def p(2) dest!: find_SomeD simp flip: set_map)
      from \<open>posted = _\<close> \<open>expenses _ = _\<close> \<open>entries _ = _\<close> w1 c f 2(1-3) obtain e x where
          rows: "cp_entry posted = Some e" "cp_expense posted = Some x" "e_accountId e = acc_id a" "e_signedAmount e = - m"
            "x_signedAmount x = m" "x_tripId x = c_tripId command" "x_driverFundEntryId x = Some (e_id e)"
            "expenses (w_store w') = expenses (w_store w) @ [x]" "entries (w_store w') = entries (w_store w) @ [e]"
        by (simp add: trip_expense_input_def p(2))
      show ?thesis
        unfolding 2(1) expense_funding_source.case
        by (intro exI conjI) (fact num c t rows dr a outside [OF 2(1)])+
    qed
  qed
qed

text \<open>A recorded expense exists: the one the retry example uses.\<close>

theorem recorded_expense_rows_witness:
  "\<exists>posted w' x. recordTripExpense InMemoryCostingRepository sample_env sample_expense ''ops'' (snd sample_advance) = (Inr posted, w') \<and>
     cp_entry posted = None \<and> cp_expense posted = Some x \<and> x_signedAmount x = 35000"
proof -
  have wf: "wf_store (w_store (snd sample_advance))"
    using reachable_inv [OF sample_reachable] by (simp add: costing_inv_def)
  obtain posted w' where r: "recordTripExpense InMemoryCostingRepository sample_env sample_expense ''ops'' (snd sample_advance)
      = (Inr posted, w')"
    using sample_expense_recorded by blast
  from recorded_expense_rows [OF wf r, of "''K1''"] r show ?thesis
    by (auto simp: sample_expense_def sample_advance_result)
qed

text \<open>The reasons for which an expense is refused before anything is written, in the order they are given.\<close>

definition expense_refusal :: "costing_env \<Rightarrow> RecordTripExpenseCommand \<Rightarrow> js_error option" where
  "expense_refusal env command =
     (case findTrip (core env) (c_tripId command) of
        None \<Rightarrow> Some (notFound ''TRIP_NOT_FOUND'')
      | Some t \<Rightarrow>
          if expenseCategories env \<noteq> [] \<and> c_categoryCode command \<notin> set (expenseCategories env)
            then Some (invalid ''EXPENSE_CATEGORY_UNKNOWN'')
          else if \<not> (\<exists>m. c_amount command = num_of_int m \<and> 0 \<le> m \<and> m \<le> max_safe_integer) then Some (invalid ''MONEY_INVALID'')
          else if tf_status t = RECONCILED then Some (denied ''EXPENSE_TRIP_RECONCILED'')
          else if tf_status t = CANCELLED then Some (denied ''EXPENSE_TRIP_CANCELLED'')
          else if c_fundedBy command = COMPANY_DIRECT then None
          else if tf_kind t = EXTERNAL_CARRIER then Some (denied ''EXPENSE_TRIP_OUTSOURCED'')
          else (case c_driverId command of
                  None \<Rightarrow> Some (invalid ''FUND_ACCOUNT_NOT_FOUND'')
                | Some d \<Rightarrow>
                    if d = [] then Some (invalid ''FUND_ACCOUNT_NOT_FOUND'')
                    else if findDriver (core env) d = None then Some (notFound ''DRIVER_NOT_FOUND'')
                    else if \<not> wasDriverEverAssignedToTrip (core env) (tf_id t) d then Some (denied ''EXPENSE_DRIVER_NOT_ASSIGNED'')
                    else None))"

lemma requireNonNegativeAmount_ok:
  "0 \<le> m \<Longrightarrow> m \<le> max_safe_integer \<Longrightarrow> requireNonNegativeAmount (num_of_int m) = Inr m"
  by (simp add: requireNonNegativeAmount_def nonNegativeMoney_def valid_amount_def)

lemma requireNonNegativeAmount_bad:
  assumes "\<not> (\<exists>m. x = num_of_int m \<and> 0 \<le> m \<and> m \<le> max_safe_integer)"
  shows "requireNonNegativeAmount x = Inl (invalid ''MONEY_INVALID'')"
proof (cases x rule: money_elim)
  case 1
  then show ?thesis by (simp add: requireNonNegativeAmount_def nonNegativeMoney_def)
next
  case (2 i)
  with assms have "i < 0" by (auto simp: valid_amount_def)
  with 2 show ?thesis by (simp add: requireNonNegativeAmount_def nonNegativeMoney_def)
qed

text \<open>
  Refusals. An expense of a valid day that meets one of the listed conditions is refused with the
  reason of the first of them, and the refusal leaves no trace: the store (in particular the fund
  account a driver may not have yet), the audit log and the key supply are as before.
\<close>

theorem expense_refusal_leaves_no_trace:
  assumes "c_businessDate command = Some d" "valid_date d" "expense_refusal env command = Some err"
  shows "recordTripExpense InMemoryCostingRepository env command actor w = (Inl err, w)"
proof (cases "\<exists>m. c_amount command = num_of_int m \<and> 0 \<le> m \<and> m \<le> max_safe_integer")
  case False
  with assms requireNonNegativeAmount_bad [OF False] show ?thesis
    by (auto simp: expense_refusal_def recordTripExpense_def resolve_given bnd_eq lift_eq requireTripFacts_def
        requireCategory_def split: option.splits if_splits)
next
  case True
  then obtain m where "c_amount command = num_of_int m" "0 \<le> m" "m \<le> max_safe_integer" by blast
  then have m: "requireNonNegativeAmount (c_amount command) = Inr m"
    by (simp add: requireNonNegativeAmount_ok)
  show ?thesis
  proof (cases "findTrip (core env) (c_tripId command)")
    case None
    with assms show ?thesis
      by (simp add: expense_refusal_def recordTripExpense_def resolve_given bnd_eq lift_eq requireTripFacts_def)
  next
    case (Some t)
    show ?thesis
    proof (cases "expenseCategories env \<noteq> [] \<and> c_categoryCode command \<notin> set (expenseCategories env)")
      case True
      with assms Some show ?thesis
        by (simp add: expense_refusal_def recordTripExpense_def resolve_given bnd_eq lift_eq requireTripFacts_def
            requireCategory_def)
    next
      case False
      have run: "recordTripExpense InMemoryCostingRepository env command actor w =
          bnd (lift (guardTripAcceptsExpense t (c_fundedBy command))) (\<lambda>_.
          bnd (expense_account InMemoryCostingRepository env command t) (\<lambda>(driverId, account).
            commit_expense InMemoryCostingRepository env command d m driverId account actor)) w"
        using assms(1,2) m Some False
        by (auto simp: recordTripExpense_def resolve_given bnd_eq lift_eq requireTripFacts_def requireCategory_def)
      show ?thesis
        unfolding run guardTripAcceptsExpense_def
        using assms(3) False True Some
        by (cases "c_fundedBy command"; cases "c_driverId command")
          (simp_all add: expense_refusal_def bnd_eq lift_eq expense_account_def requireDriverIdForFund_def
            requireDriverFacts_def requireDriverAssignedToTrip_def split: if_splits option.splits)
    qed
  qed
qed

theorem expense_refusal_leaves_no_trace_witness:
  "recordTripExpense InMemoryCostingRepository sample_env (sample_expense\<lparr>c_tripId := ''T2''\<rparr>) ''ops'' empty_world =
     (Inl (notFound ''TRIP_NOT_FOUND''), empty_world)"
proof (rule expense_refusal_leaves_no_trace)
  show "valid_date ''2026-03-01''" by (rule sample_dates(2))
qed (simp_all add: sample_expense_def expense_refusal_def sample_env_def sample_core_def)

end
