(* ===== verification/SettlementGuarantees.thy ===== *)
theory SettlementGuarantees imports SettlementDebts CostingGuarantees begin

text \<open>
  What payments to drivers guarantee, stated over the in-memory cash-out store and the adapter onto the
  costing services: wages are never overdrawn when commands run one after the other, retries, races,
  reversals and the driver fund.
\<close>

section \<open>Examples\<close>

text \<open>One driver with one payslip of 100, no fund port, and a payment of all of it.\<close>

definition sample_slip :: PostedPayslipFact where
  "sample_slip = \<lparr>pf_payslipId = ''p1'', pf_periodId = ''m1'', pf_periodLabel = ''2026-02'',
     pf_periodStartDate = ''2026-02-01'', pf_periodEndDate = ''2026-02-28'', pf_runId = ''r1'',
     pf_kind = PAYSLIP_ORIGINAL, pf_status = APPROVED, pf_netAmount = 100, pf_currencyCode = TRANSPORT_CURRENCY\<rparr>"

definition payday_core :: DriverSettlementCoreFacts where
  "payday_core = \<lparr>settlement_findDriver = (\<lambda>d. if d = ''D1'' then Some \<lparr>sd_id = ''D1'', sd_fullName = ''An''\<rparr> else None),
     settlement_findDriverByAuthUserId = (\<lambda>u. None), listActiveDriverIds = [''D1'']\<rparr>"

definition payday_env :: "unit settlement_env" where
  "payday_env = \<lparr>se_core = payday_core, se_payroll = (\<lambda>d. if d = ''D1'' then [sample_slip] else []),
     se_timeZone = ''Asia/Ho_Chi_Minh'', se_clock = 0, se_intl = (\<lambda>z. Some (\<lambda>ms. [(''year'', ''2026''), (''month'', ''03''), (''day'', ''01'')])),
     se_fund = None\<rparr>"

definition payday_line :: CashoutLine where
  "payday_line = \<lparr>cl_source = WAGE, cl_amount = num_of_int 100, cl_payslipId = Some ''p1'', cl_note = None\<rparr>"

definition payday_command :: "string \<Rightarrow> RecordCashoutCommand" where
  "payday_command k = \<lparr>rcc_driverId = ''D1'', rcc_businessDate = Some ''2026-03-01'', rcc_method = ''cash'',
     rcc_reference = None, rcc_note = None, rcc_lines = [payday_line], rcc_correlationKey = Some k\<rparr>"

definition payday_start :: "(settlement_state, unit) settlement_world" where
  "payday_start = \<lparr>sw_cashouts = empty_settlement, sw_fund = (), sw_keys = 0\<rparr>"

definition payday_run where
  "payday_run k = recordCashout InMemoryDriverSettlementRepository payday_env id (payday_command k) ''ops'' payday_start"

definition payday_detail :: "string \<Rightarrow> DriverCashoutDetail" where
  "payday_detail k = recorded_detail (cashout_input (payday_command k) ''D1'' ''2026-03-01'' TRANSPORT_CURRENCY ''cash'' k ''ops'' 0
     [wage_write payday_line]) (uuid 0) 1"

lemma cash_trim: "js_trim ''cash'' = ''cash''"
  by code_simp

lemma payday_given:
  "settlement_businessDate payday_env (rcc_businessDate (payday_command k)) = Inr ''2026-03-01''"
  "js_trim (rcc_method (payday_command k)) = ''cash''"
  "settlement_findDriver (se_core payday_env) (rcc_driverId (payday_command k)) = Some \<lparr>sd_id = ''D1'', sd_fullName = ''An''\<rparr>"
  "rcc_correlationKey (payday_command k) = Some k"
  using sample_dates
  by (simp_all add: settlement_businessDate_def payday_command_def payday_env_def payday_core_def cash_trim assertBusinessDate_eq)

definition payday_capacity :: CashoutCapacity where
  "payday_capacity = \<lparr>cap_currencyCode = TRANSPORT_CURRENCY, cap_wageRemainingByPayslip = [(''p1'', 100)],
     cap_wageRemainingTotal = 100, cap_reimbursementOutstanding = 0\<rparr>"

lemma payday_sums:
  "foldAllocations [] = Inr 0" "foldAllocations [100] = Inr 100" "money_add 0 0 = Inr 0" "money_add 0 100 = Inr 100"
  "money_add 100 0 = Inr 100" "js_add 100 0 = 100" "js_add 0 100 = 100"
  by (simp_all add: foldAllocations_def money_add_eq valid_amount_def max_safe_integer_def js_add_exact)

lemma payday_months: "\<exists>m. foldWageMonths [sample_slip] [] = Inr [m] \<and> wm_credited m = 100"
  by (simp add: foldWageMonths_def sample_slip_def bearsWageCredit_def add_payslip_def new_month_def payday_sums
      map_get_def Let_def)

lemma payday_evaluate: "evaluateCashout [payday_line] payday_capacity TRANSPORT_CURRENCY = CashoutAllowed 100 0 100"
  by (simp add: evaluateCashout_def payday_line_def scan_line_def start_scan_def payday_sums payday_capacity_def)

lemma payday_wage: "is_wage payday_line"
  by (simp add: is_wage_def payday_line_def)

lemma payday_world:
  "wf_settlement (sw_cashouts payday_start)" "mem_view (sw_cashouts payday_start) = []"
  by (simp_all add: payday_start_def wf_settlement_empty, simp add: mem_view_def empty_settlement_def)

lemma payday_snapshot:
  "\<exists>snap. snapshotOf InMemoryDriverSettlementRepository payday_env ''D1'' payday_start = (Inr snap, payday_start) \<and>
     snap_capacity snap = payday_capacity"
proof -
  from payday_months obtain m where m: "foldWageMonths [sample_slip] [] = Inr [m]" "wm_credited m = 100" by blast
  show ?thesis
    unfolding snapshotOf_def
    by (simp add: bnd_eq lift_eq ret_eq Let_def mem_cashouts.on_cashouts_query [OF payday_world(1)] payday_world(2)
        listed_def allocations_of_def cashedOutByPayslip_def payday_env_def m payday_sums source_amounts_def
        payslips_currency_def settlement_balance_def settlement_capacity_def payday_capacity_def
        wageRemainingByPayslip_def remaining_step_def map_get_def)
      (simp add: sample_slip_def payday_sums)
qed

lemma payday_result:
  "\<exists>det s. payday_run k = (Inr det, payday_start\<lparr>sw_cashouts := s\<rparr>) \<and> wf_settlement s \<and> mem_view s = [det] \<and>
     slip_sum ''p1'' (det_allocations det) = 100 \<and> cashout_corr det = k \<and> is_live det \<and>
     volume [det] = 100 \<and> rp_reimbursement (reversalPlanOf (det_allocations det)) = []"
proof -
  let ?inp = "cashout_input (payday_command k) ''D1'' ''2026-03-01'' TRANSPORT_CURRENCY ''cash'' k ''ops'' 0 [wage_write payday_line]"
  have key: "ri_correlationKey ?inp = k" "ri_reversesId ?inp = None" by (simp_all add: cashout_input_def)
  from payday_snapshot obtain snap where
    snap: "snapshotOf InMemoryDriverSettlementRepository payday_env ''D1'' payday_start = (Inr snap, payday_start)"
      "snap_capacity snap = payday_capacity" by blast
  from mem_cashouts.record_new [OF payday_world(1), of ?inp] obtain i n s where
    rec: "record_cashout InMemoryDriverSettlementRepository ?inp (sw_cashouts payday_start) = (Inr (RECORDED (recorded_detail ?inp i n)), s)"
      "wf_settlement s" "mem_view s = [recorded_detail ?inp i n]"
    by (auto simp: payday_world key target_refusal_def)
  have m: "js_trim (rcc_method (payday_command k)) \<noteq> []" by (simp add: payday_given)
  have cur: "cap_currencyCode payday_capacity = TRANSPORT_CURRENCY" by (simp add: payday_capacity_def)
  have ls: "rcc_lines (payday_command k) = [payday_line]" by (simp add: payday_command_def)
  have "payday_run k = pay_driver InMemoryDriverSettlementRepository payday_env id (payday_command k) ''D1''
      ''2026-03-01'' ''cash'' k ''ops'' payday_start"
    unfolding payday_run_def mem_cashouts.recordCashout_given [OF payday_world(1) payday_given(4,1) m payday_given(3)]
    by (simp add: payday_world(2) payday_given)
  also have "\<dots> = write_cashout InMemoryDriverSettlementRepository ?inp (payday_command k) ''2026-03-01'' ''cash'' payday_start"
    by (simp add: pay_driver_def bnd_eq snap ls cur payday_evaluate pay_lines_wage_only payday_wage del: pay_lines.simps)
      (simp add: payday_env_def)
  also have "\<dots> = (Inr (recorded_detail ?inp i n), payday_start\<lparr>sw_cashouts := s\<rparr>)"
    by (simp add: write_cashout_def bnd_eq on_cashouts_def rec ret_eq)
  finally show ?thesis
    using rec key(1)
    by (intro exI [of _ "recorded_detail ?inp i n"] exI [of _ s])
      (simp add: cashout_input_def slip_sum_Cons wage_write_def payday_line_def line_amount_def is_live_def
        cashout_corr_def recorded_detail_def cashout_row_def reversalPlanOf_def allocation_rows_def allocation_row_def
        List.map_filter_simps plan_reimbursement_def volume_def allocations_of_def)
qed

section \<open>Wages\<close>

text \<open>One command after the other, and any change of the fund by other services in between.\<close>

inductive settlement_step ::
  "(ident \<Rightarrow> int) \<Rightarrow> (ident \<Rightarrow> ident) \<Rightarrow> (settlement_state, 'f) settlement_world \<Rightarrow>
   (settlement_state, 'f) settlement_world \<Rightarrow> bool" for net owner where
  pay: "payroll_agrees net owner env \<Longrightarrow>
    recordCashout InMemoryDriverSettlementRepository env id command actor w = (r, w') \<Longrightarrow>
    settlement_step net owner w w'"
| undo: "reverseCashout InMemoryDriverSettlementRepository env i why actor w = (r, w') \<Longrightarrow>
    settlement_step net owner w w'"
| fund_moves: "settlement_step net owner w (w\<lparr>sw_fund := f\<rparr>)"

inductive settlement_reachable ::
  "(ident \<Rightarrow> int) \<Rightarrow> (ident \<Rightarrow> ident) \<Rightarrow> (settlement_state, 'f) settlement_world \<Rightarrow> bool" for net owner where
  fresh: "sw_cashouts w = empty_settlement \<Longrightarrow> settlement_reachable net owner w"
| later: "settlement_reachable net owner w \<Longrightarrow> settlement_step net owner w w' \<Longrightarrow> settlement_reachable net owner w'"

abbreviation cashouts_in :: "(settlement_state, 'f) settlement_world \<Rightarrow> DriverCashoutDetail list" where
  "cashouts_in w \<equiv> mem_view (sw_cashouts w)"

lemma settlement_step_keeps:
  assumes "settlement_step net owner w w'" "wf_settlement (sw_cashouts w)"
  shows "wf_settlement (sw_cashouts w') \<and> volume (cashouts_in w) \<le> volume (cashouts_in w') \<and>
    (wages_ok net owner (cashouts_in w) \<longrightarrow> volume (cashouts_in w) \<le> max_safe_integer \<longrightarrow>
      wages_ok net owner (cashouts_in w'))"
  using assms
proof cases
  case (pay env command actor r)
  with mem_cashouts.volume_grows(1) [OF assms(2) pay] mem_cashouts.payment_keeps_wages [OF assms(2) pay(1) _ _ pay(2)]
  show ?thesis by blast
next
  case (undo env i why actor r)
  with mem_cashouts.volume_grows(2) [OF assms(2) undo] mem_cashouts.reversal_keeps_wages [OF assms(2) _ undo]
  show ?thesis by blast
qed (use assms in simp)

lemma settlement_reachable_inv:
  "settlement_reachable net owner w \<Longrightarrow> wf_settlement (sw_cashouts w) \<and>
    (volume (cashouts_in w) \<le> max_safe_integer \<longrightarrow> wages_ok net owner (cashouts_in w))"
proof (induction rule: settlement_reachable.induct)
  case (fresh w)
  then have "cashouts_in w = []" by (simp add: mem_view_def empty_settlement_def)
  with fresh show ?case by (simp add: wf_settlement_empty wages_ok_Nil)
next
  case (later w w')
  with settlement_step_keeps [OF later(2)] show ?case by auto
qed

text \<open>
  C22. Invariant. In every state that payments and reversals reach one after the other, from an empty
  ledger, what has been drawn from a payslip and not given back is never negative and never more than
  the net wage of that payslip. The net wages and owners are those payroll reports throughout, and the
  sums are exact as long as the magnitudes of all allocations together stay within the safe integers.
\<close>

theorem wages_never_overdrawn:
  assumes "settlement_reachable net owner w" "volume (cashouts_in w) \<le> max_safe_integer"
  shows "0 \<le> drawn (cashouts_in w) p \<and> drawn (cashouts_in w) p \<le> max 0 (net p)"
  using settlement_reachable_inv [OF assms(1)] assms(2) by (intro drawn_bounds) blast

lemma payday_agrees: "payroll_agrees (\<lambda>p. 100) (\<lambda>p. ''D1'') payday_env"
  by (auto simp: payroll_agrees_def payday_env_def payday_core_def sample_slip_def valid_amount_def
      max_safe_integer_def split: if_splits)

lemma payday_reachable:
  assumes "payday_run k = (r, w)"
  shows "settlement_reachable (\<lambda>p. 100) (\<lambda>p. ''D1'') w"
proof (rule later [OF fresh])
  show "sw_cashouts payday_start = empty_settlement" by (simp add: payday_start_def)
  show "settlement_step (\<lambda>p. 100) (\<lambda>p. ''D1'') payday_start w"
    by (rule pay [OF payday_agrees assms [unfolded payday_run_def]])
qed

lemma payday_details:
  obtains det s where "payday_run k = (Inr det, payday_start\<lparr>sw_cashouts := s\<rparr>)" "wf_settlement s" "mem_view s = [det]"
    "slip_sum ''p1'' (det_allocations det) = 100" "cashout_corr det = k" "is_live det"
    "volume [det] = 100" "rp_reimbursement (reversalPlanOf (det_allocations det)) = []"
  using payday_result by blast

theorem wages_never_overdrawn_witness:
  "\<exists>w. cashouts_in (snd (payday_run ''k'')) = w \<and> drawn w ''p1'' = 100 \<and> drawn w ''p1'' \<le> max 0 100"
proof (rule payday_details [of "''k''"])
  fix det s
  assume r: "payday_run ''k'' = (Inr det, payday_start\<lparr>sw_cashouts := s\<rparr>)" and v: "mem_view s = [det]"
    and d: "slip_sum ''p1'' (det_allocations det) = 100" "volume [det] = 100"
  from wages_never_overdrawn [OF payday_reachable [OF r], of "''p1''"] show ?thesis
    by (simp add: r v d max_safe_integer_def) (simp add: drawn_def d)
qed

text \<open>
  C23. Retry. A payment with a key of the caller's and a given day, once answered, is answered with the
  same detail and changes nothing when it comes again, whoever sends it and whatever payroll, the fund
  or the clock say by then, also when other requests ran between its check and its write the first time.
\<close>

theorem cashout_retry_is_idempotent:
  assumes "wf_settlement (sw_cashouts w)"
    and "\<And>v. wf_settlement (sw_cashouts v) \<Longrightarrow> wf_settlement (sw_cashouts (others v))"
    and "rcc_correlationKey command = Some k" "rcc_businessDate command = Some d"
    and "\<And>i driver. settlement_findDriver (se_core env) i = Some driver \<Longrightarrow> sd_id driver = i"
    and "recordCashout InMemoryDriverSettlementRepository env others command actor w = (Inr det, w')"
    and "se_core env' = se_core env"
  shows "recordCashout InMemoryDriverSettlementRepository env' others' command actor' w' = (Inr det, w')"
  by (rule mem_cashouts.payment_retry [OF assms])

lemma payday_drivers:
  "settlement_findDriver (se_core payday_env) i = Some driver \<Longrightarrow> sd_id driver = i"
  by (auto simp: payday_env_def payday_core_def split: if_splits)

theorem cashout_retry_is_idempotent_witness:
  "\<exists>det w. payday_run ''k'' = (Inr det, w) \<and>
     recordCashout InMemoryDriverSettlementRepository payday_env id (payday_command ''k'') ''other'' w = (Inr det, w)"
proof (rule payday_details [of "''k''"])
  fix det s
  assume r: "payday_run ''k'' = (Inr det, payday_start\<lparr>sw_cashouts := s\<rparr>)"
  have d: "rcc_businessDate (payday_command ''k'') = Some ''2026-03-01''" by (simp add: payday_command_def)
  from cashout_retry_is_idempotent [OF payday_world(1) _ payday_given(4) d payday_drivers r [unfolded payday_run_def] refl,
      where others' = id and actor' = "''other''"] r
  show ?thesis by simp
qed

text \<open>
  C24. The capacity check and the write are two separate steps. When another payment is written between
  them, the checked payment is written as well with the lines it was checked for, so two payments that
  each fit a payslip can be paid out together although they do not fit together.
\<close>

theorem racing_cashouts_both_paid:
  assumes "wf_settlement (sw_cashouts w)" "rcc_correlationKey c1 = Some k1" "list_all is_wage (rcc_lines c1)"
    and "recordCashout InMemoryDriverSettlementRepository env id c1 actor w = (Inr d1, w1)"
    and "cashouts_in w1 = cashouts_in w @ [d1]"
    and "wf_settlement (sw_cashouts w2)" "cashouts_in w2 = cashouts_in w @ [d2]" "cashout_corr d2 \<noteq> k1"
  shows "\<exists>det w3. recordCashout InMemoryDriverSettlementRepository env (\<lambda>v. w2) c1 actor w = (Inr det, w3) \<and>
    (\<forall>p. drawn (cashouts_in w3) p =
       drawn (cashouts_in w) p + slip_sum p (det_allocations d1) + slip_sum p (det_allocations d2))"
  using mem_cashouts.racing_payments [OF assms] by (fastforce simp: drawn_def)

text \<open>Two clerks pay the same payslip of 100 in full: 200 leave the company.\<close>

theorem racing_cashouts_both_paid_witness:
  "\<exists>det w. recordCashout InMemoryDriverSettlementRepository payday_env (\<lambda>v. snd (payday_run ''l'')) (payday_command ''k'') ''ops''
       payday_start = (Inr det, w) \<and> drawn (cashouts_in w) ''p1'' = 200 \<and> pf_netAmount sample_slip = 100"
proof (rule payday_details [of "''k''"])
  fix d1 s1
  assume r1: "payday_run ''k'' = (Inr d1, payday_start\<lparr>sw_cashouts := s1\<rparr>)" "mem_view s1 = [d1]"
    "slip_sum ''p1'' (det_allocations d1) = 100"
  show ?thesis
  proof (rule payday_details [of "''l''"])
    fix d2 s2
    assume r2: "payday_run ''l'' = (Inr d2, payday_start\<lparr>sw_cashouts := s2\<rparr>)" "wf_settlement s2" "mem_view s2 = [d2]"
      "slip_sum ''p1'' (det_allocations d2) = 100" "cashout_corr d2 = ''l''"
    let ?w2 = "payday_start\<lparr>sw_cashouts := s2\<rparr>"
    have "list_all is_wage (rcc_lines (payday_command ''k''))" by (simp add: payday_command_def payday_wage)
    moreover have "cashouts_in (payday_start\<lparr>sw_cashouts := s1\<rparr>) = cashouts_in payday_start @ [d1]"
      by (simp add: r1 payday_world(2))
    moreover have "cashouts_in ?w2 = cashouts_in payday_start @ [d2]" by (simp add: r2 payday_world(2))
    moreover have "wf_settlement (sw_cashouts ?w2)" "cashout_corr d2 \<noteq> ''k''" using r2 by simp_all
    ultimately have "\<exists>det w3. recordCashout InMemoryDriverSettlementRepository payday_env (\<lambda>v. ?w2) (payday_command ''k'') ''ops''
          payday_start = (Inr det, w3) \<and> (\<forall>p. drawn (cashouts_in w3) p =
          drawn (cashouts_in payday_start) p + slip_sum p (det_allocations d1) + slip_sum p (det_allocations d2))"
      by (intro racing_cashouts_both_paid [OF payday_world(1) payday_given(4) _ r1(1) [unfolded payday_run_def]])
    then show ?thesis
      unfolding r2(1) by (auto simp: payday_world(2) r1 r2 sample_slip_def drawn_def [of "[]"])
  qed
qed

text \<open>
  C25. Reversal. Reversing a posted payment whose reversal key is free gives back exactly what it drew
  from every payslip, marks it reversed, adds one reversal naming it, and a second reversal of it is
  refused.
\<close>

theorem reversal_restores_wages:
  assumes "wf_settlement (sw_cashouts w)"
    and "List.find (\<lambda>d. cashout_id d = i) (cashouts_in w) = Some target"
    and "List.find (\<lambda>d. cashout_corr d = cashout_corr target @ '':reversal'') (cashouts_in w) = None"
    and "reverseCashout InMemoryDriverSettlementRepository env i why actor w = (Inr det, w')"
  shows "(\<forall>p. drawn (cashouts_in w') p = drawn (cashouts_in w) p - slip_sum p (det_allocations target)) \<and>
    List.find (\<lambda>d. cashout_id d = i) (cashouts_in w') =
      Some (target\<lparr>det_cashout := (det_cashout target)\<lparr>dc_status := REVERSED\<rparr>\<rparr>) \<and>
    dc_reversesId (det_cashout det) = Some i \<and> length (cashouts_in w') = Suc (length (cashouts_in w)) \<and>
    (\<forall>env' why' actor'. js_trim why' \<noteq> [] \<longrightarrow>
       reverseCashout InMemoryDriverSettlementRepository env' i why' actor' w' =
         (Inl (conflict ''CASHOUT_ALREADY_REVERSED''), w'))"
proof (cases rule: mem_cashouts.reverseCashout_effect [OF assms(1,4)])
  case 1
  with assms(2,3) show ?thesis by auto
next
  case (2 target' d undone j n)
  let ?inp = "reversal_cashout (det_cashout target') d (js_trim why) actor (se_clock env) (undo_writes (js_trim why) target' undone)"
  from 2(1) assms(2) have t: "target' = target" "cashout_id target = i" by (auto dest: find_SomeD)
  have marked: "List.find (\<lambda>d. cashout_id d = i) (map (settle_mark (Some i)) ds @ es) =
      Some (target\<lparr>det_cashout := (det_cashout target)\<lparr>dc_status := REVERSED\<rparr>\<rparr>)"
    if "List.find (\<lambda>d. cashout_id d = i) ds = Some target" for ds es
    using that by (induction ds) (auto simp: settle_mark_def cashout_id_def split: if_splits)
  have dr: "drawn (map (settle_mark (Some i)) ds) p = drawn ds p" for ds p
  proof -
    have "det_allocations (settle_mark (Some i) y) = det_allocations y" for y by (simp add: settle_mark_def)
    then show ?thesis by (simp add: drawn_def comp_def)
  qed
  have slip: "slip_sum p (ri_allocations ?inp) = - slip_sum p (det_allocations target)" for p
    using slip_sum_undo [OF 2(5)] t by (simp add: reversal_cashout_def)
  have "drawn (cashouts_in w') p = drawn (cashouts_in w) p - slip_sum p (det_allocations target)" for p
    by (simp add: 2(7) dr drawn_def [of "[_]"] slip)
  moreover note found = marked [OF assms(2), of "[recorded_detail ?inp j n]", folded 2(7)]
  moreover have "reverseCashout InMemoryDriverSettlementRepository env' i why' actor' w' =
      (Inl (conflict ''CASHOUT_ALREADY_REVERSED''), w')" if "js_trim why' \<noteq> []" for env' why' actor'
    using that found 2(2) t
    by (simp add: reverseCashout_def Let_def bnd_eq mem_cashouts.on_cashouts_query [OF 2(8)] evaluateCashoutReversal_def throw_eq)
  moreover have "dc_reversesId (det_cashout det) = Some i"
    using 2(6) t by (simp add: recorded_detail_def cashout_row_def reversal_cashout_def cashout_id_def)
  ultimately show ?thesis by (simp add: 2(7))
qed

lemma payday_day: "settlement_businessDate payday_env None = Inr ''2026-03-01''"
  by (simp add: settlement_businessDate_def settlement_today_def toBusinessDate_def payday_env_def Let_def pick_def)
    code_simp

lemma mistake_trim: "js_trim ''mistake'' = ''mistake''"
  by code_simp

lemma payday_reversal:
  assumes "wf_settlement s" "mem_view s = [det]" "is_live det" "rp_reimbursement (reversalPlanOf (det_allocations det)) = []"
  shows "\<exists>undone w. reverseCashout InMemoryDriverSettlementRepository payday_env (cashout_id det) ''mistake'' ''ops''
    (payday_start\<lparr>sw_cashouts := s\<rparr>) = (Inr undone, w)"
proof -
  let ?w = "payday_start\<lparr>sw_cashouts := s\<rparr>"
  have inv: "wf_settlement (sw_cashouts ?w)" using assms by simp
  let ?inp = "reversal_cashout (det_cashout det) ''2026-03-01'' ''mistake'' ''ops'' 0 (undo_writes ''mistake'' det [])"
  have "List.find (\<lambda>d. cashout_corr d = ri_correlationKey ?inp) (mem_view s) = None"
    using assms(2) by (simp add: reversal_cashout_def cashout_corr_def)
  moreover have "target_refusal (mem_view s) (ri_reversesId ?inp) = None"
    using assms(2,3) by (simp add: target_refusal_def reversal_cashout_def cashout_id_def is_live_def)
  ultimately obtain i n s' where
    rec: "record_cashout InMemoryDriverSettlementRepository ?inp s = (Inr (RECORDED (recorded_detail ?inp i n)), s')"
    using mem_cashouts.record_new [OF assms(1), of ?inp] by blast
  then have wr: "write_reversal InMemoryDriverSettlementRepository ?inp ?w =
      (Inr (recorded_detail ?inp i n), ?w\<lparr>sw_cashouts := s'\<rparr>)"
    by (simp add: write_reversal_def bnd_eq on_cashouts_def ret_eq)
  have clock: "se_clock payday_env = 0" by (simp add: payday_env_def)
  show ?thesis
    using assms(2-4) wr
    by (simp add: reverseCashout_def mistake_trim Let_def bnd_eq mem_cashouts.on_cashouts_query [OF inv]
        evaluateCashoutReversal_def is_live_def undo_cashout_def lift_eq ret_eq payday_day undo_writes_def
        clock)
qed

theorem reversal_restores_wages_witness:
  "\<exists>det w undone w'. payday_run ''k'' = (Inr det, w) \<and> drawn (cashouts_in w) ''p1'' = 100 \<and>
     reverseCashout InMemoryDriverSettlementRepository payday_env (cashout_id det) ''mistake'' ''ops'' w = (Inr undone, w') \<and>
     drawn (cashouts_in w') ''p1'' = 0"
proof (rule payday_details [of "''k''"])
  fix det s
  assume r: "payday_run ''k'' = (Inr det, payday_start\<lparr>sw_cashouts := s\<rparr>)" "wf_settlement s" "mem_view s = [det]"
    "slip_sum ''p1'' (det_allocations det) = 100" "is_live det" "rp_reimbursement (reversalPlanOf (det_allocations det)) = []"
  let ?w = "payday_start\<lparr>sw_cashouts := s\<rparr>"
  from payday_reversal [OF r(2,3,5,6)] obtain undone w' where
    undone: "reverseCashout InMemoryDriverSettlementRepository payday_env (cashout_id det) ''mistake'' ''ops'' ?w = (Inr undone, w')"
    by blast
  have "drawn (cashouts_in ?w) ''p1'' = 100" by (simp add: r(3,4) drawn_def)
  moreover have "drawn (cashouts_in w') ''p1'' = drawn (cashouts_in ?w) ''p1'' - slip_sum ''p1'' (det_allocations det)"
    using reversal_restores_wages [OF _ _ _ undone, of det] r(2,3) by simp
  ultimately show ?thesis using r(1,4) undone by auto
qed

section \<open>What a replay is compared with\<close>

definition line_key :: "CashoutLine \<Rightarrow> cashout_source \<times> jsnum \<times> string option" where
  "line_key l = (cl_source l, cl_amount l, cl_payslipId l)"

definition allocation_key :: "DriverCashoutAllocation \<Rightarrow> cashout_source \<times> jsnum \<times> string option" where
  "allocation_key a = (pa_source a, num_of_int (pa_amount a), pa_payslipId a)"

lemma same_lines_mset:
  assumes "distinct xs" "length xs = length ys" "set xs \<subseteq> set ys"
  shows "mset xs = mset ys"
proof -
  have "card (set ys) \<le> card (set xs)" using assms by (simp add: distinct_card card_length)
  with assms(3) have "set xs = set ys" by (intro card_seteq) simp_all
  with assms show ?thesis by (metis card_distinct distinct_card set_eq_iff_mset_eq_distinct)
qed

lemma same_line_key: "same_line l a \<longleftrightarrow> allocation_key a = line_key l"
  by (auto simp: same_line_def line_key_def allocation_key_def)



text \<open>The lines of the check are looked up one by one: a line sent twice matches one stored line twice.\<close>

lemma replay_accepts_repeated_line:
  assumes "det_allocations existing = [a, b]" "same_line l a"
    and "rcc_lines command = [l, l]" "dc_driverId (det_cashout existing) = rcc_driverId command"
  shows "assertSameCashout existing command (dc_businessDate (det_cashout existing)) (dc_method (det_cashout existing)) =
    Inr existing"
  using assms by (simp add: assertSameCashout_def same_cashout_def)

text \<open>A payslip that is still a draft bears no credit, but the capacity offers its net amount for payment.\<close>

lemma draft_payslip_is_payable:
  "foldWageMonths [sample_slip\<lparr>pf_status := DRAFT\<rparr>] [] = Inr []"
  "wageRemainingByPayslip [sample_slip\<lparr>pf_status := DRAFT\<rparr>] [] = [(''p1'', 100)]"
  by (simp_all add: foldWageMonths_def bearsWageCredit_def wageRemainingByPayslip_def remaining_step_def map_get_def
      sample_slip_def payday_sums)

end
