(* ===== verification/DebtGuarantees.thy ===== *)
theory DebtGuarantees imports SettlementGuarantees begin

text \<open>
  What payments to drivers do to the driver fund, over the in-memory stores and the adapter onto the
  costing services: a payment pays no more than the company owes, and what happens to a payment that
  stopped between its fund entry and its cash-out.
\<close>

abbreviation costing_port :: "costing_env \<Rightarrow> costing_state costing_world fund_port" where
  "costing_port \<equiv> DriverSettlementFundPortAdapter InMemoryCostingRepository"

abbreviation fund_of :: "('c, costing_state costing_world) settlement_world \<Rightarrow> ident \<Rightarrow> int" where
  "fund_of w \<equiv> fund_balance (w_store (sw_fund w))"

lemma commit_of_reimbursement:
  assumes wf: "wf_store (w_store f)"
    and run: "port_postReimbursement (costing_port cenv) i actor f = (Inr (e, b), f')"
  obtains x v d a w1 where "entries (w_store w1) = entries (w_store f)"
    "commit_movement InMemoryCostingRepository cenv REIMBURSEMENT (reimbursement_movement i) v d actor a
      (pri_correlationKey i) w1 = (Inr (x, b), f')"
proof -
  from run obtain x v where
      run1: "postEntryDetailed InMemoryCostingRepository cenv REIMBURSEMENT (reimbursement_movement i) v actor f = (Inr (x, b), f')"
    by (auto simp: DriverSettlementFundPortAdapter_def adapter_post_eq postReimbursement_def bnd_Inr_iff
        ret_Inr_iff lift_Inr_iff)
  have k: "fm_correlationKey (reimbursement_movement i) = Some (pri_correlationKey i)"
    by (simp add: reimbursement_movement_def)
  from run1 obtain d a w1 where
      ens: "on_store (ensureAccount InMemoryCostingRepository (fm_driverId (reimbursement_movement i)) (clock cenv)) f = (Inr a, w1)"
    and cm: "commit_movement InMemoryCostingRepository cenv REIMBURSEMENT (reimbursement_movement i) v d actor a
        (pri_correlationKey i) w1 = (Inr (x, b), f')"
    by (auto simp: postEntryDetailed_def bnd_Inr_iff lift_Inr_iff k)
  have "entries (w_store w1) = entries (w_store f)"
    by (rule mem_ensure_effect [OF wf ens])
  from that [OF this cm] show ?thesis .
qed

lemma fresh_reimbursement:
  assumes wf: "wf_store (w_store f)"
    and run: "port_postReimbursement (costing_port cenv) i actor f = (Inr (e, b), f')"
    and key: "pri_correlationKey i \<notin> e_correlationKey ` set (entries (w_store f))"
  shows "\<not> b"
proof -
  from commit_of_reimbursement [OF wf run] obtain x v d a w1 where
      es: "entries (w_store w1) = entries (w_store f)"
    and cm: "commit_movement InMemoryCostingRepository cenv REIMBURSEMENT (reimbursement_movement i) v d actor a
        (pri_correlationKey i) w1 = (Inr (x, b), f')" .
  from key es have "List.find (\<lambda>e. e_correlationKey e = pri_correlationKey i) (entries (w_store w1)) = None"
    by (force simp: find_None_iff_ball)
  with cm show ?thesis
    by (auto simp: commit_movement_def step_simps repo_sel on_store_def mem_findEntryByCorrelation_def
        split: option.splits sum.splits prod.splits)
qed

lemma reused_reimbursement:
  assumes wf: "wf_store (w_store f)"
    and run: "port_postReimbursement (costing_port cenv) i actor f = (Inr (e, b), f')"
    and key: "pri_correlationKey i \<in> e_correlationKey ` set (entries (w_store f))"
  shows b
proof -
  from commit_of_reimbursement [OF wf run] obtain x v d a w1 where
      es: "entries (w_store w1) = entries (w_store f)"
    and cm: "commit_movement InMemoryCostingRepository cenv REIMBURSEMENT (reimbursement_movement i) v d actor a
        (pri_correlationKey i) w1 = (Inr (x, b), f')" .
  from key es obtain z where "List.find (\<lambda>e. e_correlationKey e = pri_correlationKey i) (entries (w_store w1)) = Some z"
    by (cases "List.find (\<lambda>e. e_correlationKey e = pri_correlationKey i) (entries (w_store w1))")
      (force simp: find_None_iff_ball)+
  with cm show ?thesis
    by (auto simp: commit_movement_def step_simps repo_sel on_store_def mem_findEntryByCorrelation_def
        split: option.splits sum.splits prod.splits)
qed

text \<open>
  C26. A payment that is new, checked and written without interference, and that has a line on the fund,
  pays a positive whole amount that the company really owes the driver, and lowers the debt by exactly
  that amount: the balance never passes from the company's debt to a debt of the driver. Only when an
  entry already bore the reimbursement key of the payment is the balance left as it was.
\<close>

theorem reimbursement_pays_debt:
  assumes "wf_settlement (sw_cashouts w)" "fund_inv (w_store (sw_fund w))"
    and "findDriver (core cenv) (rcc_driverId command) \<noteq> None"
    and "se_fund env = Some (costing_port cenv)"
    and "\<And>i driver. settlement_findDriver (se_core env) i = Some driver \<Longrightarrow> sd_id driver = i"
    and "rcc_correlationKey command = Some k" "List.find (\<lambda>d. cashout_corr d = k) (cashouts_in w) = None"
    and "- fund_of w (rcc_driverId command) \<le> max_safe_integer"
    and "fund_lines (rcc_lines command) = [l]"
    and "recordCashout InMemoryDriverSettlementRepository env id command actor w = (Inr det, w')"
  shows "cl_amount l = num_of_int (line_amount l) \<and> 0 < line_amount l \<and>
    line_amount l \<le> - fund_of w (rcc_driverId command) \<and>
    fund_of w' (rcc_driverId command) \<le> 0 \<and>
    (k @ '':reimbursement'' \<notin> e_correlationKey ` set (entries (w_store (sw_fund w))) \<longrightarrow>
       fund_of w' (rcc_driverId command) = fund_of w (rcc_driverId command) + line_amount l) \<and>
    (k @ '':reimbursement'' \<in> e_correlationKey ` set (entries (w_store (sw_fund w))) \<longrightarrow>
       fund_of w' (rcc_driverId command) = fund_of w (rcc_driverId command))"
proof (rule mem_settlement.payment_pays_debt [OF assms], goal_cases)
  case (1 i driver)
  then show ?case .
next
  case (2 d e b)
  let ?i = "reimbursement_input (rcc_driverId command) l d k"
  have wf: "wf_store (w_store (sw_fund w))" using assms(2) by (simp add: fund_inv_def)
  have key: "pri_correlationKey ?i = k @ '':reimbursement''" by (simp add: reimbursement_input_def)
  have "b \<longleftrightarrow> k @ '':reimbursement'' \<in> e_correlationKey ` set (entries (w_store (sw_fund w)))"
    using fresh_reimbursement [OF wf 2(5)] reused_reimbursement [OF wf 2(5)] by (auto simp: key)
  with 2 show ?case by auto
qed

text \<open>The company owes driver D1 100, and pays 60 of it back.\<close>

definition debt_row :: DriverFundEntry where
  "debt_row = entry_row \<lparr>pe_accountId = uuid 0, pe_kind = RETURN, pe_signedAmount = - 100,
     pe_businessDate = ''2026-02-28'', pe_tripId = None, pe_runId = None, pe_legId = None,
     pe_reversalOfId = None, pe_note = None, pe_recordedBy = ''ops''\<rparr> ''K0'' 0 (uuid 1)"

definition debt_world :: "costing_state costing_world" where
  "debt_world = \<lparr>w_store = \<lparr>accounts = [(uuid 0, \<lparr>acc_id = uuid 0, acc_driverId = ''D1'',
     acc_currencyCode = TRANSPORT_CURRENCY, acc_createdAt = 0, acc_updatedAt = 0\<rparr>)], entries = [debt_row],
     expenses = [], periods = [], snapshots = [], next_uuid = 2\<rparr>, w_audit = [], w_keys = 0\<rparr>"

lemma debt_world_inv: "fund_inv (w_store debt_world)"
  by (simp add: fund_inv_def wf_store_defs debt_world_def debt_row_def entry_row_def ledger_ok_def entry_ok_def
      sign_ok_def owned_def fund_accounts_def valid_amount_def max_safe_integer_def)

lemma debt_world_balance: "fund_balance (w_store debt_world) ''D1'' = - 100"
  by (simp add: debt_world_def fund_balance_def fund_accounts_def account_balance_def debt_row_def entry_row_def
      js_sum_def js_add_exact max_safe_integer_def)

definition refund_line :: CashoutLine where
  "refund_line = \<lparr>cl_source = REIMBURSEMENT_OUT, cl_amount = num_of_int 60, cl_payslipId = None, cl_note = None\<rparr>"

definition refund_env :: "costing_state costing_world settlement_env" where
  "refund_env = \<lparr>se_core = payday_core, se_payroll = (\<lambda>d. []), se_timeZone = ''Asia/Ho_Chi_Minh'', se_clock = 0,
     se_intl = (\<lambda>z. None), se_fund = Some (costing_port sample_env)\<rparr>"

definition refund_command :: RecordCashoutCommand where
  "refund_command = (payday_command ''k'')\<lparr>rcc_lines := [refund_line]\<rparr>"

definition refund_start :: "(settlement_state, costing_state costing_world) settlement_world" where
  "refund_start = \<lparr>sw_cashouts = empty_settlement, sw_fund = debt_world, sw_keys = 0\<rparr>"

lemma refund_magnitude: "requireMagnitude REIMBURSEMENT (num_of_int 60) = Inr 60"
  by (simp add: requireMagnitude_def signedAmountFor_def valid_amount_def max_safe_integer_def
      amount_of_def mapLedgerError_def vnd_def)

definition refund_movement :: FundMovement where
  "refund_movement = \<lparr>fm_driverId = ''D1'', fm_businessDate = Some ''2026-03-01'', fm_tripId = None, fm_note = None,
     fm_correlationKey = Some ''k:reimbursement''\<rparr>"

lemma refund_checks: "movement_checks sample_env refund_movement = Inr ''2026-03-01''"
  using sample_dates(2)
  by (simp add: movement_checks_def sample_env_def refund_movement_def sample_core_def
      resolve_given requireDriverFacts_def truthy_def)

lemma refund_input:
  "reimbursement_movement (reimbursement_input ''D1'' refund_line ''2026-03-01'' ''k'') = refund_movement"
  "pri_amount (reimbursement_input ''D1'' refund_line ''2026-03-01'' ''k'') = num_of_int 60"
  by (simp_all add: reimbursement_movement_def reimbursement_input_def refund_line_def refund_movement_def)

lemma refund_posted:
  "\<exists>e f. port_postReimbursement (costing_port sample_env) (reimbursement_input ''D1'' refund_line ''2026-03-01'' ''k'') ''ops''
     debt_world = (Inr (e, False), f)"
proof -
  have "\<exists>e f. postEntryDetailed InMemoryCostingRepository sample_env REIMBURSEMENT refund_movement 60 ''ops'' debt_world =
      (Inr (e, False), f)"
    unfolding postEntryDetailed_def
    by (simp add: bnd_eq lift_eq refund_checks)
      (simp add: refund_movement_def debt_world_def on_store_def debt_row_def entry_row_def
        repo_sel mem_ensureAccount_def commit_movement_def bnd_eq ret_eq mem_findEntryByCorrelation_def query_eq
        postGuarded_def mem_post_def movement_input_def mem_periodsCovering_def audit_append_def lift_eq Let_def)
  then show ?thesis
    by (auto simp: DriverSettlementFundPortAdapter_def adapter_post_eq refund_input postReimbursement_def bnd_eq
        lift_eq refund_magnitude ret_eq)
qed

lemma refund_given:
  "settlement_businessDate refund_env (rcc_businessDate refund_command) = Inr ''2026-03-01''"
  "js_trim (rcc_method refund_command) = ''cash''"
  "settlement_findDriver (se_core refund_env) (rcc_driverId refund_command) = Some \<lparr>sd_id = ''D1'', sd_fullName = ''An''\<rparr>"
  "rcc_correlationKey refund_command = Some ''k''" "rcc_driverId refund_command = ''D1''"
  "rcc_lines refund_command = [refund_line]" "fund_lines [refund_line] = [refund_line]" "line_amount refund_line = 60"
  using sample_dates
  by (simp_all add: settlement_businessDate_def refund_command_def payday_command_def refund_env_def payday_core_def
      cash_trim assertBusinessDate_eq fund_lines_def is_wage_def refund_line_def line_amount_def)

lemma refund_amount: "cl_amount refund_line = num_of_int 60"
  by (simp add: refund_line_def)

lemma refund_world:
  "wf_settlement (sw_cashouts refund_start)" "cashouts_in refund_start = []" "sw_fund refund_start = debt_world"
  by (simp_all add: refund_start_def wf_settlement_empty, simp add: mem_view_def empty_settlement_def)

lemma refund_snapshot:
  "\<exists>snap. snapshotOf InMemoryDriverSettlementRepository refund_env ''D1'' refund_start = (Inr snap, refund_start) \<and>
     snap_capacity snap = \<lparr>cap_currencyCode = TRANSPORT_CURRENCY, cap_wageRemainingByPayslip = [],
       cap_wageRemainingTotal = 0, cap_reimbursementOutstanding = 100\<rparr>"
proof -
  have "findDriver (core sample_env) ''D1'' \<noteq> None" by (simp add: sample_env_def sample_core_def)
  from adapter_balance [OF this] debt_world_balance
  have "balanceOf (costing_port sample_env) ''D1'' debt_world = (Inr (- 100), debt_world)"
    by (simp add: DriverSettlementFundPortAdapter_def)
  then have bal: "on_fund (balanceOf (costing_port sample_env) ''D1'') refund_start = (Inr (- 100), refund_start)"
    by (simp add: on_fund_def refund_start_def)
  show ?thesis
    unfolding snapshotOf_def
    by (simp add: bnd_eq lift_eq ret_eq Let_def mem_cashouts.on_cashouts_query [OF refund_world(1)] refund_world(2)
        listed_def allocations_of_def cashedOutByPayslip_def refund_env_def payday_sums source_amounts_def
        foldWageMonths_def payslips_currency_def settlement_balance_def settlement_capacity_def
        wageRemainingByPayslip_def bal js_add_exact max_safe_integer_def)
qed

lemma refund_drivers:
  "settlement_findDriver (se_core refund_env) i = Some driver \<Longrightarrow> sd_id driver = i"
  by (auto simp: refund_env_def payday_core_def split: if_splits)

lemma refund_run:
  "\<exists>det w'. recordCashout InMemoryDriverSettlementRepository refund_env id refund_command ''ops'' refund_start = (Inr det, w')"
proof -
  let ?S = InMemoryDriverSettlementRepository
  from refund_snapshot obtain snap where
    snap: "snapshotOf ?S refund_env ''D1'' refund_start = (Inr snap, refund_start)"
      "snap_capacity snap = \<lparr>cap_currencyCode = TRANSPORT_CURRENCY, cap_wageRemainingByPayslip = [],
         cap_wageRemainingTotal = 0, cap_reimbursementOutstanding = 100\<rparr>" by blast
  from refund_posted obtain e f where
    posted: "port_postReimbursement (costing_port sample_env) (reimbursement_input ''D1'' refund_line ''2026-03-01'' ''k'') ''ops''
      debt_world = (Inr (e, False), f)" by blast
  have ev: "evaluateCashout [refund_line] (snap_capacity snap) TRANSPORT_CURRENCY = CashoutAllowed 0 60 60"
    by (simp add: snap evaluateCashout_def refund_line_def scan_line_def start_scan_def js_add_exact max_safe_integer_def)
  have src: "cl_source refund_line = REIMBURSEMENT_OUT" by (simp add: refund_line_def)
  have fund: "requireFund refund_env = Inr (costing_port sample_env)" "se_fund refund_env \<noteq> None"
    by (simp_all add: requireFund_def refund_env_def)
  have lines: "pay_lines refund_env ''D1'' ''2026-03-01'' ''k'' ''ops'' [refund_line] refund_start =
      (Inr [fund_write refund_line (re_id e)], refund_start\<lparr>sw_fund := f\<rparr>)"
    by (simp add: src bnd_eq lift_eq ret_eq fund on_fund_def refund_world(3) posted)
  let ?inp = "cashout_input refund_command ''D1'' ''2026-03-01'' TRANSPORT_CURRENCY ''cash'' ''k'' ''ops'' (se_clock refund_env)
    [fund_write refund_line (re_id e)]"
  from mem_cashouts.record_new [OF refund_world(1), of ?inp] obtain i n s where
    rec: "record_cashout ?S ?inp (sw_cashouts refund_start) = (Inr (RECORDED (recorded_detail ?inp i n)), s)"
    by (auto simp: refund_world(2) target_refusal_def cashout_input_def)
  have m: "js_trim (rcc_method refund_command) \<noteq> []" by (simp add: refund_given)
  have "recordCashout ?S refund_env id refund_command ''ops'' refund_start =
      pay_driver ?S refund_env id refund_command ''D1'' ''2026-03-01'' ''cash'' ''k'' ''ops'' refund_start"
    unfolding mem_cashouts.recordCashout_given [OF refund_world(1) refund_given(4,1) m refund_given(3)]
    by (simp add: refund_world(2) refund_given)
  also have "\<dots> = write_cashout ?S ?inp refund_command ''2026-03-01'' ''cash'' (refund_start\<lparr>sw_fund := f\<rparr>)"
    using fund(2) ev by (auto simp: pay_driver_def bnd_eq snap refund_given lines simp del: pay_lines.simps)
  also have "\<dots> = (Inr (recorded_detail ?inp i n), refund_start\<lparr>sw_cashouts := s, sw_fund := f\<rparr>)"
    by (simp add: write_cashout_def bnd_eq on_cashouts_def rec ret_eq)
  finally show ?thesis by blast
qed

lemma refund_key_free: "''k'' @ '':reimbursement'' \<notin> e_correlationKey ` set (entries (w_store (sw_fund refund_start)))"
  by (simp add: refund_start_def debt_world_def debt_row_def entry_row_def)

theorem reimbursement_pays_debt_witness:
  "\<exists>det w'. recordCashout InMemoryDriverSettlementRepository refund_env id refund_command ''ops'' refund_start = (Inr det, w') \<and>
     fund_of refund_start ''D1'' = - 100 \<and> fund_of w' ''D1'' = - 40"
proof -
  from refund_run obtain det w' where
    run: "recordCashout InMemoryDriverSettlementRepository refund_env id refund_command ''ops'' refund_start = (Inr det, w')"
    by blast
  have bal: "fund_of refund_start ''D1'' = - 100" by (simp add: refund_world(3) debt_world_balance)
  have known: "findDriver (core sample_env) (rcc_driverId refund_command) \<noteq> None"
    by (simp add: refund_given sample_env_def sample_core_def)
  have port: "se_fund refund_env = Some (costing_port sample_env)" by (simp add: refund_env_def)
  have inv: "fund_inv (w_store (sw_fund refund_start))" by (simp add: refund_world(3) debt_world_inv)
  have none: "List.find (\<lambda>d. cashout_corr d = ''k'') (cashouts_in refund_start) = None" by (simp add: refund_world(2))
  have owed: "- fund_of refund_start (rcc_driverId refund_command) \<le> max_safe_integer"
    by (simp add: refund_given bal max_safe_integer_def)
  have line: "fund_lines (rcc_lines refund_command) = [refund_line]" by (simp add: refund_given)
  from reimbursement_pays_debt [OF refund_world(1) inv known port refund_drivers refund_given(4) none owed line run]
    refund_key_free
  have "fund_of w' ''D1'' = - 40" by (simp add: refund_given bal)
  with run bal show ?thesis by blast
qed



end
