(* ===== verification/PayrollCalculator.thy ===== *)
theory PayrollCalculator imports WageCredit begin

text \<open>
  \<open>workforce/payroll-calculator.ts\<close>: one payslip from the policy and what is known of a driver, its
  reversal, and the version of a policy. Products and sums are those of doubles that hold integers.
  Labels are written without diacritics; \<open>sha256\<close> stands for the hash of \<open>node:crypto\<close> in hex.
\<close>

definition js_mul :: "int \<Rightarrow> int \<Rightarrow> int" where
  "js_mul a b = js_round (a * b)"

record ManualComponentInput =
  mc_kind :: component_kind
  mc_label :: string
  mc_amount :: jsnum
  mc_recordedBy :: string
  mc_note :: "string option"

record waiting_total =
  wt_totalAmount :: int
  wt_count :: int

record PayrollDriverInput =
  pi_driverId :: ident
  pi_tripCount :: int
  pi_distanceKm :: int
  pi_fuelLitersSaved :: "int option"
  pi_driverFundBalance :: "int option"
  pi_waitingAllowance :: "waiting_total option"
  pi_manualComponents :: "ManualComponentInput list"

record PayslipComponentDraft =
  cd_kind :: component_kind
  cd_source :: component_source
  cd_label :: string
  cd_amount :: int
  cd_quantity :: "int option"
  cd_unitAmount :: "int option"
  cd_recordedBy :: "string option"
  cd_note :: "string option"

record PayslipDraft =
  pd_driverId :: ident
  pd_draftComponents :: "PayslipComponentDraft list"
  pd_grossEarnings :: int
  pd_totalDeductions :: int
  pd_netAmount :: int
  pd_tripCount :: int
  pd_distanceKm :: int
  pd_driverFundBalanceSnapshot :: "int option"

section \<open>The version of a policy\<close>

fun decimal :: "nat \<Rightarrow> string" where
  "decimal n = (if n < 10 then [digit_char (int n)] else decimal (n div 10) @ [digit_char (int (n mod 10))])"

declare decimal.simps [simp del]

definition js_number_text :: "int \<Rightarrow> string" where
  "js_number_text i = (if i < 0 then ''-'' @ decimal (nat (- i)) else decimal (nat i))"

definition canonical_policy :: "PayrollPolicySnapshot \<Rightarrow> string" where
  "canonical_policy policy =
     ''base='' @ js_number_text (baseSalaryVnd policy) @ ''|'' @
     ''trip='' @ js_number_text (perTripVnd policy) @ ''|'' @
     ''km='' @ js_number_text (perKmVnd policy) @ ''|'' @
     ''fuel='' @ js_number_text (fuelSavingBonusVndPerLiter policy)"

definition payrollPolicyVersion :: "(string \<Rightarrow> string) \<Rightarrow> PayrollPolicySnapshot \<Rightarrow> string" where
  "payrollPolicyVersion sha256 policy = take 64 (sha256 (canonical_policy policy))"

section \<open>One payslip\<close>

definition sumOf :: "PayslipComponentDraft list \<Rightarrow> component_kind \<Rightarrow> int" where
  "sumOf components kind =
     fold (\<lambda>c acc. if cd_kind c = kind then js_add acc (cd_amount c) else acc) components 0"

definition earning ::
  "component_source \<Rightarrow> string \<Rightarrow> int \<Rightarrow> int option \<Rightarrow> int option \<Rightarrow> js_error + PayslipComponentDraft list" where
  "earning src label value quantity unit_amount =
     rbind (money (num_of_int value)) (\<lambda>m.
       Inr [\<lparr>cd_kind = EARNING, cd_source = src, cd_label = label, cd_amount = amount m,
             cd_quantity = quantity, cd_unitAmount = unit_amount, cd_recordedBy = None, cd_note = None\<rparr>])"

definition manual_component :: "ManualComponentInput \<Rightarrow> js_error + PayslipComponentDraft" where
  "manual_component c =
     rbind (money (mc_amount c)) (\<lambda>m.
       Inr \<lparr>cd_kind = mc_kind c,
            cd_source = (if mc_kind c = DEDUCTION then MANUAL_DEDUCTION else MANUAL_BONUS),
            cd_label = mc_label c, cd_amount = amount m, cd_quantity = None, cd_unitAmount = None,
            cd_recordedBy = Some (mc_recordedBy c), cd_note = mc_note c\<rparr>)"

definition base_part :: "PayrollPolicySnapshot \<Rightarrow> js_error + PayslipComponentDraft list" where
  "base_part policy =
     (if 0 < baseSalaryVnd policy
      then earning BASE_SALARY ''Luong co ban'' (baseSalaryVnd policy) None (Some (baseSalaryVnd policy))
      else Inr [])"

definition trip_part :: "PayrollPolicySnapshot \<Rightarrow> int \<Rightarrow> js_error + PayslipComponentDraft list" where
  "trip_part policy tripCount =
     (if 0 < perTripVnd policy \<and> 0 < tripCount
      then earning PER_TRIP ''Khoan theo chuyen'' (js_mul (perTripVnd policy) tripCount) (Some tripCount)
             (Some (perTripVnd policy))
      else Inr [])"

definition km_part :: "PayrollPolicySnapshot \<Rightarrow> int \<Rightarrow> js_error + PayslipComponentDraft list" where
  "km_part policy distanceKm =
     (if 0 < perKmVnd policy \<and> 0 < distanceKm
      then earning PER_KM ''Khoan theo ki-lo-met'' (js_mul (perKmVnd policy) distanceKm) (Some distanceKm)
             (Some (perKmVnd policy))
      else Inr [])"

definition fuel_part :: "PayrollPolicySnapshot \<Rightarrow> int option \<Rightarrow> js_error + PayslipComponentDraft list" where
  "fuel_part policy litersSaved =
     (case litersSaved of
        None \<Rightarrow> Inr []
      | Some l \<Rightarrow>
          if 0 < fuelSavingBonusVndPerLiter policy \<and> 0 < l
          then earning FUEL_SAVING_BONUS ''Thuong tiet kiem nhien lieu''
                 (js_mul (fuelSavingBonusVndPerLiter policy) l) (Some l) (Some (fuelSavingBonusVndPerLiter policy))
          else Inr [])"

definition waiting_part :: "waiting_total option \<Rightarrow> js_error + PayslipComponentDraft list" where
  "waiting_part allowance =
     (case allowance of
        None \<Rightarrow> Inr []
      | Some t \<Rightarrow>
          if 0 < wt_totalAmount t
          then earning WAITING_ALLOWANCE ''Phu cap cho nhan hang (da duyet)'' (wt_totalAmount t) (Some (wt_count t)) None
          else Inr [])"

definition payslip_draft ::
  "ident \<Rightarrow> PayslipComponentDraft list \<Rightarrow> int \<Rightarrow> int \<Rightarrow> int option \<Rightarrow> PayslipDraft" where
  "payslip_draft driverId components tripCount distanceKm balance =
     (let grossEarnings = sumOf components EARNING; totalDeductions = sumOf components DEDUCTION in
      \<lparr>pd_driverId = driverId, pd_draftComponents = components, pd_grossEarnings = grossEarnings,
       pd_totalDeductions = totalDeductions, pd_netAmount = js_add grossEarnings (- totalDeductions),
       pd_tripCount = tripCount, pd_distanceKm = distanceKm, pd_driverFundBalanceSnapshot = balance\<rparr>)"

definition calculatePayslip :: "PayrollPolicySnapshot \<Rightarrow> PayrollDriverInput \<Rightarrow> js_error + PayslipDraft" where
  "calculatePayslip policy i =
     rbind (base_part policy) (\<lambda>base.
     rbind (trip_part policy (pi_tripCount i)) (\<lambda>per_trip.
     rbind (km_part policy (pi_distanceKm i)) (\<lambda>per_km.
     rbind (fuel_part policy (pi_fuelLitersSaved i)) (\<lambda>fuel.
     rbind (waiting_part (pi_waitingAllowance i)) (\<lambda>waiting.
     rbind (rmap manual_component (pi_manualComponents i)) (\<lambda>manual.
       Inr (payslip_draft (pi_driverId i) (base @ per_trip @ per_km @ fuel @ waiting @ manual)
              (pi_tripCount i) (pi_distanceKm i) (pi_driverFundBalance i))))))))"

definition reversed_component :: "string \<Rightarrow> PayslipComponentDraft \<Rightarrow> PayslipComponentDraft" where
  "reversed_component reversedBy c =
     c\<lparr>cd_kind := (if cd_kind c = EARNING then DEDUCTION else EARNING),
       cd_source := (if cd_kind c = EARNING then MANUAL_DEDUCTION else MANUAL_BONUS),
       cd_label := ''Dao: '' @ cd_label c, cd_quantity := None, cd_unitAmount := None,
       cd_recordedBy := Some reversedBy\<rparr>"

definition reversalOf :: "PayslipDraft \<Rightarrow> string \<Rightarrow> PayslipDraft" where
  "reversalOf draft reversedBy =
     (let components = map (reversed_component reversedBy) (pd_draftComponents draft);
          grossEarnings = sumOf components EARNING; totalDeductions = sumOf components DEDUCTION in
      draft\<lparr>pd_draftComponents := components, pd_grossEarnings := grossEarnings,
        pd_totalDeductions := totalDeductions, pd_netAmount := js_add grossEarnings (- totalDeductions)\<rparr>)"

section \<open>Rounding is symmetric\<close>

lemma js_round_minus: "js_round (- n) = - js_round n"
proof -
  let ?u = "ulp n"
  have u: "ulp (- n) = ?u" by (simp add: ulp_def)
  have up: "0 < ?u" by (rule ulp_pos)
  show ?thesis
  proof (cases "n mod ?u = 0")
    case True
    then have "?u dvd n" "ulp (- n) dvd - n" by (auto simp: u)
    then show ?thesis by (simp add: js_round_dvd)
  next
    case False
    let ?q = "n div ?u" and ?r = "n mod ?u"
    have q: "(- n) div ?u = - ?q - 1" "(- n) mod ?u = ?u - ?r"
      using False up by (simp_all add: zdiv_zminus1_eq_if zmod_zminus1_eq_if)
    consider "2 * ?r < ?u" | "?u < 2 * ?r" | "2 * ?r = ?u" by linarith
    then show ?thesis
    proof cases
      case 1
      then show ?thesis unfolding js_round_def Let_def u q by (simp add: algebra_simps)
    next
      case 2
      then show ?thesis unfolding js_round_def Let_def u q by (simp add: algebra_simps)
    next
      case 3
      then show ?thesis unfolding js_round_def Let_def u q by (simp add: algebra_simps)
    qed
  qed
qed

lemma js_add_minus: "js_add (- a) (- b) = - js_add a b"
  using js_round_minus [of "a + b"] by (simp add: js_add_def)

lemma js_mul_pos: "0 < a \<Longrightarrow> 0 < b \<Longrightarrow> 0 < js_mul a b"
proof -
  assume "0 < a" "0 < b"
  then have p: "0 < a * b" by simp
  show ?thesis
  proof (cases "a * b \<le> 2 ^ 53")
    case True
    with p show ?thesis by (simp add: js_mul_def js_round_exact)
  next
    case False
    then have "2 ^ 53 \<le> js_round (a * b)" by (intro js_round_ge) simp
    then show ?thesis by (simp add: js_mul_def)
  qed
qed

lemma js_mul_safe_iff: "\<bar>js_mul a b\<bar> \<le> max_safe_integer \<longleftrightarrow> \<bar>a * b\<bar> \<le> max_safe_integer"
  using js_add_safe_iff [of "a * b" 0] by (simp add: js_add_def js_mul_def)

lemma js_mul_exact: "\<bar>a * b\<bar> \<le> max_safe_integer \<Longrightarrow> js_mul a b = a * b"
  using js_add_exact [of "a * b" 0] by (simp add: js_add_def js_mul_def)

section \<open>What a payslip is made of\<close>

definition kind_amounts :: "component_kind \<Rightarrow> PayslipComponentDraft list \<Rightarrow> int list" where
  "kind_amounts kind components = map cd_amount (filter (\<lambda>c. cd_kind c = kind) components)"

lemma sumOf_js_sum: "sumOf components kind = js_sum (kind_amounts kind components)"
proof -
  have "fold (\<lambda>c acc. if cd_kind c = kind then js_add acc (cd_amount c) else acc) cs z =
      fold (\<lambda>x acc. js_add acc x) (kind_amounts kind cs) z" for cs z
    by (induction cs arbitrary: z) (simp_all add: kind_amounts_def)
  then show ?thesis by (simp add: sumOf_def js_sum_def)
qed

lemma kind_amounts_append [simp]: "kind_amounts k (xs @ ys) = kind_amounts k xs @ kind_amounts k ys"
  by (simp add: kind_amounts_def)

lemma kind_amounts_reversed [simp]:
  "kind_amounts EARNING (map (reversed_component by) cs) = kind_amounts DEDUCTION cs"
  "kind_amounts DEDUCTION (map (reversed_component by) cs) = kind_amounts EARNING cs"
proof -
  have k: "cd_kind c = DEDUCTION \<longleftrightarrow> cd_kind c \<noteq> EARNING" for c :: PayslipComponentDraft
    by (cases "cd_kind c") simp_all
  show "kind_amounts EARNING (map (reversed_component by) cs) = kind_amounts DEDUCTION cs"
    "kind_amounts DEDUCTION (map (reversed_component by) cs) = kind_amounts EARNING cs"
    by (induction cs) (auto simp: kind_amounts_def reversed_component_def k)
qed

text \<open>A deduction is a manual one and carries the name of the person who entered it.\<close>

definition component_ok :: "PayslipComponentDraft \<Rightarrow> bool" where
  "component_ok c \<longleftrightarrow>
     0 < cd_amount c \<and> valid_amount (cd_amount c) \<and>
     (cd_kind c = DEDUCTION \<longrightarrow> cd_source c = MANUAL_DEDUCTION \<and> cd_recordedBy c \<noteq> None)"

definition draft_ok :: "PayslipDraft \<Rightarrow> bool" where
  "draft_ok d \<longleftrightarrow>
     (\<forall>c \<in> set (pd_draftComponents d). component_ok c) \<and>
     pd_grossEarnings d = sumOf (pd_draftComponents d) EARNING \<and>
     pd_totalDeductions d = sumOf (pd_draftComponents d) DEDUCTION \<and>
     pd_netAmount d = js_add (pd_grossEarnings d) (- pd_totalDeductions d)"

lemma reversed_component_ok: "component_ok c \<Longrightarrow> component_ok (reversed_component by c)"
  by (auto simp: component_ok_def reversed_component_def)

lemma reversalOf_ok:
  assumes "draft_ok d"
  shows "draft_ok (reversalOf d by)" "pd_netAmount (reversalOf d by) = - pd_netAmount d"
    "pd_driverId (reversalOf d by) = pd_driverId d"
    "pd_grossEarnings (reversalOf d by) = pd_totalDeductions d" "pd_totalDeductions (reversalOf d by) = pd_grossEarnings d"
  using assms js_add_minus [of "pd_grossEarnings d" "- pd_totalDeductions d"]
  by (auto simp: draft_ok_def reversalOf_def Let_def sumOf_js_sum reversed_component_ok add.commute js_add_def)

lemma earning_Inr:
  "earning src label v q u = Inr cs \<longleftrightarrow> valid_amount v \<and>
     cs = [\<lparr>cd_kind = EARNING, cd_source = src, cd_label = label, cd_amount = v,
            cd_quantity = q, cd_unitAmount = u, cd_recordedBy = None, cd_note = None\<rparr>]"
  by (auto simp: earning_def)

lemma rmap_all:
  "rmap f xs = Inr ys \<Longrightarrow> \<forall>x \<in> set xs. P x \<Longrightarrow> (\<And>x y. P x \<Longrightarrow> f x = Inr y \<Longrightarrow> Q y) \<Longrightarrow> \<forall>y \<in> set ys. Q y"
  by (induction xs arbitrary: ys) (auto simp: rbind_Inr_iff)

definition manual_ok :: "ManualComponentInput \<Rightarrow> bool" where
  "manual_ok c \<longleftrightarrow> (\<exists>v. mc_amount c = num_of_int v \<and> 0 < v)"

lemma manual_component_Inr:
  "manual_component c = Inr d \<Longrightarrow> manual_ok c \<Longrightarrow> component_ok d"
  by (auto simp: manual_component_def rbind_Inr_iff money_Inr_iff manual_ok_def component_ok_def split: if_splits)

lemma part_ok:
  "base_part policy = Inr cs \<Longrightarrow> \<forall>c \<in> set cs. component_ok c"
  "trip_part policy n = Inr cs \<Longrightarrow> \<forall>c \<in> set cs. component_ok c"
  "km_part policy n = Inr cs \<Longrightarrow> \<forall>c \<in> set cs. component_ok c"
  "fuel_part policy l = Inr cs \<Longrightarrow> \<forall>c \<in> set cs. component_ok c"
  "waiting_part w = Inr cs \<Longrightarrow> \<forall>c \<in> set cs. component_ok c"
proof -
  have e: "\<forall>c \<in> set cs. component_ok c" if "earning src label v q u = Inr cs" "0 < v" for src label v q u
    using that by (simp add: earning_Inr component_ok_def)
  show "base_part policy = Inr cs \<Longrightarrow> \<forall>c \<in> set cs. component_ok c"
    unfolding base_part_def by (cases "0 < baseSalaryVnd policy") (simp_all add: e)
  show "trip_part policy n = Inr cs \<Longrightarrow> \<forall>c \<in> set cs. component_ok c"
    unfolding trip_part_def by (cases "0 < perTripVnd policy \<and> 0 < n") (auto dest: e [OF _ js_mul_pos])
  show "km_part policy n = Inr cs \<Longrightarrow> \<forall>c \<in> set cs. component_ok c"
    unfolding km_part_def by (cases "0 < perKmVnd policy \<and> 0 < n") (auto dest: e [OF _ js_mul_pos])
  show "fuel_part policy l = Inr cs \<Longrightarrow> \<forall>c \<in> set cs. component_ok c"
    unfolding fuel_part_def
    by (cases l; cases "0 < fuelSavingBonusVndPerLiter policy \<and> 0 < the l") (auto dest: e [OF _ js_mul_pos])
  show "waiting_part w = Inr cs \<Longrightarrow> \<forall>c \<in> set cs. component_ok c"
    unfolding waiting_part_def by (cases w; cases "0 < wt_totalAmount (the w)") (auto dest: e)
qed

lemma calculatePayslip_ok:
  assumes "calculatePayslip policy i = Inr d" "\<forall>c \<in> set (pi_manualComponents i). manual_ok c"
  shows "draft_ok d" "pd_driverId d = pi_driverId i"
proof -
  from assms(1) obtain base per_trip per_km fuel waiting manual where p:
    "base_part policy = Inr base" "trip_part policy (pi_tripCount i) = Inr per_trip"
    "km_part policy (pi_distanceKm i) = Inr per_km" "fuel_part policy (pi_fuelLitersSaved i) = Inr fuel"
    "waiting_part (pi_waitingAllowance i) = Inr waiting" "rmap manual_component (pi_manualComponents i) = Inr manual"
    and d: "d = payslip_draft (pi_driverId i) (base @ per_trip @ per_km @ fuel @ waiting @ manual)
      (pi_tripCount i) (pi_distanceKm i) (pi_driverFundBalance i)"
    by (auto simp: calculatePayslip_def rbind_Inr_iff)
  have "\<forall>c \<in> set manual. component_ok c"
    by (rule rmap_all [OF p(6) assms(2)]) (rule manual_component_Inr)
  with part_ok(1) [OF p(1)] part_ok(2) [OF p(2)] part_ok(3) [OF p(3)] part_ok(4) [OF p(4)] part_ok(5) [OF p(5)]
  have "\<forall>c \<in> set (base @ per_trip @ per_km @ fuel @ waiting @ manual). component_ok c" by simp blast
  then show "draft_ok d" "pd_driverId d = pi_driverId i"
    by (simp_all add: d payslip_draft_def draft_ok_def Let_def)
qed

section \<open>What a payslip amounts to\<close>

definition manual_values :: "component_kind \<Rightarrow> ManualComponentInput list \<Rightarrow> int list" where
  "manual_values kind cs = map (\<lambda>c. the (js_integer (mc_amount c))) (filter (\<lambda>c. mc_kind c = kind) cs)"

lemma earning_kinds:
  "earning src label v q u = Inr cs \<Longrightarrow> kind_amounts EARNING cs = [v] \<and> kind_amounts DEDUCTION cs = []"
  by (auto simp: earning_Inr kind_amounts_def)

lemma earning_only:
  "base_part policy = Inr cs \<Longrightarrow> kind_amounts DEDUCTION cs = []"
  "trip_part policy n = Inr cs \<Longrightarrow> kind_amounts DEDUCTION cs = []"
  "km_part policy n = Inr cs \<Longrightarrow> kind_amounts DEDUCTION cs = []"
  "fuel_part policy l = Inr cs \<Longrightarrow> kind_amounts DEDUCTION cs = []"
  "waiting_part w = Inr cs \<Longrightarrow> kind_amounts DEDUCTION cs = []"
proof -
  have n: "kind_amounts DEDUCTION [] = []" by (simp add: kind_amounts_def)
  show "base_part policy = Inr cs \<Longrightarrow> kind_amounts DEDUCTION cs = []"
    unfolding base_part_def by (auto simp: n dest: earning_kinds split: if_splits)
  show "trip_part policy n = Inr cs \<Longrightarrow> kind_amounts DEDUCTION cs = []"
    unfolding trip_part_def by (auto simp: n dest: earning_kinds split: if_splits)
  show "km_part policy n = Inr cs \<Longrightarrow> kind_amounts DEDUCTION cs = []"
    unfolding km_part_def by (auto simp: n dest: earning_kinds split: if_splits)
  show "fuel_part policy l = Inr cs \<Longrightarrow> kind_amounts DEDUCTION cs = []"
    unfolding fuel_part_def by (cases l) (auto simp: n dest: earning_kinds split: if_splits)
  show "waiting_part w = Inr cs \<Longrightarrow> kind_amounts DEDUCTION cs = []"
    unfolding waiting_part_def by (cases w) (auto simp: n dest: earning_kinds split: if_splits)
qed

lemma manual_amounts:
  "rmap manual_component cs = Inr ds \<Longrightarrow>
   kind_amounts kind ds = manual_values kind cs \<and>
   map num_of_int (manual_values kind cs) = map mc_amount (filter (\<lambda>c. mc_kind c = kind) cs)"
proof (induction cs arbitrary: ds)
  case (Cons c cs)
  then obtain d ds' where d: "manual_component c = Inr d" and ds: "rmap manual_component cs = Inr ds'" "ds = d # ds'"
    by (auto simp: rbind_Inr_iff)
  from d have "cd_kind d = mc_kind c" "mc_amount c = num_of_int (cd_amount d)"
    by (auto simp: manual_component_def rbind_Inr_iff money_Inr_iff)
  moreover have "kind_amounts kind (d # ds') = (if cd_kind d = kind then cd_amount d # kind_amounts kind ds' else kind_amounts kind ds')"
    by (simp add: kind_amounts_def)
  moreover have "manual_values kind (c # cs) =
      (if mc_kind c = kind then the (js_integer (mc_amount c)) # manual_values kind cs else manual_values kind cs)"
    by (simp add: manual_values_def)
  ultimately show ?case using Cons.IH [OF ds(1)] unfolding ds(2) by simp
qed (simp add: kind_amounts_def manual_values_def)

lemma calculatePayslip_parts:
  assumes "calculatePayslip policy i = Inr d"
  obtains base per_trip per_km fuel waiting manual where
    "base_part policy = Inr base" "trip_part policy (pi_tripCount i) = Inr per_trip"
    "km_part policy (pi_distanceKm i) = Inr per_km" "fuel_part policy (pi_fuelLitersSaved i) = Inr fuel"
    "waiting_part (pi_waitingAllowance i) = Inr waiting" "rmap manual_component (pi_manualComponents i) = Inr manual"
    "d = payslip_draft (pi_driverId i) (base @ per_trip @ per_km @ fuel @ waiting @ manual)
      (pi_tripCount i) (pi_distanceKm i) (pi_driverFundBalance i)"
  using assms by (auto simp: calculatePayslip_def rbind_Inr_iff)

text \<open>
  No automatic deduction. The balance of the driver fund is only shown on a payslip: with another
  balance the payslip, or the error, is the same but for the snapshot of the balance. And the deductions of a
  payslip are exactly the deductions that people entered, in their order and to their amounts.
\<close>

theorem fund_balance_never_deducted:
  assumes "calculatePayslip policy i = Inr d"
  shows "calculatePayslip policy (i\<lparr>pi_driverFundBalance := b\<rparr>) = Inr (d\<lparr>pd_driverFundBalanceSnapshot := b\<rparr>) \<and>
    map num_of_int (kind_amounts DEDUCTION (pd_draftComponents d)) =
      map mc_amount (filter (\<lambda>c. mc_kind c = DEDUCTION) (pi_manualComponents i))"
proof (rule calculatePayslip_parts [OF assms])
  fix base per_trip per_km fuel waiting manual
  assume p: "base_part policy = Inr base" "trip_part policy (pi_tripCount i) = Inr per_trip"
    "km_part policy (pi_distanceKm i) = Inr per_km" "fuel_part policy (pi_fuelLitersSaved i) = Inr fuel"
    "waiting_part (pi_waitingAllowance i) = Inr waiting" "rmap manual_component (pi_manualComponents i) = Inr manual"
    and d: "d = payslip_draft (pi_driverId i) (base @ per_trip @ per_km @ fuel @ waiting @ manual)
      (pi_tripCount i) (pi_distanceKm i) (pi_driverFundBalance i)"
  note none = earning_only(1) [OF p(1)] earning_only(2) [OF p(2)] earning_only(3) [OF p(3)] earning_only(4) [OF p(4)]
    earning_only(5) [OF p(5)]
  have "calculatePayslip policy (i\<lparr>pi_driverFundBalance := b\<rparr>) = Inr (d\<lparr>pd_driverFundBalanceSnapshot := b\<rparr>)"
    by (simp add: calculatePayslip_def p d payslip_draft_def Let_def)
  moreover have "kind_amounts DEDUCTION (pd_draftComponents d) = kind_amounts DEDUCTION manual"
    by (simp add: d payslip_draft_def Let_def none)
  moreover note manual_amounts [OF p(6), of DEDUCTION]
  ultimately show ?thesis by simp
qed

definition sample_policy :: PayrollPolicySnapshot where
  "sample_policy = \<lparr>baseSalaryVnd = 1000, perTripVnd = 10, perKmVnd = 2, fuelSavingBonusVndPerLiter = 0\<rparr>"

definition sample_driver :: PayrollDriverInput where
  "sample_driver = \<lparr>pi_driverId = ''D1'', pi_tripCount = 3, pi_distanceKm = 50, pi_fuelLitersSaved = None,
     pi_driverFundBalance = Some (- 7), pi_waitingAllowance = None,
     pi_manualComponents = [\<lparr>mc_kind = DEDUCTION, mc_label = ''damage'', mc_amount = num_of_int 30,
       mc_recordedBy = ''An'', mc_note = None\<rparr>]\<rparr>"

definition sample_payslip :: PayslipDraft where
  "sample_payslip = (case calculatePayslip sample_policy sample_driver of Inr d \<Rightarrow> d | Inl e \<Rightarrow> undefined)"

lemma sample_payslip: "calculatePayslip sample_policy sample_driver = Inr sample_payslip"
  unfolding sample_payslip_def
  by (simp add: calculatePayslip_def sample_policy_def sample_driver_def base_part_def trip_part_def km_part_def
      fuel_part_def waiting_part_def earning_def manual_component_def js_mul_exact max_safe_integer_def valid_amount_def)

theorem fund_balance_never_deducted_witness:
  "calculatePayslip sample_policy (sample_driver\<lparr>pi_driverFundBalance := Some 900\<rparr>) =
     Inr (sample_payslip\<lparr>pd_driverFundBalanceSnapshot := Some 900\<rparr>) \<and>
   map num_of_int (kind_amounts DEDUCTION (pd_draftComponents sample_payslip)) = [num_of_int 30]"
  using fund_balance_never_deducted [OF sample_payslip, of "Some 900"] by (simp add: sample_driver_def)

section \<open>The formula\<close>

definition exact_part :: "js_error + PayslipComponentDraft list \<Rightarrow> int \<Rightarrow> bool" where
  "exact_part r v \<longleftrightarrow>
     (\<exists>cs. r = Inr cs \<and> sum_list (kind_amounts EARNING cs) = v \<and> kind_amounts DEDUCTION cs = [] \<and>
        (\<forall>x \<in> set (kind_amounts EARNING cs). 0 < x))"

lemma exact_earning: "0 < v \<Longrightarrow> valid_amount v \<Longrightarrow> exact_part (earning src label v q u) v"
  by (simp add: exact_part_def earning_def kind_amounts_def)

lemma exact_none: "exact_part (Inr []) 0"
  by (simp add: exact_part_def kind_amounts_def)

lemma exact_product:
  assumes "max 0 a * max 0 b \<le> max_safe_integer"
  shows "exact_part (if 0 < a \<and> 0 < b then earning src label (js_mul a b) q u else Inr []) (max 0 a * max 0 b)"
proof (cases "0 < a \<and> 0 < b")
  case True
  then have "0 < a * b" by simp
  with True assms js_mul_exact [of a b] show ?thesis by (simp add: exact_earning valid_amount_def)
next
  case False
  then have "max 0 a * max 0 b = 0" by (auto simp: max_def)
  moreover have "(if 0 < a \<and> 0 < b then earning src label (js_mul a b) q u else Inr []) = Inr []"
    using False by (simp only: if_False)
  ultimately show ?thesis by (simp only: exact_none)
qed

definition fuel_value :: "PayrollPolicySnapshot \<Rightarrow> int option \<Rightarrow> int" where
  "fuel_value policy l = (case l of None \<Rightarrow> 0 | Some n \<Rightarrow> max 0 (fuelSavingBonusVndPerLiter policy) * max 0 n)"

definition waiting_value :: "waiting_total option \<Rightarrow> int" where
  "waiting_value t = (case t of None \<Rightarrow> 0 | Some w \<Rightarrow> max 0 (wt_totalAmount w))"

definition pay_formula :: "PayrollPolicySnapshot \<Rightarrow> PayrollDriverInput \<Rightarrow> int" where
  "pay_formula policy i =
     max 0 (baseSalaryVnd policy) + max 0 (perTripVnd policy) * max 0 (pi_tripCount i) +
     max 0 (perKmVnd policy) * max 0 (pi_distanceKm i) + fuel_value policy (pi_fuelLitersSaved i) +
     waiting_value (pi_waitingAllowance i) + sum_list (manual_values EARNING (pi_manualComponents i))"

lemma exact_parts:
  "max 0 (baseSalaryVnd policy) \<le> max_safe_integer \<Longrightarrow> exact_part (base_part policy) (max 0 (baseSalaryVnd policy))"
  "max 0 (perTripVnd policy) * max 0 n \<le> max_safe_integer \<Longrightarrow>
     exact_part (trip_part policy n) (max 0 (perTripVnd policy) * max 0 n)"
  "max 0 (perKmVnd policy) * max 0 n \<le> max_safe_integer \<Longrightarrow>
     exact_part (km_part policy n) (max 0 (perKmVnd policy) * max 0 n)"
  "fuel_value policy l \<le> max_safe_integer \<Longrightarrow> exact_part (fuel_part policy l) (fuel_value policy l)"
  "waiting_value t \<le> max_safe_integer \<Longrightarrow> exact_part (waiting_part t) (waiting_value t)"
proof -
  show "max 0 (baseSalaryVnd policy) \<le> max_safe_integer \<Longrightarrow> exact_part (base_part policy) (max 0 (baseSalaryVnd policy))"
    by (cases "0 < baseSalaryVnd policy")
      (simp_all add: base_part_def exact_earning valid_amount_def exact_none max_absorb1)
  show "max 0 (perTripVnd policy) * max 0 n \<le> max_safe_integer \<Longrightarrow>
     exact_part (trip_part policy n) (max 0 (perTripVnd policy) * max 0 n)"
    unfolding trip_part_def by (rule exact_product)
  show "max 0 (perKmVnd policy) * max 0 n \<le> max_safe_integer \<Longrightarrow>
     exact_part (km_part policy n) (max 0 (perKmVnd policy) * max 0 n)"
    unfolding km_part_def by (rule exact_product)
  show "fuel_value policy l \<le> max_safe_integer \<Longrightarrow> exact_part (fuel_part policy l) (fuel_value policy l)"
    unfolding fuel_part_def fuel_value_def by (cases l) (simp_all only: option.case exact_none exact_product)
  show "waiting_value t \<le> max_safe_integer \<Longrightarrow> exact_part (waiting_part t) (waiting_value t)"
    unfolding waiting_part_def waiting_value_def
    by (cases t; cases "0 < wt_totalAmount (the t)")
      (simp_all add: exact_none exact_earning valid_amount_def max_absorb1)
qed

lemma manual_values_pos: "\<forall>c \<in> set cs. manual_ok c \<Longrightarrow> x \<in> set (manual_values kind cs) \<Longrightarrow> 0 < x"
  by (auto simp: manual_values_def manual_ok_def)

lemma manual_values_le:
  assumes "\<forall>c \<in> set cs. manual_ok c" "c \<in> set cs"
  shows "the (js_integer (mc_amount c)) \<le> sum_list (manual_values (mc_kind c) cs)"
proof (rule member_le_sum_list)
  show "the (js_integer (mc_amount c)) \<in> set (manual_values (mc_kind c) cs)"
    using assms(2) by (auto simp: manual_values_def)
qed (use manual_values_pos [OF assms(1)] in force)

lemma rmap_total: "\<forall>x \<in> set xs. \<exists>y. f x = Inr y \<Longrightarrow> \<exists>ys. rmap f xs = Inr ys"
  by (induction xs) auto

lemma manual_total:
  assumes "\<forall>c \<in> set cs. manual_ok c" "sum_list (manual_values EARNING cs) \<le> max_safe_integer"
    "sum_list (manual_values DEDUCTION cs) \<le> max_safe_integer"
  shows "\<exists>ds. rmap manual_component cs = Inr ds"
proof (rule rmap_total, rule ballI)
  fix c assume c: "c \<in> set cs"
  with assms(1) obtain v where v: "mc_amount c = num_of_int v" "0 < v" by (auto simp: manual_ok_def)
  moreover have "v \<le> max_safe_integer"
    using manual_values_le [OF assms(1) c] assms(2,3) v by (cases "mc_kind c") auto
  ultimately show "\<exists>d. manual_component c = Inr d" by (simp add: manual_component_def valid_amount_def)
qed

lemma js_sum_positive:
  assumes "\<forall>x \<in> set xs. 0 < x" "sum_list xs \<le> max_safe_integer"
  shows "js_sum xs = sum_list xs"
proof -
  have "map abs xs = xs" using assms(1) by (induction xs) auto
  with assms(2) show ?thesis by (intro js_sum_exact prefix_sums_safe_abs) simp
qed

text \<open>
  C29. The payslip follows the formula. Base salary, trips, kilometres, saved litres, approved waiting
  allowance and manual bonuses add up to the gross earnings, the manual deductions to the total
  deductions, and the net amount is their difference, all exactly, whenever the earnings and the deductions
  each stay within the safe integers; and then no error is raised.
\<close>

theorem payslip_follows_formula:
  assumes manual: "\<forall>c \<in> set (pi_manualComponents i). manual_ok c"
    and small: "pay_formula policy i \<le> max_safe_integer"
      "sum_list (manual_values DEDUCTION (pi_manualComponents i)) \<le> max_safe_integer"
  shows "\<exists>d. calculatePayslip policy i = Inr d \<and> pd_grossEarnings d = pay_formula policy i \<and>
    pd_totalDeductions d = sum_list (manual_values DEDUCTION (pi_manualComponents i)) \<and>
    pd_netAmount d = pd_grossEarnings d - pd_totalDeductions d"
proof -
  let ?m = "pi_manualComponents i"
  have nn: "0 \<le> sum_list (manual_values k ?m)" for k
    using manual_values_pos [OF manual] by (intro sum_list_nonneg) force
  have f: "0 \<le> fuel_value policy (pi_fuelLitersSaved i)" "0 \<le> waiting_value (pi_waitingAllowance i)"
    by (simp_all add: fuel_value_def waiting_value_def split: option.split)
  have p: "0 \<le> max 0 (perTripVnd policy) * max 0 (pi_tripCount i)" "0 \<le> max 0 (perKmVnd policy) * max 0 (pi_distanceKm i)"
    by simp_all
  have le: "max 0 (baseSalaryVnd policy) \<le> max_safe_integer"
      "max 0 (perTripVnd policy) * max 0 (pi_tripCount i) \<le> max_safe_integer"
      "max 0 (perKmVnd policy) * max 0 (pi_distanceKm i) \<le> max_safe_integer"
      "fuel_value policy (pi_fuelLitersSaved i) \<le> max_safe_integer" "waiting_value (pi_waitingAllowance i) \<le> max_safe_integer"
      "sum_list (manual_values EARNING ?m) \<le> max_safe_integer"
    using small(1) nn [of EARNING] f p unfolding pay_formula_def by linarith+
  have formula_nn: "0 \<le> pay_formula policy i"
    using nn [of EARNING] f p unfolding pay_formula_def by linarith
  have parts: "exact_part (base_part policy) (max 0 (baseSalaryVnd policy))"
      "exact_part (trip_part policy (pi_tripCount i)) (max 0 (perTripVnd policy) * max 0 (pi_tripCount i))"
      "exact_part (km_part policy (pi_distanceKm i)) (max 0 (perKmVnd policy) * max 0 (pi_distanceKm i))"
      "exact_part (fuel_part policy (pi_fuelLitersSaved i)) (fuel_value policy (pi_fuelLitersSaved i))"
      "exact_part (waiting_part (pi_waitingAllowance i)) (waiting_value (pi_waitingAllowance i))"
    by (rule exact_parts(1) [OF le(1)] exact_parts(2) [OF le(2)] exact_parts(3) [OF le(3)] exact_parts(4) [OF le(4)]
        exact_parts(5) [OF le(5)])+
  from parts(1) obtain base where base: "base_part policy = Inr base"
      "sum_list (kind_amounts EARNING base) = max 0 (baseSalaryVnd policy)" "kind_amounts DEDUCTION base = []"
      "\<forall>x \<in> set (kind_amounts EARNING base). 0 < x" unfolding exact_part_def by blast
  from parts(2) obtain per_trip where per_trip: "trip_part policy (pi_tripCount i) = Inr per_trip"
      "sum_list (kind_amounts EARNING per_trip) = max 0 (perTripVnd policy) * max 0 (pi_tripCount i)"
      "kind_amounts DEDUCTION per_trip = []" "\<forall>x \<in> set (kind_amounts EARNING per_trip). 0 < x"
    unfolding exact_part_def by blast
  from parts(3) obtain per_km where per_km: "km_part policy (pi_distanceKm i) = Inr per_km"
      "sum_list (kind_amounts EARNING per_km) = max 0 (perKmVnd policy) * max 0 (pi_distanceKm i)"
      "kind_amounts DEDUCTION per_km = []" "\<forall>x \<in> set (kind_amounts EARNING per_km). 0 < x"
    unfolding exact_part_def by blast
  from parts(4) obtain fuel where fuel: "fuel_part policy (pi_fuelLitersSaved i) = Inr fuel"
      "sum_list (kind_amounts EARNING fuel) = fuel_value policy (pi_fuelLitersSaved i)"
      "kind_amounts DEDUCTION fuel = []" "\<forall>x \<in> set (kind_amounts EARNING fuel). 0 < x"
    unfolding exact_part_def by blast
  from parts(5) obtain waiting where waiting: "waiting_part (pi_waitingAllowance i) = Inr waiting"
      "sum_list (kind_amounts EARNING waiting) = waiting_value (pi_waitingAllowance i)"
      "kind_amounts DEDUCTION waiting = []" "\<forall>x \<in> set (kind_amounts EARNING waiting). 0 < x"
    unfolding exact_part_def by blast
  note found = base(1) per_trip(1) per_km(1) fuel(1) waiting(1)
  let ?fixed = "base @ per_trip @ per_km @ fuel @ waiting"
  have sums: "sum_list (kind_amounts EARNING ?fixed) + sum_list (manual_values EARNING ?m) = pay_formula policy i"
    by (simp only: kind_amounts_append sum_list_append base per_trip per_km fuel waiting pay_formula_def add.assoc)
  have none: "kind_amounts DEDUCTION ?fixed = []" by (simp add: base per_trip per_km fuel waiting)
  have pos: "\<forall>x \<in> set (kind_amounts EARNING ?fixed). 0 < x"
    using base(4) per_trip(4) per_km(4) fuel(4) waiting(4) by simp blast
  from manual_total [OF manual le(6) small(2)] obtain ms where ms: "rmap manual_component ?m = Inr ms" by blast
  let ?cs = "base @ per_trip @ per_km @ fuel @ waiting @ ms"
  have e: "js_sum (kind_amounts EARNING ?cs) = pay_formula policy i"
  proof -
    have "kind_amounts EARNING ?cs = kind_amounts EARNING ?fixed @ manual_values EARNING ?m"
      using manual_amounts [OF ms, of EARNING] by simp
    moreover have "\<forall>x \<in> set (kind_amounts EARNING ?fixed @ manual_values EARNING ?m). 0 < x"
      using pos manual_values_pos [OF manual, of _ EARNING] unfolding set_append by blast
    moreover have "sum_list (kind_amounts EARNING ?fixed @ manual_values EARNING ?m) = pay_formula policy i"
      using sums by (simp only: sum_list_append)
    ultimately show ?thesis using js_sum_positive small(1) by metis
  qed
  have d: "js_sum (kind_amounts DEDUCTION ?cs) = sum_list (manual_values DEDUCTION ?m)"
  proof -
    have "kind_amounts DEDUCTION ?cs = manual_values DEDUCTION ?m"
      using manual_amounts [OF ms, of DEDUCTION] none by simp
    then show ?thesis using js_sum_positive manual_values_pos [OF manual, of _ DEDUCTION] small(2) by metis
  qed
  have "js_add (pay_formula policy i) (- sum_list (manual_values DEDUCTION ?m)) =
      pay_formula policy i - sum_list (manual_values DEDUCTION ?m)"
    using js_add_exact [of "pay_formula policy i" "- sum_list (manual_values DEDUCTION ?m)"] formula_nn small nn [of DEDUCTION]
    by linarith
  then show ?thesis
    by (simp add: calculatePayslip_def found ms payslip_draft_def Let_def sumOf_js_sum e [simplified] d [simplified])
qed

theorem payslip_follows_formula_witness:
  "\<exists>d. calculatePayslip sample_policy sample_driver = Inr d \<and> pd_grossEarnings d = 1130 \<and> pd_netAmount d = 1100"
proof -
  have "\<forall>c \<in> set (pi_manualComponents sample_driver). manual_ok c"
    by (simp add: sample_driver_def manual_ok_def)
  moreover have f: "pay_formula sample_policy sample_driver = 1130"
    by (simp add: pay_formula_def sample_policy_def sample_driver_def fuel_value_def waiting_value_def manual_values_def)
  moreover have m: "sum_list (manual_values DEDUCTION (pi_manualComponents sample_driver)) = 30"
    by (simp add: sample_driver_def manual_values_def)
  ultimately show ?thesis
    using payslip_follows_formula [of sample_driver sample_policy] by (auto simp: max_safe_integer_def)
qed

end
