(* ===== verification/PayslipLifecycle.thy ===== *)
theory PayslipLifecycle imports WorkforceTypes begin

text \<open>
  \<open>workforce/payslip-lifecycle.ts\<close>: the states of a payslip. A draft is approved, then paid; an approved or
  paid payslip can be reversed; nothing leads back to a draft.
\<close>

definition INITIAL_PAYSLIP_STATUS :: payslip_status where
  "INITIAL_PAYSLIP_STATUS = DRAFT"

fun PAYSLIP_EDGES :: "payslip_status \<Rightarrow> payslip_status list" where
  "PAYSLIP_EDGES DRAFT = [APPROVED]"
| "PAYSLIP_EDGES APPROVED = [PAID, PAYSLIP_REVERSED]"
| "PAYSLIP_EDGES PAID = [PAYSLIP_REVERSED]"
| "PAYSLIP_EDGES PAYSLIP_REVERSED = []"

datatype PayslipTransitionOutcome = PERMITTED | ALREADY_IN_STATE | NOT_PERMITTED "payslip_status list"

definition evaluatePayslipTransition :: "payslip_status \<Rightarrow> payslip_status \<Rightarrow> PayslipTransitionOutcome" where
  "evaluatePayslipTransition old new =
     (if old = new then ALREADY_IN_STATE
      else let allowed = PAYSLIP_EDGES old in
        if new \<in> set allowed then PERMITTED else NOT_PERMITTED allowed)"

definition isPosted :: "payslip_status \<Rightarrow> bool" where
  "isPosted status \<longleftrightarrow> status \<noteq> DRAFT"

definition isCorrectable :: "payslip_status \<Rightarrow> bool" where
  "isCorrectable status \<longleftrightarrow> status = APPROVED \<or> status = PAID"

definition isPublishableToDriver :: "payslip_status \<Rightarrow> bool" where
  "isPublishableToDriver status \<longleftrightarrow> isPosted status"

section \<open>Progress\<close>

text \<open>How many moves a payslip has left at most.\<close>

fun moves_left :: "payslip_status \<Rightarrow> nat" where
  "moves_left DRAFT = 3"
| "moves_left APPROVED = 2"
| "moves_left PAID = 1"
| "moves_left PAYSLIP_REVERSED = 0"

definition payslip_edge :: "payslip_status \<Rightarrow> payslip_status \<Rightarrow> bool" where
  "payslip_edge old new \<longleftrightarrow> new \<in> set (PAYSLIP_EDGES old)"

lemma permitted_iff: "evaluatePayslipTransition old new = PERMITTED \<longleftrightarrow> payslip_edge old new"
  by (cases old; cases new) (simp_all add: evaluatePayslipTransition_def payslip_edge_def)

lemma edge_moves: "payslip_edge old new \<Longrightarrow> moves_left new < moves_left old"
  by (cases old; cases new) (simp_all add: payslip_edge_def)

lemma edge_not_draft: "payslip_edge old new \<Longrightarrow> new \<noteq> DRAFT"
  by (cases old; cases new) (simp_all add: payslip_edge_def)

end
