(* ===== verification/Workforce.thy ===== *)
theory Workforce imports PayrollCalculator PayslipLifecycle CostingReadService begin

text \<open>
  \<open>workforce/\<close>: the store of payroll periods, runs and payslips (\<open>workforce.repository.ts\<close>,
  \<open>in-memory-workforce.repository.ts\<close>) and the ports through which payroll reads trips, the driver fund,
  fuel and waiting allowances (\<open>workforce.ports.ts\<close>). The constructor's \<open>now()\<close> is the field \<open>ws_clock\<close> of
  the state.
\<close>

section \<open>The store\<close>

record OpenPayrollPeriodInput =
  oi_label :: string
  oi_startDate :: business_date
  oi_endDate :: business_date
  oi_createdBy :: string

record ClosePayrollPeriodInput =
  ci_closedBy :: string
  ci_closedAt :: timestamp

record PayslipWriteInput =
  pw_driverId :: ident
  pw_kind :: payslip_kind
  pw_correctsId :: "ident option"
  pw_correctionReason :: "string option"
  pw_grossEarnings :: int
  pw_totalDeductions :: int
  pw_netAmount :: int
  pw_driverFundBalanceSnapshot :: "int option"
  pw_tripCount :: int
  pw_distanceKm :: int
  pw_components :: "PayslipComponentDraft list"

record RecordPayrollRunInput =
  rr_periodId :: ident
  rr_policySnapshot :: PayrollPolicySnapshot
  rr_policyVersion :: string
  rr_missingInputs :: "payroll_missing_input list"
  rr_runBy :: string
  rr_payslips :: "PayslipWriteInput list"

datatype RecordPayrollRunOutcome =
    RUN_RECORDED PayrollRun "Payslip list"
  | PERIOD_NOT_FOUND
  | PERIOD_CLOSED

record TransitionPayslipInput =
  ti_to :: payslip_status
  ti_actor :: string
  ti_at :: timestamp

datatype TransitionPayslipOutcome =
    MOVED Payslip
  | REJECTED payslip_status
  | PAYSLIP_NOT_FOUND

record IssueCorrectionInput =
  ic_correctsId :: ident
  ic_runId :: ident
  ic_reason :: string
  ic_actor :: string
  ic_at :: timestamp
  ic_payslip :: PayslipWriteInput

datatype IssueCorrectionOutcome =
    ISSUED Payslip
  | NOT_CORRECTABLE payslip_status
  | PAYSLIP_ALREADY_REVERSED
  | CORRECTED_NOT_FOUND

record 's workforce_repository =
  wr_openPeriod :: "OpenPayrollPeriodInput \<Rightarrow> ('s, js_error, PayrollPeriod option) stateful"
  wr_closePeriod :: "ident \<Rightarrow> ClosePayrollPeriodInput \<Rightarrow> ('s, js_error, PayrollPeriod option) stateful"
  wr_findPeriod :: "ident \<Rightarrow> ('s, js_error, PayrollPeriod option) stateful"
  wr_listPeriods :: "('s, js_error, PayrollPeriod list) stateful"
  wr_recordRun :: "RecordPayrollRunInput \<Rightarrow> ('s, js_error, RecordPayrollRunOutcome) stateful"
  wr_findRun :: "ident \<Rightarrow> ('s, js_error, PayrollRun option) stateful"
  wr_listRuns :: "ident \<Rightarrow> ('s, js_error, PayrollRun list) stateful"
  wr_findPayslip :: "ident \<Rightarrow> ('s, js_error, PayslipDetail option) stateful"
  wr_listPayslips :: "ident \<Rightarrow> ('s, js_error, PayslipDetail list) stateful"
  wr_listPayslipsByDriver :: "ident \<Rightarrow> ('s, js_error, PayslipDetail list) stateful"
  wr_transitionPayslip ::
    "ident \<Rightarrow> payslip_status \<Rightarrow> TransitionPayslipInput \<Rightarrow> ('s, js_error, TransitionPayslipOutcome) stateful"
  wr_issueCorrection :: "IssueCorrectionInput \<Rightarrow> ('s, js_error, IssueCorrectionOutcome) stateful"

section \<open>The in-memory store\<close>

record payroll_state =
  ws_periods :: "(ident \<times> PayrollPeriod) list"
  ws_runs :: "(ident \<times> PayrollRun) list"
  ws_payslips :: "(ident \<times> Payslip) list"
  ws_components :: "(ident \<times> PayslipComponent list) list"
  ws_next :: nat
  ws_clock :: timestamp

definition empty_payroll :: payroll_state where
  "empty_payroll = \<lparr>ws_periods = [], ws_runs = [], ws_payslips = [], ws_components = [], ws_next = 0, ws_clock = 0\<rparr>"

definition period_overlaps :: "business_date \<Rightarrow> business_date \<Rightarrow> PayrollPeriod \<Rightarrow> bool" where
  "period_overlaps from_date to_date p \<longleftrightarrow> from_date \<le> pp_endDate p \<and> pp_startDate p \<le> to_date"

definition period_row :: "OpenPayrollPeriodInput \<Rightarrow> ident \<Rightarrow> timestamp \<Rightarrow> PayrollPeriod" where
  "period_row i new_id tm =
     \<lparr>pp_id = new_id, pp_label = oi_label i, pp_startDate = oi_startDate i, pp_endDate = oi_endDate i,
      pp_status = PAYROLL_OPEN, pp_closedAt = None, pp_closedBy = None, pp_createdBy = oi_createdBy i,
      pp_createdAt = tm, pp_updatedAt = tm\<rparr>"

definition mem_openPeriod :: "OpenPayrollPeriodInput \<Rightarrow> (payroll_state, js_error, PayrollPeriod option) stateful" where
  "mem_openPeriod input s =
     (if list_ex (period_overlaps (oi_startDate input) (oi_endDate input)) (map snd (ws_periods s)) then (Inr None, s)
      else
        let i = uuid (ws_next s); period = period_row input i (ws_clock s) in
        (Inr (Some period), s\<lparr>ws_periods := AList.update i period (ws_periods s), ws_next := Suc (ws_next s)\<rparr>))"

definition closed_period :: "PayrollPeriod \<Rightarrow> ClosePayrollPeriodInput \<Rightarrow> timestamp \<Rightarrow> PayrollPeriod" where
  "closed_period p input tm =
     p\<lparr>pp_status := PAYROLL_CLOSED, pp_closedAt := Some (ci_closedAt input), pp_closedBy := Some (ci_closedBy input),
       pp_updatedAt := tm\<rparr>"

definition mem_closePeriod ::
  "ident \<Rightarrow> ClosePayrollPeriodInput \<Rightarrow> (payroll_state, js_error, PayrollPeriod option) stateful" where
  "mem_closePeriod i input s =
     (case map_of (ws_periods s) i of
        None \<Rightarrow> (Inr None, s)
      | Some current \<Rightarrow>
          let new = closed_period current input (ws_clock s) in
          (Inr (Some new), s\<lparr>ws_periods := AList.update i new (ws_periods s)\<rparr>))"

definition payslip_row :: "ident \<Rightarrow> PayslipWriteInput \<Rightarrow> (timestamp \<times> string) option \<Rightarrow> ident \<Rightarrow> timestamp \<Rightarrow> Payslip" where
  "payslip_row runId i posting new_id tm =
     \<lparr>ps_id = new_id, ps_runId = runId, ps_driverId = pw_driverId i, ps_kind = pw_kind i,
      ps_status = (case posting of None \<Rightarrow> DRAFT | Some _ \<Rightarrow> APPROVED),
      ps_grossEarnings = pw_grossEarnings i, ps_totalDeductions = pw_totalDeductions i,
      ps_netAmount = pw_netAmount i, ps_currencyCode = TRANSPORT_CURRENCY,
      ps_driverFundBalanceSnapshot = pw_driverFundBalanceSnapshot i, ps_tripCount = pw_tripCount i,
      ps_distanceKm = pw_distanceKm i, ps_correctsId = pw_correctsId i, ps_correctionReason = pw_correctionReason i,
      ps_approvedAt = map_option fst posting, ps_approvedBy = map_option snd posting,
      ps_paidAt = None, ps_paidBy = None, ps_createdAt = tm, ps_updatedAt = tm\<rparr>"

definition toComponent :: "ident \<Rightarrow> PayslipComponentDraft \<Rightarrow> timestamp \<Rightarrow> ident \<Rightarrow> PayslipComponent" where
  "toComponent payslipId c tm new_id =
     \<lparr>pc_id = new_id, pc_payslipId = payslipId, pc_kind = cd_kind c, pc_source = cd_source c, pc_label = cd_label c,
      pc_amount = cd_amount c, pc_quantity = cd_quantity c, pc_unitAmount = cd_unitAmount c,
      pc_recordedBy = cd_recordedBy c, pc_note = cd_note c, pc_createdAt = tm\<rparr>"

definition materialize ::
  "ident \<Rightarrow> PayslipWriteInput \<Rightarrow> (timestamp \<times> string) option \<Rightarrow> payroll_state \<Rightarrow> Payslip \<times> payroll_state" where
  "materialize runId input posting s =
     (let i = uuid (ws_next s); payslip = payslip_row runId input posting i (ws_clock s);
          cs = map2 (\<lambda>c k. toComponent i c (ws_clock s) (uuid k)) (pw_components input)
                 [Suc (ws_next s) ..< Suc (ws_next s) + length (pw_components input)]
      in (payslip, s\<lparr>ws_payslips := AList.update i payslip (ws_payslips s),
            ws_components := AList.update i cs (ws_components s),
            ws_next := Suc (ws_next s) + length (pw_components input)\<rparr>))"

fun materialize_all :: "ident \<Rightarrow> PayslipWriteInput list \<Rightarrow> payroll_state \<Rightarrow> Payslip list \<times> payroll_state" where
  "materialize_all runId [] s = ([], s)"
| "materialize_all runId (p # ps) s =
     (case materialize runId p None s of (q, s1) \<Rightarrow>
      case materialize_all runId ps s1 of (qs, s2) \<Rightarrow> (q # qs, s2))"

definition run_row :: "RecordPayrollRunInput \<Rightarrow> ident \<Rightarrow> int \<Rightarrow> timestamp \<Rightarrow> PayrollRun" where
  "run_row i new_id sequence tm =
     \<lparr>pr_id = new_id, pr_periodId = rr_periodId i, pr_sequence = sequence, pr_policySnapshot = rr_policySnapshot i,
      pr_policyVersion = rr_policyVersion i, pr_missingInputs = rr_missingInputs i, pr_runBy = rr_runBy i,
      pr_runAt = tm\<rparr>"

definition mem_recordRun :: "RecordPayrollRunInput \<Rightarrow> (payroll_state, js_error, RecordPayrollRunOutcome) stateful" where
  "mem_recordRun input s =
     (case map_of (ws_periods s) (rr_periodId input) of
        None \<Rightarrow> (Inr PERIOD_NOT_FOUND, s)
      | Some period \<Rightarrow>
          if pp_status period = PAYROLL_CLOSED then (Inr PERIOD_CLOSED, s)
          else
            let i = uuid (ws_next s);
                sequence = int (length (filter (\<lambda>r. pr_periodId r = rr_periodId input) (map snd (ws_runs s)))) + 1;
                run = run_row input i sequence (ws_clock s);
                s1 = s\<lparr>ws_runs := AList.update i run (ws_runs s), ws_next := Suc (ws_next s)\<rparr>
            in (case materialize_all i (rr_payslips input) s1 of (ps, s2) \<Rightarrow> (Inr (RUN_RECORDED run ps), s2)))"

definition payslip_detail :: "payroll_state \<Rightarrow> Payslip \<Rightarrow> PayslipDetail" where
  "payslip_detail s p =
     \<lparr>pd_payslip = p, pd_components = (case map_of (ws_components s) (ps_id p) of None \<Rightarrow> [] | Some cs \<Rightarrow> cs)\<rparr>"

definition mem_findPayslip :: "ident \<Rightarrow> (payroll_state, js_error, PayslipDetail option) stateful" where
  "mem_findPayslip i = query (\<lambda>s. map_option (payslip_detail s) (map_of (ws_payslips s) i))"

definition mem_listPayslips :: "ident \<Rightarrow> (payroll_state, js_error, PayslipDetail list) stateful" where
  "mem_listPayslips runId =
     query (\<lambda>s. map (payslip_detail s) (filter (\<lambda>p. ps_runId p = runId) (map snd (ws_payslips s))))"

definition mem_listPayslipsByDriver :: "ident \<Rightarrow> (payroll_state, js_error, PayslipDetail list) stateful" where
  "mem_listPayslipsByDriver d =
     query (\<lambda>s. map (payslip_detail s) (filter (\<lambda>p. ps_driverId p = d) (map snd (ws_payslips s))))"

definition moved_payslip :: "Payslip \<Rightarrow> TransitionPayslipInput \<Rightarrow> timestamp \<Rightarrow> Payslip" where
  "moved_payslip current input tm =
     current\<lparr>ps_status := ti_to input,
       ps_approvedAt := (if ti_to input = APPROVED then Some (ti_at input) else ps_approvedAt current),
       ps_approvedBy := (if ti_to input = APPROVED then Some (ti_actor input) else ps_approvedBy current),
       ps_paidAt := (if ti_to input = PAID then Some (ti_at input) else ps_paidAt current),
       ps_paidBy := (if ti_to input = PAID then Some (ti_actor input) else ps_paidBy current),
       ps_updatedAt := tm\<rparr>"

definition mem_transitionPayslip ::
  "ident \<Rightarrow> payslip_status \<Rightarrow> TransitionPayslipInput \<Rightarrow>
   (payroll_state, js_error, TransitionPayslipOutcome) stateful" where
  "mem_transitionPayslip i old input s =
     (case map_of (ws_payslips s) i of
        None \<Rightarrow> (Inr PAYSLIP_NOT_FOUND, s)
      | Some current \<Rightarrow>
          if ps_status current \<noteq> old then (Inr (REJECTED (ps_status current)), s)
          else
            let new = moved_payslip current input (ws_clock s) in
            (Inr (MOVED new), s\<lparr>ws_payslips := AList.update i new (ws_payslips s)\<rparr>))"

definition correction_input :: "IssueCorrectionInput \<Rightarrow> PayslipWriteInput" where
  "correction_input input =
     (ic_payslip input)\<lparr>pw_correctsId := Some (ic_correctsId input), pw_correctionReason := Some (ic_reason input)\<rparr>"

definition mem_issueCorrection :: "IssueCorrectionInput \<Rightarrow> (payroll_state, js_error, IssueCorrectionOutcome) stateful" where
  "mem_issueCorrection input s =
     (case map_of (ws_payslips s) (ic_correctsId input) of
        None \<Rightarrow> (Inr CORRECTED_NOT_FOUND, s)
      | Some target \<Rightarrow>
          if ps_status target \<noteq> APPROVED \<and> ps_status target \<noteq> PAID then (Inr (NOT_CORRECTABLE (ps_status target)), s)
          else if pw_kind (ic_payslip input) = PAYSLIP_REVERSAL \<and>
              list_ex (\<lambda>p. ps_kind p = PAYSLIP_REVERSAL \<and> ps_correctsId p = Some (ic_correctsId input))
                (map snd (ws_payslips s))
            then (Inr PAYSLIP_ALREADY_REVERSED, s)
          else
            let reversing = (pw_kind (ic_payslip input) = PAYSLIP_REVERSAL) in
            case materialize (ic_runId input) (correction_input input)
                   (if reversing then Some (ic_at input, ic_actor input) else None) s of (p, s1) \<Rightarrow>
              (Inr (ISSUED p),
               if reversing
               then s1\<lparr>ws_payslips := AList.update (ps_id target)
                      (target\<lparr>ps_status := PAYSLIP_REVERSED, ps_updatedAt := ws_clock s\<rparr>) (ws_payslips s1)\<rparr>
               else s1))"

definition InMemoryWorkforceRepository :: "payroll_state workforce_repository" where
  "InMemoryWorkforceRepository =
     \<lparr>wr_openPeriod = mem_openPeriod, wr_closePeriod = mem_closePeriod,
      wr_findPeriod = (\<lambda>i. query (\<lambda>s. map_of (ws_periods s) i)),
      wr_listPeriods = query (\<lambda>s. map snd (ws_periods s)),
      wr_recordRun = mem_recordRun, wr_findRun = (\<lambda>i. query (\<lambda>s. map_of (ws_runs s) i)),
      wr_listRuns = (\<lambda>p. query (\<lambda>s. filter (\<lambda>r. pr_periodId r = p) (map snd (ws_runs s)))),
      wr_findPayslip = mem_findPayslip, wr_listPayslips = mem_listPayslips,
      wr_listPayslipsByDriver = mem_listPayslipsByDriver, wr_transitionPayslip = mem_transitionPayslip,
      wr_issueCorrection = mem_issueCorrection\<rparr>"

end
