(* ===== verification/WorkforceService.thy ===== *)
theory WorkforceService imports Workforce TripLifecycle begin

text \<open>
  The payroll commands (\<open>workforce.service.ts\<close>), the driver's own view of payslips
  (\<open>workforce-read.service.ts\<close>, \<open>driver-payslip.view.ts\<close>) and the adapters of \<open>workforce.ports.ts\<close> onto
  trips and the driver fund. \<open>others\<close> is what other requests do while a command waits between its read
  and its write. Telemetry only observes and is left out.
\<close>

section \<open>Ports\<close>

record DriverPeriodWork =
  dw_driverId :: ident
  dw_tripCount :: int
  dw_distanceKm :: int

record work_trip =
  wt_tripId :: ident
  wt_status :: trip_status
  wt_businessDate :: business_date
  wt_distanceKm :: "int option"

record work_assignment =
  wa_tripId :: ident
  wa_driverId :: "ident option"

definition counts_for_payroll :: "business_date \<Rightarrow> business_date \<Rightarrow> work_trip \<Rightarrow> bool" where
  "counts_for_payroll first_day last_day t \<longleftrightarrow>
     (wt_status t = DELIVERED \<or> wt_status t = RECONCILED) \<and>
     first_day \<le> wt_businessDate t \<and> wt_businessDate t \<le> last_day"

definition distances_in_period :: "business_date \<Rightarrow> business_date \<Rightarrow> work_trip list \<Rightarrow> (ident \<times> int) list" where
  "distances_in_period first_day last_day ts =
     fold (\<lambda>t m. AList.update (wt_tripId t) (case wt_distanceKm t of None \<Rightarrow> 0 | Some d \<Rightarrow> d) m)
       (filter (counts_for_payroll first_day last_day) ts) []"

definition add_work ::
  "(ident \<times> int) list \<Rightarrow> work_assignment \<Rightarrow> (ident \<times> (int \<times> int)) list \<Rightarrow> (ident \<times> (int \<times> int)) list" where
  "add_work inPeriod a m =
     (case wa_driverId a of
        None \<Rightarrow> m
      | Some d \<Rightarrow>
          (case map_of inPeriod (wa_tripId a) of
             None \<Rightarrow> m
           | Some distance \<Rightarrow>
               let current = (case map_of m d of None \<Rightarrow> (0, 0) | Some c \<Rightarrow> c)
               in AList.update d (js_add (fst current) 1, js_add (snd current) distance) m))"

definition workByDriver ::
  "work_trip list \<Rightarrow> work_assignment list \<Rightarrow> business_date \<Rightarrow> business_date \<Rightarrow> DriverPeriodWork list" where
  "workByDriver ts as first_day last_day =
     map (\<lambda>(d, n, km). \<lparr>dw_driverId = d, dw_tripCount = n, dw_distanceKm = km\<rparr>)
       (fold (add_work (distances_in_period first_day last_day ts)) as [])"

definition workforce_fundBalanceOf ::
  "'s costing_repository \<Rightarrow> costing_env \<Rightarrow> 's costing_world \<Rightarrow> ident \<Rightarrow> js_error + int" where
  "workforce_fundBalanceOf R env w driverId =
     fst (bnd (driverFundStatement R env driverId) (\<lambda>statement. ret (st_balance statement)) w)"

text \<open>A port that the installation does not have is \<open>None\<close>.\<close>

record workforce_env =
  we_activeDrivers :: "ident list"
  we_workByDriver :: "business_date \<Rightarrow> business_date \<Rightarrow> DriverPeriodWork list"
  we_driverByAuthUser :: "ident \<Rightarrow> ident option"
  we_policy :: PayrollPolicySnapshot
  we_fundBalanceOf :: "(ident \<Rightarrow> js_error + int) option"
  we_litersSaved :: "(business_date \<Rightarrow> business_date \<Rightarrow> (ident \<times> int) list) option"
  we_waiting :: "(business_date \<Rightarrow> business_date \<Rightarrow> (ident \<times> waiting_total) list) option"
  we_sha256 :: "string \<Rightarrow> string"

section \<open>Periods\<close>

definition openPayrollPeriod ::
  "'s workforce_repository \<Rightarrow> OpenPayrollPeriodInput \<Rightarrow> ('s, js_error, PayrollPeriod) stateful" where
  "openPayrollPeriod R input =
     bnd (lift (assertBusinessDate (oi_startDate input))) (\<lambda>first_day.
     bnd (lift (assertBusinessDate (oi_endDate input))) (\<lambda>last_day.
       if last_day < first_day then throw (invalid ''PAYROLL_PERIOD_RANGE_INVALID'')
       else bnd (wr_openPeriod R (input\<lparr>oi_startDate := first_day, oi_endDate := last_day\<rparr>)) (\<lambda>period.
         case period of None \<Rightarrow> throw (conflict ''PAYROLL_PERIOD_OVERLAPS'') | Some p \<Rightarrow> ret p)))"

definition closePayrollPeriod ::
  "'s workforce_repository \<Rightarrow> ident \<Rightarrow> string \<Rightarrow> timestamp \<Rightarrow> ('s, js_error, PayrollPeriod) stateful" where
  "closePayrollPeriod R i closedBy tm =
     bnd (wr_closePeriod R i \<lparr>ci_closedBy = closedBy, ci_closedAt = tm\<rparr>) (\<lambda>period.
       case period of None \<Rightarrow> throw (notFound ''PAYROLL_PERIOD_NOT_FOUND'') | Some p \<Rightarrow> ret p)"

section \<open>Running payroll\<close>

definition assertManualComponent :: "ManualComponentInput \<Rightarrow> js_error + unit" where
  "assertManualComponent c =
     (case js_integer (mc_amount c) of
        None \<Rightarrow> Inl (invalid ''PAYSLIP_COMPONENT_AMOUNT_INVALID'')
      | Some v \<Rightarrow>
          if v \<le> 0 then Inl (invalid ''PAYSLIP_COMPONENT_AMOUNT_INVALID'')
          else if length (js_trim (mc_recordedBy c)) = 0 then Inl (invalid ''PAYSLIP_MANUAL_COMPONENT_UNSIGNED'')
          else Inr ())"

definition assertManualComponents :: "ManualComponentInput list \<Rightarrow> js_error + unit" where
  "assertManualComponents cs = rbind (rmap assertManualComponent cs) (\<lambda>_. Inr ())"

definition toWriteInput ::
  "PayslipDraft \<Rightarrow> payslip_kind \<Rightarrow> ident option \<Rightarrow> string option \<Rightarrow> PayslipWriteInput" where
  "toWriteInput draft kind correctsId correctionReason =
     \<lparr>pw_driverId = pd_driverId draft, pw_kind = kind, pw_correctsId = correctsId,
      pw_correctionReason = correctionReason, pw_grossEarnings = pd_grossEarnings draft,
      pw_totalDeductions = pd_totalDeductions draft, pw_netAmount = pd_netAmount draft,
      pw_driverFundBalanceSnapshot = pd_driverFundBalanceSnapshot draft, pw_tripCount = pd_tripCount draft,
      pw_distanceKm = pd_distanceKm draft, pw_components = pd_draftComponents draft\<rparr>"

record RunPayrollInput =
  rp_periodId :: ident
  rp_runBy :: string
  rp_manualComponents :: "(ident \<times> ManualComponentInput list) list"

definition missing_inputs :: "workforce_env \<Rightarrow> payroll_missing_input list" where
  "missing_inputs env =
     (if we_litersSaved env = None then [FUEL_SAVING_UNAVAILABLE] else []) @
     (if we_waiting env = None then [WAITING_ALLOWANCE_UNAVAILABLE] else []) @
     (if we_fundBalanceOf env = None then [DRIVER_FUND_UNAVAILABLE] else [])"

definition driver_input ::
  "workforce_env \<Rightarrow> PayrollPeriod \<Rightarrow> ManualComponentInput list \<Rightarrow> int option \<Rightarrow> ident \<Rightarrow> PayrollDriverInput" where
  "driver_input env period manual balance driverId =
     (let row = List.find (\<lambda>r. dw_driverId r = driverId)
            (rev (we_workByDriver env (pp_startDate period) (pp_endDate period)))
      in \<lparr>pi_driverId = driverId,
          pi_tripCount = (case row of None \<Rightarrow> 0 | Some r \<Rightarrow> dw_tripCount r),
          pi_distanceKm = (case row of None \<Rightarrow> 0 | Some r \<Rightarrow> dw_distanceKm r),
          pi_fuelLitersSaved = map_option (\<lambda>saved. map_get (saved (pp_startDate period) (pp_endDate period)) driverId)
             (we_litersSaved env),
          pi_driverFundBalance = balance,
          pi_waitingAllowance = map_option (\<lambda>waiting.
             case map_of (waiting (pp_startDate period) (pp_endDate period)) driverId of
               None \<Rightarrow> \<lparr>wt_totalAmount = 0, wt_count = 0\<rparr> | Some t \<Rightarrow> t) (we_waiting env),
          pi_manualComponents = manual\<rparr>)"

definition driver_payslip ::
  "workforce_env \<Rightarrow> PayrollPeriod \<Rightarrow> RunPayrollInput \<Rightarrow> ident \<Rightarrow> js_error + PayslipWriteInput" where
  "driver_payslip env period input driverId =
     (let manual = (case map_of (rp_manualComponents input) driverId of None \<Rightarrow> [] | Some cs \<Rightarrow> cs) in
      rbind (assertManualComponents manual) (\<lambda>_.
      rbind (case we_fundBalanceOf env of
               None \<Rightarrow> Inr None
             | Some balanceOf \<Rightarrow> rbind (balanceOf driverId) (\<lambda>b. Inr (Some b))) (\<lambda>balance.
      rbind (calculatePayslip (we_policy env) (driver_input env period manual balance driverId)) (\<lambda>draft.
        Inr (toWriteInput draft PAYSLIP_ORIGINAL None None)))))"

definition runPayroll ::
  "'s workforce_repository \<Rightarrow> workforce_env \<Rightarrow> ('s \<Rightarrow> 's) \<Rightarrow> RunPayrollInput \<Rightarrow>
   ('s, js_error, PayrollRun \<times> Payslip list) stateful" where
  "runPayroll R env others input =
     bnd (wr_findPeriod R (rp_periodId input)) (\<lambda>found.
       case found of
         None \<Rightarrow> throw (notFound ''PAYROLL_PERIOD_NOT_FOUND'')
       | Some period \<Rightarrow>
           bnd (lift (rmap (driver_payslip env period input) (we_activeDrivers env))) (\<lambda>payslips w.
             bnd (wr_recordRun R
                    \<lparr>rr_periodId = pp_id period, rr_policySnapshot = we_policy env,
                     rr_policyVersion = payrollPolicyVersion (we_sha256 env) (we_policy env),
                     rr_missingInputs = missing_inputs env, rr_runBy = rp_runBy input, rr_payslips = payslips\<rparr>)
               (\<lambda>outcome.
                 case outcome of
                   RUN_RECORDED run ps \<Rightarrow> ret (run, ps)
                 | PERIOD_NOT_FOUND \<Rightarrow> throw (notFound ''PAYROLL_PERIOD_NOT_FOUND'')
                 | PERIOD_CLOSED \<Rightarrow> throw (invalid ''PAYROLL_PERIOD_CLOSED'')) (others w)))"

section \<open>Moving a payslip\<close>

definition movePayslip ::
  "'s workforce_repository \<Rightarrow> ('s \<Rightarrow> 's) \<Rightarrow> ident \<Rightarrow> payslip_status \<Rightarrow> string \<Rightarrow> timestamp \<Rightarrow>
   ('s, js_error, Payslip) stateful" where
  "movePayslip R others i new actor tm =
     bnd (wr_findPayslip R i) (\<lambda>found.
       case found of
         None \<Rightarrow> throw (notFound ''PAYSLIP_NOT_FOUND'')
       | Some detail \<Rightarrow>
           (if evaluatePayslipTransition (ps_status (pd_payslip detail)) new \<noteq> PERMITTED
            then throw (invalid (if new = PAID then ''PAYSLIP_NOT_APPROVED'' else ''PAYSLIP_NOT_DRAFT''))
            else (\<lambda>w.
              bnd (wr_transitionPayslip R i (ps_status (pd_payslip detail))
                     \<lparr>ti_to = new, ti_actor = actor, ti_at = tm\<rparr>) (\<lambda>outcome.
                case outcome of
                  MOVED p \<Rightarrow> ret p
                | REJECTED current \<Rightarrow> throw (conflict ''PAYSLIP_ALREADY_EXISTS_FOR_RUN'')
                | PAYSLIP_NOT_FOUND \<Rightarrow> throw (notFound ''PAYSLIP_NOT_FOUND'')) (others w))))"

definition approvePayslip where
  "approvePayslip R others i actor tm = movePayslip R others i APPROVED actor tm"

definition payPayslip where
  "payPayslip R others i actor tm = movePayslip R others i PAID actor tm"

section \<open>Corrections\<close>

datatype correction_kind = CORRECT_SUPPLEMENTAL | CORRECT_REVERSAL

record correction_command =
  cc_payslipId :: ident
  cc_kind :: correction_kind
  cc_reason :: string
  cc_actor :: string
  cc_components :: "ManualComponentInput list"

definition component_draft :: "PayslipComponent \<Rightarrow> PayslipComponentDraft" where
  "component_draft c =
     \<lparr>cd_kind = pc_kind c, cd_source = pc_source c, cd_label = pc_label c, cd_amount = pc_amount c,
      cd_quantity = pc_quantity c, cd_unitAmount = pc_unitAmount c, cd_recordedBy = pc_recordedBy c,
      cd_note = pc_note c\<rparr>"

definition base_draft :: "PayslipDetail \<Rightarrow> PayslipDraft" where
  "base_draft d =
     \<lparr>pd_driverId = ps_driverId (pd_payslip d), pd_draftComponents = map component_draft (pd_components d),
      pd_grossEarnings = ps_grossEarnings (pd_payslip d), pd_totalDeductions = ps_totalDeductions (pd_payslip d),
      pd_netAmount = ps_netAmount (pd_payslip d), pd_tripCount = ps_tripCount (pd_payslip d),
      pd_distanceKm = ps_distanceKm (pd_payslip d),
      pd_driverFundBalanceSnapshot = ps_driverFundBalanceSnapshot (pd_payslip d)\<rparr>"

definition no_policy :: PayrollPolicySnapshot where
  "no_policy = \<lparr>baseSalaryVnd = 0, perTripVnd = 0, perKmVnd = 0, fuelSavingBonusVndPerLiter = 0\<rparr>"

definition correction_draft :: "PayslipDetail \<Rightarrow> correction_command \<Rightarrow> js_error + PayslipDraft" where
  "correction_draft detail command =
     (if cc_kind command = CORRECT_REVERSAL then Inr (reversalOf (base_draft detail) (cc_actor command))
      else
        rbind (assertManualComponents (cc_components command)) (\<lambda>_.
          calculatePayslip no_policy
            \<lparr>pi_driverId = ps_driverId (pd_payslip detail), pi_tripCount = 0, pi_distanceKm = 0,
             pi_fuelLitersSaved = None, pi_driverFundBalance = ps_driverFundBalanceSnapshot (pd_payslip detail),
             pi_waitingAllowance = None, pi_manualComponents = cc_components command\<rparr>))"

definition correction_payslip_kind :: "correction_kind \<Rightarrow> payslip_kind" where
  "correction_payslip_kind k = (case k of CORRECT_REVERSAL \<Rightarrow> PAYSLIP_REVERSAL | CORRECT_SUPPLEMENTAL \<Rightarrow> SUPPLEMENTAL)"

definition correction_write :: "PayslipDetail \<Rightarrow> correction_command \<Rightarrow> PayslipDraft \<Rightarrow> timestamp \<Rightarrow> IssueCorrectionInput" where
  "correction_write detail command draft tm =
     \<lparr>ic_correctsId = cc_payslipId command, ic_runId = ps_runId (pd_payslip detail), ic_reason = cc_reason command,
      ic_actor = cc_actor command, ic_at = tm,
      ic_payslip = toWriteInput draft (correction_payslip_kind (cc_kind command)) (Some (cc_payslipId command))
        (Some (cc_reason command))\<rparr>"

definition issueCorrection ::
  "'s workforce_repository \<Rightarrow> ('s \<Rightarrow> 's) \<Rightarrow> correction_command \<Rightarrow> timestamp \<Rightarrow> ('s, js_error, Payslip) stateful" where
  "issueCorrection R others command tm =
     bnd (wr_findPayslip R (cc_payslipId command)) (\<lambda>found.
       case found of
         None \<Rightarrow> throw (notFound ''PAYSLIP_NOT_FOUND'')
       | Some detail \<Rightarrow>
           (if \<not> isCorrectable (ps_status (pd_payslip detail)) then throw (invalid ''PAYSLIP_NOT_CORRECTABLE'')
            else bnd (lift (correction_draft detail command)) (\<lambda>draft w.
              bnd (wr_issueCorrection R (correction_write detail command draft tm)) (\<lambda>outcome.
                case outcome of
                  ISSUED p \<Rightarrow> ret p
                | CORRECTED_NOT_FOUND \<Rightarrow> throw (notFound ''PAYSLIP_NOT_FOUND'')
                | NOT_CORRECTABLE current \<Rightarrow> throw (invalid ''PAYSLIP_NOT_CORRECTABLE'')
                | PAYSLIP_ALREADY_REVERSED \<Rightarrow> throw (conflict ''PAYSLIP_ALREADY_REVERSED'')) (others w))))"

section \<open>What a driver sees\<close>

record DriverPayslipPeriodView =
  pv_id :: ident
  pv_label :: string
  pv_startDate :: business_date
  pv_endDate :: business_date

record DriverPayslipComponentView =
  cv_kind :: component_kind
  cv_source :: component_source
  cv_label :: string
  cv_amount :: int
  cv_quantity :: "int option"
  cv_unitAmount :: "int option"
  cv_note :: "string option"

record DriverPayslipView =
  dv_id :: ident
  dv_period :: DriverPayslipPeriodView
  dv_kind :: payslip_kind
  dv_status :: payslip_status
  dv_grossEarnings :: int
  dv_totalDeductions :: int
  dv_netAmount :: int
  dv_currencyCode :: string
  dv_tripCount :: int
  dv_distanceKm :: int
  dv_correctsId :: "ident option"
  dv_correctionReason :: "string option"
  dv_components :: "DriverPayslipComponentView list"
  dv_approvedAt :: "timestamp option"
  dv_paidAt :: "timestamp option"
  dv_createdAt :: timestamp

definition component_view :: "PayslipComponent \<Rightarrow> DriverPayslipComponentView" where
  "component_view c =
     \<lparr>cv_kind = pc_kind c, cv_source = pc_source c, cv_label = pc_label c, cv_amount = pc_amount c,
      cv_quantity = pc_quantity c, cv_unitAmount = pc_unitAmount c, cv_note = pc_note c\<rparr>"

definition toDriverPayslipView :: "PayslipDetail \<Rightarrow> DriverPayslipPeriodView \<Rightarrow> DriverPayslipView option" where
  "toDriverPayslipView detail period =
     (let p = pd_payslip detail in
      if \<not> isPublishableToDriver (ps_status p) then None
      else Some
        \<lparr>dv_id = ps_id p, dv_period = period, dv_kind = ps_kind p, dv_status = ps_status p,
         dv_grossEarnings = ps_grossEarnings p, dv_totalDeductions = ps_totalDeductions p,
         dv_netAmount = ps_netAmount p, dv_currencyCode = ps_currencyCode p, dv_tripCount = ps_tripCount p,
         dv_distanceKm = ps_distanceKm p, dv_correctsId = ps_correctsId p,
         dv_correctionReason = ps_correctionReason p, dv_components = map component_view (pd_components detail),
         dv_approvedAt = ps_approvedAt p, dv_paidAt = ps_paidAt p, dv_createdAt = ps_createdAt p\<rparr>)"

definition toDriverPayslipPeriodView :: "PayrollPeriod \<Rightarrow> DriverPayslipPeriodView" where
  "toDriverPayslipPeriodView p =
     \<lparr>pv_id = pp_id p, pv_label = pp_label p, pv_startDate = pp_startDate p, pv_endDate = pp_endDate p\<rparr>"

definition payslipDetail :: "'s workforce_repository \<Rightarrow> ident \<Rightarrow> ('s, js_error, PayslipDetail) stateful" where
  "payslipDetail R i =
     bnd (wr_findPayslip R i) (\<lambda>found.
       case found of None \<Rightarrow> throw (notFound ''PAYSLIP_NOT_FOUND'') | Some d \<Rightarrow> ret d)"

definition requireDriverBinding :: "workforce_env \<Rightarrow> ident \<Rightarrow> js_error + ident" where
  "requireDriverBinding env authUserId =
     (case we_driverByAuthUser env authUserId of
        None \<Rightarrow> Inl (denied ''SELF_PAYSLIP_SCOPE_NO_DRIVER_BINDING'')
      | Some d \<Rightarrow> Inr d)"

definition self_payslip_not_visible :: js_error where
  "self_payslip_not_visible = notFound ''SELF_PAYSLIP_NOT_VISIBLE''"

text \<open>The run and then the period of every payslip, read in one batch; runs are looked up once each.\<close>

fun periodsOfRuns ::
  "'s workforce_repository \<Rightarrow> ident list \<Rightarrow> ('s, js_error, (ident \<times> DriverPayslipPeriodView) list) stateful" where
  "periodsOfRuns R [] = ret []"
| "periodsOfRuns R (runId # ids) =
     bnd (wr_findRun R runId) (\<lambda>run.
     bnd (case run of None \<Rightarrow> ret None | Some r \<Rightarrow> wr_findPeriod R (pr_periodId r)) (\<lambda>period.
     bnd (periodsOfRuns R ids) (\<lambda>rest.
       ret ((case period of None \<Rightarrow> [] | Some p \<Rightarrow> [(runId, toDriverPayslipPeriodView p)]) @ rest))))"

definition periodOf :: "(ident \<times> DriverPayslipPeriodView) list \<Rightarrow> PayslipDetail \<Rightarrow> js_error + DriverPayslipPeriodView" where
  "periodOf periods_by_run detail =
     (case map_of periods_by_run (ps_runId (pd_payslip detail)) of
        None \<Rightarrow> Inl (notFound ''PAYROLL_RUN_NOT_FOUND'')
      | Some p \<Rightarrow> Inr p)"

definition payslip_view ::
  "(ident \<times> DriverPayslipPeriodView) list \<Rightarrow> PayslipDetail \<Rightarrow> js_error + DriverPayslipView option" where
  "payslip_view periods_by_run detail =
     rbind (periodOf periods_by_run detail) (\<lambda>p. Inr (toDriverPayslipView detail p))"

definition run_ids :: "PayslipDetail list \<Rightarrow> ident list" where
  "run_ids details = remdups (map (\<lambda>d. ps_runId (pd_payslip d)) details)"

definition listMyPayslips ::
  "'s workforce_repository \<Rightarrow> workforce_env \<Rightarrow> ident \<Rightarrow> ('s, js_error, DriverPayslipView list) stateful" where
  "listMyPayslips R env authUserId =
     bnd (lift (requireDriverBinding env authUserId)) (\<lambda>driver.
     bnd (wr_listPayslipsByDriver R driver) (\<lambda>details.
     bnd (periodsOfRuns R (run_ids details)) (\<lambda>by_run.
     bnd (lift (rmap (payslip_view by_run) details)) (\<lambda>views.
       ret (List.map_filter id views)))))"

definition getMyPayslip ::
  "'s workforce_repository \<Rightarrow> workforce_env \<Rightarrow> ident \<Rightarrow> ident \<Rightarrow> ('s, js_error, DriverPayslipView) stateful" where
  "getMyPayslip R env authUserId payslipId =
     bnd (lift (requireDriverBinding env authUserId)) (\<lambda>driver.
     bnd (wr_findPayslip R payslipId) (\<lambda>found.
       case found of
         None \<Rightarrow> throw self_payslip_not_visible
       | Some detail \<Rightarrow>
           if ps_driverId (pd_payslip detail) \<noteq> driver then throw self_payslip_not_visible
           else if \<not> isPublishableToDriver (ps_status (pd_payslip detail)) then throw self_payslip_not_visible
           else bnd (periodsOfRuns R (run_ids [detail])) (\<lambda>by_run.
                bnd (lift (payslip_view by_run detail)) (\<lambda>view.
                  case view of None \<Rightarrow> throw self_payslip_not_visible | Some v \<Rightarrow> ret v))))"

end
