(* ===== verification/KeyedRows.thy ===== *)
theory KeyedRows imports CostingPeriods begin

text \<open>
  A \<open>Map\<close> from an identifier to the row that bears it, filled with fresh identifiers only: lookups are
  searches of the rows, an insertion appends and an update replaces in place.
\<close>

definition keyed :: "('a \<Rightarrow> ident) \<Rightarrow> (ident \<times> 'a) list \<Rightarrow> nat \<Rightarrow> bool" where
  "keyed key xs n \<longleftrightarrow>
     (\<forall>(k, v) \<in> set xs. key v = k) \<and> distinct (map fst xs) \<and> fst ` set xs \<subseteq> issued n"

lemma keyed_Nil [simp]: "keyed key [] n"
  by (simp add: keyed_def)

lemma keyed_keys: "keyed key xs n \<Longrightarrow> map key (map snd xs) = map fst xs"
  by (auto simp: keyed_def)

lemma keyed_distinct: "keyed key xs n \<Longrightarrow> distinct (map key (map snd xs))"
  by (simp only: keyed_keys) (simp add: keyed_def)

lemma keyed_find: "keyed key xs n \<Longrightarrow> map_of xs i = List.find (\<lambda>v. key v = i) (map snd xs)"
  by (induction xs) (auto simp: keyed_def)

lemma keyed_mono: "keyed key xs n \<Longrightarrow> n \<le> m \<Longrightarrow> keyed key xs m"
  using issued_mono [of n m] by (auto simp: keyed_def)

lemma keyed_fresh: "keyed key xs n \<Longrightarrow> v \<in> set (map snd xs) \<Longrightarrow> key v \<noteq> uuid n"
proof -
  assume k: "keyed key xs n" and v: "v \<in> set (map snd xs)"
  then obtain i where "(i, v) \<in> set xs" by auto
  with k have "key v \<in> issued n" by (force simp: keyed_def)
  then show ?thesis by auto
qed

lemma keyed_insert:
  assumes "keyed key xs n" "key v = uuid n"
  shows "AList.update (uuid n) v xs = xs @ [(uuid n, v)]" "keyed key (xs @ [(uuid n, v)]) (Suc n)"
proof -
  have f: "uuid n \<notin> fst ` set xs" using assms(1) by (auto simp: keyed_def issued_def)
  then show "AList.update (uuid n) v xs = xs @ [(uuid n, v)]" by (rule AList_update_fresh)
  show "keyed key (xs @ [(uuid n, v)]) (Suc n)"
    using keyed_mono [OF assms(1), of "Suc n"] f assms(2) by (auto simp: keyed_def issued_def)
qed

lemma keyed_update:
  assumes "keyed key xs n" "map_of xs i = Some c" "key v = i"
  shows "map snd (AList.update i v xs) = map (\<lambda>w. if key w = i then v else w) (map snd xs)"
    "keyed key (AList.update i v xs) n"
proof -
  have d: "distinct (map fst xs)" using assms(1) by (simp add: keyed_def)
  note u = update_existing [OF assms(2) d, of v]
  show "map snd (AList.update i v xs) = map (\<lambda>w. if key w = i then v else w) (map snd xs)"
    using assms(1) unfolding u by (auto simp: keyed_def)
  have "map fst (AList.update i v xs) = map fst xs" unfolding u by auto
  then have "distinct (map fst (AList.update i v xs))" "fst ` set (AList.update i v xs) = fst ` set xs"
    using d by (simp_all flip: set_map)
  then show "keyed key (AList.update i v xs) n"
    using assms(1,3) unfolding keyed_def u by auto
qed

lemma find_of_map: "List.find P (map f xs) = map_option f (List.find (\<lambda>x. P (f x)) xs)"
  by (induction xs) auto

lemma map2_first: "(\<And>a k. f a k = g a) \<Longrightarrow> length ys = length xs \<Longrightarrow> map2 f xs ys = map g xs"
proof (induction xs arbitrary: ys)
  case (Cons x xs)
  then show ?case by (cases ys) simp_all
qed simp

end
