(* ===== verification/WorkforceStore.thy ===== *)
theory WorkforceStore imports WorkforceService KeyedRows begin

text \<open>
  The contract of a payroll store (locale \<open>payroll_store\<close>): periods, runs and payslips with their
  components as lists in the order they were written, and what every operation does to them. The in-memory
  store satisfies it.
\<close>

section \<open>The contract\<close>

definition slip_id :: "PayslipDetail \<Rightarrow> ident" where
  "slip_id d = ps_id (pd_payslip d)"

definition slip_status :: "PayslipDetail \<Rightarrow> payslip_status" where
  "slip_status d = ps_status (pd_payslip d)"

definition is_reversal_of :: "ident \<Rightarrow> PayslipDetail \<Rightarrow> bool" where
  "is_reversal_of i d \<longleftrightarrow> ps_kind (pd_payslip d) = PAYSLIP_REVERSAL \<and> ps_correctsId (pd_payslip d) = Some i"

text \<open>A payslip that was written from an input.\<close>

definition written :: "ident \<Rightarrow> (timestamp \<times> string) option \<Rightarrow> PayslipWriteInput \<Rightarrow> PayslipDetail \<Rightarrow> bool" where
  "written runId posting inp d \<longleftrightarrow>
     (\<exists>i tm. pd_payslip d = payslip_row runId inp posting i tm) \<and>
     map component_draft (pd_components d) = pw_components inp"

definition with_payslip :: "ident \<Rightarrow> (Payslip \<Rightarrow> Payslip) \<Rightarrow> PayslipDetail list \<Rightarrow> PayslipDetail list" where
  "with_payslip i f ds = map (\<lambda>d. if slip_id d = i then d\<lparr>pd_payslip := f (pd_payslip d)\<rparr> else d) ds"

definition reversed_payslip :: "timestamp \<Rightarrow> Payslip \<Rightarrow> Payslip" where
  "reversed_payslip tm p = p\<lparr>ps_status := PAYSLIP_REVERSED, ps_updatedAt := tm\<rparr>"

locale payroll_store =
  fixes R :: "'s workforce_repository"
    and periods_of :: "'s \<Rightarrow> PayrollPeriod list"
    and runs_of :: "'s \<Rightarrow> PayrollRun list"
    and slips_of :: "'s \<Rightarrow> PayslipDetail list"
    and pinv :: "'s \<Rightarrow> bool"
  assumes unique: "pinv s \<Longrightarrow> distinct (map slip_id (slips_of s)) \<and> distinct (map pp_id (periods_of s)) \<and>
      distinct (map pr_id (runs_of s))"
    and find_slip: "pinv s \<Longrightarrow> wr_findPayslip R i s = (Inr (List.find (\<lambda>d. slip_id d = i) (slips_of s)), s)"
    and find_run: "pinv s \<Longrightarrow> wr_findRun R i s = (Inr (List.find (\<lambda>r. pr_id r = i) (runs_of s)), s)"
    and find_period: "pinv s \<Longrightarrow> wr_findPeriod R i s = (Inr (List.find (\<lambda>p. pp_id p = i) (periods_of s)), s)"
    and list_driver: "pinv s \<Longrightarrow>
      wr_listPayslipsByDriver R driver s = (Inr (filter (\<lambda>d. ps_driverId (pd_payslip d) = driver) (slips_of s)), s)"
    and open_overlapping: "pinv s \<Longrightarrow>
      list_ex (period_overlaps (oi_startDate oin) (oi_endDate oin)) (periods_of s) \<Longrightarrow>
      wr_openPeriod R oin s = (Inr None, s)"
    and open_free: "pinv s \<Longrightarrow>
      \<not> list_ex (period_overlaps (oi_startDate oin) (oi_endDate oin)) (periods_of s) \<Longrightarrow>
      \<exists>i tm s'. wr_openPeriod R oin s = (Inr (Some (period_row oin i tm)), s') \<and> pinv s' \<and>
        periods_of s' = periods_of s @ [period_row oin i tm] \<and> runs_of s' = runs_of s \<and> slips_of s' = slips_of s"
    and close_unknown: "pinv s \<Longrightarrow> List.find (\<lambda>p. pp_id p = i) (periods_of s) = None \<Longrightarrow>
      wr_closePeriod R i cin s = (Inr None, s)"
    and close_known: "pinv s \<Longrightarrow> List.find (\<lambda>p. pp_id p = i) (periods_of s) = Some p \<Longrightarrow>
      \<exists>tm s'. wr_closePeriod R i cin s = (Inr (Some (closed_period p cin tm)), s') \<and> pinv s' \<and>
        periods_of s' = map (\<lambda>q. if pp_id q = i then closed_period p cin tm else q) (periods_of s) \<and>
        runs_of s' = runs_of s \<and> slips_of s' = slips_of s"
    and run_unknown: "pinv s \<Longrightarrow> List.find (\<lambda>p. pp_id p = rr_periodId rin) (periods_of s) = None \<Longrightarrow>
      wr_recordRun R rin s = (Inr PERIOD_NOT_FOUND, s)"
    and run_closed: "pinv s \<Longrightarrow> List.find (\<lambda>p. pp_id p = rr_periodId rin) (periods_of s) = Some p \<Longrightarrow>
      pp_status p = PAYROLL_CLOSED \<Longrightarrow> wr_recordRun R rin s = (Inr PERIOD_CLOSED, s)"
    and run_open: "pinv s \<Longrightarrow> List.find (\<lambda>p. pp_id p = rr_periodId rin) (periods_of s) = Some p \<Longrightarrow>
      pp_status p \<noteq> PAYROLL_CLOSED \<Longrightarrow>
      \<exists>i tm ds s'. wr_recordRun R rin s = (Inr (RUN_RECORDED (run_row rin i
          (int (length (filter (\<lambda>r. pr_periodId r = rr_periodId rin) (runs_of s))) + 1) tm) (map pd_payslip ds)), s') \<and>
        pinv s' \<and> periods_of s' = periods_of s \<and>
        runs_of s' = runs_of s @ [run_row rin i
          (int (length (filter (\<lambda>r. pr_periodId r = rr_periodId rin) (runs_of s))) + 1) tm] \<and>
        slips_of s' = slips_of s @ ds \<and> list_all2 (written i None) (rr_payslips rin) ds"
    and move_unknown: "pinv s \<Longrightarrow> List.find (\<lambda>d. slip_id d = i) (slips_of s) = None \<Longrightarrow>
      wr_transitionPayslip R i old tin s = (Inr PAYSLIP_NOT_FOUND, s)"
    and move_stale: "pinv s \<Longrightarrow> List.find (\<lambda>d. slip_id d = i) (slips_of s) = Some d \<Longrightarrow> slip_status d \<noteq> old \<Longrightarrow>
      wr_transitionPayslip R i old tin s = (Inr (REJECTED (slip_status d)), s)"
    and move_done: "pinv s \<Longrightarrow> List.find (\<lambda>d. slip_id d = i) (slips_of s) = Some d \<Longrightarrow> slip_status d = old \<Longrightarrow>
      \<exists>tm s'. wr_transitionPayslip R i old tin s = (Inr (MOVED (moved_payslip (pd_payslip d) tin tm)), s') \<and>
        pinv s' \<and> periods_of s' = periods_of s \<and> runs_of s' = runs_of s \<and>
        slips_of s' = with_payslip i (\<lambda>p. moved_payslip p tin tm) (slips_of s)"
    and correct_unknown: "pinv s \<Longrightarrow> List.find (\<lambda>d. slip_id d = ic_correctsId inp) (slips_of s) = None \<Longrightarrow>
      wr_issueCorrection R inp s = (Inr CORRECTED_NOT_FOUND, s)"
    and correct_refused: "pinv s \<Longrightarrow> List.find (\<lambda>d. slip_id d = ic_correctsId inp) (slips_of s) = Some d \<Longrightarrow>
      \<not> isCorrectable (slip_status d) \<Longrightarrow> wr_issueCorrection R inp s = (Inr (NOT_CORRECTABLE (slip_status d)), s)"
    and correct_again: "pinv s \<Longrightarrow> List.find (\<lambda>d. slip_id d = ic_correctsId inp) (slips_of s) = Some d \<Longrightarrow>
      isCorrectable (slip_status d) \<Longrightarrow> pw_kind (ic_payslip inp) = PAYSLIP_REVERSAL \<Longrightarrow>
      list_ex (is_reversal_of (ic_correctsId inp)) (slips_of s) \<Longrightarrow>
      wr_issueCorrection R inp s = (Inr PAYSLIP_ALREADY_REVERSED, s)"
    and correct_reverse: "pinv s \<Longrightarrow> List.find (\<lambda>d. slip_id d = ic_correctsId inp) (slips_of s) = Some d \<Longrightarrow>
      isCorrectable (slip_status d) \<Longrightarrow> pw_kind (ic_payslip inp) = PAYSLIP_REVERSAL \<Longrightarrow>
      \<not> list_ex (is_reversal_of (ic_correctsId inp)) (slips_of s) \<Longrightarrow>
      \<exists>e tm s'. wr_issueCorrection R inp s = (Inr (ISSUED (pd_payslip e)), s') \<and> pinv s' \<and>
        periods_of s' = periods_of s \<and> runs_of s' = runs_of s \<and>
        written (ic_runId inp) (Some (ic_at inp, ic_actor inp)) (correction_input inp) e \<and>
        slips_of s' = with_payslip (ic_correctsId inp) (reversed_payslip tm) (slips_of s) @ [e]"
    and correct_supplement: "pinv s \<Longrightarrow> List.find (\<lambda>d. slip_id d = ic_correctsId inp) (slips_of s) = Some d \<Longrightarrow>
      isCorrectable (slip_status d) \<Longrightarrow> pw_kind (ic_payslip inp) \<noteq> PAYSLIP_REVERSAL \<Longrightarrow>
      \<exists>e s'. wr_issueCorrection R inp s = (Inr (ISSUED (pd_payslip e)), s') \<and> pinv s' \<and>
        periods_of s' = periods_of s \<and> runs_of s' = runs_of s \<and>
        written (ic_runId inp) None (correction_input inp) e \<and> slips_of s' = slips_of s @ [e]"

section \<open>The in-memory store\<close>

definition mem_slips :: "payroll_state \<Rightarrow> PayslipDetail list" where
  "mem_slips s = map (payslip_detail s) (map snd (ws_payslips s))"

definition wf_payroll :: "payroll_state \<Rightarrow> bool" where
  "wf_payroll s \<longleftrightarrow>
     keyed pp_id (ws_periods s) (ws_next s) \<and> keyed pr_id (ws_runs s) (ws_next s) \<and>
     keyed ps_id (ws_payslips s) (ws_next s)"

lemma wf_payroll_empty: "wf_payroll empty_payroll"
  by (simp add: wf_payroll_def empty_payroll_def)

lemma slip_id_detail [simp]: "slip_id (payslip_detail s p) = ps_id p" "slip_status (payslip_detail s p) = ps_status p"
  by (simp_all add: slip_id_def slip_status_def payslip_detail_def)

lemma pd_payslip_detail [simp]: "pd_payslip (payslip_detail s p) = p"
  by (simp add: payslip_detail_def)

lemma mem_find_slip:
  assumes "wf_payroll s"
  shows "List.find (\<lambda>d. slip_id d = i) (mem_slips s) = map_option (payslip_detail s) (map_of (ws_payslips s) i)"
  using assms keyed_find [of ps_id "ws_payslips s" "ws_next s" i]
  by (simp add: wf_payroll_def mem_slips_def find_of_map option.map_comp comp_def)

lemma materialize_effect:
  assumes wf: "wf_payroll s" and m: "materialize runId inp posting s = (p, s')"
  shows "\<exists>d. wf_payroll s' \<and> ws_periods s' = ws_periods s \<and> ws_runs s' = ws_runs s \<and> ws_clock s' = ws_clock s \<and>
    p = pd_payslip d \<and> ps_id p = uuid (ws_next s) \<and> written runId posting inp d \<and> mem_slips s' = mem_slips s @ [d] \<and>
    ws_payslips s' = ws_payslips s @ [(uuid (ws_next s), p)]"
proof -
  let ?i = "uuid (ws_next s)" and ?n = "Suc (ws_next s) + length (pw_components inp)"
  let ?p = "payslip_row runId inp posting ?i (ws_clock s)"
  let ?cs = "map2 (\<lambda>c k. toComponent ?i c (ws_clock s) (uuid k)) (pw_components inp)
    [Suc (ws_next s) ..< Suc (ws_next s) + length (pw_components inp)]"
  let ?d = "\<lparr>pd_payslip = ?p, pd_components = ?cs\<rparr>"
  have k: "keyed ps_id (ws_payslips s) (ws_next s)" using wf by (simp add: wf_payroll_def)
  have id: "ps_id ?p = ?i" by (simp add: payslip_row_def)
  note ins = keyed_insert [OF k id]
  from m have p: "p = ?p" and s': "s' = s\<lparr>ws_payslips := ws_payslips s @ [(?i, ?p)],
      ws_components := AList.update ?i ?cs (ws_components s), ws_next := ?n\<rparr>"
    by (auto simp: materialize_def Let_def ins(1) simp del: upt_Suc)
  have other: "payslip_detail s' q = payslip_detail s q" if "q \<in> set (map snd (ws_payslips s))" for q
    using keyed_fresh [OF k that] by (simp add: payslip_detail_def s' update_conv')
  have new: "payslip_detail s' ?p = ?d" by (simp add: payslip_detail_def s' update_conv' id)
  have "mem_slips s' = map (payslip_detail s') (map snd (ws_payslips s)) @ [payslip_detail s' ?p]"
    by (simp add: mem_slips_def s')
  also have "\<dots> = mem_slips s @ [?d]"
    using other new by (simp add: mem_slips_def)
  finally have "mem_slips s' = mem_slips s @ [?d]" .
  moreover have "wf_payroll s'"
    using wf keyed_mono [OF ins(2), of ?n] keyed_mono [of pp_id "ws_periods s" "ws_next s" ?n]
      keyed_mono [of pr_id "ws_runs s" "ws_next s" ?n]
    by (simp add: wf_payroll_def s')
  moreover have "map component_draft ?cs = pw_components inp"
    unfolding map_map comp_def case_prod_unfold
    using map2_first [of "\<lambda>c k. component_draft (toComponent ?i c (ws_clock s) (uuid k))" id
        "[Suc (ws_next s) ..< Suc (ws_next s) + length (pw_components inp)]" "pw_components inp"]
    by (simp add: component_draft_def toComponent_def case_prod_unfold del: upt_Suc)
  then have "written runId posting inp ?d"
    by (auto simp: written_def)
  ultimately show ?thesis
    using id by (intro exI [of _ ?d]) (simp add: p s')
qed

lemma materialize_all_effect:
  "wf_payroll s \<Longrightarrow> materialize_all runId inps s = (ps, s') \<Longrightarrow>
   \<exists>ds. wf_payroll s' \<and> ws_periods s' = ws_periods s \<and> ws_runs s' = ws_runs s \<and>
     ps = map pd_payslip ds \<and> mem_slips s' = mem_slips s @ ds \<and> list_all2 (written runId None) inps ds"
proof (induction inps arbitrary: s ps)
  case (Cons inp inps)
  obtain p s1 where m: "materialize runId inp None s = (p, s1)" by (metis prod.exhaust)
  obtain qs s2 where ms: "materialize_all runId inps s1 = (qs, s2)" by (metis prod.exhaust)
  from Cons.prems(2) m ms have "ps = p # qs" "s' = s2" by simp_all
  moreover from materialize_effect [OF Cons.prems(1) m] obtain d where
    "wf_payroll s1" "ws_periods s1 = ws_periods s" "ws_runs s1 = ws_runs s" "p = pd_payslip d"
    "written runId None inp d" "mem_slips s1 = mem_slips s @ [d]" by blast
  moreover from Cons.IH [OF this(1)] ms \<open>s' = s2\<close> obtain ds where
    "wf_payroll s'" "ws_periods s' = ws_periods s1" "ws_runs s' = ws_runs s1" "qs = map pd_payslip ds"
    "mem_slips s' = mem_slips s1 @ ds" "list_all2 (written runId None) inps ds" by auto
  ultimately show ?case by (intro exI [of _ "d # ds"]) simp
qed (simp add: mem_slips_def)

lemma mem_move:
  assumes wf: "wf_payroll s" and c: "map_of (ws_payslips s) i = Some c" and f: "\<And>p. ps_id (f p) = ps_id p"
  shows "wf_payroll (s\<lparr>ws_payslips := AList.update i (f c) (ws_payslips s)\<rparr>) \<and>
    mem_slips (s\<lparr>ws_payslips := AList.update i (f c) (ws_payslips s)\<rparr>) = with_payslip i f (mem_slips s)"
proof -
  let ?s = "s\<lparr>ws_payslips := AList.update i (f c) (ws_payslips s)\<rparr>"
  have k: "keyed ps_id (ws_payslips s) (ws_next s)" using wf by (simp add: wf_payroll_def)
  have id: "ps_id c = i" using k map_of_SomeD [OF c] by (auto simp: keyed_def)
  have only: "p = c" if "p \<in> set (map snd (ws_payslips s))" "ps_id p = i" for p
    using keyed_distinct [OF k] that id map_of_SomeD [OF c] by (force simp: distinct_map inj_on_def)
  note u = keyed_update [OF k c, of "f c"]
  have fid: "ps_id (f c) = i" using f id by simp
  have "mem_slips ?s = map (\<lambda>p. payslip_detail s (if ps_id p = i then f c else p)) (map snd (ws_payslips s))"
    using u(1) [OF fid] by (simp add: mem_slips_def payslip_detail_def comp_def)
  also have "\<dots> = with_payslip i f (mem_slips s)"
    unfolding with_payslip_def mem_slips_def map_map comp_def
    using only f by (intro map_cong refl) (auto simp: payslip_detail_def slip_id_def)
  finally show ?thesis using wf u(2) [OF fid] by (simp add: wf_payroll_def)
qed

lemma mem_open:
  assumes wf: "wf_payroll s"
    and free: "\<not> list_ex (period_overlaps (oi_startDate oin) (oi_endDate oin)) (map snd (ws_periods s))"
  shows "\<exists>i tm s'. mem_openPeriod oin s = (Inr (Some (period_row oin i tm)), s') \<and> wf_payroll s' \<and>
    map snd (ws_periods s') = map snd (ws_periods s) @ [period_row oin i tm] \<and> map snd (ws_runs s') = map snd (ws_runs s) \<and>
    mem_slips s' = mem_slips s"
proof -
  let ?i = "uuid (ws_next s)" and ?p = "period_row oin (uuid (ws_next s)) (ws_clock s)"
  have k: "keyed pp_id (ws_periods s) (ws_next s)" using wf by (simp add: wf_payroll_def)
  have "pp_id ?p = ?i" by (simp add: period_row_def)
  note ins = keyed_insert [OF k this]
  let ?s = "s\<lparr>ws_periods := ws_periods s @ [(?i, ?p)], ws_next := Suc (ws_next s)\<rparr>"
  have "mem_openPeriod oin s = (Inr (Some ?p), ?s)"
    using free by (simp add: mem_openPeriod_def Let_def ins(1))
  moreover have "wf_payroll ?s"
    using wf ins(2) keyed_mono [of pr_id "ws_runs s" "ws_next s" "Suc (ws_next s)"]
      keyed_mono [of ps_id "ws_payslips s" "ws_next s" "Suc (ws_next s)"]
    by (simp add: wf_payroll_def)
  moreover have "mem_slips ?s = mem_slips s" by (simp add: mem_slips_def payslip_detail_def)
  ultimately show ?thesis by (intro exI [of _ ?i] exI [of _ "ws_clock s"] exI [of _ ?s]) simp
qed

lemma mem_close:
  assumes wf: "wf_payroll s" and p: "map_of (ws_periods s) i = Some p"
  shows "\<exists>tm s'. mem_closePeriod i cin s = (Inr (Some (closed_period p cin tm)), s') \<and> wf_payroll s' \<and>
    map snd (ws_periods s') = map (\<lambda>q. if pp_id q = i then closed_period p cin tm else q) (map snd (ws_periods s)) \<and>
    map snd (ws_runs s') = map snd (ws_runs s) \<and> mem_slips s' = mem_slips s"
proof -
  have k: "keyed pp_id (ws_periods s) (ws_next s)" using wf by (simp add: wf_payroll_def)
  let ?c = "closed_period p cin (ws_clock s)"
  let ?s = "s\<lparr>ws_periods := AList.update i ?c (ws_periods s)\<rparr>"
  have "pp_id ?c = i" using k map_of_SomeD [OF p] by (auto simp: keyed_def closed_period_def)
  note u = keyed_update [OF k p this]
  have "mem_closePeriod i cin s = (Inr (Some ?c), ?s)" by (simp add: mem_closePeriod_def p Let_def)
  moreover have "wf_payroll ?s" using wf u(2) by (simp add: wf_payroll_def)
  moreover have "mem_slips ?s = mem_slips s" by (simp add: mem_slips_def payslip_detail_def)
  ultimately show ?thesis
    using u(1) by (intro exI [of _ "ws_clock s"] exI [of _ ?s]) simp
qed

lemma mem_run:
  assumes wf: "wf_payroll s" and p: "map_of (ws_periods s) (rr_periodId rin) = Some p" "pp_status p \<noteq> PAYROLL_CLOSED"
  shows "\<exists>i tm ds s'. mem_recordRun rin s = (Inr (RUN_RECORDED (run_row rin i
      (int (length (filter (\<lambda>r. pr_periodId r = rr_periodId rin) (map snd (ws_runs s)))) + 1) tm) (map pd_payslip ds)), s') \<and>
    wf_payroll s' \<and> map snd (ws_periods s') = map snd (ws_periods s) \<and>
    map snd (ws_runs s') = map snd (ws_runs s) @ [run_row rin i
      (int (length (filter (\<lambda>r. pr_periodId r = rr_periodId rin) (map snd (ws_runs s)))) + 1) tm] \<and>
    mem_slips s' = mem_slips s @ ds \<and> list_all2 (written i None) (rr_payslips rin) ds"
proof -
  let ?i = "uuid (ws_next s)"
  let ?n = "int (length (filter (\<lambda>r. pr_periodId r = rr_periodId rin) (map snd (ws_runs s)))) + 1"
  let ?r = "run_row rin ?i ?n (ws_clock s)"
  let ?s1 = "s\<lparr>ws_runs := ws_runs s @ [(?i, ?r)], ws_next := Suc (ws_next s)\<rparr>"
  have k: "keyed pr_id (ws_runs s) (ws_next s)" using wf by (simp add: wf_payroll_def)
  have "pr_id ?r = ?i" by (simp add: run_row_def)
  note ins = keyed_insert [OF k this]
  have wf1: "wf_payroll ?s1"
    using wf ins(2) keyed_mono [of pp_id "ws_periods s" "ws_next s" "Suc (ws_next s)"]
      keyed_mono [of ps_id "ws_payslips s" "ws_next s" "Suc (ws_next s)"]
    by (simp add: wf_payroll_def)
  have slips1: "mem_slips ?s1 = mem_slips s" by (simp add: mem_slips_def payslip_detail_def)
  obtain ps s' where m: "materialize_all ?i (rr_payslips rin) ?s1 = (ps, s')" by (metis prod.exhaust)
  from materialize_all_effect [OF wf1 m] obtain ds where
    ds: "wf_payroll s'" "ws_periods s' = ws_periods s" "ws_runs s' = ws_runs ?s1" "ps = map pd_payslip ds"
      "mem_slips s' = mem_slips ?s1 @ ds" "list_all2 (written ?i None) (rr_payslips rin) ds" by auto
  have "mem_recordRun rin s = (Inr (RUN_RECORDED ?r ps), s')"
    using p m by (simp add: mem_recordRun_def Let_def ins(1) [simplified])
  then show ?thesis
    using ds slips1
    by (intro exI [of _ ?i] exI [of _ "ws_clock s"] exI [of _ ds] exI [of _ s']) simp
qed

lemma mem_moved_again:
  "with_payslip i f ds @ es = with_payslip i f (ds @ es)" if "\<And>d. d \<in> set es \<Longrightarrow> slip_id d \<noteq> i"
  using that by (induction es) (auto simp: with_payslip_def)

lemma mem_correct:
  assumes wf: "wf_payroll s" and target: "map_of (ws_payslips s) (ic_correctsId inp) = Some c"
    and ok: "isCorrectable (ps_status c)"
    and new: "\<not> (pw_kind (ic_payslip inp) = PAYSLIP_REVERSAL \<and>
      list_ex (is_reversal_of (ic_correctsId inp)) (mem_slips s))"
  shows "\<exists>e tm s'. mem_issueCorrection inp s = (Inr (ISSUED (pd_payslip e)), s') \<and> wf_payroll s' \<and>
    map snd (ws_periods s') = map snd (ws_periods s) \<and> map snd (ws_runs s') = map snd (ws_runs s) \<and>
    written (ic_runId inp) (if pw_kind (ic_payslip inp) = PAYSLIP_REVERSAL then Some (ic_at inp, ic_actor inp) else None)
      (correction_input inp) e \<and>
    mem_slips s' = (if pw_kind (ic_payslip inp) = PAYSLIP_REVERSAL
      then with_payslip (ic_correctsId inp) (reversed_payslip tm) (mem_slips s) else mem_slips s) @ [e]"
proof -
  let ?posting = "if pw_kind (ic_payslip inp) = PAYSLIP_REVERSAL then Some (ic_at inp, ic_actor inp) else None"
  let ?i = "ic_correctsId inp"
  obtain p s1 where m: "materialize (ic_runId inp) (correction_input inp) ?posting s = (p, s1)" by (metis prod.exhaust)
  from materialize_effect [OF wf m] obtain e where
    e: "wf_payroll s1" "ws_periods s1 = ws_periods s" "ws_runs s1 = ws_runs s" "ws_clock s1 = ws_clock s"
      "p = pd_payslip e" "ps_id p = uuid (ws_next s)" "written (ic_runId inp) ?posting (correction_input inp) e"
      "mem_slips s1 = mem_slips s @ [e]" "ws_payslips s1 = ws_payslips s @ [(uuid (ws_next s), p)]" by blast
  have k: "keyed ps_id (ws_payslips s) (ws_next s)" using wf by (simp add: wf_payroll_def)
  have id: "ps_id c = ?i" using k map_of_SomeD [OF target] by (auto simp: keyed_def)
  have st: "ps_status c = APPROVED \<or> ps_status c = PAID" using ok by (simp add: isCorrectable_def)
  have seen: "list_ex (\<lambda>p. ps_kind p = PAYSLIP_REVERSAL \<and> ps_correctsId p = Some ?i) (map snd (ws_payslips s)) \<longleftrightarrow>
      list_ex (is_reversal_of ?i) (mem_slips s)"
    by (auto simp: list_ex_iff mem_slips_def is_reversal_of_def)
  have target1: "map_of (ws_payslips s1) ?i = Some c"
    using target e(9) by (simp add: map_add_def)
  have other: "slip_id d \<noteq> ?i" if "d \<in> set [e]" for d
    using keyed_fresh [OF k, of c] map_of_SomeD [OF target] id e(5,6) that by (force simp: slip_id_def)
  show ?thesis
  proof (cases "pw_kind (ic_payslip inp) = PAYSLIP_REVERSAL")
    case True
    let ?s2 = "s1\<lparr>ws_payslips := AList.update ?i (reversed_payslip (ws_clock s) c) (ws_payslips s1)\<rparr>"
    have "mem_issueCorrection inp s = (Inr (ISSUED (pd_payslip e)), ?s2)"
      using target st new m e(5) True seen id
      by (auto simp: mem_issueCorrection_def Let_def reversed_payslip_def)
    moreover have "wf_payroll ?s2 \<and> mem_slips ?s2 = with_payslip ?i (reversed_payslip (ws_clock s)) (mem_slips s1)"
      by (rule mem_move [OF e(1) target1]) (simp add: reversed_payslip_def)
    moreover have "with_payslip ?i (reversed_payslip (ws_clock s)) (mem_slips s1) =
        with_payslip ?i (reversed_payslip (ws_clock s)) (mem_slips s) @ [e]"
      unfolding e(8) by (rule mem_moved_again [symmetric]) (rule other)
    ultimately show ?thesis
      using e True by (intro exI [of _ e] exI [of _ "ws_clock s"] exI [of _ ?s2]) simp
  next
    case False
    then have "mem_issueCorrection inp s = (Inr (ISSUED (pd_payslip e)), s1)"
      using target st m e(5) by (auto simp: mem_issueCorrection_def Let_def)
    with False e show ?thesis by (intro exI [of _ e] exI [of _ 0] exI [of _ s1]) simp
  qed
qed

lemma period_lookup: "wf_payroll s \<Longrightarrow> map_of (ws_periods s) i = List.find (\<lambda>p. pp_id p = i) (map snd (ws_periods s))"
  by (rule keyed_find [where n = "ws_next s"]) (simp add: wf_payroll_def)

lemmas workforce_sel = InMemoryWorkforceRepository_def workforce_repository.simps

interpretation mem_payroll: payroll_store InMemoryWorkforceRepository "\<lambda>s. map snd (ws_periods s)"
  "\<lambda>s. map snd (ws_runs s)" mem_slips wf_payroll
proof (unfold_locales, goal_cases)
  case (1 s)
  then have "distinct (map ps_id (map snd (ws_payslips s)))" by (auto simp only: wf_payroll_def intro: keyed_distinct)
  then have "distinct (map slip_id (mem_slips s))" by (simp add: mem_slips_def comp_def)
  moreover have "distinct (map pp_id (map snd (ws_periods s)))" "distinct (map pr_id (map snd (ws_runs s)))"
    using 1 by (auto simp only: wf_payroll_def intro: keyed_distinct)
  ultimately show ?case by blast
next
  case (2 s i)
  then show ?case by (simp only: workforce_sel mem_findPayslip_def query_def mem_find_slip)
next
  case (3 s i)
  then have "keyed pr_id (ws_runs s) (ws_next s)" by (simp only: wf_payroll_def)
  from keyed_find [OF this] show ?case by (simp only: workforce_sel query_def)
next
  case (4 s i)
  from period_lookup [OF this] show ?case by (simp only: workforce_sel query_def)
next
  case (5 s driver)
  then show ?case by (simp add: workforce_sel mem_listPayslipsByDriver_def query_def mem_slips_def filter_map comp_def)
next
  case (6 s oin)
  then show ?case by (simp only: workforce_sel mem_openPeriod_def if_True)
next
  case (7 s oin)
  from mem_open [OF this] show ?case by (simp only: workforce_sel)
next
  case (8 s i cin)
  then have "map_of (ws_periods s) i = None" using period_lookup by simp
  then show ?case by (simp add: workforce_sel mem_closePeriod_def)
next
  case (9 s i p cin)
  then have "map_of (ws_periods s) i = Some p" using period_lookup by simp
  from mem_close [OF 9(1) this] show ?case by (simp only: workforce_sel)
next
  case (10 s rin)
  then have "map_of (ws_periods s) (rr_periodId rin) = None"
    using period_lookup by simp
  then show ?case by (simp add: workforce_sel mem_recordRun_def)
next
  case (11 s rin p)
  then have "map_of (ws_periods s) (rr_periodId rin) = Some p"
    using period_lookup by simp
  then show ?case using 11(3) by (simp add: workforce_sel mem_recordRun_def)
next
  case (12 s rin p)
  then have "map_of (ws_periods s) (rr_periodId rin) = Some p"
    using period_lookup by simp
  from mem_run [OF 12(1) this 12(3)] show ?case by (simp only: workforce_sel)
next
  case (13 s i old tin)
  then have "map_of (ws_payslips s) i = None" by (simp add: mem_find_slip)
  then show ?case by (simp add: workforce_sel mem_transitionPayslip_def)
next
  case (14 s i d old tin)
  then obtain c where "map_of (ws_payslips s) i = Some c" "d = payslip_detail s c" by (auto simp: mem_find_slip)
  with 14(3) show ?case by (simp add: workforce_sel mem_transitionPayslip_def)
next
  case (15 s i d old tin)
  then obtain c where c: "map_of (ws_payslips s) i = Some c" "d = payslip_detail s c" by (auto simp: mem_find_slip)
  have "wf_payroll (s\<lparr>ws_payslips := AList.update i (moved_payslip c tin (ws_clock s)) (ws_payslips s)\<rparr>) \<and>
      mem_slips (s\<lparr>ws_payslips := AList.update i (moved_payslip c tin (ws_clock s)) (ws_payslips s)\<rparr>) =
        with_payslip i (\<lambda>p. moved_payslip p tin (ws_clock s)) (mem_slips s)"
    by (rule mem_move [OF 15(1) c(1)]) (simp add: moved_payslip_def)
  with 15(3) c show ?case
    by (intro exI [of _ "ws_clock s"]
        exI [of _ "s\<lparr>ws_payslips := AList.update i (moved_payslip c tin (ws_clock s)) (ws_payslips s)\<rparr>"])
      (simp add: workforce_sel mem_transitionPayslip_def Let_def)
next
  case (16 s inp)
  then have "map_of (ws_payslips s) (ic_correctsId inp) = None" by (simp add: mem_find_slip)
  then show ?case by (simp add: workforce_sel mem_issueCorrection_def)
next
  case (17 s inp d)
  then obtain c where "map_of (ws_payslips s) (ic_correctsId inp) = Some c" "d = payslip_detail s c"
    by (auto simp: mem_find_slip)
  with 17(3) show ?case by (simp add: workforce_sel mem_issueCorrection_def isCorrectable_def)
next
  case (18 s inp d)
  then obtain c where "map_of (ws_payslips s) (ic_correctsId inp) = Some c" "d = payslip_detail s c"
    by (auto simp: mem_find_slip)
  moreover have "list_ex (\<lambda>p. ps_kind p = PAYSLIP_REVERSAL \<and> ps_correctsId p = Some (ic_correctsId inp))
      (map snd (ws_payslips s))"
    using 18(5) by (auto simp: list_ex_iff mem_slips_def is_reversal_of_def)
  ultimately show ?case using 18(3,4) by (auto simp: workforce_sel mem_issueCorrection_def isCorrectable_def)
next
  case (19 s inp d)
  then obtain c where c: "map_of (ws_payslips s) (ic_correctsId inp) = Some c" "d = payslip_detail s c"
    by (auto simp: mem_find_slip)
  from mem_correct [OF 19(1) c(1)] 19 c(2) show ?case by (simp add: workforce_sel)
next
  case (20 s inp d)
  then obtain c where c: "map_of (ws_payslips s) (ic_correctsId inp) = Some c" "d = payslip_detail s c"
    by (auto simp: mem_find_slip)
  from mem_correct [OF 20(1) c(1)] 20 c(2) show ?case by (simp add: workforce_sel)
qed

end
