(* ===== verification/PayrollLedger.thy ===== *)
theory PayrollLedger imports WorkforceStore begin

text \<open>
  The abstract ledger of payslips: four kinds of writes, the invariant they keep (amounts derived from the
  components, one reversal per reversed payslip and of the opposite amount, posted payslips signed), and
  what no write ever changes of a payslip that exists.
\<close>

section \<open>Writes\<close>

definition original_input :: "PayslipWriteInput \<Rightarrow> bool" where
  "original_input inp \<longleftrightarrow>
     pw_kind inp = PAYSLIP_ORIGINAL \<and> pw_correctsId inp = None \<and>
     (\<exists>draft. draft_ok draft \<and> inp = toWriteInput draft PAYSLIP_ORIGINAL None None)"

inductive slip_write :: "PayslipDetail list \<Rightarrow> PayslipDetail list \<Rightarrow> bool" where
  run_written: "list_all2 (written i None) inps es \<Longrightarrow> \<forall>inp \<in> set inps. original_input inp \<Longrightarrow>
    slip_write ds (ds @ es)"
| slip_moved: "List.find (\<lambda>d. slip_id d = i) ds = Some d \<Longrightarrow> payslip_edge (slip_status d) (ti_to tin) \<Longrightarrow>
    ti_to tin \<noteq> PAYSLIP_REVERSED \<Longrightarrow> slip_write ds (with_payslip i (\<lambda>p. moved_payslip p tin tm) ds)"
| supplement_written: "List.find (\<lambda>d. slip_id d = i) ds = Some d \<Longrightarrow> isCorrectable (slip_status d) \<Longrightarrow>
    draft_ok draft \<Longrightarrow> pd_driverId draft = ps_driverId (pd_payslip d) \<Longrightarrow>
    written (ps_runId (pd_payslip d)) None (toWriteInput draft SUPPLEMENTAL (Some i) why) e \<Longrightarrow>
    slip_write ds (ds @ [e])"
| slip_reversed: "List.find (\<lambda>d. slip_id d = i) ds = Some d \<Longrightarrow> isCorrectable (slip_status d) \<Longrightarrow>
    \<not> list_ex (is_reversal_of i) ds \<Longrightarrow>
    written (ps_runId (pd_payslip d)) (Some posting)
      (toWriteInput (reversalOf (base_draft d) actor) PAYSLIP_REVERSAL (Some i) why) e \<Longrightarrow>
    slip_write ds (with_payslip i (reversed_payslip tm) ds @ [e])"

section \<open>What stays\<close>

text \<open>Everything but the status, its signatures and the time of the last change.\<close>

definition fixed_part :: "Payslip \<Rightarrow> Payslip" where
  "fixed_part p = p\<lparr>ps_status := DRAFT, ps_approvedAt := None, ps_approvedBy := None, ps_paidAt := None,
     ps_paidBy := None, ps_updatedAt := 0\<rparr>"

definition slip_evolves :: "PayslipDetail \<Rightarrow> PayslipDetail \<Rightarrow> bool" where
  "slip_evolves d e \<longleftrightarrow>
     pd_components e = pd_components d \<and> fixed_part (pd_payslip e) = fixed_part (pd_payslip d) \<and>
     payslip_edge\<^sup>*\<^sup>* (slip_status d) (slip_status e)"

definition evolves :: "PayslipDetail list \<Rightarrow> PayslipDetail list \<Rightarrow> bool" where
  "evolves ds ds' \<longleftrightarrow> (\<exists>kept new. ds' = kept @ new \<and> list_all2 slip_evolves ds kept)"

lemma slip_evolves_refl [simp]: "slip_evolves d d"
  by (simp add: slip_evolves_def)

lemma evolves_refl [simp]: "evolves ds ds"
  unfolding evolves_def by (intro exI [of _ ds] exI [of _ "[]"]) (simp add: list_all2_refl)

lemma evolves_append [simp]: "evolves ds (ds @ es)"
  unfolding evolves_def by (intro exI [of _ ds] exI [of _ es]) (simp add: list_all2_refl)

lemma slip_evolves_trans: "slip_evolves d e \<Longrightarrow> slip_evolves e f \<Longrightarrow> slip_evolves d f"
  by (auto simp: slip_evolves_def)

lemma evolves_trans:
  assumes "evolves as bs" "evolves bs cs"
  shows "evolves as cs"
proof -
  from assms(1) obtain k n where b: "bs = k @ n" "list_all2 slip_evolves as k" by (auto simp: evolves_def)
  from assms(2) obtain k2 n2 where c: "cs = k2 @ n2" "list_all2 slip_evolves bs k2" by (auto simp: evolves_def)
  from c(2) obtain k3 n3 where k: "k2 = k3 @ n3" "list_all2 slip_evolves k k3"
    unfolding b(1) by (auto simp: list_all2_append1)
  from list_all2_trans [OF slip_evolves_trans b(2) k(2)] show ?thesis
    unfolding evolves_def c(1) k(1) by (intro exI [of _ k3] exI [of _ "n3 @ n2"]) simp
qed

lemma fixed_fields:
  "fixed_part p = fixed_part q \<Longrightarrow> ps_id p = ps_id q \<and> ps_runId p = ps_runId q \<and> ps_driverId p = ps_driverId q \<and>
     ps_kind p = ps_kind q \<and> ps_grossEarnings p = ps_grossEarnings q \<and> ps_totalDeductions p = ps_totalDeductions q \<and>
     ps_netAmount p = ps_netAmount q \<and> ps_correctsId p = ps_correctsId q \<and> ps_tripCount p = ps_tripCount q \<and>
     ps_distanceKm p = ps_distanceKm q \<and> ps_driverFundBalanceSnapshot p = ps_driverFundBalanceSnapshot q"
  by (cases p; cases q) (simp add: fixed_part_def)

lemma fixed_moved [simp]:
  "fixed_part (moved_payslip p tin tm) = fixed_part p" "fixed_part (reversed_payslip tm p) = fixed_part p"
  by (cases p; simp add: fixed_part_def moved_payslip_def reversed_payslip_def)+

lemma moved_status [simp]:
  "ps_status (moved_payslip p tin tm) = ti_to tin" "ps_status (reversed_payslip tm p) = PAYSLIP_REVERSED"
  by (simp_all add: moved_payslip_def reversed_payslip_def)

lemma slip_evolves_fields:
  "slip_evolves d e \<Longrightarrow> slip_id e = slip_id d \<and> base_draft e = base_draft d \<and>
     ps_runId (pd_payslip e) = ps_runId (pd_payslip d) \<and> ps_kind (pd_payslip e) = ps_kind (pd_payslip d) \<and>
     ps_correctsId (pd_payslip e) = ps_correctsId (pd_payslip d) \<and> ps_driverId (pd_payslip e) = ps_driverId (pd_payslip d) \<and>
     ps_netAmount (pd_payslip e) = ps_netAmount (pd_payslip d)"
  using fixed_fields [of "pd_payslip e" "pd_payslip d"] by (simp add: slip_evolves_def slip_id_def base_draft_def)

lemma evolves_find:
  assumes "evolves ds ds'" "List.find (\<lambda>d. slip_id d = i) ds = Some d"
  shows "\<exists>e. List.find (\<lambda>d. slip_id d = i) ds' = Some e \<and> slip_evolves d e"
proof -
  from assms(1) obtain kept new where k: "ds' = kept @ new" "list_all2 slip_evolves ds kept" by (auto simp: evolves_def)
  from k(2) assms(2) have "\<exists>e. List.find (\<lambda>d. slip_id d = i) kept = Some e \<and> slip_evolves d e"
    by (induction rule: list_all2_induct) (auto dest: slip_evolves_fields split: if_splits)
  then show ?thesis by (auto simp: k(1) find_append)
qed

lemma with_payslip_evolves:
  assumes "\<And>d. d \<in> set ds \<Longrightarrow> slip_id d = i \<Longrightarrow>
    fixed_part (f (pd_payslip d)) = fixed_part (pd_payslip d) \<and> payslip_edge (slip_status d) (ps_status (f (pd_payslip d)))"
  shows "list_all2 slip_evolves ds (with_payslip i f ds)"
  using assms unfolding with_payslip_def
  by (induction ds) (auto simp: slip_evolves_def slip_status_def)

lemma found_only:
  assumes "distinct (map slip_id ds)" "List.find (\<lambda>d. slip_id d = i) ds = Some d"
  shows "e \<in> set ds \<Longrightarrow> slip_id e = i \<Longrightarrow> e = d" "d \<in> set ds" "slip_id d = i"
  using assms find_SomeD [OF assms(2)] by (auto simp: distinct_map inj_on_def)

lemma correctable_edge: "isCorrectable s \<Longrightarrow> payslip_edge s PAYSLIP_REVERSED"
  by (cases s) (simp_all add: isCorrectable_def payslip_edge_def)

lemma slip_write_evolves:
  assumes "slip_write ds ds'" "distinct (map slip_id ds)"
  shows "evolves ds ds'"
  using assms(1)
proof cases
  case (slip_moved i d tin tm)
  have "list_all2 slip_evolves ds ds'"
    unfolding slip_moved(1)
    by (rule with_payslip_evolves) (use slip_moved(3) found_only [OF assms(2) slip_moved(2)] in auto)
  then show ?thesis unfolding evolves_def by (intro exI [of _ ds'] exI [of _ "[]"]) simp
next
  case (slip_reversed i d posting actor why e tm)
  have "list_all2 slip_evolves ds (with_payslip i (reversed_payslip tm) ds)"
    by (rule with_payslip_evolves)
      (use correctable_edge [OF slip_reversed(3)] found_only [OF assms(2) slip_reversed(2)] in auto)
  then show ?thesis by (auto simp: evolves_def slip_reversed(1))
qed simp_all

section \<open>The invariant\<close>

definition slip_signed :: "PayslipDetail \<Rightarrow> bool" where
  "slip_signed d \<longleftrightarrow>
     (slip_status d \<noteq> DRAFT \<longrightarrow> ps_approvedAt (pd_payslip d) \<noteq> None \<and> ps_approvedBy (pd_payslip d) \<noteq> None) \<and>
     (slip_status d = PAID \<longrightarrow> ps_paidAt (pd_payslip d) \<noteq> None \<and> ps_paidBy (pd_payslip d) \<noteq> None)"

text \<open>\<open>r\<close> takes back all of \<open>d\<close>, which is marked.\<close>

definition takes_back :: "PayslipDetail \<Rightarrow> PayslipDetail \<Rightarrow> bool" where
  "takes_back r d \<longleftrightarrow>
     is_reversal_of (slip_id d) r \<and> slip_status d = PAYSLIP_REVERSED \<and>
     ps_netAmount (pd_payslip r) = - ps_netAmount (pd_payslip d) \<and>
     ps_driverId (pd_payslip r) = ps_driverId (pd_payslip d)"

definition payroll_ok :: "PayslipDetail list \<Rightarrow> bool" where
  "payroll_ok ds \<longleftrightarrow>
     (\<forall>d \<in> set ds. draft_ok (base_draft d) \<and> slip_signed d) \<and>
     (\<forall>r \<in> set ds. ps_kind (pd_payslip r) = PAYSLIP_REVERSAL \<longrightarrow> (\<exists>d \<in> set ds. takes_back r d)) \<and>
     (\<forall>d \<in> set ds. slip_status d = PAYSLIP_REVERSED \<longrightarrow> list_ex (is_reversal_of (slip_id d)) ds) \<and>
     (\<forall>i. length (filter (is_reversal_of i) ds) \<le> 1)"

lemma payroll_ok_Nil: "payroll_ok []"
  by (simp add: payroll_ok_def)

lemma written_facts:
  assumes "written runId posting (toWriteInput draft kind c why) e"
  shows "base_draft e = draft" "ps_kind (pd_payslip e) = kind" "ps_correctsId (pd_payslip e) = c"
    "slip_status e = (case posting of None \<Rightarrow> DRAFT | Some _ \<Rightarrow> APPROVED)"
    "ps_driverId (pd_payslip e) = pd_driverId draft" "ps_netAmount (pd_payslip e) = pd_netAmount draft"
    "slip_signed e" "ps_runId (pd_payslip e) = runId"
  using assms
  by (auto simp: written_def toWriteInput_def payslip_row_def base_draft_def slip_status_def slip_signed_def
      split: option.splits)

lemma plain_append_ok:
  assumes ok: "payroll_ok ds"
    and es: "\<forall>e \<in> set es. draft_ok (base_draft e) \<and> slip_signed e \<and> slip_status e = DRAFT \<and>
      ps_kind (pd_payslip e) \<noteq> PAYSLIP_REVERSAL"
  shows "payroll_ok (ds @ es)"
proof -
  have "filter (is_reversal_of i) es = []" for i
    using es by (auto simp: filter_empty_conv is_reversal_of_def)
  with ok es show ?thesis unfolding payroll_ok_def by (auto 4 3)
qed

text \<open>One payslip changes its status and signatures.\<close>

lemma marked_mem:
  assumes "e \<in> set (with_payslip i f ds)"
  obtains d where "d \<in> set ds" "slip_id d \<noteq> i" "e = d"
  | d where "d \<in> set ds" "slip_id d = i" "e = d\<lparr>pd_payslip := f (pd_payslip d)\<rparr>"
  using assms by (auto simp: with_payslip_def split: if_splits)

lemma marked_same:
  assumes "fixed_part (f (pd_payslip d)) = fixed_part (pd_payslip d)"
  shows "base_draft (d\<lparr>pd_payslip := f (pd_payslip d)\<rparr>) = base_draft d"
    "slip_id (d\<lparr>pd_payslip := f (pd_payslip d)\<rparr>) = slip_id d"
    "is_reversal_of j (d\<lparr>pd_payslip := f (pd_payslip d)\<rparr>) = is_reversal_of j d"
    "ps_kind (f (pd_payslip d)) = ps_kind (pd_payslip d)"
    "ps_netAmount (f (pd_payslip d)) = ps_netAmount (pd_payslip d)"
    "ps_driverId (f (pd_payslip d)) = ps_driverId (pd_payslip d)"
  using fixed_fields [OF assms] by (simp_all add: base_draft_def slip_id_def is_reversal_of_def)

lemma marked_reversals:
  assumes "\<And>p. fixed_part (f p) = fixed_part p"
  shows "length (filter (is_reversal_of j) (with_payslip i f ds)) = length (filter (is_reversal_of j) ds)"
    "list_ex (is_reversal_of j) (with_payslip i f ds) = list_ex (is_reversal_of j) ds"
  using assms by (induction ds) (auto simp: with_payslip_def marked_same)

lemma marked_takes_back:
  assumes f: "\<And>p. fixed_part (f p) = fixed_part p" and r: "r \<in> set (with_payslip i f ds)"
    and ok: "payroll_ok ds" and rev: "ps_kind (pd_payslip r) = PAYSLIP_REVERSAL"
    and keep: "\<And>d. d \<in> set ds \<Longrightarrow> slip_id d = i \<Longrightarrow> slip_status d = PAYSLIP_REVERSED \<Longrightarrow>
      ps_status (f (pd_payslip d)) = PAYSLIP_REVERSED"
  shows "\<exists>d \<in> set (with_payslip i f ds). takes_back r d"
proof -
  let ?m = "\<lambda>d. if slip_id d = i then d\<lparr>pd_payslip := f (pd_payslip d)\<rparr> else d"
  from r obtain r0 where r0: "r0 \<in> set ds" "r = ?m r0" by (auto simp: with_payslip_def)
  have same: "is_reversal_of j (?m d) = is_reversal_of j d" "slip_id (?m d) = slip_id d"
      "ps_netAmount (pd_payslip (?m d)) = ps_netAmount (pd_payslip d)"
      "ps_driverId (pd_payslip (?m d)) = ps_driverId (pd_payslip d)"
      "ps_kind (pd_payslip (?m d)) = ps_kind (pd_payslip d)" for d j
    using marked_same [of f d, OF f] by simp_all
  have "ps_kind (pd_payslip r0) = PAYSLIP_REVERSAL" using rev same(5) [of r0] r0(2) by simp
  with ok r0(1) obtain d where d: "d \<in> set ds" "takes_back r0 d" unfolding payroll_ok_def by blast
  have "slip_status (?m d) = PAYSLIP_REVERSED"
    using d keep [OF d(1)] by (auto simp: takes_back_def slip_status_def)
  with d(2) have "takes_back (?m r0) (?m d)" unfolding takes_back_def same by simp
  moreover have "?m d \<in> set (with_payslip i f ds)" unfolding with_payslip_def set_map using d(1) by (rule imageI)
  ultimately show ?thesis unfolding r0(2) by blast
qed

lemma moved_signed:
  assumes "slip_signed d" "payslip_edge (slip_status d) (ti_to tin)" "ti_to tin \<noteq> PAYSLIP_REVERSED"
  shows "slip_signed (d\<lparr>pd_payslip := moved_payslip (pd_payslip d) tin tm\<rparr>)"
  using assms edge_not_draft [OF assms(2)]
  by (cases "slip_status d"; cases "ti_to tin")
    (auto simp: slip_signed_def slip_status_def moved_payslip_def payslip_edge_def)

lemma move_ok:
  assumes ok: "payroll_ok ds" and dist: "distinct (map slip_id ds)"
    and d: "List.find (\<lambda>d. slip_id d = i) ds = Some d"
    and edge: "payslip_edge (slip_status d) (ti_to tin)" "ti_to tin \<noteq> PAYSLIP_REVERSED"
  shows "payroll_ok (with_payslip i (\<lambda>p. moved_payslip p tin tm) ds)"
proof -
  let ?f = "\<lambda>p. moved_payslip p tin tm"
  note only = found_only [OF dist d]
  have notrev: "slip_status d \<noteq> PAYSLIP_REVERSED" using edge(1) by (auto simp: payslip_edge_def)
  have "draft_ok (base_draft e) \<and> slip_signed e \<and>
      (slip_status e = PAYSLIP_REVERSED \<longrightarrow> list_ex (is_reversal_of (slip_id e)) ds)"
    if "e \<in> set (with_payslip i ?f ds)" for e
    using that
  proof (cases rule: marked_mem)
    case (1 c)
    with ok show ?thesis by (auto simp: payroll_ok_def)
  next
    case (2 c)
    with only have "c = d" by simp
    with 2 ok edge moved_signed [of d tin tm] marked_same [of ?f d] show ?thesis
      by (simp add: payroll_ok_def slip_status_def)
  qed
  moreover have "\<exists>c \<in> set (with_payslip i ?f ds). takes_back r c"
    if "r \<in> set (with_payslip i ?f ds)" "ps_kind (pd_payslip r) = PAYSLIP_REVERSAL" for r
  proof (rule marked_takes_back [OF _ that(1) ok that(2)])
    fix c assume "c \<in> set ds" "slip_id c = i" "slip_status c = PAYSLIP_REVERSED"
    with only(1) [of c] notrev show "ps_status (?f (pd_payslip c)) = PAYSLIP_REVERSED" by blast
  qed simp
  ultimately show ?thesis
    using ok unfolding payroll_ok_def marked_reversals [of ?f, OF fixed_moved(1)] by blast
qed

lemma reversal_ok:
  assumes ok: "payroll_ok ds" and dist: "distinct (map slip_id ds)"
    and d: "List.find (\<lambda>d. slip_id d = i) ds = Some d" and c: "isCorrectable (slip_status d)"
    and none: "\<not> list_ex (is_reversal_of i) ds"
    and e: "written runId (Some posting) (toWriteInput (reversalOf (base_draft d) actor) PAYSLIP_REVERSAL (Some i) why) e"
  shows "payroll_ok (with_payslip i (reversed_payslip tm) ds @ [e])"
proof -
  let ?f = "reversed_payslip tm"
  note only = found_only [OF dist d]
  note we = written_facts [OF e]
  let ?d = "d\<lparr>pd_payslip := ?f (pd_payslip d)\<rparr>"
  have din: "?d \<in> set (with_payslip i ?f ds)" using only(2,3) by (force simp: with_payslip_def)
  have dok: "draft_ok (base_draft d)" using ok only(2) by (simp add: payroll_ok_def)
  note rev = reversalOf_ok [OF dok, of actor]
  have undone: "takes_back e ?d"
    using we rev marked_same [of ?f d] only(3)
    by (simp add: takes_back_def is_reversal_of_def slip_status_def) (simp add: base_draft_def)
  have marked: "draft_ok (base_draft x) \<and> slip_signed x \<and>
      (slip_status x = PAYSLIP_REVERSED \<longrightarrow> list_ex (is_reversal_of (slip_id x)) (ds @ [e]))"
    if "x \<in> set (with_payslip i ?f ds)" for x
    using that
  proof (cases rule: marked_mem)
    case (1 y)
    with ok show ?thesis by (auto simp: payroll_ok_def)
  next
    case (2 y)
    with only have y: "y = d" by simp
    have "slip_signed d" using ok only(2) by (simp add: payroll_ok_def)
    then have "slip_signed ?d"
      using c by (auto simp: slip_signed_def slip_status_def isCorrectable_def reversed_payslip_def)
    with 2 y dok marked_same [of ?f d] only(3) we show ?thesis by (simp add: is_reversal_of_def)
  qed
  have reversals: "list_ex (is_reversal_of j) (with_payslip i ?f ds @ [e]) = list_ex (is_reversal_of j) (ds @ [e])"
      "length (filter (is_reversal_of j) (with_payslip i ?f ds @ [e])) = length (filter (is_reversal_of j) (ds @ [e]))" for j
    using marked_reversals [of ?f j i ds] by simp_all
  have one: "length (filter (is_reversal_of j) (ds @ [e])) \<le> 1" for j
  proof (cases "j = i")
    case True
    have "filter (is_reversal_of i) ds = []" using none by (auto simp: filter_empty_conv list_ex_iff)
    with True show ?thesis by simp
  next
    case False
    with ok we show ?thesis by (simp add: payroll_ok_def is_reversal_of_def)
  qed
  have taken: "\<exists>x \<in> set (with_payslip i ?f ds). takes_back r x"
    if "r \<in> set (with_payslip i ?f ds)" "ps_kind (pd_payslip r) = PAYSLIP_REVERSAL" for r
    by (rule marked_takes_back [OF _ that(1) ok that(2)]) simp_all
  have "draft_ok (base_draft e) \<and> slip_signed e \<and> slip_status e \<noteq> PAYSLIP_REVERSED" using we rev by simp
  with marked taken undone din one show ?thesis
    unfolding payroll_ok_def reversals by (auto 4 3)
qed

lemma slip_write_ok:
  assumes "slip_write ds ds'" "distinct (map slip_id ds)" "payroll_ok ds"
  shows "payroll_ok ds'"
  using assms(1)
proof cases
  case (run_written i inps es)
  have "\<forall>e \<in> set es. draft_ok (base_draft e) \<and> slip_signed e \<and> slip_status e = DRAFT \<and>
      ps_kind (pd_payslip e) \<noteq> PAYSLIP_REVERSAL"
    using run_written(2,3)
  proof (induction rule: list_all2_induct)
    case (Cons inp inps e es)
    from Cons.prems obtain draft where "draft_ok draft" "inp = toWriteInput draft PAYSLIP_ORIGINAL None None"
      by (auto simp: original_input_def)
    with written_facts [of i None draft PAYSLIP_ORIGINAL None None e] Cons show ?case by simp
  qed simp
  from plain_append_ok [OF assms(3) this] show ?thesis by (simp add: run_written)
next
  case (slip_moved i d tin tm)
  from move_ok [OF assms(3,2) slip_moved(2-4)] show ?thesis by (simp add: slip_moved(1))
next
  case (supplement_written i d draft why e)
  from plain_append_ok [OF assms(3), of "[e]"] written_facts [OF supplement_written(6)] supplement_written
  show ?thesis by simp
next
  case (slip_reversed i d posting actor why e tm)
  from reversal_ok [OF assms(3,2) slip_reversed(2-5)] show ?thesis by (simp add: slip_reversed(1))
qed

end
