(* ===== verification/WorkforceCommands.thy ===== *)
theory WorkforceCommands imports PayrollLedger begin

text \<open>
  The payroll commands over any store that keeps its contract, with other requests running between the
  read and the write of a command: each command is quiet or performs one write of the abstract ledger, on
  the state the other requests left.
\<close>

section \<open>What the checks give\<close>

lemma assertManualComponent_Inr: "assertManualComponent c = Inr x \<Longrightarrow> manual_ok c"
  by (auto simp: assertManualComponent_def manual_ok_def js_integer_Some split: option.splits if_splits)

lemma assertManualComponents_Inr: "assertManualComponents cs = Inr x \<Longrightarrow> \<forall>c \<in> set cs. manual_ok c"
proof -
  assume "assertManualComponents cs = Inr x"
  then obtain us where "rmap assertManualComponent cs = Inr us" by (auto simp: assertManualComponents_def rbind_Inr_iff)
  then show ?thesis
    by (induction cs arbitrary: us) (auto simp: rbind_Inr_iff dest: assertManualComponent_Inr)
qed

lemma driver_payslip_original: "driver_payslip env period input d = Inr inp \<Longrightarrow> original_input inp"
proof -
  assume run: "driver_payslip env period input d = Inr inp"
  let ?m = "case map_of (rp_manualComponents input) d of None \<Rightarrow> [] | Some cs \<Rightarrow> cs"
  from run obtain x b draft where m: "assertManualComponents ?m = Inr x"
    and c: "calculatePayslip (we_policy env) (driver_input env period ?m b d) = Inr draft"
    and inp: "inp = toWriteInput draft PAYSLIP_ORIGINAL None None"
    unfolding driver_payslip_def Let_def by (auto simp: rbind_Inr_iff)
  have "\<forall>c \<in> set (pi_manualComponents (driver_input env period ?m b d)). manual_ok c"
    using assertManualComponents_Inr [OF m] by (simp add: driver_input_def Let_def)
  from calculatePayslip_ok(1) [OF c this] inp show ?thesis
    by (auto simp: original_input_def toWriteInput_def)
qed

lemma correction_draft_ok:
  assumes "correction_draft d command = Inr draft" "draft_ok (base_draft d)"
  shows "draft_ok draft \<and> pd_driverId draft = ps_driverId (pd_payslip d)"
proof (cases "cc_kind command = CORRECT_REVERSAL")
  case True
  with assms reversalOf_ok [OF assms(2), of "cc_actor command"] show ?thesis
    by (auto simp: correction_draft_def) (simp add: base_draft_def)
next
  case False
  with assms(1) obtain x i where m: "assertManualComponents (cc_components command) = Inr x"
    and c: "calculatePayslip no_policy i = Inr draft"
      "pi_manualComponents i = cc_components command" "pi_driverId i = ps_driverId (pd_payslip d)"
    by (auto simp: correction_draft_def rbind_Inr_iff)
  from calculatePayslip_ok [OF c(1)] assertManualComponents_Inr [OF m] c(2,3) show ?thesis by simp
qed

section \<open>Effects\<close>

context payroll_store
begin

abbreviation same_calendar :: "'s \<Rightarrow> 's \<Rightarrow> bool" where
  "same_calendar v u \<equiv> periods_of u = periods_of v \<and> runs_of u = runs_of v"

lemma move_effect:
  assumes inv: "pinv w" "pinv (others w)" and run: "movePayslip R others i new actor tm w = (r, u)"
  obtains (refused) e where "r = Inl e" "u = w \<or> u = others w"
  | (moved) d t where "List.find (\<lambda>d. slip_id d = i) (slips_of (others w)) = Some d"
      "payslip_edge (slip_status d) new" "pinv u" "same_calendar (others w) u"
      "r = Inr (moved_payslip (pd_payslip d) \<lparr>ti_to = new, ti_actor = actor, ti_at = tm\<rparr> t)"
      "slips_of u = with_payslip i (\<lambda>p. moved_payslip p \<lparr>ti_to = new, ti_actor = actor, ti_at = tm\<rparr> t) (slips_of (others w))"
proof (cases "List.find (\<lambda>d. slip_id d = i) (slips_of w)")
  case None
  with run inv show ?thesis by (intro refused [of "notFound ''PAYSLIP_NOT_FOUND''"])
      (auto simp: movePayslip_def bnd_eq find_slip throw_eq)
next
  case (Some d0)
  let ?tin = "\<lparr>ti_to = new, ti_actor = actor, ti_at = tm\<rparr>" and ?old = "slip_status d0"
  show ?thesis
  proof (cases "evaluatePayslipTransition ?old new = PERMITTED")
    case False
    with run inv Some show ?thesis
      by (intro refused [of "invalid (if new = PAID then ''PAYSLIP_NOT_APPROVED'' else ''PAYSLIP_NOT_DRAFT'')"])
        (auto simp: movePayslip_def bnd_eq find_slip throw_eq slip_status_def)
  next
    case True
    then have edge: "payslip_edge ?old new" by (simp add: permitted_iff)
    from run inv(1) Some True have run': "bnd (wr_transitionPayslip R i ?old ?tin) (\<lambda>outcome.
        case outcome of MOVED p \<Rightarrow> ret p | REJECTED current \<Rightarrow> throw (conflict ''PAYSLIP_ALREADY_EXISTS_FOR_RUN'')
        | PAYSLIP_NOT_FOUND \<Rightarrow> throw (notFound ''PAYSLIP_NOT_FOUND'')) (others w) = (r, u)"
      by (simp add: movePayslip_def bnd_def [of "wr_findPayslip R i"] find_slip slip_status_def)
    show ?thesis
    proof (cases "List.find (\<lambda>d. slip_id d = i) (slips_of (others w))")
      case None
      with run' move_unknown [OF inv(2) None] show ?thesis
        by (intro refused [of "notFound ''PAYSLIP_NOT_FOUND''"]) (auto simp: bnd_eq throw_eq)
    next
      case d: (Some d)
      show ?thesis
      proof (cases "slip_status d = ?old")
        case False
        with run' move_stale [OF inv(2) d False] show ?thesis
          by (intro refused [of "conflict ''PAYSLIP_ALREADY_EXISTS_FOR_RUN''"]) (auto simp: bnd_eq throw_eq)
      next
        case old: True
        from move_done [OF inv(2) d old, of ?tin] obtain t s' where
          s': "wr_transitionPayslip R i ?old ?tin (others w) = (Inr (MOVED (moved_payslip (pd_payslip d) ?tin t)), s')"
            "pinv s'" "same_calendar (others w) s'"
            "slips_of s' = with_payslip i (\<lambda>p. moved_payslip p ?tin t) (slips_of (others w))" by blast
        with run' have "r = Inr (moved_payslip (pd_payslip d) ?tin t)" "u = s'" by (auto simp: bnd_eq ret_eq)
        with s' edge old show ?thesis by (intro moved [OF d]) simp_all
      qed
    qed
  qed
qed

lemma correction_effect:
  assumes inv: "pinv w" "pinv (others w)" and ev: "evolves (slips_of w) (slips_of (others w))"
    and run: "issueCorrection R others command tm w = (r, u)"
  obtains (refused) e where "r = Inl e" "u = w \<or> u = others w"
  | (supplemented) d draft e where "List.find (\<lambda>d. slip_id d = cc_payslipId command) (slips_of (others w)) = Some d"
      "isCorrectable (slip_status d)" "cc_kind command = CORRECT_SUPPLEMENTAL" "correction_draft d command = Inr draft"
      "written (ps_runId (pd_payslip d)) None
         (toWriteInput draft SUPPLEMENTAL (Some (cc_payslipId command)) (Some (cc_reason command))) e"
      "pinv u" "same_calendar (others w) u" "r = Inr (pd_payslip e)" "slips_of u = slips_of (others w) @ [e]"
  | (reversed) d e t where "List.find (\<lambda>d. slip_id d = cc_payslipId command) (slips_of (others w)) = Some d"
      "isCorrectable (slip_status d)" "\<not> list_ex (is_reversal_of (cc_payslipId command)) (slips_of (others w))"
      "written (ps_runId (pd_payslip d)) (Some (tm, cc_actor command))
         (toWriteInput (reversalOf (base_draft d) (cc_actor command)) PAYSLIP_REVERSAL (Some (cc_payslipId command))
           (Some (cc_reason command))) e"
      "pinv u" "same_calendar (others w) u" "r = Inr (pd_payslip e)" "cc_kind command = CORRECT_REVERSAL"
      "slips_of u = with_payslip (cc_payslipId command) (reversed_payslip t) (slips_of (others w)) @ [e]"
proof (cases "List.find (\<lambda>d. slip_id d = cc_payslipId command) (slips_of w)")
  case None
  with run inv show ?thesis by (intro refused [of "notFound ''PAYSLIP_NOT_FOUND''"])
      (auto simp: issueCorrection_def bnd_eq find_slip throw_eq)
next
  case (Some d0)
  let ?i = "cc_payslipId command"
  show ?thesis
  proof (cases "isCorrectable (slip_status d0)")
    case False
    with run inv Some show ?thesis by (intro refused [of "invalid ''PAYSLIP_NOT_CORRECTABLE''"])
        (auto simp: issueCorrection_def bnd_eq find_slip throw_eq slip_status_def)
  next
    case c0: True
    show ?thesis
    proof (cases "correction_draft d0 command")
      case (Inl x)
      with run inv Some c0 show ?thesis by (intro refused [of x])
          (auto simp: issueCorrection_def bnd_eq find_slip lift_eq slip_status_def)
    next
      case draft: (Inr draft)
      let ?in = "correction_write d0 command draft tm"
      have "issueCorrection R others command tm w = bnd (wr_issueCorrection R ?in) (\<lambda>outcome.
          case outcome of ISSUED p \<Rightarrow> ret p | CORRECTED_NOT_FOUND \<Rightarrow> throw (notFound ''PAYSLIP_NOT_FOUND'')
          | NOT_CORRECTABLE current \<Rightarrow> throw (invalid ''PAYSLIP_NOT_CORRECTABLE'')
          | PAYSLIP_ALREADY_REVERSED \<Rightarrow> throw (conflict ''PAYSLIP_ALREADY_REVERSED'')) (others w)"
        using inv(1) Some c0 draft
        by (simp add: issueCorrection_def bnd_def [of "wr_findPayslip R ?i"] bnd_def [of "lift _"] lift_eq find_slip
            slip_status_def)
      with run have run': "bnd (wr_issueCorrection R ?in) (\<lambda>outcome.
          case outcome of ISSUED p \<Rightarrow> ret p | CORRECTED_NOT_FOUND \<Rightarrow> throw (notFound ''PAYSLIP_NOT_FOUND'')
          | NOT_CORRECTABLE current \<Rightarrow> throw (invalid ''PAYSLIP_NOT_CORRECTABLE'')
          | PAYSLIP_ALREADY_REVERSED \<Rightarrow> throw (conflict ''PAYSLIP_ALREADY_REVERSED'')) (others w) = (r, u)"
        by simp
      from evolves_find [OF ev Some] obtain d where
        d: "List.find (\<lambda>d. slip_id d = ?i) (slips_of (others w)) = Some d" "slip_evolves d0 d" by blast
      note same = slip_evolves_fields [OF d(2)]
      have d': "List.find (\<lambda>d. slip_id d = ic_correctsId ?in) (slips_of (others w)) = Some d"
        using d(1) by (simp add: correction_write_def)
      have win: "correction_input ?in = toWriteInput draft (correction_payslip_kind (cc_kind command)) (Some ?i)
          (Some (cc_reason command))"
        by (simp add: correction_input_def correction_write_def toWriteInput_def)
      have kind: "pw_kind (ic_payslip ?in) = correction_payslip_kind (cc_kind command)"
        by (simp add: correction_write_def toWriteInput_def)
      have fields: "ic_correctsId ?in = ?i" "ic_runId ?in = ps_runId (pd_payslip d)" "ic_at ?in = tm"
          "ic_actor ?in = cc_actor command"
        using same by (simp_all add: correction_write_def)
      have "fixed_part (pd_payslip d) = fixed_part (pd_payslip d0)" using d(2) by (simp add: slip_evolves_def)
      from fixed_fields [OF this] same have "correction_draft d command = correction_draft d0 command"
        unfolding correction_draft_def by simp
      with draft have draft_d: "correction_draft d command = Inr draft" by simp
      show ?thesis
      proof (cases "isCorrectable (slip_status d)")
        case False
        with run' correct_refused [OF inv(2) d' False] show ?thesis
          by (intro refused [of "invalid ''PAYSLIP_NOT_CORRECTABLE''"]) (auto simp: bnd_eq throw_eq)
      next
        case c: True
        show ?thesis
        proof (cases "cc_kind command")
          case CORRECT_SUPPLEMENTAL
          then have "pw_kind (ic_payslip ?in) \<noteq> PAYSLIP_REVERSAL" by (simp add: kind correction_payslip_kind_def)
          from correct_supplement [OF inv(2) d' c this] obtain e s' where
            s': "wr_issueCorrection R ?in (others w) = (Inr (ISSUED (pd_payslip e)), s')" "pinv s'"
              "same_calendar (others w) s'" "written (ic_runId ?in) None (correction_input ?in) e"
              "slips_of s' = slips_of (others w) @ [e]" by blast
          with run' have "r = Inr (pd_payslip e)" "u = s'" by (auto simp: bnd_eq ret_eq)
          with s' CORRECT_SUPPLEMENTAL draft_d c d(1) show ?thesis
            by (intro supplemented [of d draft e])
              (simp_all add: win fields correction_payslip_kind_def)
        next
          case CORRECT_REVERSAL
          then have k: "pw_kind (ic_payslip ?in) = PAYSLIP_REVERSAL" by (simp add: kind correction_payslip_kind_def)
          have dr: "draft = reversalOf (base_draft d) (cc_actor command)"
            using draft_d CORRECT_REVERSAL by (simp add: correction_draft_def)
          show ?thesis
          proof (cases "list_ex (is_reversal_of ?i) (slips_of (others w))")
            case True
            with run' correct_again [OF inv(2) d' c k] fields show ?thesis
              by (intro refused [of "conflict ''PAYSLIP_ALREADY_REVERSED''"]) (auto simp: bnd_eq throw_eq)
          next
            case False
            with correct_reverse [OF inv(2) d' c k] fields obtain e t s' where
              s': "wr_issueCorrection R ?in (others w) = (Inr (ISSUED (pd_payslip e)), s')" "pinv s'"
                "same_calendar (others w) s'"
                "written (ic_runId ?in) (Some (ic_at ?in, ic_actor ?in)) (correction_input ?in) e"
                "slips_of s' = with_payslip ?i (reversed_payslip t) (slips_of (others w)) @ [e]" by auto
            with run' have "r = Inr (pd_payslip e)" "u = s'" by (auto simp: bnd_eq ret_eq)
            moreover from s'(4) have "written (ps_runId (pd_payslip d)) (Some (tm, cc_actor command))
                (toWriteInput draft PAYSLIP_REVERSAL (Some ?i) (Some (cc_reason command))) e"
              unfolding win fields by (simp add: CORRECT_REVERSAL correction_payslip_kind_def)
            ultimately show ?thesis
              using s' CORRECT_REVERSAL c d(1) False by (intro reversed [of d e t]) (simp_all add: dr)
          qed
        qed
      qed
    qed
  qed
qed

lemma run_effect:
  assumes inv: "pinv w" "pinv (others w)" and run: "runPayroll R env others input w = (r, u)"
  obtains (refused) e where "r = Inl e" "u = w \<or> u = others w"
  | (ran) p run inps ds where "List.find (\<lambda>p. pp_id p = rp_periodId input) (periods_of (others w)) = Some p"
      "pp_status p \<noteq> PAYROLL_CLOSED" "pinv u" "periods_of u = periods_of (others w)"
      "runs_of u = runs_of (others w) @ [run]" "pr_periodId run = rp_periodId input"
      "pr_sequence run = int (length (filter (\<lambda>r. pr_periodId r = rp_periodId input) (runs_of (others w)))) + 1"
      "slips_of u = slips_of (others w) @ ds" "list_all2 (written (pr_id run) None) inps ds" "\<forall>inp \<in> set inps. original_input inp"
      "r = Inr (run, map pd_payslip ds)"
proof (cases "List.find (\<lambda>p. pp_id p = rp_periodId input) (periods_of w)")
  case None
  with run inv show ?thesis by (intro refused [of "notFound ''PAYROLL_PERIOD_NOT_FOUND''"])
      (auto simp: runPayroll_def bnd_eq find_period throw_eq)
next
  case (Some p0)
  from find_SomeD [OF Some] have id: "pp_id p0 = rp_periodId input" by simp
  show ?thesis
  proof (cases "rmap (driver_payslip env p0 input) (we_activeDrivers env)")
    case (Inl x)
    with run inv Some show ?thesis by (intro refused [of x]) (auto simp: runPayroll_def bnd_eq find_period lift_eq)
  next
    case (Inr inps)
    let ?in = "\<lparr>rr_periodId = rp_periodId input, rr_policySnapshot = we_policy env,
      rr_policyVersion = payrollPolicyVersion (we_sha256 env) (we_policy env), rr_missingInputs = missing_inputs env,
      rr_runBy = rp_runBy input, rr_payslips = inps\<rparr>"
    have "runPayroll R env others input w = bnd (wr_recordRun R ?in) (\<lambda>outcome.
        case outcome of RUN_RECORDED run ps \<Rightarrow> ret (run, ps)
        | PERIOD_NOT_FOUND \<Rightarrow> throw (notFound ''PAYROLL_PERIOD_NOT_FOUND'')
        | PERIOD_CLOSED \<Rightarrow> throw (invalid ''PAYROLL_PERIOD_CLOSED'')) (others w)"
      using inv(1) Some Inr
      by (simp add: runPayroll_def bnd_def [of "wr_findPeriod R _"] bnd_def [of "lift _"] lift_eq find_period id)
    with run have run': "bnd (wr_recordRun R ?in) (\<lambda>outcome.
        case outcome of RUN_RECORDED run ps \<Rightarrow> ret (run, ps)
        | PERIOD_NOT_FOUND \<Rightarrow> throw (notFound ''PAYROLL_PERIOD_NOT_FOUND'')
        | PERIOD_CLOSED \<Rightarrow> throw (invalid ''PAYROLL_PERIOD_CLOSED'')) (others w) = (r, u)"
      by simp
    have orig: "\<forall>inp \<in> set inps. original_input inp"
      by (rule rmap_all [OF Inr, where P = "\<lambda>_. True"]) (auto dest: driver_payslip_original)
    show ?thesis
    proof (cases "List.find (\<lambda>p. pp_id p = rp_periodId input) (periods_of (others w))")
      case None
      with run' run_unknown [OF inv(2), of ?in] show ?thesis
        by (intro refused [of "notFound ''PAYROLL_PERIOD_NOT_FOUND''"]) (auto simp: bnd_eq throw_eq)
    next
      case p: (Some p)
      show ?thesis
      proof (cases "pp_status p = PAYROLL_CLOSED")
        case True
        with run' run_closed [OF inv(2), of ?in p] p show ?thesis
          by (intro refused [of "invalid ''PAYROLL_PERIOD_CLOSED''"]) (auto simp: bnd_eq throw_eq)
      next
        case False
        from run_open [OF inv(2), of ?in p] p False obtain i t ds s' where
          s': "wr_recordRun R ?in (others w) = (Inr (RUN_RECORDED (run_row ?in i
              (int (length (filter (\<lambda>r. pr_periodId r = rp_periodId input) (runs_of (others w)))) + 1) t) (map pd_payslip ds)), s')"
            "pinv s'" "periods_of s' = periods_of (others w)"
            "runs_of s' = runs_of (others w) @ [run_row ?in i
              (int (length (filter (\<lambda>r. pr_periodId r = rp_periodId input) (runs_of (others w)))) + 1) t]"
            "slips_of s' = slips_of (others w) @ ds" "list_all2 (written i None) inps ds" by auto
        from run' s'(1) have "u = s'" "r = Inr (run_row ?in i
            (int (length (filter (\<lambda>r. pr_periodId r = rp_periodId input) (runs_of (others w)))) + 1) t, map pd_payslip ds)"
          by (auto simp: bnd_eq ret_eq)
        with s' p False orig show ?thesis
          by (intro ran [of p "run_row ?in i
              (int (length (filter (\<lambda>r. pr_periodId r = rp_periodId input) (runs_of (others w)))) + 1) t" ds inps])
            (auto simp: run_row_def)
      qed
    qed
  qed
qed

end

end
