(* ===== verification/PayrollBooks.thy ===== *)
theory PayrollBooks imports WorkforceCommands begin

text \<open>
  The payroll books as a whole (periods, runs and payslips): the four writes of the abstract system, the
  invariant every write keeps and what no write takes back. A payroll command over any store that keeps its
  contract is quiet or one such write.
\<close>

section \<open>Books\<close>

type_synonym payroll_books = "PayrollPeriod list \<times> PayrollRun list \<times> PayslipDetail list"

definition period_has :: "PayrollPeriod \<Rightarrow> business_date \<Rightarrow> bool" where
  "period_has p day \<longleftrightarrow> pp_startDate p \<le> day \<and> day \<le> pp_endDate p"

definition period_valid :: "PayrollPeriod \<Rightarrow> bool" where
  "period_valid p \<longleftrightarrow> valid_date (pp_startDate p) \<and> valid_date (pp_endDate p) \<and> pp_startDate p \<le> pp_endDate p"

definition runs_in :: "ident \<Rightarrow> PayrollRun list \<Rightarrow> PayrollRun list" where
  "runs_in i rs = filter (\<lambda>r. pr_periodId r = i) rs"

definition close_row :: "ident \<Rightarrow> ClosePayrollPeriodInput \<Rightarrow> timestamp \<Rightarrow> PayrollPeriod list \<Rightarrow> PayrollPeriod list" where
  "close_row i cin tm ps = map (\<lambda>q. if pp_id q = i then closed_period q cin tm else q) ps"

inductive books_step :: "payroll_books \<Rightarrow> payroll_books \<Rightarrow> bool" where
  period_opened: "period_valid p \<Longrightarrow> pp_status p = PAYROLL_OPEN \<Longrightarrow>
    \<not> list_ex (period_overlaps (pp_startDate p) (pp_endDate p)) ps \<Longrightarrow> books_step (ps, rs, ds) (ps @ [p], rs, ds)"
| period_closed: "List.find (\<lambda>p. pp_id p = i) ps = Some p \<Longrightarrow> books_step (ps, rs, ds) (close_row i cin tm ps, rs, ds)"
| run_recorded: "List.find (\<lambda>p. pp_id p = pr_periodId run) ps = Some p \<Longrightarrow> pp_status p = PAYROLL_OPEN \<Longrightarrow>
    pr_sequence run = int (length (runs_in (pr_periodId run) rs)) + 1 \<Longrightarrow>
    list_all2 (written (pr_id run) None) inps es \<Longrightarrow> \<forall>inp \<in> set inps. original_input inp \<Longrightarrow>
    books_step (ps, rs, ds) (ps, rs @ [run], ds @ es)"
| payslip_moved: "List.find (\<lambda>d. slip_id d = i) ds = Some d \<Longrightarrow> payslip_edge (slip_status d) (ti_to tin) \<Longrightarrow>
    ti_to tin \<noteq> PAYSLIP_REVERSED \<Longrightarrow>
    books_step (ps, rs, ds) (ps, rs, with_payslip i (\<lambda>p. moved_payslip p tin tm) ds)"
| payslip_supplemented: "List.find (\<lambda>d. slip_id d = i) ds = Some d \<Longrightarrow> isCorrectable (slip_status d) \<Longrightarrow>
    draft_ok draft \<Longrightarrow> pd_driverId draft = ps_driverId (pd_payslip d) \<Longrightarrow>
    written (ps_runId (pd_payslip d)) None (toWriteInput draft SUPPLEMENTAL (Some i) why) e \<Longrightarrow>
    books_step (ps, rs, ds) (ps, rs, ds @ [e])"
| payslip_reversed: "List.find (\<lambda>d. slip_id d = i) ds = Some d \<Longrightarrow> isCorrectable (slip_status d) \<Longrightarrow>
    \<not> list_ex (is_reversal_of i) ds \<Longrightarrow>
    written (ps_runId (pd_payslip d)) (Some posting)
      (toWriteInput (reversalOf (base_draft d) actor) PAYSLIP_REVERSAL (Some i) why) e \<Longrightarrow>
    books_step (ps, rs, ds) (ps, rs, with_payslip i (reversed_payslip tm) ds @ [e])"

inductive_cases books_stepE: "books_step (ps, rs, ds) (ps', rs', ds')"

lemma books_step_cases:
  assumes "books_step (ps, rs, ds) (ps', rs', ds')"
  obtains (period_opened) p where "ps' = ps @ [p]" "rs' = rs" "ds' = ds" "period_valid p" "pp_status p = PAYROLL_OPEN"
      "\<not> list_ex (period_overlaps (pp_startDate p) (pp_endDate p)) ps"
  | (period_closed) i cin tm where "ps' = close_row i cin tm ps" "rs' = rs" "ds' = ds"
  | (run_recorded) run p inps es where "ps' = ps" "rs' = rs @ [run]" "ds' = ds @ es"
      "List.find (\<lambda>p. pp_id p = pr_periodId run) ps = Some p" "pp_status p = PAYROLL_OPEN"
      "pr_sequence run = int (length (runs_in (pr_periodId run) rs)) + 1"
      "list_all2 (written (pr_id run) None) inps es" "\<forall>inp \<in> set inps. original_input inp"
  | (payslip_moved) i tin tm where "ps' = ps" "rs' = rs" "ds' = with_payslip i (\<lambda>p. moved_payslip p tin tm) ds"
  | (payslip_supplemented) i d draft why e where "ps' = ps" "rs' = rs" "ds' = ds @ [e]"
      "List.find (\<lambda>d. slip_id d = i) ds = Some d" "isCorrectable (slip_status d)"
      "pd_driverId draft = ps_driverId (pd_payslip d)"
      "written (ps_runId (pd_payslip d)) None (toWriteInput draft SUPPLEMENTAL (Some i) why) e"
  | (payslip_reversed) i d posting actor why e tm where "ps' = ps" "rs' = rs"
      "ds' = with_payslip i (reversed_payslip tm) ds @ [e]"
      "List.find (\<lambda>d. slip_id d = i) ds = Some d" "isCorrectable (slip_status d)"
      "written (ps_runId (pd_payslip d)) (Some posting)
        (toWriteInput (reversalOf (base_draft d) actor) PAYSLIP_REVERSAL (Some i) why) e"
  using assms by (rule books_stepE) ((rule that; assumption) | (metis that(3)))+

lemma books_step_slips: "books_step (ps, rs, ds) (ps', rs', ds') \<Longrightarrow> ds' = ds \<or> slip_write ds ds'"
  by (erule books_stepE) (auto intro: slip_write.intros)

section \<open>The invariant\<close>

text \<open>A correction names a posted payslip of the same run and the same driver; a reversal is posted itself.\<close>

definition correction_grounded :: "PayslipDetail list \<Rightarrow> PayslipDetail \<Rightarrow> bool" where
  "correction_grounded ds e \<longleftrightarrow>
     (ps_kind (pd_payslip e) = PAYSLIP_REVERSAL \<longrightarrow> isPosted (slip_status e)) \<and>
     (\<forall>i. ps_correctsId (pd_payslip e) = Some i \<longrightarrow>
       (\<exists>d \<in> set ds. slip_id d = i \<and> isPosted (slip_status d) \<and>
         ps_driverId (pd_payslip d) = ps_driverId (pd_payslip e) \<and> ps_runId (pd_payslip d) = ps_runId (pd_payslip e)))"

definition books_ok :: "payroll_books \<Rightarrow> bool" where
  "books_ok = (\<lambda>(ps, rs, ds).
     (\<forall>p \<in> set ps. period_valid p) \<and>
     (\<forall>p \<in> set ps. \<forall>q \<in> set ps. \<forall>day. period_has p day \<and> period_has q day \<longrightarrow> pp_id p = pp_id q) \<and>
     (\<forall>r \<in> set rs. pr_periodId r \<in> pp_id ` set ps) \<and>
     (\<forall>i. map pr_sequence (runs_in i rs) = map int [1 ..< Suc (length (runs_in i rs))]) \<and>
     (\<forall>d \<in> set ds. ps_runId (pd_payslip d) \<in> pr_id ` set rs) \<and>
     (\<forall>d \<in> set ds. correction_grounded ds d) \<and>
     payroll_ok ds)"

lemma books_ok_empty: "books_ok ([], [], [])"
  by (simp add: books_ok_def payroll_ok_Nil runs_in_def)

lemma runs_in_append: "runs_in i (rs @ [r]) = runs_in i rs @ (if pr_periodId r = i then [r] else [])"
  by (simp add: runs_in_def)

lemma closed_fields [simp]:
  "pp_id (closed_period p cin tm) = pp_id p" "period_valid (closed_period p cin tm) = period_valid p"
  "period_has (closed_period p cin tm) day = period_has p day" "pp_status (closed_period p cin tm) = PAYROLL_CLOSED"
  by (simp_all add: closed_period_def period_valid_def period_has_def)

lemma close_row_mem:
  assumes "q \<in> set (close_row i cin tm ps)"
  obtains p where "p \<in> set ps" "pp_id q = pp_id p" "period_valid q = period_valid p" "period_has q = period_has p"
  using assms by (auto simp: close_row_def fun_eq_iff split: if_splits)

lemma close_row_ids: "pp_id ` set (close_row i cin tm ps) = pp_id ` set ps"
  unfolding close_row_def set_map image_image by (intro image_cong) auto

lemma close_row_found:
  assumes "distinct (map pp_id ps)" "List.find (\<lambda>p. pp_id p = i) ps = Some p"
  shows "close_row i cin tm ps = map (\<lambda>q. if pp_id q = i then closed_period p cin tm else q) ps"
proof -
  have "q = p" if "q \<in> set ps" "pp_id q = i" for q
    using find_SomeD [OF assms(2)] assms(1) that by (auto simp: distinct_map inj_on_def)
  then show ?thesis by (auto simp: close_row_def)
qed

lemma overlap_of_common_day:
  "period_has p day \<Longrightarrow> period_has q day \<Longrightarrow> period_overlaps (pp_startDate p) (pp_endDate p) q"
  by (auto simp: period_has_def period_overlaps_def)

lemma list_all2_mem: "list_all2 P xs ys \<Longrightarrow> x \<in> set xs \<Longrightarrow> \<exists>y \<in> set ys. P x y"
  by (induction rule: list_all2_induct) auto

text \<open>Corrections stay grounded when payslips evolve.\<close>

lemma posted_stays: "payslip_edge\<^sup>*\<^sup>* a b \<Longrightarrow> isPosted a \<Longrightarrow> isPosted b"
  by (induction rule: rtranclp_induct) (auto simp: isPosted_def dest: edge_not_draft)

lemma evolves_mem:
  assumes "evolves ds ds'" "d \<in> set ds"
  obtains e where "e \<in> set ds'" "slip_evolves d e"
proof -
  from assms(1) obtain kept new where k: "ds' = kept @ new" "list_all2 slip_evolves ds kept" by (auto simp: evolves_def)
  from list_all2_mem [OF k(2) assms(2)] k(1) show ?thesis by (auto intro: that)
qed

lemma evolves_split:
  assumes "evolves ds ds'" "e \<in> set ds'"
  obtains (old) d where "d \<in> set ds" "slip_evolves d e" | (new) "e \<in> set (drop (length ds) ds')"
proof -
  from assms(1) obtain kept new where k: "ds' = kept @ new" "list_all2 slip_evolves ds kept" by (auto simp: evolves_def)
  have len: "length kept = length ds" using list_all2_lengthD [OF k(2)] by simp
  from k(2) have "e \<in> set kept \<Longrightarrow> \<exists>d \<in> set ds. slip_evolves d e" by (induction rule: list_all2_induct) auto
  with assms(2) k(1) len show ?thesis using that by auto
qed

lemma grounded_evolves:
  assumes "evolves ds ds'" "slip_evolves d e" "correction_grounded ds d"
  shows "correction_grounded ds' e"
  unfolding correction_grounded_def
proof (intro conjI allI impI)
  assume "ps_kind (pd_payslip e) = PAYSLIP_REVERSAL"
  with slip_evolves_fields [OF assms(2)] assms(3) have "isPosted (slip_status d)" by (simp add: correction_grounded_def)
  then show "isPosted (slip_status e)" using assms(2) posted_stays by (auto simp: slip_evolves_def)
next
  fix i assume "ps_correctsId (pd_payslip e) = Some i"
  with slip_evolves_fields [OF assms(2)] have "ps_correctsId (pd_payslip d) = Some i" by simp
  with assms(3) obtain c where c: "c \<in> set ds" "slip_id c = i" "isPosted (slip_status c)"
      "ps_driverId (pd_payslip c) = ps_driverId (pd_payslip d)" "ps_runId (pd_payslip c) = ps_runId (pd_payslip d)"
    unfolding correction_grounded_def by blast
  from evolves_mem [OF assms(1) c(1)] obtain c' where c': "c' \<in> set ds'" "slip_evolves c c'" .
  have "isPosted (slip_status c')" using c' c(3) posted_stays by (auto simp: slip_evolves_def)
  with c' c slip_evolves_fields [OF c'(2)] slip_evolves_fields [OF assms(2)]
  show "\<exists>c \<in> set ds'. slip_id c = i \<and> isPosted (slip_status c) \<and>
      ps_driverId (pd_payslip c) = ps_driverId (pd_payslip e) \<and> ps_runId (pd_payslip c) = ps_runId (pd_payslip e)"
    by (intro bexI [of _ c']) simp_all
qed


text \<open>The calendar part of the invariant.\<close>

definition calendar_ok :: "PayrollPeriod list \<Rightarrow> PayrollRun list \<Rightarrow> bool" where
  "calendar_ok ps rs \<longleftrightarrow>
     (\<forall>p \<in> set ps. period_valid p) \<and>
     (\<forall>p \<in> set ps. \<forall>q \<in> set ps. \<forall>day. period_has p day \<and> period_has q day \<longrightarrow> pp_id p = pp_id q) \<and>
     (\<forall>r \<in> set rs. pr_periodId r \<in> pp_id ` set ps) \<and>
     (\<forall>i. map pr_sequence (runs_in i rs) = map int [1 ..< Suc (length (runs_in i rs))])"

lemma books_ok_iff:
  "books_ok (ps, rs, ds) \<longleftrightarrow> calendar_ok ps rs \<and> (\<forall>d \<in> set ds. ps_runId (pd_payslip d) \<in> pr_id ` set rs) \<and>
     (\<forall>d \<in> set ds. correction_grounded ds d) \<and> payroll_ok ds"
  by (auto simp: books_ok_def calendar_ok_def)

lemma calendar_open:
  assumes "calendar_ok ps rs" "period_valid p" "\<not> list_ex (period_overlaps (pp_startDate p) (pp_endDate p)) ps"
  shows "calendar_ok (ps @ [p]) rs"
proof -
  have "\<not> (period_has p day \<and> period_has q day)" if "q \<in> set ps" for q day
    using assms(3) that overlap_of_common_day [of p day q] by (auto simp: list_ex_iff)
  with assms(1,2) show ?thesis unfolding calendar_ok_def by auto
qed

lemma calendar_close:
  assumes "calendar_ok ps rs"
  shows "calendar_ok (close_row i cin tm ps) rs"
proof -
  have "pp_id p = pp_id q" if "p \<in> set (close_row i cin tm ps)" "q \<in> set (close_row i cin tm ps)"
    "period_has p day \<and> period_has q day" for p q day
    using that assms unfolding calendar_ok_def by (elim close_row_mem) metis
  moreover have "period_valid p" if "p \<in> set (close_row i cin tm ps)" for p
    using that assms by (auto simp: calendar_ok_def elim!: close_row_mem)
  ultimately show ?thesis using assms unfolding calendar_ok_def close_row_ids by blast
qed

lemma calendar_run:
  assumes "calendar_ok ps rs" "List.find (\<lambda>p. pp_id p = pr_periodId run) ps = Some p"
    "pr_sequence run = int (length (runs_in (pr_periodId run) rs)) + 1"
  shows "calendar_ok ps (rs @ [run])"
proof -
  have "map pr_sequence (runs_in i (rs @ [run])) = map int [1 ..< Suc (length (runs_in i (rs @ [run])))]" for i
    using assms(1,3) by (auto simp: calendar_ok_def runs_in_append)
  moreover have "pr_periodId run \<in> pp_id ` set ps" using find_SomeD [OF assms(2)] by (force intro: rev_image_eqI)
  ultimately show ?thesis using assms(1) by (simp add: calendar_ok_def)
qed

text \<open>New payslips.\<close>

lemma written_runs: "list_all2 (written i None) inps es \<Longrightarrow> e \<in> set es \<Longrightarrow> ps_runId (pd_payslip e) = i"
  by (induction rule: list_all2_induct) (auto simp: written_def payslip_row_def)

lemma written_originals:
  "list_all2 (written i None) inps es \<Longrightarrow> \<forall>inp \<in> set inps. original_input inp \<Longrightarrow> e \<in> set es \<Longrightarrow>
     ps_correctsId (pd_payslip e) = None \<and> ps_kind (pd_payslip e) = PAYSLIP_ORIGINAL"
  by (induction rule: list_all2_induct) (auto simp: written_def payslip_row_def original_input_def)

lemma correctable_posted: "isCorrectable s \<Longrightarrow> isPosted s"
  by (auto simp: isCorrectable_def isPosted_def)

lemma correction_is_grounded:
  assumes "List.find (\<lambda>d. slip_id d = i) ds = Some d" "isCorrectable (slip_status d)" "evolves ds ds'"
    "written (ps_runId (pd_payslip d)) posting (toWriteInput draft kind (Some i) why) e"
    "pd_driverId draft = ps_driverId (pd_payslip d)" "kind = PAYSLIP_REVERSAL \<Longrightarrow> posting \<noteq> None"
  shows "correction_grounded ds' e"
proof -
  from find_SomeD [OF assms(1)] have d: "d \<in> set ds" "slip_id d = i" by auto
  from evolves_mem [OF assms(3) d(1)] obtain d' where d': "d' \<in> set ds'" "slip_evolves d d'" .
  have "isPosted (slip_status d')"
    using d'(2) correctable_posted [OF assms(2)] posted_stays by (auto simp: slip_evolves_def)
  with d' d slip_evolves_fields [OF d'(2)] written_facts [OF assms(4)] assms(5) show ?thesis
    unfolding correction_grounded_def
    by (intro conjI allI impI bexI [of _ d']) (use assms(6) in \<open>auto simp: isPosted_def split: option.splits\<close>)
qed

lemma slips_kept:
  assumes "evolves ds ds'" "e \<in> set ds'" "\<forall>d \<in> set ds. ps_runId (pd_payslip d) \<in> ids \<and> correction_grounded ds d"
    "\<forall>e \<in> set (drop (length ds) ds'). ps_runId (pd_payslip e) \<in> ids \<and> correction_grounded ds' e"
  shows "ps_runId (pd_payslip e) \<in> ids \<and> correction_grounded ds' e"
  using assms(1,2)
proof (cases rule: evolves_split)
  case (old d)
  with assms(3) slip_evolves_fields [OF old(2)] grounded_evolves [OF assms(1) old(2)] show ?thesis by auto
qed (use assms(4) in blast)


section \<open>Every write keeps the invariant\<close>

definition books_distinct :: "payroll_books \<Rightarrow> bool" where
  "books_distinct = (\<lambda>(ps, rs, ds). distinct (map slip_id ds) \<and> distinct (map pp_id ps) \<and> distinct (map pr_id rs))"

lemma step_slips_ok:
  assumes ok: "books_ok (ps, rs, ds)" and step: "ds' = ds \<or> slip_write ds ds'" and dist: "distinct (map slip_id ds)"
    and runs: "pr_id ` set rs \<subseteq> ids"
    and new: "\<forall>e \<in> set (drop (length ds) ds'). ps_runId (pd_payslip e) \<in> ids \<and> correction_grounded ds' e"
  shows "evolves ds ds'" "payroll_ok ds'"
    "\<forall>d \<in> set ds'. ps_runId (pd_payslip d) \<in> ids" "\<forall>d \<in> set ds'. correction_grounded ds' d"
proof -
  show ev: "evolves ds ds'" using step slip_write_evolves [OF _ dist] by auto
  show "payroll_ok ds'" using ok step slip_write_ok [OF _ dist] by (auto simp: books_ok_iff)
  have "ps_runId (pd_payslip d) \<in> ids \<and> correction_grounded ds' d" if "d \<in> set ds'" for d
    using ok runs by (intro slips_kept [OF ev that _ new]) (auto simp: books_ok_iff)
  then show "\<forall>d \<in> set ds'. ps_runId (pd_payslip d) \<in> ids" "\<forall>d \<in> set ds'. correction_grounded ds' d" by auto
qed

lemma with_payslip_length [simp]: "length (with_payslip i f ds) = length ds"
  by (simp add: with_payslip_def)

lemma step_new_slips:
  assumes step: "books_step (ps, rs, ds) (ps', rs', ds')" and ok: "books_ok (ps, rs, ds)"
    and dist: "distinct (map slip_id ds)"
  shows "\<forall>e \<in> set (drop (length ds) ds'). ps_runId (pd_payslip e) \<in> pr_id ` set rs' \<and> correction_grounded ds' e"
proof -
  have ev: "evolves ds ds'" using books_step_slips [OF step] slip_write_evolves [OF _ dist] by auto
  from step show ?thesis
  proof (cases rule: books_step_cases)
    case (run_recorded run p inps es)
    have "correction_grounded ds' e" if "e \<in> set es" for e
      using written_originals [OF run_recorded(7,8) that] by (simp add: correction_grounded_def)
    with run_recorded written_runs [OF run_recorded(7)] show ?thesis by auto
  next
    case (payslip_supplemented i d draft why e)
    have "ps_runId (pd_payslip e) \<in> pr_id ` set rs"
      using ok find_SomeD [OF payslip_supplemented(4)] written_facts [OF payslip_supplemented(7)]
      by (simp add: books_ok_iff)
    with payslip_supplemented correction_is_grounded [OF payslip_supplemented(4,5) ev payslip_supplemented(7,6)]
    show ?thesis by simp
  next
    case (payslip_reversed i d posting actor why e tm)
    have "ps_runId (pd_payslip e) \<in> pr_id ` set rs" "draft_ok (base_draft d)"
      using ok find_SomeD [OF payslip_reversed(4)] written_facts [OF payslip_reversed(6)]
      by (simp_all add: books_ok_iff payroll_ok_def)
    moreover have "pd_driverId (reversalOf (base_draft d) actor) = ps_driverId (pd_payslip d)"
      by (simp add: reversalOf_def base_draft_def Let_def)
    ultimately show ?thesis
      using payslip_reversed correction_is_grounded [OF payslip_reversed(4,5) ev payslip_reversed(6)] by simp
  qed simp_all
qed

theorem books_step_keeps:
  assumes step: "books_step v w" and ok: "books_ok v" and dist: "books_distinct v"
  shows "books_ok w"
proof -
  obtain ps rs ds where v: "v = (ps, rs, ds)" by (cases v)
  obtain ps' rs' ds' where w: "w = (ps', rs', ds')" by (cases w)
  note step' = step [unfolded v w] and ok' = ok [unfolded v]
  have d: "distinct (map slip_id ds)" using dist by (simp add: books_distinct_def v)
  have runs: "pr_id ` set rs \<subseteq> pr_id ` set rs'" using step' by (cases rule: books_step_cases) auto
  have cal: "calendar_ok ps rs" using ok' by (simp add: books_ok_iff)
  from step' have "calendar_ok ps' rs'"
  proof (cases rule: books_step_cases)
    case (period_opened p)
    with calendar_open [OF cal, of p] show ?thesis by simp
  next
    case (period_closed i cin tm)
    with calendar_close [OF cal, of i cin tm] show ?thesis by simp
  next
    case (run_recorded run p inps es)
    with calendar_run [OF cal, of run p] show ?thesis by simp
  qed (use cal in simp_all)
  with step_slips_ok [OF ok' books_step_slips [OF step'] d runs step_new_slips [OF step' ok' d]]
  show ?thesis by (simp add: w books_ok_iff)
qed


section \<open>What no write takes back\<close>

definition period_evolves :: "PayrollPeriod \<Rightarrow> PayrollPeriod \<Rightarrow> bool" where
  "period_evolves p q \<longleftrightarrow>
     pp_id q = pp_id p \<and> pp_label q = pp_label p \<and> pp_startDate q = pp_startDate p \<and> pp_endDate q = pp_endDate p \<and>
     pp_createdBy q = pp_createdBy p \<and> (pp_status p = PAYROLL_CLOSED \<longrightarrow> pp_status q = PAYROLL_CLOSED)"

definition books_grow :: "payroll_books \<Rightarrow> payroll_books \<Rightarrow> bool" where
  "books_grow = (\<lambda>(ps, rs, ds) (ps', rs', ds').
     (\<exists>kept new. ps' = kept @ new \<and> list_all2 period_evolves ps kept) \<and> (\<exists>new. rs' = rs @ new) \<and>
     (\<forall>p \<in> set ps. pp_status p = PAYROLL_CLOSED \<longrightarrow> runs_in (pp_id p) rs' = runs_in (pp_id p) rs) \<and>
     evolves ds ds')"

lemma books_growI:
  "ps' = kept @ new \<Longrightarrow> list_all2 period_evolves ps kept \<Longrightarrow> rs' = rs @ added \<Longrightarrow>
   (\<And>p. p \<in> set ps \<Longrightarrow> pp_status p = PAYROLL_CLOSED \<Longrightarrow> runs_in (pp_id p) rs' = runs_in (pp_id p) rs) \<Longrightarrow>
   evolves ds ds' \<Longrightarrow> books_grow (ps, rs, ds) (ps', rs', ds')"
  by (auto simp: books_grow_def)

lemma period_evolves_refl [simp]: "period_evolves p p"
  by (simp add: period_evolves_def)

lemma periods_evolve_refl [simp]: "list_all2 period_evolves ps ps"
  by (simp add: list_all2_refl)

lemma books_grow_refl: "books_grow v v"
  by (cases v) (auto intro: books_growI [of _ _ "[]" _ _ _ "[]"])

lemma books_grow_trans:
  assumes "books_grow u v" "books_grow v w"
  shows "books_grow u w"
proof -
  obtain ps rs ds where u: "u = (ps, rs, ds)" by (cases u)
  obtain ps1 rs1 ds1 where v: "v = (ps1, rs1, ds1)" by (cases v)
  obtain ps2 rs2 ds2 where w: "w = (ps2, rs2, ds2)" by (cases w)
  from assms(1) obtain k n rn where a: "ps1 = k @ n" "list_all2 period_evolves ps k" "rs1 = rs @ rn" "evolves ds ds1"
      "\<And>p. p \<in> set ps \<Longrightarrow> pp_status p = PAYROLL_CLOSED \<Longrightarrow> runs_in (pp_id p) rs1 = runs_in (pp_id p) rs"
    unfolding u v books_grow_def by auto
  from assms(2) obtain k2 n2 rn2 where b: "ps2 = k2 @ n2" "list_all2 period_evolves ps1 k2" "rs2 = rs1 @ rn2"
      "evolves ds1 ds2" "\<And>p. p \<in> set ps1 \<Longrightarrow> pp_status p = PAYROLL_CLOSED \<Longrightarrow> runs_in (pp_id p) rs2 = runs_in (pp_id p) rs1"
    unfolding v w books_grow_def by auto
  from b(2) obtain k3 n3 where c: "k2 = k3 @ n3" "list_all2 period_evolves k k3" unfolding a(1) by (auto simp: list_all2_append1)
  have tr: "period_evolves p q \<Longrightarrow> period_evolves q r \<Longrightarrow> period_evolves p r" for p q r by (simp add: period_evolves_def)
  have "runs_in (pp_id p) rs2 = runs_in (pp_id p) rs" if p: "p \<in> set ps" "pp_status p = PAYROLL_CLOSED" for p
  proof -
    from list_all2_mem [OF a(2) p(1)] obtain q where "q \<in> set k" "period_evolves p q" by blast
    with b(5) [of q] a(1,5) p show ?thesis by (simp add: period_evolves_def)
  qed
  with a(3,4) b(1,3,4) c list_all2_trans [OF tr a(2) c(2)] evolves_trans [OF a(4) b(4)] show ?thesis
    unfolding u w by (intro books_growI [of _ k3 "n3 @ n2" _ _ _ "rn @ rn2"]) simp_all
qed

lemma close_row_evolves: "list_all2 period_evolves ps (close_row i cin tm ps)"
  unfolding close_row_def by (induction ps) (auto simp: period_evolves_def closed_period_def)

lemma books_step_grows:
  assumes step: "books_step v w" and dist: "books_distinct v"
  shows "books_grow v w"
proof -
  obtain ps rs ds where v: "v = (ps, rs, ds)" by (cases v)
  obtain ps' rs' ds' where w: "w = (ps', rs', ds')" by (cases w)
  note step' = step [unfolded v w]
  have d: "distinct (map slip_id ds)" "distinct (map pp_id ps)" using dist by (simp_all add: books_distinct_def v)
  have ev: "evolves ds ds'" using books_step_slips [OF step'] slip_write_evolves [OF _ d(1)] by auto
  from step' have "books_grow (ps, rs, ds) (ps', rs', ds')"
  proof (cases rule: books_step_cases)
    case (period_opened p)
    with ev show ?thesis by (intro books_growI [of _ ps "[p]" _ _ _ "[]"]) simp_all
  next
    case (period_closed i cin tm)
    with ev close_row_evolves [of ps i cin tm] show ?thesis by (intro books_growI [of _ ps' "[]" _ _ _ "[]"]) simp_all
  next
    case (run_recorded run p inps es)
    have "runs_in (pp_id q) rs' = runs_in (pp_id q) rs" if "q \<in> set ps" "pp_status q = PAYROLL_CLOSED" for q
      using find_SomeD [OF run_recorded(4)] run_recorded(2,5) that d(2)
      by (auto simp: distinct_map inj_on_def runs_in_append)
    with run_recorded ev show ?thesis by (intro books_growI [of _ ps "[]" _ _ _ "[run]"]) simp_all
  qed (use ev in \<open>auto intro: books_growI [of _ ps "[]" _ _ _ "[]"]\<close>)
  then show ?thesis by (simp only: v w)
qed

section \<open>Paths\<close>

inductive books_path :: "payroll_books \<Rightarrow> payroll_books \<Rightarrow> bool" for v where
  stay: "books_path v v"
| step: "books_path v u \<Longrightarrow> books_step u w \<Longrightarrow> books_distinct w \<Longrightarrow> books_path v w"

lemma books_path_trans: "books_path v w \<Longrightarrow> books_path u v \<Longrightarrow> books_path u w"
  by (induction rule: books_path.induct) (auto intro: books_path.intros)

lemma books_path_keeps:
  "books_path v w \<Longrightarrow> books_distinct v \<Longrightarrow> books_distinct w \<and> books_grow v w \<and> (books_ok v \<longrightarrow> books_ok w)"
proof (induction rule: books_path.induct)
  case (step u w)
  then have "books_distinct u" "books_grow v u" "books_ok v \<longrightarrow> books_ok u" by simp_all
  with step books_step_keeps [of u w] books_step_grows [of u w] books_grow_trans [of v u w] show ?case by blast
qed (simp add: books_grow_refl)

lemma books_path_evolves: "books_path (ps, rs, ds) (ps', rs', ds') \<Longrightarrow> books_distinct (ps, rs, ds) \<Longrightarrow> evolves ds ds'"
  using books_path_keeps by (fastforce simp: books_grow_def)

section \<open>The commands\<close>

text \<open>
  From one state of a store to another by payroll commands. A command that reads first and writes later is
  interleaved with other commands between the two.
\<close>

inductive payroll_path :: "'s workforce_repository \<Rightarrow> 's \<Rightarrow> 's \<Rightarrow> bool" for R where
  idle: "payroll_path R v v"
| opened: "payroll_path R v w \<Longrightarrow> openPayrollPeriod R oin w = (r, u) \<Longrightarrow> payroll_path R v u"
| closed: "payroll_path R v w \<Longrightarrow> closePayrollPeriod R i actor tm w = (r, u) \<Longrightarrow> payroll_path R v u"
| ran: "payroll_path R v w \<Longrightarrow> payroll_path R w (others w) \<Longrightarrow> runPayroll R env others rin w = (r', u) \<Longrightarrow>
    payroll_path R v u"
| approved: "payroll_path R v w \<Longrightarrow> payroll_path R w (others w) \<Longrightarrow>
    approvePayslip R others i actor tm w = (r'', u) \<Longrightarrow> payroll_path R v u"
| paid: "payroll_path R v w \<Longrightarrow> payroll_path R w (others w) \<Longrightarrow>
    payPayslip R others i actor tm w = (r'', u) \<Longrightarrow> payroll_path R v u"
| corrected: "payroll_path R v w \<Longrightarrow> payroll_path R w (others w) \<Longrightarrow>
    issueCorrection R others command tm w = (r'', u) \<Longrightarrow> payroll_path R v u"

context payroll_store
begin

abbreviation books_of :: "'s \<Rightarrow> payroll_books" where
  "books_of s \<equiv> (periods_of s, runs_of s, slips_of s)"

lemma books_distinct_of: "pinv s \<Longrightarrow> books_distinct (books_of s)"
  using unique [of s] by (simp add: books_distinct_def)

lemma quiet_or_step:
  assumes "pinv w" "pinv w'" "books_path (books_of w) (books_of w')" "u = w \<or> u = w'"
  shows "pinv u \<and> books_path (books_of w) (books_of u)"
  using assms by (auto intro: books_path.stay)

lemma one_step:
  assumes "books_path (books_of w) (books_of w')" "pinv u" "books_step (books_of w') (books_of u)"
  shows "pinv u \<and> books_path (books_of w) (books_of u)"
  using assms books_distinct_of by (blast intro: books_path.step)

lemma open_effect:
  assumes inv: "pinv w" and run: "openPayrollPeriod R oin w = (r, u)"
  shows "pinv u \<and> books_path (books_of w) (books_of u)"
proof (cases "valid_date (oi_startDate oin) \<and> valid_date (oi_endDate oin) \<and> oi_startDate oin \<le> oi_endDate oin")
  case False
  then have "u = w"
    using run by (auto simp: openPayrollPeriod_def bnd_eq lift_eq throw_eq assertBusinessDate_eq split: if_splits)
  with inv show ?thesis by (simp add: books_path.stay)
next
  case True
  then have same: "oin\<lparr>oi_startDate := oi_startDate oin, oi_endDate := oi_endDate oin\<rparr> = oin" by simp
  have r: "bnd (wr_openPeriod R oin) (\<lambda>period. case period of
      None \<Rightarrow> throw (conflict ''PAYROLL_PERIOD_OVERLAPS'') | Some p \<Rightarrow> ret p) w = (r, u)"
    using run True by (simp add: openPayrollPeriod_def bnd_def [of "lift _"] lift_eq assertBusinessDate_eq not_less [symmetric])
  show ?thesis
  proof (cases "list_ex (period_overlaps (oi_startDate oin) (oi_endDate oin)) (periods_of w)")
    case over: True
    from r open_overlapping [OF inv over] have "u = w" by (auto simp: bnd_eq throw_eq)
    with inv show ?thesis by (simp add: books_path.stay)
  next
    case False
    from open_free [OF inv False] obtain i tm s' where s': "wr_openPeriod R oin w = (Inr (Some (period_row oin i tm)), s')"
      "pinv s'" "periods_of s' = periods_of w @ [period_row oin i tm]" "runs_of s' = runs_of w" "slips_of s' = slips_of w"
      by blast
    with r have u: "u = s'" by (auto simp: bnd_eq ret_eq)
    have "books_step (books_of w) (books_of u)"
      unfolding u s'
      by (rule books_step.period_opened) (use True False in \<open>simp_all add: period_row_def period_valid_def\<close>)
    with s' show ?thesis unfolding u by (intro one_step [OF books_path.stay])
  qed
qed

lemma close_effect:
  assumes inv: "pinv w" and run: "closePayrollPeriod R i actor tm w = (r, u)"
  shows "pinv u \<and> books_path (books_of w) (books_of u)"
proof (cases "List.find (\<lambda>p. pp_id p = i) (periods_of w)")
  case None
  with run close_unknown [OF inv None] have "u = w" by (auto simp: closePayrollPeriod_def bnd_eq throw_eq)
  with inv show ?thesis by (simp add: books_path.stay)
next
  case (Some p)
  have dist: "distinct (map pp_id (periods_of w))" using unique [OF inv] by simp
  from close_known [OF inv Some, of "\<lparr>ci_closedBy = actor, ci_closedAt = tm\<rparr>"] obtain t s' where
    s': "wr_closePeriod R i \<lparr>ci_closedBy = actor, ci_closedAt = tm\<rparr> w =
        (Inr (Some (closed_period p \<lparr>ci_closedBy = actor, ci_closedAt = tm\<rparr> t)), s')" "pinv s'"
      "periods_of s' = close_row i \<lparr>ci_closedBy = actor, ci_closedAt = tm\<rparr> t (periods_of w)"
      "runs_of s' = runs_of w" "slips_of s' = slips_of w"
    unfolding close_row_found [OF dist Some] by blast
  with run have u: "u = s'" by (auto simp: closePayrollPeriod_def bnd_eq ret_eq)
  have "books_step (books_of w) (books_of u)"
    unfolding u s' by (rule books_step.period_closed [OF Some])
  with s' show ?thesis unfolding u by (intro one_step [OF books_path.stay])
qed


lemma run_step:
  assumes inv: "pinv w" "pinv (others w)" and path: "books_path (books_of w) (books_of (others w))"
    and run: "runPayroll R env others input w = (r, u)"
  shows "pinv u \<and> books_path (books_of w) (books_of u)"
proof (rule run_effect [OF inv run], goal_cases)
  case (1 e)
  then show ?case using quiet_or_step [OF inv path] by blast
next
  case (2 p run inps ds)
  from 2(2) have p: "pp_status p = PAYROLL_OPEN" by (cases "pp_status p") simp_all
  have "books_step (books_of (others w)) (books_of u)"
    unfolding 2(4,5,8)
    by (rule books_step.run_recorded [of run _ p, OF _ p _ 2(9,10)]) (use 2 in \<open>simp_all add: runs_in_def\<close>)
  with 2(3) show ?case by (intro one_step [OF path])
qed

lemma move_step:
  assumes inv: "pinv w" "pinv (others w)" and path: "books_path (books_of w) (books_of (others w))"
    and run: "movePayslip R others i new actor tm w = (r, u)" and new: "new \<noteq> PAYSLIP_REVERSED"
  shows "pinv u \<and> books_path (books_of w) (books_of u)"
proof (rule move_effect [OF inv run], goal_cases)
  case (1 e)
  then show ?case using quiet_or_step [OF inv path] by blast
next
  case (2 d t)
  have "books_step (books_of (others w)) (books_of u)"
    using books_step.payslip_moved [OF 2(1), of "\<lparr>ti_to = new, ti_actor = actor, ti_at = tm\<rparr>"] 2 new by simp
  with 2(3) show ?case by (intro one_step [OF path])
qed

lemma correction_step:
  assumes inv: "pinv w" "pinv (others w)" and path: "books_path (books_of w) (books_of (others w))"
    and run: "issueCorrection R others command tm w = (r, u)" and ok: "payroll_ok (slips_of (others w))"
  shows "pinv u \<and> books_path (books_of w) (books_of u)"
proof (rule correction_effect [OF inv books_path_evolves [OF path books_distinct_of [OF inv(1)]] run], goal_cases)
  case (1 e)
  then show ?case using quiet_or_step [OF inv path] by blast
next
  case (2 d draft e)
  have "draft_ok (base_draft d)" using ok find_SomeD [OF 2(1)] by (simp add: payroll_ok_def)
  note draft = correction_draft_ok [OF 2(4) this]
  have "books_step (books_of (others w)) (books_of u)"
    using books_step.payslip_supplemented [OF 2(1,2) _ _ 2(5)] draft 2 by simp
  with 2(6) show ?case by (intro one_step [OF path])
next
  case (3 d e t)
  have "books_step (books_of (others w)) (books_of u)"
    using books_step.payslip_reversed [OF 3(1-4)] 3 by simp
  with 3(5) show ?case by (intro one_step [OF path])
qed

lemma path_refines:
  "payroll_path R v w \<Longrightarrow> pinv v \<Longrightarrow> books_ok (books_of v) \<Longrightarrow> pinv w \<and> books_path (books_of v) (books_of w)"
proof (induction rule: payroll_path.induct)
  case (idle v)
  then show ?case by (simp add: books_path.stay)
next
  case (opened v w oin r u)
  with open_effect [OF _ opened(2)] books_path_trans show ?case by blast
next
  case (closed v w i actor tm r u)
  with close_effect [OF _ closed(2)] books_path_trans show ?case by blast
next
  case (ran v w others env rin r' u)
  have "pinv w" "books_path (books_of v) (books_of w)" using ran by simp_all
  moreover from books_path_keeps [OF this(2)] books_distinct_of ran have "books_ok (books_of w)" by blast
  ultimately show ?case using run_step [OF _ _ _ ran(3)] ran books_path_trans by blast
next
  case (approved v w others i actor tm r'' u)
  have "pinv w" "books_path (books_of v) (books_of w)" using approved by simp_all
  moreover from books_path_keeps [OF this(2)] books_distinct_of approved have "books_ok (books_of w)" by blast
  ultimately show ?case
    using move_step [OF _ _ _ approved(3) [unfolded approvePayslip_def]] approved books_path_trans by blast
next
  case (paid v w others i actor tm r'' u)
  have "pinv w" "books_path (books_of v) (books_of w)" using paid by simp_all
  moreover from books_path_keeps [OF this(2)] books_distinct_of paid have "books_ok (books_of w)" by blast
  ultimately show ?case
    using move_step [OF _ _ _ paid(3) [unfolded payPayslip_def]] paid books_path_trans by blast
next
  case (corrected v w others command tm r'' u)
  have w: "pinv w" "books_path (books_of v) (books_of w)" using corrected by simp_all
  moreover from books_path_keeps [OF w(2)] books_distinct_of corrected have ok: "books_ok (books_of w)" by blast
  ultimately have o: "pinv (others w)" "books_path (books_of w) (books_of (others w))" using corrected by simp_all
  from books_path_keeps [OF o(2)] books_distinct_of [OF w(1)] ok have "books_ok (books_of (others w))" by blast
  then have "payroll_ok (slips_of (others w))" by (simp add: books_ok_iff)
  from correction_step [OF w(1) o corrected(3) this] w(2) books_path_trans show ?case by blast
qed

lemma path_keeps:
  assumes "payroll_path R v w" "pinv v" "books_ok (books_of v)"
  shows "pinv w" "books_ok (books_of w)" "books_grow (books_of v) (books_of w)" "books_distinct (books_of w)"
  using path_refines [OF assms] books_path_keeps [of "books_of v" "books_of w"] books_distinct_of assms by blast+

end

end
