(* ===== verification/PayrollExample.thy ===== *)
theory PayrollExample imports PayrollBooks begin

text \<open>
  A concrete month of payroll, for the examples of the claims: one driver on a base salary of 100, whose
  payslip is written, approved, paid and reversed.
\<close>

abbreviation march_R :: "payroll_state workforce_repository" where
  "march_R \<equiv> InMemoryWorkforceRepository"

section \<open>March\<close>

definition march_env :: workforce_env where
  "march_env =
     \<lparr>we_activeDrivers = [''D1''], we_workByDriver = (\<lambda>_ _. [\<lparr>dw_driverId = ''D1'', dw_tripCount = 2, dw_distanceKm = 30\<rparr>]),
      we_driverByAuthUser = (\<lambda>u. if u = ''U1'' then Some ''D1'' else None),
      we_policy = \<lparr>baseSalaryVnd = 100, perTripVnd = 0, perKmVnd = 0, fuelSavingBonusVndPerLiter = 0\<rparr>,
      we_fundBalanceOf = None, we_litersSaved = None, we_waiting = None, we_sha256 = (\<lambda>s. s)\<rparr>"

definition march_input :: OpenPayrollPeriodInput where
  "march_input = \<lparr>oi_label = ''March'', oi_startDate = ''2026-03-01'', oi_endDate = ''2026-03-31'', oi_createdBy = ''acc''\<rparr>"

definition march_open :: payroll_state where
  "march_open = snd (openPayrollPeriod InMemoryWorkforceRepository march_input empty_payroll)"

definition march_period :: PayrollPeriod where
  "march_period = period_row march_input (uuid 0) 0"

lemma march_dates: "assertBusinessDate ''2026-03-01'' = Inr ''2026-03-01''" "assertBusinessDate ''2026-03-31'' = Inr ''2026-03-31''"
  by code_simp+

lemma march_open: "march_open = empty_payroll\<lparr>ws_periods := [(uuid 0, march_period)], ws_next := 1\<rparr>"
  by (simp add: march_open_def openPayrollPeriod_def march_input_def march_dates bnd_def lift_def ret_def
      InMemoryWorkforceRepository_def mem_openPeriod_def empty_payroll_def march_period_def Let_def)


definition march_rin :: RunPayrollInput where
  "march_rin = \<lparr>rp_periodId = uuid 0, rp_runBy = ''acc'', rp_manualComponents = []\<rparr>"

definition march_draft :: PayslipDraft where
  "march_draft = \<lparr>pd_driverId = ''D1'', pd_draftComponents =
     [\<lparr>cd_kind = EARNING, cd_source = BASE_SALARY, cd_label = ''Luong co ban'', cd_amount = 100, cd_quantity = None,
       cd_unitAmount = Some 100, cd_recordedBy = None, cd_note = None\<rparr>],
     pd_grossEarnings = 100, pd_totalDeductions = 0, pd_netAmount = 100, pd_tripCount = 2, pd_distanceKm = 30,
     pd_driverFundBalanceSnapshot = None\<rparr>"

lemma march_values [simp]: "valid_amount 100" "js_add 0 100 = 100" "js_add 100 0 = 100"
  by (simp_all add: valid_amount_def js_add_exact max_safe_integer_def)

lemma march_driver: "driver_payslip march_env march_period march_rin ''D1'' = Inr (toWriteInput march_draft PAYSLIP_ORIGINAL None None)"
  by (simp add: driver_payslip_def march_env_def march_rin_def assertManualComponents_def rbind_def driver_input_def
      calculatePayslip_def base_part_def trip_part_def km_part_def fuel_part_def waiting_part_def earning_def
      payslip_draft_def sumOf_def march_draft_def Let_def)

definition march_run :: PayrollRun where
  "march_run = run_row \<lparr>rr_periodId = uuid 0, rr_policySnapshot = we_policy march_env,
     rr_policyVersion = payrollPolicyVersion (we_sha256 march_env) (we_policy march_env),
     rr_missingInputs = missing_inputs march_env, rr_runBy = ''acc'',
     rr_payslips = [toWriteInput march_draft PAYSLIP_ORIGINAL None None]\<rparr> (uuid 1) 1 0"

definition march_slip :: Payslip where
  "march_slip = Workforce.payslip_row (uuid 1) (toWriteInput march_draft PAYSLIP_ORIGINAL None None) None (uuid 2) 0"

definition march_component :: PayslipComponent where
  "march_component = toComponent (uuid 2) (hd (pd_draftComponents march_draft)) 0 (uuid 3)"

definition march_ran :: payroll_state where
  "march_ran = \<lparr>ws_periods = [(uuid 0, march_period)], ws_runs = [(uuid 1, march_run)], ws_payslips = [(uuid 2, march_slip)],
     ws_components = [(uuid 2, [march_component])], ws_next = 4, ws_clock = 0\<rparr>"

lemma march_runs: "runPayroll march_R march_env id march_rin march_open = (Inr (march_run, [march_slip]), march_ran)"
proof -
  have d: "we_activeDrivers march_env = [''D1'']" by (simp add: march_env_def)
  have i: "pp_id march_period = uuid 0" "pp_status march_period = PAYROLL_OPEN" by (simp_all add: march_period_def period_row_def)
  have r: "rp_periodId march_rin = uuid 0" "rp_runBy march_rin = ''acc''" by (simp_all add: march_rin_def)
  have c: "pw_components (toWriteInput march_draft PAYSLIP_ORIGINAL None None) = [hd (pd_draftComponents march_draft)]"
    by (simp add: toWriteInput_def march_draft_def)
  have u: "[2..<Suc (Suc (Suc 0))] = [2::nat]" "[Suc (Suc 0) ..< Suc (Suc 0) + 1] = [Suc (Suc 0)]"
      "[Suc (Suc (Suc 0)) ..< Suc (Suc (Suc 0)) + 1] = [Suc (Suc (Suc 0))]" by (simp_all add: upt_rec)
  show ?thesis
    by (simp add: runPayroll_def march_open bnd_def lift_def ret_def query_def InMemoryWorkforceRepository_def r i d
        empty_payroll_def march_driver rbind_def mem_recordRun_def Let_def materialize_def c u march_run_def march_slip_def
        march_component_def march_ran_def numeral_eq_Suc)
qed


lemma march_reached: "payroll_path march_R empty_payroll march_ran"
proof -
  have "openPayrollPeriod march_R march_input empty_payroll = (fst (openPayrollPeriod march_R march_input empty_payroll), march_open)"
    by (simp add: march_open_def)
  then have "payroll_path march_R empty_payroll march_open" by (rule payroll_path.opened [OF payroll_path.idle])
  from payroll_path.ran [OF this, of id, OF _ march_runs] show ?thesis by (simp add: payroll_path.idle)
qed

lemma march_draft_slip: "List.find (\<lambda>d. slip_id d = uuid 2) (mem_slips march_ran) =
    Some \<lparr>pd_payslip = march_slip, pd_components = [march_component]\<rparr>" "ps_status march_slip = DRAFT" "ps_driverId march_slip = ''D1''"
    "ps_netAmount march_slip = 100"
  by (simp_all add: mem_slips_def march_ran_def payslip_detail_def slip_id_def march_slip_def Workforce.payslip_row_def
      toWriteInput_def march_draft_def)

definition march_approved :: payroll_state where
  "march_approved = snd (approvePayslip march_R id (uuid 2) ''boss'' 5 march_ran)"

definition march_paid :: payroll_state where
  "march_paid = snd (payPayslip march_R id (uuid 2) ''cash'' 6 march_approved)"

lemma march_signed: "payroll_path march_R march_ran march_approved" "payroll_path march_R march_approved march_paid"
proof -
  have "approvePayslip march_R id (uuid 2) ''boss'' 5 march_ran =
      (fst (approvePayslip march_R id (uuid 2) ''boss'' 5 march_ran), march_approved)"
    by (simp add: march_approved_def)
  from payroll_path.approved [OF payroll_path.idle _ this] show "payroll_path march_R march_ran march_approved"
    by (simp add: payroll_path.idle)
  have "payPayslip march_R id (uuid 2) ''cash'' 6 march_approved =
      (fst (payPayslip march_R id (uuid 2) ''cash'' 6 march_approved), march_paid)"
    by (simp add: march_paid_def)
  from payroll_path.paid [OF payroll_path.idle _ this] show "payroll_path march_R march_approved march_paid"
    by (simp add: payroll_path.idle)
qed

definition march_approved_slip :: Payslip where
  "march_approved_slip = march_slip\<lparr>ps_status := APPROVED, ps_approvedAt := Some 5, ps_approvedBy := Some ''boss''\<rparr>"

definition march_paid_slip :: Payslip where
  "march_paid_slip = march_slip\<lparr>ps_status := PAID, ps_approvedAt := Some 5, ps_approvedBy := Some ''boss'',
     ps_paidAt := Some 6, ps_paidBy := Some ''cash''\<rparr>"

lemma march_approved_state: "march_approved = march_ran\<lparr>ws_payslips := [(uuid 2, march_approved_slip)]\<rparr>"
  by (simp add: march_approved_slip_def march_approved_def approvePayslip_def movePayslip_def bnd_def ret_def
      InMemoryWorkforceRepository_def mem_findPayslip_def query_def march_ran_def march_draft_slip(2) payslip_detail_def
      evaluatePayslipTransition_def mem_transitionPayslip_def Let_def moved_payslip_def
      march_slip_def Workforce.payslip_row_def)

lemma march_paid_state: "march_paid = march_ran\<lparr>ws_payslips := [(uuid 2, march_paid_slip)]\<rparr>"
  by (simp add: march_paid_slip_def march_paid_def march_approved_def approvePayslip_def payPayslip_def movePayslip_def bnd_def ret_def
      InMemoryWorkforceRepository_def mem_findPayslip_def query_def march_ran_def march_draft_slip(2) payslip_detail_def
      evaluatePayslipTransition_def mem_transitionPayslip_def Let_def moved_payslip_def
      march_slip_def Workforce.payslip_row_def)

definition march_mistake :: correction_command where
  "march_mistake = \<lparr>cc_payslipId = uuid 2, cc_kind = CORRECT_REVERSAL, cc_reason = ''wrong'', cc_actor = ''boss'', cc_components = []\<rparr>"

definition march_back :: PayslipComponentDraft where
  "march_back = \<lparr>cd_kind = DEDUCTION, cd_source = MANUAL_DEDUCTION, cd_label = ''Dao: Luong co ban'', cd_amount = 100,
     cd_quantity = None, cd_unitAmount = None, cd_recordedBy = Some ''boss'', cd_note = None\<rparr>"

definition march_reversal :: Payslip where
  "march_reversal = \<lparr>ps_id = uuid 4, ps_runId = uuid 1, ps_driverId = ''D1'', ps_kind = PAYSLIP_REVERSAL, ps_status = APPROVED,
     ps_grossEarnings = 0, ps_totalDeductions = 100, ps_netAmount = -100, ps_currencyCode = ''VND'',
     ps_driverFundBalanceSnapshot = None, ps_tripCount = 2, ps_distanceKm = 30, ps_correctsId = Some (uuid 2),
     ps_correctionReason = Some ''wrong'', ps_approvedAt = Some 7, ps_approvedBy = Some ''boss'', ps_paidAt = None,
     ps_paidBy = None, ps_createdAt = 0, ps_updatedAt = 0\<rparr>"

definition march_reversed :: payroll_state where
  "march_reversed = march_ran\<lparr>
     ws_payslips := [(uuid 2, march_paid_slip\<lparr>ps_status := PAYSLIP_REVERSED\<rparr>), (uuid 4, march_reversal)],
     ws_components := [(uuid 2, [march_component]), (uuid 4, [toComponent (uuid 4) march_back 0 (uuid 5)])], ws_next := 6\<rparr>"

lemma march_minus [simp]: "js_add 0 (- 100) = - 100" "js_add (-100) 0 = - 100"
  by (simp_all add: js_add_exact max_safe_integer_def)

lemma march_undone: "issueCorrection march_R id march_mistake 7 march_paid = (Inr march_reversal, march_reversed)"
  by (simp add: issueCorrection_def march_mistake_def march_paid_state march_paid_slip_def bnd_def ret_def lift_def
      InMemoryWorkforceRepository_def mem_findPayslip_def query_def march_ran_def payslip_detail_def march_slip_def
      Workforce.payslip_row_def toWriteInput_def march_draft_def isCorrectable_def correction_draft_def reversalOf_def
      base_draft_def component_draft_def march_component_def toComponent_def reversed_component_def sumOf_def Let_def
      correction_write_def correction_payslip_kind_def mem_issueCorrection_def materialize_def correction_input_def
      march_reversed_def march_reversal_def march_back_def TRANSPORT_CURRENCY_def upt_rec)

lemma march_reversed_reached: "payroll_path march_R empty_payroll march_reversed"
proof -
  have a: "approvePayslip march_R id (uuid 2) ''boss'' 5 march_ran =
      (fst (approvePayslip march_R id (uuid 2) ''boss'' 5 march_ran), march_approved)" by (simp add: march_approved_def)
  have p: "payPayslip march_R id (uuid 2) ''cash'' 6 march_approved =
      (fst (payPayslip march_R id (uuid 2) ''cash'' 6 march_approved), march_paid)" by (simp add: march_paid_def)
  have "payroll_path march_R empty_payroll march_approved"
    by (rule payroll_path.approved [OF march_reached _ a]) (simp add: payroll_path.idle)
  then have "payroll_path march_R empty_payroll march_paid"
    by (rule payroll_path.paid [OF _ _ p]) (simp add: payroll_path.idle)
  then show ?thesis by (rule payroll_path.corrected [OF _ _ march_undone]) (simp add: payroll_path.idle)
qed

end
