(* ===== verification/WorkforceGuarantees.thy ===== *)
theory WorkforceGuarantees imports PayrollExample DriverSettlement begin

text \<open>
  What the payroll commands guarantee over the in-memory store, whatever other commands run between the read
  and the write of a command.
\<close>

section \<open>The books of the in-memory store\<close>

definition books_at :: "payroll_state \<Rightarrow> payroll_books" where
  "books_at s = (map snd (ws_periods s), map snd (ws_runs s), mem_slips s)"

lemma empty_books: "books_at empty_payroll = ([], [], [])"
  by (simp add: books_at_def empty_payroll_def mem_slips_def)

lemma empty_books_ok: "wf_payroll empty_payroll" "books_ok (books_at empty_payroll)"
  by (simp_all add: wf_payroll_empty empty_books books_ok_empty)

lemma payroll_reachable:
  assumes "payroll_path march_R empty_payroll w"
  shows "wf_payroll w" "books_ok (books_at w)"
  using mem_payroll.path_keeps [of empty_payroll w] assms empty_books_ok by (simp_all add: books_at_def)

section \<open>Claims\<close>

text \<open>
  C30. The payroll commands refine the abstract books: from any well-formed store whose books keep the
  invariant, every sequence of commands (open and close a period, run payroll, approve, pay and correct a
  payslip; any other command may run between the read and the write of one) leaves a well-formed store and
  changes the books only by the six abstract writes.
\<close>

theorem payroll_commands_refine_books:
  assumes "payroll_path InMemoryWorkforceRepository v w" "wf_payroll v" "books_ok (books_at v)"
  shows "wf_payroll w \<and> books_path (books_at v) (books_at w)"
  using mem_payroll.path_refines [OF assms(1,2)] assms(3) by (simp add: books_at_def)

theorem payroll_commands_refine_books_witness:
  "books_path ([], [], []) (books_at march_ran) \<and> length (mem_slips march_ran) = 1"
  using payroll_commands_refine_books [OF march_reached empty_books_ok] empty_books
  by (simp add: mem_slips_def march_ran_def)

text \<open>
  C31. Every reachable payroll store is well typed: periods have valid dates in order and no day lies in two
  of them, runs belong to a period and number 1, 2, 3, ... within it, payslips belong to a run, their gross,
  deductions and net follow from positive components, posted ones are signed, a correction names a posted
  payslip of the same run and driver, and a payslip is reversed exactly when one payslip takes back all of it.
\<close>

theorem reachable_payroll_well_formed:
  assumes "payroll_path InMemoryWorkforceRepository empty_payroll w"
  shows "wf_payroll w \<and> books_ok (books_at w)"
  using payroll_reachable [OF assms] by simp

theorem reachable_payroll_well_formed_witness:
  "books_ok (books_at march_ran) \<and> mem_slips march_ran \<noteq> []"
  using reachable_payroll_well_formed [OF march_reached] by (simp add: mem_slips_def march_ran_def)

text \<open>
  C32. Payroll history is kept: whatever commands follow, a period keeps its dates and label and a closed one
  stays closed and gets no further run, runs are only appended, and every payslip keeps its components,
  amounts, driver, run, kind and the payslip it corrects; only its status moves along the lifecycle.
\<close>

theorem payroll_history_kept:
  assumes "payroll_path InMemoryWorkforceRepository v w" "wf_payroll v" "books_ok (books_at v)"
  shows "books_grow (books_at v) (books_at w)"
  using mem_payroll.path_keeps(3) [OF assms(1,2)] assms(3) by (simp add: books_at_def)

theorem payroll_history_kept_witness: "books_grow (books_at march_open) (books_at march_ran)"
proof -
  have "openPayrollPeriod march_R march_input empty_payroll = (fst (openPayrollPeriod march_R march_input empty_payroll), march_open)"
    by (simp add: march_open_def)
  then have "payroll_path march_R empty_payroll march_open" by (rule payroll_path.opened [OF payroll_path.idle])
  note v = payroll_reachable [OF this]
  have "payroll_path march_R march_open march_ran"
    using payroll_path.ran [OF payroll_path.idle [of march_R march_open], of id, OF _ march_runs] by (simp add: payroll_path.idle)
  from payroll_history_kept [OF this v] show ?thesis .
qed


section \<open>Progress\<close>

definition status_in :: "payroll_state \<Rightarrow> ident \<Rightarrow> payslip_status option" where
  "status_in s i = map_option slip_status (List.find (\<lambda>d. slip_id d = i) (mem_slips s))"

lemma edges_moves: "payslip_edge\<^sup>*\<^sup>* a b \<Longrightarrow> moves_left b \<le> moves_left a \<and> (a \<noteq> b \<longrightarrow> moves_left b < moves_left a)"
  by (induction rule: rtranclp_induct) (auto dest: edge_moves)

lemma status_moves:
  assumes "payroll_path march_R v w" "wf_payroll v" "books_ok (books_at v)" "status_in v i = Some a"
  shows "\<exists>b. status_in w i = Some b \<and> payslip_edge\<^sup>*\<^sup>* a b"
proof -
  have ev: "evolves (mem_slips v) (mem_slips w)"
    using mem_payroll.path_keeps(3) [OF assms(1,2)] assms(3) by (simp add: books_at_def books_grow_def)
  from assms(4) obtain d where d: "List.find (\<lambda>d. slip_id d = i) (mem_slips v) = Some d" "slip_status d = a"
    by (auto simp: status_in_def)
  from evolves_find [OF ev d(1)] show ?thesis by (auto simp: status_in_def slip_evolves_def d(2))
qed

text \<open>
  C33. A payslip comes to rest: along any sequence of commands, in whatever order and number, the status of a
  payslip changes at most three times, and at most as often as its first status has moves left (a draft
  three, an approved payslip two, a paid one one, a reversed one none).
\<close>

theorem payslip_status_settles:
  assumes "successively (\<lambda>v w. payroll_path InMemoryWorkforceRepository v w \<and> status_in v i \<noteq> status_in w i) (s # ss)"
    "wf_payroll s" "books_ok (books_at s)" "status_in s i = Some a"
  shows "length ss \<le> moves_left a \<and> length ss \<le> 3"
proof -
  have "length ss \<le> moves_left a"
    using assms
  proof (induction ss arbitrary: s a)
    case (Cons t ts)
    then have p: "payroll_path march_R s t" "status_in s i \<noteq> status_in t i" by simp_all
    from status_moves [OF p(1) Cons.prems(2-4)] obtain b where b: "status_in t i = Some b" "payslip_edge\<^sup>*\<^sup>* a b" by blast
    have "moves_left b < moves_left a" using edges_moves [OF b(2)] p(2) b(1) Cons.prems(4) by auto
    moreover have "length ts \<le> moves_left b"
      using Cons.IH [of t b] Cons.prems mem_payroll.path_keeps [OF p(1)] b(1) by (simp add: books_at_def)
    ultimately show ?case by simp
  qed simp
  moreover have "moves_left a \<le> 3" by (cases a) simp_all
  ultimately show ?thesis by simp
qed

lemma march_statuses: "status_in march_ran (uuid 2) = Some DRAFT" "status_in march_approved (uuid 2) = Some APPROVED"
  "status_in march_paid (uuid 2) = Some PAID"
  by (simp_all add: status_in_def march_draft_slip slip_status_def)
    (simp_all add: march_paid_state march_approved_state march_paid_slip_def march_approved_slip_def mem_slips_def
      march_ran_def slip_id_def march_slip_def Workforce.payslip_row_def payslip_detail_def slip_status_def)

theorem payslip_status_settles_witness: "length [march_approved, march_paid] \<le> moves_left DRAFT"
  using payslip_status_settles [of "uuid 2" march_ran "[march_approved, march_paid]" DRAFT]
    march_signed march_statuses payroll_reachable [OF march_reached] by simp

lemma moves_now:
  assumes "wf_payroll w" "List.find (\<lambda>d. slip_id d = i) (mem_slips w) = Some d" "payslip_edge (slip_status d) new"
  shows "\<exists>t u. movePayslip march_R id i new actor tm w =
      (Inr (moved_payslip (pd_payslip d) \<lparr>ti_to = new, ti_actor = actor, ti_at = tm\<rparr> t), u) \<and> wf_payroll u \<and>
    mem_slips u = with_payslip i (\<lambda>p. moved_payslip p \<lparr>ti_to = new, ti_actor = actor, ti_at = tm\<rparr> t) (mem_slips w)"
proof -
  from mem_payroll.move_done [OF assms(1,2) refl, of "\<lparr>ti_to = new, ti_actor = actor, ti_at = tm\<rparr>"] obtain t u where
    m: "wr_transitionPayslip march_R i (slip_status d) \<lparr>ti_to = new, ti_actor = actor, ti_at = tm\<rparr> w =
        (Inr (MOVED (moved_payslip (pd_payslip d) \<lparr>ti_to = new, ti_actor = actor, ti_at = tm\<rparr> t)), u)" "wf_payroll u"
      "mem_slips u = with_payslip i (\<lambda>p. moved_payslip p \<lparr>ti_to = new, ti_actor = actor, ti_at = tm\<rparr> t) (mem_slips w)"
    by blast
  with assms mem_payroll.find_slip [OF assms(1), of i] show ?thesis
    by (intro exI [of _ t] exI [of _ u])
      (simp add: movePayslip_def bnd_def ret_def permitted_iff slip_status_def)
qed

lemma find_with_payslip:
  assumes "List.find (\<lambda>d. slip_id d = i) ds = Some d" "\<And>p. ps_id (f p) = ps_id p"
  shows "List.find (\<lambda>d. slip_id d = i) (with_payslip i f ds) = Some (d\<lparr>pd_payslip := f (pd_payslip d)\<rparr>)"
  using assms(1) unfolding with_payslip_def by (induction ds) (auto simp: slip_id_def assms(2) split: if_splits)

lemma with_payslip_twice:
  assumes "\<And>p. ps_id (f p) = ps_id p"
  shows "with_payslip i g (with_payslip i f ds) = with_payslip i (\<lambda>p. g (f p)) ds"
  using assms unfolding with_payslip_def by (auto simp: slip_id_def)

lemma moved_id [simp]: "ps_id (moved_payslip p tin t) = ps_id p"
  by (simp add: moved_payslip_def)

text \<open>
  C34. A draft payslip can always be brought to payment, by two signatures in order and no other way: paying
  it as a draft is refused without effect; approving it and then paying it succeeds, stores both signatures
  and times, changes nothing else of the payslip and no other payslip.
\<close>

theorem draft_reaches_paid:
  assumes "wf_payroll w" "List.find (\<lambda>d. slip_id d = i) (mem_slips w) = Some d" "slip_status d = DRAFT"
  shows "payPayslip InMemoryWorkforceRepository id i cashier t2 w = (Inl (invalid ''PAYSLIP_NOT_APPROVED''), w) \<and>
    (let (r1, w1) = approvePayslip InMemoryWorkforceRepository id i boss t1 w;
         (r2, w2) = payPayslip InMemoryWorkforceRepository id i cashier t2 w1
     in \<exists>t p1 p. r1 = Inr p1 \<and> ps_status p1 = APPROVED \<and> r2 = Inr p \<and>
          p = (pd_payslip d)\<lparr>ps_status := PAID, ps_approvedAt := Some t1, ps_approvedBy := Some boss,
            ps_paidAt := Some t2, ps_paidBy := Some cashier, ps_updatedAt := t\<rparr> \<and>
          mem_slips w2 = map (\<lambda>c. if slip_id c = i then c\<lparr>pd_payslip := p\<rparr> else c) (mem_slips w))"
proof -
  let ?a = "\<lparr>ti_to = APPROVED, ti_actor = boss, ti_at = t1\<rparr>" and ?p = "\<lparr>ti_to = PAID, ti_actor = cashier, ti_at = t2\<rparr>"
  have refused: "payPayslip march_R id i cashier t2 w = (Inl (invalid ''PAYSLIP_NOT_APPROVED''), w)"
    using assms mem_payroll.find_slip [OF assms(1), of i]
    by (simp add: payPayslip_def movePayslip_def bnd_def throw_def evaluatePayslipTransition_def slip_status_def)
  have e1: "payslip_edge (slip_status d) APPROVED" by (simp add: assms(3) payslip_edge_def)
  from moves_now [OF assms(1,2) e1, of boss t1] obtain s1 w1 where
    a: "approvePayslip march_R id i boss t1 w = (Inr (moved_payslip (pd_payslip d) ?a s1), w1)" "wf_payroll w1"
      "mem_slips w1 = with_payslip i (\<lambda>p. moved_payslip p ?a s1) (mem_slips w)"
    by (auto simp: approvePayslip_def)
  let ?d = "d\<lparr>pd_payslip := moved_payslip (pd_payslip d) ?a s1\<rparr>"
  have d1: "List.find (\<lambda>d. slip_id d = i) (mem_slips w1) = Some ?d"
    unfolding a(3) by (rule find_with_payslip [OF assms(2)]) simp
  have e2: "payslip_edge (slip_status ?d) PAID" by (simp add: slip_status_def payslip_edge_def)
  from moves_now [OF a(2) d1 e2, of cashier t2] obtain s2 w2 where
    p: "payPayslip march_R id i cashier t2 w1 = (Inr (moved_payslip (pd_payslip ?d) ?p s2), w2)" "wf_payroll w2"
      "mem_slips w2 = with_payslip i (\<lambda>p. moved_payslip p ?p s2) (mem_slips w1)"
    by (auto simp: payPayslip_def)
  let ?new = "(pd_payslip d)\<lparr>ps_status := PAID, ps_approvedAt := Some t1, ps_approvedBy := Some boss,
      ps_paidAt := Some t2, ps_paidBy := Some cashier, ps_updatedAt := s2\<rparr>"
  have new: "moved_payslip (moved_payslip (pd_payslip d) ?a s1) ?p s2 = ?new"
    by (simp add: moved_payslip_def)
  have only: "c = d" if "c \<in> set (mem_slips w)" "slip_id c = i" for c
    using found_only(1) [OF _ assms(2) that] mem_payroll.unique [OF assms(1)] by blast
  have "mem_slips w2 = map (\<lambda>c. if slip_id c = i then c\<lparr>pd_payslip := ?new\<rparr> else c) (mem_slips w)"
    unfolding p(3) a(3) with_payslip_twice [of "\<lambda>p. moved_payslip p ?a s1", OF moved_id] unfolding with_payslip_def
    using only new by (intro map_cong refl) auto
  with refused a(1) p(1) new show ?thesis by auto
qed


theorem draft_reaches_paid_witness:
  "\<exists>p. fst (payPayslip march_R id (uuid 2) ''cash'' 6 march_approved) = Inr p \<and> ps_status p = PAID \<and>
     ps_approvedBy p = Some ''boss'' \<and> ps_netAmount p = 100"
proof -
  have "slip_status \<lparr>pd_payslip = march_slip, pd_components = [march_component]\<rparr> = DRAFT"
    by (simp add: slip_status_def march_draft_slip)
  from draft_reaches_paid [OF payroll_reachable(1) [OF march_reached] march_draft_slip(1) this, of "''cash''" 6 "''boss''" 5]
  show ?thesis by (auto simp: Let_def case_prod_unfold march_approved_def march_draft_slip(4))
qed

end
