(* ===== verification/DriverPayslips.thy ===== *)
theory DriverPayslips imports WorkforceGuarantees begin

text \<open>
  What a driver reads of the payroll books, and what they credit to him: the driver's own payslip list and the
  wage months that the settlement derives from the same rows.
\<close>

section \<open>The list of a driver\<close>

lemma list_all2_mem2: "list_all2 P xs ys \<Longrightarrow> y \<in> set ys \<Longrightarrow> \<exists>x \<in> set xs. P x y"
  by (induction rule: list_all2_induct) auto

context payroll_store
begin

lemma periodsOfRuns_found:
  assumes "pinv s" "calendar_ok (periods_of s) (runs_of s)" "set ids \<subseteq> pr_id ` set (runs_of s)"
  shows "\<exists>by_run. periodsOfRuns R ids s = (Inr by_run, s) \<and>
    (\<forall>i \<in> set ids. \<exists>r \<in> set (runs_of s). \<exists>p \<in> set (periods_of s).
       pr_id r = i \<and> pp_id p = pr_periodId r \<and> map_of by_run i = Some (toDriverPayslipPeriodView p))"
  using assms(3)
proof (induction ids)
  case (Cons i ids)
  then obtain r where "r \<in> set (runs_of s)" "pr_id r = i" by auto
  then have r: "List.find (\<lambda>r. pr_id r = i) (runs_of s) = Some r" "r \<in> set (runs_of s)" "pr_id r = i"
    using unique [OF assms(1)] find_distinct_key [of pr_id "runs_of s" r] by auto
  with assms(2) obtain p where "p \<in> set (periods_of s)" "pp_id p = pr_periodId r" by (force simp: calendar_ok_def)
  then have p: "List.find (\<lambda>p. pp_id p = pr_periodId r) (periods_of s) = Some p" "p \<in> set (periods_of s)"
      "pp_id p = pr_periodId r"
    using unique [OF assms(1)] find_distinct_key [of pp_id "periods_of s" p] by auto
  from Cons obtain by_run where rest: "periodsOfRuns R ids s = (Inr by_run, s)"
    "\<forall>i \<in> set ids. \<exists>r \<in> set (runs_of s). \<exists>p \<in> set (periods_of s).
       pr_id r = i \<and> pp_id p = pr_periodId r \<and> map_of by_run i = Some (toDriverPayslipPeriodView p)" by auto
  have "periodsOfRuns R (i # ids) s = (Inr ((i, toDriverPayslipPeriodView p) # by_run), s)"
    using assms(1) r p rest(1) by (simp add: bnd_def ret_def find_run find_period)
  with rest(2) r p show ?case by (auto split: if_splits)
qed (simp add: ret_def)

end

definition shown_as :: "PayrollPeriod list \<Rightarrow> PayrollRun list \<Rightarrow> PayslipDetail \<Rightarrow> DriverPayslipView \<Rightarrow> bool" where
  "shown_as ps rs d v \<longleftrightarrow>
     (\<exists>r \<in> set rs. \<exists>p \<in> set ps. pr_id r = ps_runId (pd_payslip d) \<and> pp_id p = pr_periodId r \<and>
        toDriverPayslipView d (toDriverPayslipPeriodView p) = Some v)"

lemma shown_fields:
  assumes "shown_as ps rs d v"
  shows "dv_id v = slip_id d" "dv_correctsId v = ps_correctsId (pd_payslip d)" "isPosted (slip_status d)"
    "dv_status v = slip_status d" "dv_netAmount v = ps_netAmount (pd_payslip d)"
  using assms
  by (auto simp: shown_as_def toDriverPayslipView_def Let_def slip_id_def slip_status_def isPublishableToDriver_def
      split: if_splits)

lemma grounded_correction:
  "correction_grounded ds e \<Longrightarrow> ps_correctsId (pd_payslip e) = Some i \<Longrightarrow>
   \<exists>d \<in> set ds. slip_id d = i \<and> isPosted (slip_status d) \<and> ps_driverId (pd_payslip d) = ps_driverId (pd_payslip e)"
  by (auto simp: correction_grounded_def)

text \<open>Views of payslips whose run and period are known.\<close>

lemma views_of_payslips:
  assumes "\<And>d. d \<in> set ds \<Longrightarrow> \<exists>r \<in> set rs. \<exists>p \<in> set ps. pr_id r = ps_runId (pd_payslip d) \<and>
      pp_id p = pr_periodId r \<and> map_of by_run (ps_runId (pd_payslip d)) = Some (toDriverPayslipPeriodView p)"
  shows "\<exists>vs. rmap (payslip_view by_run) ds = Inr vs \<and>
    list_all2 (shown_as ps rs) (filter (\<lambda>d. isPosted (slip_status d)) ds) (List.map_filter id vs)"
  using assms
proof (induction ds)
  case (Cons d ds)
  from Cons.prems [of d] obtain r p where rp: "r \<in> set rs" "p \<in> set ps" "pr_id r = ps_runId (pd_payslip d)"
      "pp_id p = pr_periodId r" "map_of by_run (ps_runId (pd_payslip d)) = Some (toDriverPayslipPeriodView p)" by auto
  have "\<exists>vs. rmap (payslip_view by_run) ds = Inr vs \<and>
      list_all2 (shown_as ps rs) (filter (\<lambda>d. isPosted (slip_status d)) ds) (List.map_filter id vs)"
    by (rule Cons.IH) (use Cons.prems in auto)
  then obtain vs where vs: "rmap (payslip_view by_run) ds = Inr vs"
    "list_all2 (shown_as ps rs) (filter (\<lambda>d. isPosted (slip_status d)) ds) (List.map_filter id vs)" by blast
  have v: "payslip_view by_run d = Inr (toDriverPayslipView d (toDriverPayslipPeriodView p))"
    by (simp add: payslip_view_def periodOf_def rp(5) rbind_def)
  show ?case
  proof (cases "isPosted (slip_status d)")
    case True
    then obtain v' where v': "toDriverPayslipView d (toDriverPayslipPeriodView p) = Some v'"
      by (simp add: toDriverPayslipView_def Let_def slip_status_def isPublishableToDriver_def)
    with rp have "shown_as ps rs d v'" by (auto simp: shown_as_def)
    with True v v' vs show ?thesis by (simp add: rbind_def id_def)
  next
    case False
    then have "toDriverPayslipView d (toDriverPayslipPeriodView p) = None"
      by (simp add: toDriverPayslipView_def Let_def slip_status_def isPublishableToDriver_def)
    with False v vs show ?thesis by (simp add: rbind_def id_def)
  qed
qed simp

text \<open>
  C35. In every reachable store a bound driver is shown exactly his own posted payslips, in order, each with
  its amounts and the period of its run; the read always succeeds and changes nothing. No draft and no payslip
  of another driver is shown, and when a correction is shown, the payslip that it corrects is shown too. A
  user without a driver is refused.
\<close>

theorem driver_sees_own_posted_payslips:
  assumes "payroll_path InMemoryWorkforceRepository empty_payroll w"
  shows "case we_driverByAuthUser env user of
      None \<Rightarrow> listMyPayslips InMemoryWorkforceRepository env user w = (Inl (denied ''SELF_PAYSLIP_SCOPE_NO_DRIVER_BINDING''), w)
    | Some driver \<Rightarrow> \<exists>vs. listMyPayslips InMemoryWorkforceRepository env user w = (Inr vs, w) \<and>
        list_all2 (shown_as (map snd (ws_periods w)) (map snd (ws_runs w)))
          (filter (\<lambda>d. ps_driverId (pd_payslip d) = driver \<and> isPosted (slip_status d)) (mem_slips w)) vs \<and>
        (\<forall>v \<in> set vs. \<forall>i. dv_correctsId v = Some i \<longrightarrow> i \<in> dv_id ` set vs)"
proof (cases "we_driverByAuthUser env user")
  case None
  then show ?thesis by (simp add: listMyPayslips_def requireDriverBinding_def bnd_def lift_def)
next
  case (Some driver)
  let ?ps = "map snd (ws_periods w)" and ?rs = "map snd (ws_runs w)"
  let ?mine = "filter (\<lambda>d. ps_driverId (pd_payslip d) = driver) (mem_slips w)"
  from payroll_reachable [OF assms] have inv: "wf_payroll w" and cal: "calendar_ok ?ps ?rs"
    and runs: "\<forall>d \<in> set (mem_slips w). ps_runId (pd_payslip d) \<in> pr_id ` set ?rs"
    and grounded: "\<forall>d \<in> set (mem_slips w). correction_grounded (mem_slips w) d"
    by (simp_all add: books_at_def books_ok_iff)
  have "set (run_ids ?mine) \<subseteq> pr_id ` set ?rs" using runs by (auto simp: run_ids_def)
  from mem_payroll.periodsOfRuns_found [OF inv cal this] obtain by_run where
    by_run: "periodsOfRuns march_R (run_ids ?mine) w = (Inr by_run, w)"
      "\<forall>i \<in> set (run_ids ?mine). \<exists>r \<in> set ?rs. \<exists>p \<in> set ?ps. pr_id r = i \<and> pp_id p = pr_periodId r \<and>
         map_of by_run i = Some (toDriverPayslipPeriodView p)" by blast
  have "\<exists>r \<in> set ?rs. \<exists>p \<in> set ?ps. pr_id r = ps_runId (pd_payslip d) \<and> pp_id p = pr_periodId r \<and>
      map_of by_run (ps_runId (pd_payslip d)) = Some (toDriverPayslipPeriodView p)" if "d \<in> set ?mine" for d
    using by_run(2) that by (force simp: run_ids_def)
  from views_of_payslips [of ?mine ?rs ?ps by_run, OF this] obtain vs where
    vs: "rmap (payslip_view by_run) ?mine = Inr vs"
      "list_all2 (shown_as ?ps ?rs) (filter (\<lambda>d. isPosted (slip_status d)) ?mine) (List.map_filter id vs)" by blast
  let ?vs = "List.map_filter id vs"
  have list: "listMyPayslips march_R env user w = (Inr ?vs, w)"
    by (simp add: listMyPayslips_def requireDriverBinding_def Some bnd_def lift_def ret_def
        mem_payroll.list_driver [OF inv] by_run(1) vs(1))
  have shown: "list_all2 (shown_as ?ps ?rs)
      (filter (\<lambda>d. ps_driverId (pd_payslip d) = driver \<and> isPosted (slip_status d)) (mem_slips w)) ?vs"
    using vs(2) by (simp add: filter_filter conj_commute)
  have ids: "map dv_id ?vs = map slip_id (filter (\<lambda>d. ps_driverId (pd_payslip d) = driver \<and> isPosted (slip_status d)) (mem_slips w))"
    using shown by (induction rule: list_all2_induct) (simp_all add: shown_fields)
  have "i \<in> dv_id ` set ?vs" if v: "v \<in> set ?vs" "dv_correctsId v = Some i" for v i
  proof -
    have "\<exists>d \<in> set (filter (\<lambda>d. ps_driverId (pd_payslip d) = driver \<and> isPosted (slip_status d)) (mem_slips w)).
        shown_as ?ps ?rs d v"
      using list_all2_mem2 [OF shown v(1)] .
    then obtain d where d: "d \<in> set (mem_slips w)" "ps_driverId (pd_payslip d) = driver" "shown_as ?ps ?rs d v" by auto
    have g: "correction_grounded (mem_slips w) d" using grounded d(1) by (rule bspec)
    have "ps_correctsId (pd_payslip d) = Some i" using shown_fields(2) [OF d(3)] v(2) by simp
    with grounded_correction [OF g this] obtain c where "c \<in> set (mem_slips w)" "slip_id c = i"
        "isPosted (slip_status c)" "ps_driverId (pd_payslip c) = driver"
      unfolding d(2) by blast
    then have "i \<in> set (map dv_id ?vs)" unfolding ids by auto
    then show ?thesis by simp
  qed
  then have "\<forall>v \<in> set ?vs. \<forall>i. dv_correctsId v = Some i \<longrightarrow> i \<in> dv_id ` set ?vs" by blast
  with list shown show ?thesis unfolding Some option.case(2) by (intro exI [of _ ?vs] conjI)
qed


lemma march_reversed_slips: "mem_slips march_reversed =
    [\<lparr>pd_payslip = march_paid_slip\<lparr>ps_status := PAYSLIP_REVERSED\<rparr>, pd_components = [march_component]\<rparr>,
     \<lparr>pd_payslip = march_reversal, pd_components = [toComponent (uuid 4) march_back 0 (uuid 5)]\<rparr>]"
  by (simp add: mem_slips_def march_reversed_def march_ran_def payslip_detail_def march_reversal_def march_paid_slip_def
      march_slip_def Workforce.payslip_row_def)

lemma march_both: "ps_driverId march_paid_slip = ''D1''" "ps_driverId march_reversal = ''D1''"
  "ps_status march_reversal = APPROVED" "ps_netAmount march_paid_slip = 100" "ps_netAmount march_reversal = -100"
  "ps_kind march_paid_slip = PAYSLIP_ORIGINAL" "ps_kind march_reversal = PAYSLIP_REVERSAL"
  "ps_id march_paid_slip = uuid 2" "ps_id march_reversal = uuid 4" "ps_runId march_paid_slip = uuid 1"
  "ps_runId march_reversal = uuid 1"
  by (simp_all add: march_paid_slip_def march_reversal_def march_slip_def Workforce.payslip_row_def toWriteInput_def
      march_draft_def)

theorem driver_sees_own_posted_payslips_witness:
  "\<exists>v v'. listMyPayslips march_R march_env ''U1'' march_reversed = (Inr [v, v'], march_reversed) \<and>
     dv_netAmount v = 100 \<and> dv_netAmount v' = -100"
proof -
  have "we_driverByAuthUser march_env ''U1'' = Some ''D1''" by (simp add: march_env_def)
  with driver_sees_own_posted_payslips [OF march_reversed_reached, of march_env "''U1''"] obtain vs where
    "listMyPayslips march_R march_env ''U1'' march_reversed = (Inr vs, march_reversed)"
    "list_all2 (shown_as (map snd (ws_periods march_reversed)) (map snd (ws_runs march_reversed))) (mem_slips march_reversed) vs"
    by (auto simp: march_reversed_slips march_both slip_status_def isPosted_def)
  then show ?thesis
    by (auto simp: march_reversed_slips list_all2_Cons1 march_both dest!: shown_fields(5))
qed

section \<open>What reversals do to the wages\<close>

definition corrected_by :: "PayslipDetail list \<Rightarrow> PayslipDetail \<Rightarrow> PayslipDetail" where
  "corrected_by ds r = the (List.find (\<lambda>d. slip_id d = the (ps_correctsId (pd_payslip r))) ds)"

lemma takes_back_corrected:
  assumes "takes_back r d" "d \<in> set ds" "distinct (map slip_id ds)"
  shows "corrected_by ds r = d"
proof -
  have "ps_correctsId (pd_payslip r) = Some (slip_id d)" using assms(1) by (simp add: takes_back_def is_reversal_of_def)
  with find_distinct_key [OF assms(3,2)] show ?thesis by (simp add: corrected_by_def)
qed

lemma one_reversal:
  assumes "payroll_ok ds" "r \<in> set ds" "q \<in> set ds" "is_reversal_of i r" "is_reversal_of i q"
  shows "r = q"
proof -
  have "length (filter (is_reversal_of i) ds) \<le> 1" using assms(1) by (simp add: payroll_ok_def)
  moreover have "r \<in> set (filter (is_reversal_of i) ds)" "q \<in> set (filter (is_reversal_of i) ds)" using assms(2-5) by simp_all
  ultimately show ?thesis using at_most_one by fastforce
qed

lemma reversals_paired:
  assumes ok: "payroll_ok ds" and dist: "distinct (map slip_id ds)"
  shows "bij_betw (corrected_by ds)
      {r \<in> set ds. ps_driverId (pd_payslip r) = x \<and> ps_kind (pd_payslip r) = PAYSLIP_REVERSAL}
      {d \<in> set ds. ps_driverId (pd_payslip d) = x \<and> slip_status d = PAYSLIP_REVERSED}"
    "\<And>r. r \<in> set ds \<Longrightarrow> ps_kind (pd_payslip r) = PAYSLIP_REVERSAL \<Longrightarrow>
      ps_netAmount (pd_payslip r) = - ps_netAmount (pd_payslip (corrected_by ds r))"
proof -
  have undone: "corrected_by ds r \<in> set ds \<and> takes_back r (corrected_by ds r)"
    if "r \<in> set ds" "ps_kind (pd_payslip r) = PAYSLIP_REVERSAL" for r
    using ok that takes_back_corrected [OF _ _ dist, of r] unfolding payroll_ok_def by blast
  show "ps_netAmount (pd_payslip r) = - ps_netAmount (pd_payslip (corrected_by ds r))"
    if "r \<in> set ds" "ps_kind (pd_payslip r) = PAYSLIP_REVERSAL" for r
    using undone [OF that] by (simp add: takes_back_def)
  show "bij_betw (corrected_by ds)
      {r \<in> set ds. ps_driverId (pd_payslip r) = x \<and> ps_kind (pd_payslip r) = PAYSLIP_REVERSAL}
      {d \<in> set ds. ps_driverId (pd_payslip d) = x \<and> slip_status d = PAYSLIP_REVERSED}"
    unfolding bij_betw_def
  proof
    show "inj_on (corrected_by ds) {r \<in> set ds. ps_driverId (pd_payslip r) = x \<and> ps_kind (pd_payslip r) = PAYSLIP_REVERSAL}"
    proof (rule inj_onI)
      fix r q
      assume r: "r \<in> {r \<in> set ds. ps_driverId (pd_payslip r) = x \<and> ps_kind (pd_payslip r) = PAYSLIP_REVERSAL}"
        and q: "q \<in> {r \<in> set ds. ps_driverId (pd_payslip r) = x \<and> ps_kind (pd_payslip r) = PAYSLIP_REVERSAL}"
        and same: "corrected_by ds r = corrected_by ds q"
      from r q undone [of r] undone [of q] have "is_reversal_of (slip_id (corrected_by ds r)) r"
        "is_reversal_of (slip_id (corrected_by ds r)) q" by (simp_all add: same takes_back_def)
      with r q one_reversal [OF ok] show "r = q" by blast
    qed
  next
    have "d \<in> corrected_by ds ` {r \<in> set ds. ps_driverId (pd_payslip r) = x \<and> ps_kind (pd_payslip r) = PAYSLIP_REVERSAL}"
      if d: "d \<in> set ds" "ps_driverId (pd_payslip d) = x" "slip_status d = PAYSLIP_REVERSED" for d
    proof -
      from ok d obtain r where r: "r \<in> set ds" "is_reversal_of (slip_id d) r" by (auto simp: payroll_ok_def list_ex_iff)
      then have k: "ps_kind (pd_payslip r) = PAYSLIP_REVERSAL" "ps_correctsId (pd_payslip r) = Some (slip_id d)"
        by (simp_all add: is_reversal_of_def)
      have c: "corrected_by ds r = d" using k(2) find_distinct_key [OF dist d(1)] by (simp add: corrected_by_def)
      have "ps_driverId (pd_payslip r) = x" using undone [OF r(1) k(1)] d(2) unfolding c takes_back_def by simp
      with r(1) k(1) c show ?thesis by blast
    qed
    then show "corrected_by ds ` {r \<in> set ds. ps_driverId (pd_payslip r) = x \<and> ps_kind (pd_payslip r) = PAYSLIP_REVERSAL} =
        {d \<in> set ds. ps_driverId (pd_payslip d) = x \<and> slip_status d = PAYSLIP_REVERSED}"
      using undone by (auto simp: takes_back_def)
  qed
qed

definition net_of :: "(PayslipDetail \<Rightarrow> bool) \<Rightarrow> PayslipDetail list \<Rightarrow> int" where
  "net_of P ds = sum_list (map (\<lambda>d. ps_netAmount (pd_payslip d)) (filter P ds))"

lemma net_of_set:
  "distinct (map slip_id ds) \<Longrightarrow> net_of P ds = sum (\<lambda>d. ps_netAmount (pd_payslip d)) {d \<in> set ds. P d}"
  by (simp add: net_of_def sum_list_distinct_conv_sum_set distinct_map)

lemma reversals_net:
  assumes "payroll_ok ds" "distinct (map slip_id ds)"
  shows "net_of (\<lambda>r. ps_driverId (pd_payslip r) = x \<and> ps_kind (pd_payslip r) = PAYSLIP_REVERSAL) ds =
    - net_of (\<lambda>d. ps_driverId (pd_payslip d) = x \<and> slip_status d = PAYSLIP_REVERSED) ds"
proof -
  note paired = reversals_paired [OF assms]
  have "net_of (\<lambda>r. ps_driverId (pd_payslip r) = x \<and> ps_kind (pd_payslip r) = PAYSLIP_REVERSAL) ds =
      sum (\<lambda>r. - ps_netAmount (pd_payslip (corrected_by ds r)))
        {r \<in> set ds. ps_driverId (pd_payslip r) = x \<and> ps_kind (pd_payslip r) = PAYSLIP_REVERSAL}"
    unfolding net_of_set [OF assms(2)] using paired(2) by (intro sum.cong) auto
  also have "\<dots> = sum (\<lambda>d. - ps_netAmount (pd_payslip d))
      {d \<in> set ds. ps_driverId (pd_payslip d) = x \<and> slip_status d = PAYSLIP_REVERSED}"
    by (rule sum.reindex_bij_betw [OF paired(1)])
  finally show ?thesis unfolding net_of_set [OF assms(2)] by (simp add: sum_negf)
qed


text \<open>What the payroll adapter of the settlement reads from the store.\<close>

definition view_at :: "payroll_state \<Rightarrow> workforce_view" where
  "view_at w = \<lparr>listPayslipsByDriver = (\<lambda>x. map pd_payslip (filter (\<lambda>d. ps_driverId (pd_payslip d) = x) (mem_slips w))),
     findPayrollRun = map_of (ws_runs w), findPayrollPeriod = map_of (ws_periods w)\<rparr>"

lemma keyed_map_of:
  assumes "keyed f xs n" "x \<in> snd ` set xs"
  shows "map_of xs (f x) = Some x"
  using assms by (auto simp: keyed_def)

lemma facts_of_slips:
  assumes inv: "wf_payroll w" and ok: "books_ok (books_at w)"
    and ds: "\<forall>d \<in> set ds. d \<in> set (mem_slips w)"
  shows "map (\<lambda>f. (pf_payslipId f, pf_status f, pf_netAmount f)) (List.map_filter (payslip_fact (view_at w)) (map pd_payslip ds)) =
    map (\<lambda>d. (slip_id d, slip_status d, ps_netAmount (pd_payslip d))) ds"
  using ds
proof (induction ds)
  case (Cons d ds)
  from inv have k: "keyed pr_id (ws_runs w) (ws_next w)" "keyed pp_id (ws_periods w) (ws_next w)"
    by (simp_all add: wf_payroll_def)
  from ok Cons.prems obtain r where r: "r \<in> snd ` set (ws_runs w)" "pr_id r = ps_runId (pd_payslip d)"
    by (fastforce simp: books_at_def books_ok_iff)
  with ok obtain p where p: "p \<in> snd ` set (ws_periods w)" "pp_id p = pr_periodId r"
    by (fastforce simp: books_at_def books_ok_iff calendar_ok_def)
  have "map_of (ws_runs w) (ps_runId (pd_payslip d)) = Some r" "map_of (ws_periods w) (pr_periodId r) = Some p"
    using keyed_map_of [OF k(1) r(1)] keyed_map_of [OF k(2) p(1)] r(2) p(2) by simp_all
  then obtain f where "payslip_fact (view_at w) (pd_payslip d) = Some f" "pf_payslipId f = slip_id d"
      "pf_status f = slip_status d" "pf_netAmount f = ps_netAmount (pd_payslip d)"
    by (simp add: payslip_fact_def view_at_def slip_id_def slip_status_def)
  with Cons show ?case by (simp add: List.map_filter_def)
qed (simp add: List.map_filter_def)

lemma posted_net:
  "sum_list (map pf_netAmount (posted_slips fs)) =
   sum_list (map (\<lambda>(i, s, n). n) (filter (\<lambda>(i, s, n). s \<noteq> DRAFT) (map (\<lambda>f. (pf_payslipId f, pf_status f, pf_netAmount f)) fs)))"
  unfolding posted_slips_def bearsWageCredit_def by (induction fs) auto

lemma posted_net_slips:
  "sum_list (map (\<lambda>(i, s, n). n) (filter (\<lambda>(i, s, n). s \<noteq> DRAFT)
     (map (\<lambda>d. (slip_id d, slip_status d, ps_netAmount (pd_payslip d))) ds))) = net_of (\<lambda>d. isPosted (slip_status d)) ds"
  unfolding net_of_def isPosted_def by (induction ds) auto

lemma net_of_split:
  "net_of P ds = net_of (\<lambda>d. P d \<and> Q d) ds + net_of (\<lambda>d. P d \<and> \<not> Q d) ds"
  unfolding net_of_def by (induction ds) auto

lemma net_of_cong: "(\<And>d. d \<in> set ds \<Longrightarrow> P d = Q d) \<Longrightarrow> net_of P ds = net_of Q ds"
  unfolding net_of_def by (metis (mono_tags, lifting) filter_cong)

text \<open>
  C36. Payroll and settlement agree on corrections: in every reachable store, the wage months credit a driver
  with exactly the net of his posted payslips that are not reversals, less the net of those that have been
  reversed. So a reversed payslip no longer counts, a reversed reversal counts again, drafts never count.
\<close>

theorem reversed_wages_are_taken_back:
  assumes "payroll_path InMemoryWorkforceRepository empty_payroll w"
    and "foldWageMonths (postedPayslipsOf (view_at w) driver) cashedOut = Inr months"
  shows "sum_list (map wm_credited months) =
    net_of (\<lambda>d. ps_driverId (pd_payslip d) = driver \<and> isPosted (slip_status d) \<and>
        ps_kind (pd_payslip d) \<noteq> PAYSLIP_REVERSAL) (mem_slips w) -
    net_of (\<lambda>d. ps_driverId (pd_payslip d) = driver \<and> slip_status d = PAYSLIP_REVERSED) (mem_slips w)"
proof -
  let ?ds = "mem_slips w" and ?mine = "filter (\<lambda>d. ps_driverId (pd_payslip d) = driver) (mem_slips w)"
  note inv = payroll_reachable [OF assms(1)]
  have ok: "payroll_ok ?ds" and grounded: "\<forall>d \<in> set ?ds. correction_grounded ?ds d"
    using inv(2) by (simp_all add: books_at_def books_ok_iff)
  have dist: "distinct (map slip_id ?ds)" using mem_payroll.unique [OF inv(1)] by simp
  have rev_posted: "isPosted (slip_status d)" if "d \<in> set ?ds" "ps_kind (pd_payslip d) = PAYSLIP_REVERSAL" for d
    using grounded that by (auto simp: correction_grounded_def)
  have "sum_list (map wm_credited months) = sum_list (map pf_netAmount (posted_slips (postedPayslipsOf (view_at w) driver)))"
    using foldWageMonths_ok [OF assms(2)] by simp
  also have "\<dots> = net_of (\<lambda>d. isPosted (slip_status d)) ?mine"
    using facts_of_slips [OF inv, of ?mine] posted_net_slips [of ?mine]
    unfolding posted_net by (simp add: postedPayslipsOf_def view_at_def)
  also have "\<dots> = net_of (\<lambda>d. ps_driverId (pd_payslip d) = driver \<and> isPosted (slip_status d)) ?ds"
    by (simp add: net_of_def filter_filter conj_commute)
  also have "\<dots> = net_of (\<lambda>d. (ps_driverId (pd_payslip d) = driver \<and> isPosted (slip_status d)) \<and>
        ps_kind (pd_payslip d) \<noteq> PAYSLIP_REVERSAL) ?ds +
      net_of (\<lambda>d. (ps_driverId (pd_payslip d) = driver \<and> isPosted (slip_status d)) \<and>
        \<not> ps_kind (pd_payslip d) \<noteq> PAYSLIP_REVERSAL) ?ds"
    by (rule net_of_split)
  also have "net_of (\<lambda>d. (ps_driverId (pd_payslip d) = driver \<and> isPosted (slip_status d)) \<and>
        \<not> ps_kind (pd_payslip d) \<noteq> PAYSLIP_REVERSAL) ?ds =
      net_of (\<lambda>r. ps_driverId (pd_payslip r) = driver \<and> ps_kind (pd_payslip r) = PAYSLIP_REVERSAL) ?ds"
    by (rule net_of_cong) (use rev_posted in blast)
  finally show ?thesis unfolding reversals_net [OF ok dist] by (simp add: conj_assoc)
qed


lemma march_months: "\<exists>m. foldWageMonths (postedPayslipsOf (view_at march_reversed) ''D1'') [] = Inr [m]"
proof -
  have r: "map_of (ws_runs march_reversed) (uuid (Suc 0)) = Some march_run" "pr_periodId march_run = uuid 0"
      "map_of (ws_periods march_reversed) (uuid 0) = Some march_period" "pp_id march_period = uuid 0"
    by (simp_all add: march_reversed_def march_ran_def march_run_def run_row_def march_period_def period_row_def)
  have v: "money_add 0 100 = Inr 100" "money_add 0 0 = Inr 0" "money_add 100 0 = Inr 100" "money_add 100 (- 100) = Inr 0"
      "money_add (- 100) 0 = Inr (- 100)"
    by (simp_all add: money_add_def rbind_def valid_amount_def js_add_exact max_safe_integer_def)
  have p: "pr_id march_run = uuid (Suc 0)" by (simp add: march_run_def run_row_def)
  let ?f = "\<lambda>d. \<lparr>pf_payslipId = slip_id d, pf_periodId = uuid 0, pf_periodLabel = pp_label march_period,
      pf_periodStartDate = pp_startDate march_period, pf_periodEndDate = pp_endDate march_period, pf_runId = uuid 1,
      pf_kind = ps_kind (pd_payslip d), pf_status = slip_status d, pf_netAmount = ps_netAmount (pd_payslip d),
      pf_currencyCode = ps_currencyCode (pd_payslip d)\<rparr>"
  have "postedPayslipsOf (view_at march_reversed) ''D1'' = map ?f (mem_slips march_reversed)"
    by (simp add: postedPayslipsOf_def view_at_def march_reversed_slips march_both payslip_fact_def r p List.map_filter_def
        slip_id_def slip_status_def)
  then show ?thesis
    by (simp add: march_reversed_slips march_both slip_id_def slip_status_def foldWageMonths_def bearsWageCredit_def
        new_month_def add_payslip_def map_get_def v rbind_def Let_def)
qed

theorem reversed_wages_are_taken_back_witness:
  "\<exists>m. foldWageMonths (postedPayslipsOf (view_at march_reversed) ''D1'') [] = Inr [m] \<and> wm_credited m = 0"
proof -
  from march_months obtain m where m: "foldWageMonths (postedPayslipsOf (view_at march_reversed) ''D1'') [] = Inr [m]" ..
  from reversed_wages_are_taken_back [OF march_reversed_reached m] m show ?thesis
    by (simp add: net_of_def march_reversed_slips march_both slip_status_def isPosted_def)
qed

end
