(* ===== verification/RunLifecycle.thy ===== *)
theory RunLifecycle imports KeyedRows begin

text \<open>
  \<open>movement/movement.types.ts\<close> (runs of a vehicle, their legs and drivers) and the decisions of
  \<open>movement/movement-lifecycle.ts\<close>. Reason codes are strings; an allowed decision carries its code only
  where a caller reads it.
\<close>

section \<open>Rows\<close>

datatype OrderStatus = ORDER_OPEN | ORDER_FULFILLED | ORDER_CANCELLED

datatype VehicleRunStatus = RUN_PLANNED | RUN_ACTIVE | RUN_COMPLETED | RUN_CANCELLED

datatype RunLegKind = LOADED | EMPTY

datatype RunLegStatus = LEG_PLANNED | LEG_IN_TRANSIT | LEG_COMPLETED | LEG_CANCELLED

record VehicleRun =
  vr_id :: ident
  vr_code :: string
  vr_vehicleId :: ident
  vr_status :: VehicleRunStatus
  vr_businessDate :: business_date
  vr_startedAt :: "timestamp option"
  vr_completedAt :: "timestamp option"
  vr_note :: "string option"
  vr_createdAt :: timestamp
  vr_updatedAt :: timestamp
  vr_cancelledAt :: "timestamp option"
  vr_cancellationReason :: "string option"

record RunLeg =
  rl_id :: ident
  rl_runId :: ident
  rl_sequence :: int
  rl_kind :: RunLegKind
  rl_status :: RunLegStatus
  rl_orderId :: "ident option"
  rl_originLabel :: string
  rl_destinationLabel :: string
  rl_businessDate :: business_date
  rl_distanceKm :: "int option"
  rl_plannedDistanceKm :: "int option"
  rl_startedAt :: "timestamp option"
  rl_completedAt :: "timestamp option"
  rl_note :: "string option"
  rl_createdAt :: timestamp
  rl_updatedAt :: timestamp

record RunAssignment =
  ra_id :: ident
  ra_runId :: ident
  ra_driverId :: ident
  ra_effectiveFrom :: timestamp
  ra_effectiveTo :: "timestamp option"
  ra_assignedBy :: string
  ra_createdAt :: timestamp

section \<open>Decisions\<close>

definition INITIAL_RUN_STATUS :: VehicleRunStatus where
  "INITIAL_RUN_STATUS = RUN_PLANNED"

definition isTerminalOrderStatus :: "OrderStatus \<Rightarrow> bool" where
  "isTerminalOrderStatus status \<longleftrightarrow> status = ORDER_FULFILLED \<or> status = ORDER_CANCELLED"

definition isTerminalRunStatus :: "VehicleRunStatus \<Rightarrow> bool" where
  "isTerminalRunStatus status \<longleftrightarrow> status = RUN_COMPLETED \<or> status = RUN_CANCELLED"

fun ORDER_EDGES :: "OrderStatus \<Rightarrow> OrderStatus list" where
  "ORDER_EDGES ORDER_OPEN = [ORDER_FULFILLED, ORDER_CANCELLED]"
| "ORDER_EDGES ORDER_FULFILLED = []"
| "ORDER_EDGES ORDER_CANCELLED = []"

fun RUN_EDGES :: "VehicleRunStatus \<Rightarrow> VehicleRunStatus list" where
  "RUN_EDGES RUN_PLANNED = [RUN_ACTIVE, RUN_CANCELLED]"
| "RUN_EDGES RUN_ACTIVE = [RUN_COMPLETED, RUN_CANCELLED]"
| "RUN_EDGES RUN_COMPLETED = []"
| "RUN_EDGES RUN_CANCELLED = []"

definition evaluateOrderTransition :: "OrderStatus \<Rightarrow> OrderStatus \<Rightarrow> reason transition_decision" where
  "evaluateOrderTransition from_status to_status =
     (if isTerminalOrderStatus from_status then Refused ''ORDER_ALREADY_TERMINAL''
      else if from_status = to_status then Refused ''ORDER_ALREADY_IN_STATE''
      else if to_status = ORDER_CANCELLED then Refused ''ORDER_CANCEL_REQUIRES_DEDICATED_PATH''
      else if to_status \<notin> set (ORDER_EDGES from_status) then Refused ''ORDER_TRANSITION_NOT_PERMITTED''
      else Allowed)"

definition evaluateOrderCancel :: "OrderStatus \<Rightarrow> reason transition_decision" where
  "evaluateOrderCancel from_status =
     (if from_status = ORDER_CANCELLED then Refused ''ORDER_CANCEL_ALREADY_CANCELLED''
      else if from_status = ORDER_FULFILLED then Refused ''ORDER_CANCEL_ALREADY_FULFILLED''
      else Allowed)"

definition evaluateRunTransition ::
  "VehicleRunStatus \<Rightarrow> VehicleRunStatus \<Rightarrow> nat \<Rightarrow> reason transition_decision" where
  "evaluateRunTransition from_status to_status legCount =
     (if isTerminalRunStatus from_status then Refused ''RUN_ALREADY_TERMINAL''
      else if from_status = to_status then Refused ''RUN_ALREADY_IN_STATE''
      else if to_status = RUN_CANCELLED then Refused ''RUN_CANCEL_REQUIRES_DEDICATED_PATH''
      else if to_status = RUN_COMPLETED then Refused ''RUN_COMPLETE_REQUIRES_SYSTEM_PATH''
      else if to_status \<notin> set (RUN_EDGES from_status) then Refused ''RUN_TRANSITION_NOT_PERMITTED''
      else if to_status = RUN_ACTIVE \<and> legCount = 0 then Refused ''RUN_HAS_NO_LEG''
      else Allowed)"

definition evaluateSystemRunClose :: "VehicleRunStatus \<Rightarrow> reason transition_decision" where
  "evaluateSystemRunClose from_status =
     (if isTerminalRunStatus from_status then Refused ''RUN_ALREADY_TERMINAL''
      else if RUN_COMPLETED \<notin> set (RUN_EDGES from_status) then Refused ''RUN_TRANSITION_NOT_PERMITTED''
      else Allowed)"

definition evaluateRunCancel :: "VehicleRunStatus \<Rightarrow> reason transition_decision" where
  "evaluateRunCancel from_status =
     (if from_status = RUN_CANCELLED then Refused ''RUN_CANCEL_ALREADY_CANCELLED''
      else if from_status = RUN_COMPLETED then Refused ''RUN_CANCEL_ALREADY_COMPLETED''
      else Allowed)"

fun LEG_EDGES :: "RunLegStatus \<Rightarrow> RunLegStatus list" where
  "LEG_EDGES LEG_PLANNED = [LEG_IN_TRANSIT, LEG_CANCELLED]"
| "LEG_EDGES LEG_IN_TRANSIT = [LEG_COMPLETED]"
| "LEG_EDGES LEG_COMPLETED = []"
| "LEG_EDGES LEG_CANCELLED = []"

definition isTerminalLegStatus :: "RunLegStatus \<Rightarrow> bool" where
  "isTerminalLegStatus status \<longleftrightarrow> status = LEG_COMPLETED \<or> status = LEG_CANCELLED"

definition evaluateLegTransition :: "RunLegStatus \<Rightarrow> RunLegStatus \<Rightarrow> reason transition_decision" where
  "evaluateLegTransition from_status to_status =
     (if isTerminalLegStatus from_status then Refused ''LEG_ALREADY_TERMINAL''
      else if from_status = to_status then Refused ''LEG_ALREADY_IN_STATE''
      else if to_status = LEG_CANCELLED then Refused ''LEG_CANCEL_REQUIRES_DEDICATED_PATH''
      else if to_status \<notin> set (LEG_EDGES from_status) then Refused ''LEG_TRANSITION_NOT_PERMITTED''
      else Allowed)"

definition evaluateLegCancel :: "RunLegStatus \<Rightarrow> reason transition_decision" where
  "evaluateLegCancel from_status =
     (if from_status = LEG_CANCELLED then Refused ''LEG_CANCEL_ALREADY_CANCELLED''
      else if from_status = LEG_COMPLETED then Refused ''LEG_CANCEL_ALREADY_COMPLETED''
      else if from_status = LEG_IN_TRANSIT then Refused ''LEG_CANCEL_ALREADY_STARTED''
      else Allowed)"

text \<open>The field reading of a leg; the phase travels to the denial detail only.\<close>

record LegFieldDelivery =
  lf_delivered :: bool
  lf_phase :: string

datatype evidence_decision = LEG_TRANSITION_APPLIED | LEG_COMPLETED_BY_OVERRIDE | LEG_FIELD_DELIVERY_NOT_RECORDED

definition evaluateLegCompletionEvidence ::
  "RunLegKind \<Rightarrow> RunLegStatus \<Rightarrow> LegFieldDelivery option \<Rightarrow> string option \<Rightarrow> evidence_decision" where
  "evaluateLegCompletionEvidence kind to_status field overrideReason =
     (if to_status \<noteq> LEG_COMPLETED \<or> kind \<noteq> LOADED then LEG_TRANSITION_APPLIED
      else (case field of
          None \<Rightarrow> LEG_TRANSITION_APPLIED
        | Some f \<Rightarrow>
            if lf_delivered f then LEG_TRANSITION_APPLIED
            else if overrideReason \<noteq> None then LEG_COMPLETED_BY_OVERRIDE
            else LEG_FIELD_DELIVERY_NOT_RECORDED))"

section \<open>What the decisions allow\<close>

lemma isTerminalRunStatus_simps [simp]:
  "\<not> isTerminalRunStatus RUN_PLANNED" "\<not> isTerminalRunStatus RUN_ACTIVE"
  "isTerminalRunStatus RUN_COMPLETED" "isTerminalRunStatus RUN_CANCELLED"
  by (simp_all add: isTerminalRunStatus_def)

lemma isTerminalLegStatus_simps [simp]:
  "\<not> isTerminalLegStatus LEG_PLANNED" "\<not> isTerminalLegStatus LEG_IN_TRANSIT"
  "isTerminalLegStatus LEG_COMPLETED" "isTerminalLegStatus LEG_CANCELLED"
  by (simp_all add: isTerminalLegStatus_def)

lemma run_transition_only_starts:
  "evaluateRunTransition s t n = Allowed \<longleftrightarrow> s = RUN_PLANNED \<and> t = RUN_ACTIVE \<and> 0 < n"
  by (cases s; cases t) (auto simp: evaluateRunTransition_def)

lemma system_close_iff: "evaluateSystemRunClose s = Allowed \<longleftrightarrow> s = RUN_ACTIVE"
  by (cases s) (auto simp: evaluateSystemRunClose_def)

lemma run_cancel_iff: "evaluateRunCancel s = Allowed \<longleftrightarrow> \<not> isTerminalRunStatus s"
  by (cases s) (auto simp: evaluateRunCancel_def)

lemma leg_transition_iff:
  "evaluateLegTransition s t = Allowed \<longleftrightarrow>
     s = LEG_PLANNED \<and> t = LEG_IN_TRANSIT \<or> s = LEG_IN_TRANSIT \<and> t = LEG_COMPLETED"
  by (cases s; cases t) (auto simp: evaluateLegTransition_def)

lemma leg_cancel_iff: "evaluateLegCancel s = Allowed \<longleftrightarrow> s = LEG_PLANNED"
  by (cases s) (auto simp: evaluateLegCancel_def)

lemma run_terminal_iff_no_edge: "isTerminalRunStatus s \<longleftrightarrow> RUN_EDGES s = []"
  by (cases s) auto

lemma leg_terminal_iff_no_edge: "isTerminalLegStatus s \<longleftrightarrow> LEG_EDGES s = []"
  by (cases s) auto

end
