(* ===== verification/Movement.thy ===== *)
theory Movement imports RunLifecycle begin

text \<open>
  The in-memory class of \<open>movement/movement.repository.ts\<close>, for runs, legs and driver assignments: three
  \<open>Map\<close>s filled with fresh identifiers. \<open>tm\<close> is the wall clock of \<open>new Date()\<close>. The lock of a run is
  part of the theory of the field state.
\<close>

section \<open>Errors of the stores\<close>

datatype unique_index =
    RUN_CODE
  | CHECKPOINT_CLIENT_EVENT
  | CHECKPOINT_OBSERVATION_ONCE
  | WAITING_CLIENT_EVENT
  | WAITING_OPEN_PER_LEG
  | WAITING_ALLOWANCE_APPROVED_PER_SESSION
  | WAITING_ALLOWANCE_DECISION_KEY

datatype field_error =
    Domain js_error
  | UniqueViolation unique_index
  | RunClosedForNewWorkError ident VehicleRunStatus
  | WaitingSessionAlreadyClosedError ident
  | WaitingAllowanceAlreadyDecidedError ident

definition isUniqueViolationOn :: "field_error \<Rightarrow> unique_index \<Rightarrow> bool" where
  "isUniqueViolationOn err index \<longleftrightarrow> err = UniqueViolation index"

section \<open>State\<close>

record movement_store =
  mv_runs :: "(ident \<times> VehicleRun) list"
  mv_legs :: "(ident \<times> RunLeg) list"
  mv_assignments :: "(ident \<times> RunAssignment) list"
  mv_next :: nat

definition empty_movement :: movement_store where
  "empty_movement = \<lparr>mv_runs = [], mv_legs = [], mv_assignments = [], mv_next = 0\<rparr>"

definition run_of :: "movement_store \<Rightarrow> ident \<Rightarrow> VehicleRun option" where
  "run_of s i = map_of (mv_runs s) i"

definition leg_of :: "movement_store \<Rightarrow> ident \<Rightarrow> RunLeg option" where
  "leg_of s i = map_of (mv_legs s) i"

definition legsOf :: "movement_store \<Rightarrow> ident \<Rightarrow> RunLeg list" where
  "legsOf s runId = filter (\<lambda>l. rl_runId l = runId) (map snd (mv_legs s))"

definition listLegs :: "movement_store \<Rightarrow> ident \<Rightarrow> RunLeg list" where
  "listLegs s runId = sort_key rl_sequence (legsOf s runId)"

definition findRunByCode :: "movement_store \<Rightarrow> string \<Rightarrow> VehicleRun option" where
  "findRunByCode s code = List.find (\<lambda>r. vr_code r = code) (map snd (mv_runs s))"

section \<open>Runs\<close>

record CreateRunInput =
  cr_code :: string
  cr_vehicleId :: ident
  cr_businessDate :: business_date
  cr_note :: "string option"

definition new_run :: "CreateRunInput \<Rightarrow> ident \<Rightarrow> timestamp \<Rightarrow> VehicleRun" where
  "new_run input i tm =
     \<lparr>vr_id = i, vr_code = cr_code input, vr_vehicleId = cr_vehicleId input, vr_status = RUN_PLANNED,
      vr_businessDate = cr_businessDate input, vr_startedAt = None, vr_completedAt = None, vr_note = cr_note input,
      vr_createdAt = tm, vr_updatedAt = tm, vr_cancelledAt = None, vr_cancellationReason = None\<rparr>"

definition put_run :: "VehicleRun \<Rightarrow> movement_store \<Rightarrow> movement_store" where
  "put_run r s = s\<lparr>mv_runs := AList.update (vr_id r) r (mv_runs s)\<rparr>"

definition mem_createRun :: "CreateRunInput \<Rightarrow> timestamp \<Rightarrow> (movement_store, field_error, VehicleRun) stateful" where
  "mem_createRun input tm s =
     (if list_ex (\<lambda>r. vr_code r = cr_code input) (map snd (mv_runs s)) then (Inl (UniqueViolation RUN_CODE), s)
      else let r = new_run input (uuid (mv_next s)) tm in (Inr r, put_run r (s\<lparr>mv_next := Suc (mv_next s)\<rparr>)))"

definition marked_run :: "VehicleRunStatus \<Rightarrow> timestamp \<Rightarrow> VehicleRun \<Rightarrow> VehicleRun" where
  "marked_run status tm r = r\<lparr>vr_status := status,
     vr_startedAt := (if status = RUN_ACTIVE then Some tm else vr_startedAt r),
     vr_completedAt := (if status = RUN_COMPLETED then Some tm else vr_completedAt r), vr_updatedAt := tm\<rparr>"

definition cancelled_run :: "timestamp \<Rightarrow> string \<Rightarrow> VehicleRun \<Rightarrow> VehicleRun" where
  "cancelled_run tm why r = r\<lparr>vr_status := RUN_CANCELLED, vr_cancelledAt := Some tm,
     vr_cancellationReason := Some why, vr_updatedAt := tm\<rparr>"

definition mem_setRunStatus ::
  "ident \<Rightarrow> VehicleRunStatus \<Rightarrow> timestamp \<Rightarrow> (movement_store, 'e, VehicleRun option) stateful" where
  "mem_setRunStatus i status tm s =
     (case run_of s i of
        None \<Rightarrow> (Inr None, s)
      | Some r \<Rightarrow> (Inr (Some (marked_run status tm r)), put_run (marked_run status tm r) s))"

definition mem_cancelRun :: "ident \<Rightarrow> timestamp \<Rightarrow> string \<Rightarrow> (movement_store, 'e, VehicleRun option) stateful" where
  "mem_cancelRun i tm why s =
     (case run_of s i of
        None \<Rightarrow> (Inr None, s)
      | Some r \<Rightarrow> (Inr (Some (cancelled_run tm why r)), put_run (cancelled_run tm why r) s))"

section \<open>Legs\<close>

record CreateLegInput =
  cg_runId :: ident
  cg_sequence :: int
  cg_kind :: RunLegKind
  cg_orderId :: "ident option"
  cg_originLabel :: string
  cg_destinationLabel :: string
  cg_businessDate :: business_date
  cg_distanceKm :: "int option"
  cg_plannedDistanceKm :: "int option"
  cg_note :: "string option"

definition new_leg :: "CreateLegInput \<Rightarrow> ident \<Rightarrow> timestamp \<Rightarrow> RunLeg" where
  "new_leg input i tm =
     \<lparr>rl_id = i, rl_runId = cg_runId input, rl_sequence = cg_sequence input, rl_kind = cg_kind input,
      rl_status = LEG_PLANNED, rl_orderId = (if cg_kind input = EMPTY then None else cg_orderId input),
      rl_originLabel = cg_originLabel input, rl_destinationLabel = cg_destinationLabel input,
      rl_businessDate = cg_businessDate input, rl_distanceKm = cg_distanceKm input,
      rl_plannedDistanceKm = cg_plannedDistanceKm input, rl_startedAt = None, rl_completedAt = None,
      rl_note = cg_note input, rl_createdAt = tm, rl_updatedAt = tm\<rparr>"

definition put_leg :: "RunLeg \<Rightarrow> movement_store \<Rightarrow> movement_store" where
  "put_leg l s = s\<lparr>mv_legs := AList.update (rl_id l) l (mv_legs s)\<rparr>"

definition mem_createLeg :: "CreateLegInput \<Rightarrow> timestamp \<Rightarrow> (movement_store, field_error, RunLeg) stateful" where
  "mem_createLeg input tm s =
     (case run_of s (cg_runId input) of
        Some r \<Rightarrow>
          if isTerminalRunStatus (vr_status r)
          then (Inl (RunClosedForNewWorkError (cg_runId input) (vr_status r)), s)
          else let l = new_leg input (uuid (mv_next s)) tm in (Inr l, put_leg l (s\<lparr>mv_next := Suc (mv_next s)\<rparr>))
      | None \<Rightarrow>
          let l = new_leg input (uuid (mv_next s)) tm in (Inr l, put_leg l (s\<lparr>mv_next := Suc (mv_next s)\<rparr>)))"

definition moved_leg :: "RunLegStatus \<Rightarrow> timestamp \<Rightarrow> RunLeg \<Rightarrow> RunLeg" where
  "moved_leg to_status tm l = l\<lparr>rl_status := to_status,
     rl_startedAt := (if to_status = LEG_IN_TRANSIT then Some tm else rl_startedAt l),
     rl_completedAt := (if to_status = LEG_COMPLETED then Some tm else rl_completedAt l), rl_updatedAt := tm\<rparr>"

text \<open>Compare and set: the leg moves only from the status that was decided on.\<close>

definition mem_setLegStatus ::
  "ident \<Rightarrow> RunLegStatus \<Rightarrow> RunLegStatus \<Rightarrow> timestamp \<Rightarrow> (movement_store, 'e, (RunLeg \<times> bool) option) stateful" where
  "mem_setLegStatus i from_status to_status tm s =
     (case leg_of s i of
        None \<Rightarrow> (Inr None, s)
      | Some l \<Rightarrow>
          if rl_status l \<noteq> from_status then (Inr (Some (l, False)), s)
          else (Inr (Some (moved_leg to_status tm l, True)), put_leg (moved_leg to_status tm l) s))"

section \<open>Drivers of a run\<close>

definition activeRunAssignment :: "movement_store \<Rightarrow> ident \<Rightarrow> RunAssignment option" where
  "activeRunAssignment s runId =
     List.find (\<lambda>a. ra_runId a = runId \<and> ra_effectiveTo a = None) (map snd (mv_assignments s))"

definition put_assignment :: "RunAssignment \<Rightarrow> movement_store \<Rightarrow> movement_store" where
  "put_assignment a s = s\<lparr>mv_assignments := AList.update (ra_id a) a (mv_assignments s)\<rparr>"

definition mem_assignRun ::
  "ident \<Rightarrow> ident \<Rightarrow> timestamp \<Rightarrow> string \<Rightarrow> (movement_store, 'e, RunAssignment option \<times> RunAssignment) stateful" where
  "mem_assignRun runId driverId tm actor s =
     (let active = activeRunAssignment s runId;
          s1 = (case active of None \<Rightarrow> s | Some a \<Rightarrow> put_assignment (a\<lparr>ra_effectiveTo := Some tm\<rparr>) s);
          current = \<lparr>ra_id = uuid (mv_next s1), ra_runId = runId, ra_driverId = driverId, ra_effectiveFrom = tm,
            ra_effectiveTo = None, ra_assignedBy = actor, ra_createdAt = tm\<rparr>
      in (Inr (active, current), put_assignment current (s1\<lparr>mv_next := Suc (mv_next s1)\<rparr>)))"

definition listRunAssignments :: "movement_store \<Rightarrow> ident \<Rightarrow> RunAssignment list" where
  "listRunAssignments s runId =
     sort_key ra_effectiveFrom (filter (\<lambda>a. ra_runId a = runId) (map snd (mv_assignments s)))"

definition wasDriverEverAssignedToRun :: "movement_store \<Rightarrow> ident \<Rightarrow> ident \<Rightarrow> bool" where
  "wasDriverEverAssignedToRun s runId driverId \<longleftrightarrow>
     list_ex (\<lambda>a. ra_driverId a = driverId) (listRunAssignments s runId)"

end
