(* ===== verification/Checkpoints.thy ===== *)
theory Checkpoints imports Movement "HOL-Library.Product_Lexorder" begin

text \<open>
  Field checkpoints: the types and decisions of \<open>checkpoint/checkpoint-lifecycle.ts\<close>, the in-memory class of
  \<open>checkpoint.repository.ts\<close> (rows are only appended) and the timeline of \<open>run-timeline.ts\<close>.
\<close>

section \<open>Types and decisions\<close>

datatype RunCheckpointType =
    ASSIGNED | DEPARTED | PICKUP_ARRIVAL | GATE_ENTRY | LOADING | PICKUP_DEPARTURE
  | DELIVERY_ARRIVAL | DELIVERY_ACCEPTED | COMPLETED

definition RUN_CHECKPOINT_TYPES :: "RunCheckpointType list" where
  "RUN_CHECKPOINT_TYPES = [ASSIGNED, DEPARTED, PICKUP_ARRIVAL, GATE_ENTRY, LOADING, PICKUP_DEPARTURE,
     DELIVERY_ARRIVAL, DELIVERY_ACCEPTED, COMPLETED]"

record RunCheckpoint =
  cp_id :: ident
  cp_type :: RunCheckpointType
  cp_runId :: ident
  cp_legId :: "ident option"
  cp_recordedBy :: string
  cp_driverId :: "ident option"
  cp_observationId :: "ident option"
  cp_clientEventId :: string
  cp_capturedAt :: "timestamp option"
  cp_receivedAt :: timestamp
  cp_businessDate :: business_date
  cp_note :: "string option"
  cp_createdAt :: timestamp

definition isRunScoped :: "RunCheckpointType \<Rightarrow> bool" where
  "isRunScoped t \<longleftrightarrow> t \<in> set [ASSIGNED, DEPARTED, COMPLETED]"

fun carriesCargoMeaning :: "RunCheckpointType \<Rightarrow> bool" where
  "carriesCargoMeaning ASSIGNED = False"
| "carriesCargoMeaning DEPARTED = False"
| "carriesCargoMeaning PICKUP_ARRIVAL = True"
| "carriesCargoMeaning GATE_ENTRY = True"
| "carriesCargoMeaning LOADING = True"
| "carriesCargoMeaning PICKUP_DEPARTURE = True"
| "carriesCargoMeaning DELIVERY_ARRIVAL = True"
| "carriesCargoMeaning DELIVERY_ACCEPTED = True"
| "carriesCargoMeaning COMPLETED = False"

definition isCheckpointAllowedOnLeg :: "RunCheckpointType \<Rightarrow> RunLegKind \<Rightarrow> bool" where
  "isCheckpointAllowedOnLeg t kind \<longleftrightarrow> kind = LOADED \<or> \<not> carriesCargoMeaning t"

definition legAcceptsNewCheckpoints :: "RunLegStatus \<Rightarrow> bool" where
  "legAcceptsNewCheckpoints status \<longleftrightarrow> \<not> isTerminalLegStatus status"

fun requiredPredecessor :: "RunCheckpointType \<Rightarrow> RunCheckpointType option" where
  "requiredPredecessor ASSIGNED = None"
| "requiredPredecessor DEPARTED = Some ASSIGNED"
| "requiredPredecessor PICKUP_ARRIVAL = None"
| "requiredPredecessor GATE_ENTRY = Some PICKUP_ARRIVAL"
| "requiredPredecessor LOADING = Some PICKUP_ARRIVAL"
| "requiredPredecessor PICKUP_DEPARTURE = Some PICKUP_ARRIVAL"
| "requiredPredecessor DELIVERY_ARRIVAL = Some PICKUP_DEPARTURE"
| "requiredPredecessor DELIVERY_ACCEPTED = Some DELIVERY_ARRIVAL"
| "requiredPredecessor COMPLETED = Some DEPARTED"

definition isRepeatable :: "RunCheckpointType \<Rightarrow> bool" where
  "isRepeatable t \<longleftrightarrow> t \<in> set [LOADING]"

definition DEFAULT_LOCATION_REQUIRED_TYPES :: "RunCheckpointType list" where
  "DEFAULT_LOCATION_REQUIRED_TYPES = [DELIVERY_ARRIVAL, DELIVERY_ACCEPTED]"

record CheckpointEvaluation =
  ce_type :: RunCheckpointType
  ce_runTerminal :: bool
  ce_hasLeg :: bool
  ce_legKind :: "RunLegKind option"
  ce_legStatus :: "RunLegStatus option"
  ce_recordedTypes :: "RunCheckpointType list"
  ce_hasObservation :: bool
  ce_locationRequiredTypes :: "RunCheckpointType list"

definition evaluateCheckpoint :: "CheckpointEvaluation \<Rightarrow> reason transition_decision" where
  "evaluateCheckpoint input =
     (let t = ce_type input; runScoped = isRunScoped t; predecessor = requiredPredecessor t in
      if ce_runTerminal input then Refused ''CHECKPOINT_RUN_TERMINAL''
      else if runScoped \<and> ce_hasLeg input then Refused ''CHECKPOINT_LEG_NOT_APPLICABLE''
      else if \<not> runScoped \<and> \<not> ce_hasLeg input then Refused ''CHECKPOINT_LEG_REQUIRED''
      else if (case ce_legKind input of None \<Rightarrow> False | Some k \<Rightarrow> \<not> isCheckpointAllowedOnLeg t k)
        then Refused ''CHECKPOINT_CARGO_ON_EMPTY_LEG''
      else if (case ce_legStatus input of None \<Rightarrow> False | Some st \<Rightarrow> \<not> legAcceptsNewCheckpoints st)
        then Refused ''CHECKPOINT_LEG_TERMINAL''
      else if (case predecessor of None \<Rightarrow> False | Some p \<Rightarrow> p \<notin> set (ce_recordedTypes input))
        then Refused ''CHECKPOINT_PREDECESSOR_MISSING''
      else if \<not> isRepeatable t \<and> t \<in> set (ce_recordedTypes input) then Refused ''CHECKPOINT_ALREADY_RECORDED''
      else if t \<in> set (ce_locationRequiredTypes input) \<and> \<not> ce_hasObservation input
        then Refused ''CHECKPOINT_LOCATION_REQUIRED''
      else Allowed)"

section \<open>The store\<close>

record checkpoint_store =
  ck_rows :: "RunCheckpoint list"
  ck_next :: nat

definition empty_checkpoints :: checkpoint_store where
  "empty_checkpoints = \<lparr>ck_rows = [], ck_next = 0\<rparr>"

record CreateCheckpointInput =
  cc_type :: RunCheckpointType
  cc_runId :: ident
  cc_legId :: "ident option"
  cc_recordedBy :: string
  cc_driverId :: "ident option"
  cc_observationId :: "ident option"
  cc_clientEventId :: string
  cc_capturedAt :: "timestamp option"
  cc_receivedAt :: timestamp
  cc_businessDate :: business_date
  cc_note :: "string option"

definition same_event :: "ident \<Rightarrow> RunCheckpointType \<Rightarrow> string \<Rightarrow> RunCheckpoint \<Rightarrow> bool" where
  "same_event runId t event r \<longleftrightarrow> cp_runId r = runId \<and> cp_type r = t \<and> cp_clientEventId r = event"

definition new_checkpoint :: "CreateCheckpointInput \<Rightarrow> ident \<Rightarrow> RunCheckpoint" where
  "new_checkpoint input i =
     \<lparr>cp_id = i, cp_type = cc_type input, cp_runId = cc_runId input, cp_legId = cc_legId input,
      cp_recordedBy = cc_recordedBy input, cp_driverId = cc_driverId input,
      cp_observationId = cc_observationId input, cp_clientEventId = cc_clientEventId input,
      cp_capturedAt = cc_capturedAt input, cp_receivedAt = cc_receivedAt input,
      cp_businessDate = cc_businessDate input, cp_note = cc_note input, cp_createdAt = cc_receivedAt input\<rparr>"

definition add_checkpoint :: "CreateCheckpointInput \<Rightarrow> checkpoint_store \<Rightarrow> checkpoint_store" where
  "add_checkpoint input s =
     \<lparr>ck_rows = ck_rows s @ [new_checkpoint input (uuid (ck_next s))], ck_next = Suc (ck_next s)\<rparr>"

definition mem_createCheckpoint ::
  "CreateCheckpointInput \<Rightarrow> (checkpoint_store, field_error, RunCheckpoint) stateful" where
  "mem_createCheckpoint input s =
     (if list_ex (same_event (cc_runId input) (cc_type input) (cc_clientEventId input)) (ck_rows s)
      then (Inl (UniqueViolation CHECKPOINT_CLIENT_EVENT), s)
      else if cc_observationId input \<noteq> None \<and>
          list_ex (\<lambda>r. cp_observationId r = cc_observationId input) (ck_rows s)
      then (Inl (UniqueViolation CHECKPOINT_OBSERVATION_ONCE), s)
      else (Inr (new_checkpoint input (uuid (ck_next s))), add_checkpoint input s))"

definition findCheckpointByEvent ::
  "checkpoint_store \<Rightarrow> ident \<Rightarrow> RunCheckpointType \<Rightarrow> string \<Rightarrow> RunCheckpoint option" where
  "findCheckpointByEvent s runId t event = List.find (same_event runId t event) (ck_rows s)"

definition checkpointsForRun :: "checkpoint_store \<Rightarrow> ident \<Rightarrow> RunCheckpoint list" where
  "checkpointsForRun s runId = sort_key cp_receivedAt (filter (\<lambda>r. cp_runId r = runId) (ck_rows s))"

definition checkpointsForLeg :: "checkpoint_store \<Rightarrow> ident \<Rightarrow> RunCheckpoint list" where
  "checkpointsForLeg s legId = sort_key cp_receivedAt (filter (\<lambda>r. cp_legId r = Some legId) (ck_rows s))"

definition checkpointsForDriver :: "checkpoint_store \<Rightarrow> ident \<Rightarrow> RunCheckpoint list" where
  "checkpointsForDriver s driverId = sort_key cp_receivedAt (filter (\<lambda>r. cp_driverId r = Some driverId) (ck_rows s))"

definition leg_types :: "checkpoint_store \<Rightarrow> ident \<Rightarrow> RunCheckpointType set" where
  "leg_types s legId = cp_type ` {r \<in> set (ck_rows s). cp_legId r = Some legId}"

lemma set_checkpointsForLeg [simp]: "cp_type ` set (checkpointsForLeg s legId) = leg_types s legId"
  by (auto simp: checkpointsForLeg_def leg_types_def)

section \<open>The phase of a leg and the timeline of a run\<close>

datatype RunLegPhase = PHASE_PLANNED | AT_PICKUP | PHASE_LOADING | PHASE_IN_TRANSIT | ARRIVED | DELIVERED_PHASE

definition deriveLegPhase :: "RunCheckpointType list \<Rightarrow> RunLegPhase" where
  "deriveLegPhase types =
     (if DELIVERY_ACCEPTED \<in> set types then DELIVERED_PHASE
      else if DELIVERY_ARRIVAL \<in> set types then ARRIVED
      else if PICKUP_DEPARTURE \<in> set types then PHASE_IN_TRANSIT
      else if LOADING \<in> set types then PHASE_LOADING
      else if PICKUP_ARRIVAL \<in> set types \<or> GATE_ENTRY \<in> set types then AT_PICKUP
      else PHASE_PLANNED)"

fun index_of :: "'a \<Rightarrow> 'a list \<Rightarrow> nat" where
  "index_of x [] = 0"
| "index_of x (y # ys) = (if x = y then 0 else Suc (index_of x ys))"

definition workflowRank :: "RunCheckpointType \<Rightarrow> nat" where
  "workflowRank t = index_of t RUN_CHECKPOINT_TYPES"

datatype TimelineWarning = LOCATION_PROOF_MISSING

record RunTimelineEntry =
  te_checkpointId :: ident
  te_at :: timestamp
  te_type :: RunCheckpointType
  te_legId :: "ident option"
  te_recordedBy :: string
  te_driverId :: "ident option"
  te_hasLocationProof :: bool
  te_note :: "string option"
  te_warnings :: "TimelineWarning list"

record RunTimeline =
  tl_runId :: ident
  tl_entries :: "RunTimelineEntry list"
  tl_legPhases :: "(ident \<times> RunLegPhase) list"
  tl_warningCount :: nat

definition timeline_entry :: "RunCheckpointType list \<Rightarrow> RunCheckpoint \<Rightarrow> RunTimelineEntry" where
  "timeline_entry locationRequired c =
     \<lparr>te_checkpointId = cp_id c, te_at = cp_receivedAt c, te_type = cp_type c, te_legId = cp_legId c,
      te_recordedBy = cp_recordedBy c, te_driverId = cp_driverId c,
      te_hasLocationProof = (cp_observationId c \<noteq> None), te_note = cp_note c,
      te_warnings = (if cp_type c \<in> set locationRequired \<and> cp_observationId c = None
        then [LOCATION_PROOF_MISSING] else [])\<rparr>"

definition add_to_bucket :: "RunCheckpoint \<Rightarrow> (ident \<times> RunCheckpointType list) list \<Rightarrow> (ident \<times> RunCheckpointType list) list" where
  "add_to_bucket c byLeg =
     (case cp_legId c of
        None \<Rightarrow> byLeg
      | Some legId \<Rightarrow>
          if isRunScoped (cp_type c) then byLeg
          else AList.update legId ((case map_of byLeg legId of None \<Rightarrow> [] | Some ts \<Rightarrow> ts) @ [cp_type c]) byLeg)"

text \<open>Rows are ordered by time, then workflow, then identifier; identifiers compare as strings.\<close>

definition timeline_order :: "RunCheckpoint \<Rightarrow> timestamp \<times> nat \<times> ident" where
  "timeline_order c = (cp_receivedAt c, workflowRank (cp_type c), cp_id c)"

definition buildRunTimeline :: "ident \<Rightarrow> RunCheckpoint list \<Rightarrow> RunCheckpointType list \<Rightarrow> RunTimeline" where
  "buildRunTimeline runId checkpoints locationRequired =
     (let ordered = sort_key timeline_order checkpoints;
          entries = map (timeline_entry locationRequired) ordered;
          byLeg = fold add_to_bucket ordered []
      in \<lparr>tl_runId = runId, tl_entries = entries,
          tl_legPhases = map (\<lambda>(legId, types). (legId, deriveLegPhase types)) byLeg,
          tl_warningCount = fold (\<lambda>e n. n + length (te_warnings e)) entries 0\<rparr>)"

end
