(* ===== verification/Waiting.thy ===== *)
theory Waiting imports Checkpoints begin

text \<open>
  Waiting at the receiver: the decisions of \<open>waiting/waiting-lifecycle.ts\<close>, the rows of
  \<open>waiting.types.ts\<close>, the in-memory class of \<open>waiting.repository.ts\<close> and the view of \<open>waiting.view.ts\<close>.
\<close>

section \<open>Types and decisions\<close>

datatype WaitingReason = RECEIVER_NOT_READY | NO_UNLOADING_DOCK | QUEUE_AHEAD | DOCUMENT_ISSUE | OTHER_REASON

datatype WaitingSessionStatus = WAITING_OPEN | WAITING_CLOSED

datatype WaitingCloseReason = RECEIVER_ACCEPTED | OPERATOR_CLOSED

record DeliveryWaitingSession =
  ws_id :: ident
  ws_runId :: ident
  ws_legId :: ident
  ws_driverId :: "ident option"
  ws_arrivalCheckpointId :: ident
  ws_closingCheckpointId :: "ident option"
  ws_status :: WaitingSessionStatus
  ws_reason :: WaitingReason
  ws_closeReason :: "WaitingCloseReason option"
  ws_startedAt :: timestamp
  ws_endedAt :: "timestamp option"
  ws_startedBy :: string
  ws_endedBy :: "string option"
  ws_startClientEventId :: string
  ws_note :: "string option"
  ws_closeNote :: "string option"
  ws_businessDate :: business_date
  ws_createdAt :: timestamp

definition elapsedSecondsOf :: "DeliveryWaitingSession \<Rightarrow> timestamp \<Rightarrow> int" where
  "elapsedSecondsOf session now =
     (let finish = (case ws_endedAt session of None \<Rightarrow> now | Some e \<Rightarrow> e);
          seconds = (finish - ws_startedAt session) div 1000
      in if seconds < 0 then 0 else seconds)"

definition WAITING_ANCHOR_CHECKPOINT :: RunCheckpointType where
  "WAITING_ANCHOR_CHECKPOINT = DELIVERY_ARRIVAL"

definition WAITING_CLOSING_CHECKPOINT :: RunCheckpointType where
  "WAITING_CLOSING_CHECKPOINT = DELIVERY_ACCEPTED"

definition legAcceptsNewWaiting :: "RunLegStatus \<Rightarrow> bool" where
  "legAcceptsNewWaiting status = legAcceptsNewCheckpoints status"

definition deliveryAlreadyAccepted :: "RunCheckpointType list \<Rightarrow> bool" where
  "deliveryAlreadyAccepted types \<longleftrightarrow> WAITING_CLOSING_CHECKPOINT \<in> set types"

definition evaluateWaitingStart ::
  "bool \<Rightarrow> RunLegStatus \<Rightarrow> RunCheckpointType list \<Rightarrow> bool \<Rightarrow> reason transition_decision" where
  "evaluateWaitingStart runTerminal legStatus legCheckpointTypes hasOpenSession =
     (if runTerminal then Refused ''WAITING_RUN_TERMINAL''
      else if \<not> legAcceptsNewWaiting legStatus then Refused ''WAITING_LEG_TERMINAL''
      else if WAITING_ANCHOR_CHECKPOINT \<notin> set legCheckpointTypes then Refused ''WAITING_ARRIVAL_NOT_FOUND''
      else if deliveryAlreadyAccepted legCheckpointTypes then Refused ''WAITING_DELIVERY_ALREADY_ACCEPTED''
      else if hasOpenSession then Refused ''WAITING_ALREADY_OPEN''
      else Allowed)"

definition evaluateWaitingClose ::
  "WaitingSessionStatus \<Rightarrow> timestamp \<Rightarrow> timestamp \<Rightarrow> reason transition_decision" where
  "evaluateWaitingClose status startedAt endedAt =
     (if status = WAITING_CLOSED then Refused ''WAITING_ALREADY_CLOSED''
      else if endedAt < startedAt then Refused ''WAITING_END_BEFORE_START''
      else Allowed)"

lemma evaluateWaitingClose_iff:
  "evaluateWaitingClose status started ended = Allowed \<longleftrightarrow> status = WAITING_OPEN \<and> started \<le> ended"
  by (cases status) (auto simp: evaluateWaitingClose_def)

section \<open>The store\<close>

record waiting_store =
  wt_rows :: "DeliveryWaitingSession list"
  wt_next :: nat

definition empty_waiting :: waiting_store where
  "empty_waiting = \<lparr>wt_rows = [], wt_next = 0\<rparr>"

record CreateWaitingSessionInput =
  wc_runId :: ident
  wc_legId :: ident
  wc_driverId :: "ident option"
  wc_arrivalCheckpointId :: ident
  wc_reason :: WaitingReason
  wc_startedAt :: timestamp
  wc_startedBy :: string
  wc_startClientEventId :: string
  wc_note :: "string option"
  wc_businessDate :: business_date

record CloseWaitingSessionInput =
  wx_sessionId :: ident
  wx_endedAt :: timestamp
  wx_endedBy :: string
  wx_closeReason :: WaitingCloseReason
  wx_closingCheckpointId :: "ident option"
  wx_closeNote :: "string option"

definition new_session :: "CreateWaitingSessionInput \<Rightarrow> ident \<Rightarrow> DeliveryWaitingSession" where
  "new_session input i =
     \<lparr>ws_id = i, ws_runId = wc_runId input, ws_legId = wc_legId input, ws_driverId = wc_driverId input,
      ws_arrivalCheckpointId = wc_arrivalCheckpointId input, ws_closingCheckpointId = None,
      ws_status = WAITING_OPEN, ws_reason = wc_reason input, ws_closeReason = None,
      ws_startedAt = wc_startedAt input, ws_endedAt = None, ws_startedBy = wc_startedBy input, ws_endedBy = None,
      ws_startClientEventId = wc_startClientEventId input, ws_note = wc_note input, ws_closeNote = None,
      ws_businessDate = wc_businessDate input, ws_createdAt = wc_startedAt input\<rparr>"

definition closed_session :: "CloseWaitingSessionInput \<Rightarrow> DeliveryWaitingSession \<Rightarrow> DeliveryWaitingSession" where
  "closed_session input r = r\<lparr>ws_status := WAITING_CLOSED, ws_endedAt := Some (wx_endedAt input),
     ws_endedBy := Some (wx_endedBy input), ws_closeReason := Some (wx_closeReason input),
     ws_closingCheckpointId := wx_closingCheckpointId input, ws_closeNote := wx_closeNote input\<rparr>"

definition open_on_leg :: "ident \<Rightarrow> DeliveryWaitingSession \<Rightarrow> bool" where
  "open_on_leg legId r \<longleftrightarrow> ws_legId r = legId \<and> ws_status r = WAITING_OPEN"

definition started_by_event :: "ident \<Rightarrow> string \<Rightarrow> DeliveryWaitingSession \<Rightarrow> bool" where
  "started_by_event legId event r \<longleftrightarrow> ws_legId r = legId \<and> ws_startClientEventId r = event"

definition add_session :: "CreateWaitingSessionInput \<Rightarrow> waiting_store \<Rightarrow> waiting_store" where
  "add_session input s = \<lparr>wt_rows = wt_rows s @ [new_session input (uuid (wt_next s))], wt_next = Suc (wt_next s)\<rparr>"

definition mem_createSession ::
  "CreateWaitingSessionInput \<Rightarrow> (waiting_store, field_error, DeliveryWaitingSession) stateful" where
  "mem_createSession input s =
     (if list_ex (started_by_event (wc_legId input) (wc_startClientEventId input)) (wt_rows s)
      then (Inl (UniqueViolation WAITING_CLIENT_EVENT), s)
      else if list_ex (open_on_leg (wc_legId input)) (wt_rows s)
      then (Inl (UniqueViolation WAITING_OPEN_PER_LEG), s)
      else (Inr (new_session input (uuid (wt_next s))), add_session input s))"

text \<open>\<open>findIndex\<close> followed by an assignment at that index.\<close>

fun replace_first :: "('a \<Rightarrow> bool) \<Rightarrow> 'a \<Rightarrow> 'a list \<Rightarrow> 'a list" where
  "replace_first P v [] = []"
| "replace_first P v (x # xs) = (if P x then v # xs else x # replace_first P v xs)"

definition findSession :: "waiting_store \<Rightarrow> ident \<Rightarrow> DeliveryWaitingSession option" where
  "findSession s i = List.find (\<lambda>r. ws_id r = i) (wt_rows s)"

definition mem_closeSession ::
  "CloseWaitingSessionInput \<Rightarrow> (waiting_store, field_error, DeliveryWaitingSession) stateful" where
  "mem_closeSession input s =
     (case findSession s (wx_sessionId input) of
        None \<Rightarrow> (Inl (WaitingSessionAlreadyClosedError (wx_sessionId input)), s)
      | Some current \<Rightarrow>
          if ws_status current \<noteq> WAITING_OPEN
          then (Inl (WaitingSessionAlreadyClosedError (wx_sessionId input)), s)
          else (Inr (closed_session input current),
                s\<lparr>wt_rows := replace_first (\<lambda>r. ws_id r = wx_sessionId input) (closed_session input current) (wt_rows s)\<rparr>))"

definition findSessionByEvent :: "waiting_store \<Rightarrow> ident \<Rightarrow> string \<Rightarrow> DeliveryWaitingSession option" where
  "findSessionByEvent s legId event = List.find (started_by_event legId event) (wt_rows s)"

definition findOpenForLeg :: "waiting_store \<Rightarrow> ident \<Rightarrow> DeliveryWaitingSession option" where
  "findOpenForLeg s legId = List.find (open_on_leg legId) (wt_rows s)"

definition sessionsForRun :: "waiting_store \<Rightarrow> ident \<Rightarrow> DeliveryWaitingSession list" where
  "sessionsForRun s runId = sort_key ws_startedAt (filter (\<lambda>r. ws_runId r = runId) (wt_rows s))"

definition sessionsForLeg :: "waiting_store \<Rightarrow> ident \<Rightarrow> DeliveryWaitingSession list" where
  "sessionsForLeg s legId = sort_key ws_startedAt (filter (\<lambda>r. ws_legId r = legId) (wt_rows s))"

definition sessionsForDriver :: "waiting_store \<Rightarrow> ident \<Rightarrow> DeliveryWaitingSession list" where
  "sessionsForDriver s driverId = sort_key ws_startedAt (filter (\<lambda>r. ws_driverId r = Some driverId) (wt_rows s))"

definition openSessions :: "waiting_store \<Rightarrow> DeliveryWaitingSession list" where
  "openSessions s = sort_key ws_startedAt (filter (\<lambda>r. ws_status r = WAITING_OPEN) (wt_rows s))"

section \<open>The view\<close>

record WaitingSessionView =
  wv_id :: ident
  wv_runId :: ident
  wv_legId :: ident
  wv_status :: WaitingSessionStatus
  wv_reason :: WaitingReason
  wv_closeReason :: "WaitingCloseReason option"
  wv_startedAt :: timestamp
  wv_endedAt :: "timestamp option"
  wv_elapsedSeconds :: int
  wv_serverNow :: timestamp
  wv_note :: "string option"
  wv_closeNote :: "string option"
  wv_businessDate :: business_date

definition toWaitingSessionView :: "DeliveryWaitingSession \<Rightarrow> timestamp \<Rightarrow> WaitingSessionView" where
  "toWaitingSessionView session now =
     \<lparr>wv_id = ws_id session, wv_runId = ws_runId session, wv_legId = ws_legId session,
      wv_status = ws_status session, wv_reason = ws_reason session, wv_closeReason = ws_closeReason session,
      wv_startedAt = ws_startedAt session, wv_endedAt = ws_endedAt session,
      wv_elapsedSeconds = elapsedSecondsOf session now, wv_serverNow = now, wv_note = ws_note session,
      wv_closeNote = ws_closeNote session, wv_businessDate = ws_businessDate session\<rparr>"

section \<open>Replacing a row\<close>

lemma replace_first_found:
  assumes "distinct (map key xs)" "List.find (\<lambda>r. key r = i) xs = Some c" "key v = i"
  shows "replace_first (\<lambda>r. key r = i) v xs = map (\<lambda>r. if key r = i then v else r) xs"
  using assms(1,2)
proof (induction xs)
  case (Cons x xs)
  show ?case
  proof (cases "key x = i")
    case True
    with Cons.prems(1) have "\<forall>y \<in> set xs. key y \<noteq> i" by simp (metis imageI)
    then have "map (\<lambda>r. if key r = i then v else r) xs = xs" by (simp add: map_idI)
    with True show ?thesis by simp
  next
    case False
    with Cons show ?thesis by simp
  qed
qed simp

end
