(* ===== verification/FieldState.thy ===== *)
theory FieldState imports Waiting begin

text \<open>
  The state the field services share, the other writers that run between two of their reads, and the lock of a
  run (\<open>movement/run-write-guard.port.ts\<close>, \<open>MovementRepository.underRunLock\<close>).

  \<^item> Between two awaits of a service anybody may write: \<open>others w n\<close> is what they did at the \<open>n\<close>-th point.
  \<^item> While a service holds the lock of a run, only those that do not take that lock may write:
    \<open>meanwhile w n runId\<close> is what they did.

  Which changes these are is stated where it matters, as paths of the writes of the field.
\<close>

record field =
  fd_mv :: movement_store
  fd_ck :: checkpoint_store
  fd_wt :: waiting_store
  fd_clock :: timestamp

definition empty_field :: field where
  "empty_field = \<lparr>fd_mv = empty_movement, fd_ck = empty_checkpoints, fd_wt = empty_waiting, fd_clock = 0\<rparr>"

record interference =
  others :: "nat \<Rightarrow> field \<Rightarrow> field"
  meanwhile :: "nat \<Rightarrow> ident \<Rightarrow> field \<Rightarrow> field"

definition alone :: interference where
  "alone = \<lparr>others = \<lambda>n s. s, meanwhile = \<lambda>n runId s. s\<rparr>"

definition await :: "interference \<Rightarrow> nat \<Rightarrow> (field, 'e, unit) stateful" where
  "await w n s = (Inr (), others w n s)"

definition await_locked :: "interference \<Rightarrow> nat \<Rightarrow> ident \<Rightarrow> (field, 'e, unit) stateful" where
  "await_locked w n runId s = (Inr (), meanwhile w n runId s)"

definition on_mv :: "(movement_store, 'e, 'a) stateful \<Rightarrow> (field, 'e, 'a) stateful" where
  "on_mv m s = (case m (fd_mv s) of (r, t) \<Rightarrow> (r, s\<lparr>fd_mv := t\<rparr>))"

definition on_ck :: "(checkpoint_store, 'e, 'a) stateful \<Rightarrow> (field, 'e, 'a) stateful" where
  "on_ck m s = (case m (fd_ck s) of (r, t) \<Rightarrow> (r, s\<lparr>fd_ck := t\<rparr>))"

definition on_wt :: "(waiting_store, 'e, 'a) stateful \<Rightarrow> (field, 'e, 'a) stateful" where
  "on_wt m s = (case m (fd_wt s) of (r, t) \<Rightarrow> (r, s\<lparr>fd_wt := t\<rparr>))"

text \<open>\<open>try m catch h\<close>, followed by \<open>ok\<close> outside the \<open>try\<close>.\<close>

definition attempting ::
  "('s, 'e, 'a) stateful \<Rightarrow> ('e \<Rightarrow> ('s, 'e, 'b) stateful) \<Rightarrow> ('a \<Rightarrow> ('s, 'e, 'b) stateful) \<Rightarrow> ('s, 'e, 'b) stateful" where
  "attempting m h ok s = (case m s of (Inl e, t) \<Rightarrow> h e t | (Inr a, t) \<Rightarrow> ok a t)"

section \<open>The lock of a run\<close>

text \<open>What the lock hands to the work done under it: the run and its legs, read again.\<close>

record RunWriteScope =
  sc_run :: VehicleRun
  sc_legs :: "RunLeg list"

definition underRunLock ::
  "ident \<Rightarrow> (RunWriteScope \<Rightarrow> (field, field_error, 'a) stateful) \<Rightarrow> (field, field_error, 'a) stateful" where
  "underRunLock runId work s =
     (case run_of (fd_mv s) runId of
        None \<Rightarrow> (Inl (Domain (notFound ''RUN_NOT_FOUND'')), s)
      | Some r \<Rightarrow> work \<lparr>sc_run = r, sc_legs = listLegs (fd_mv s) runId\<rparr> s)"

text \<open>
  The serialised close: the verdict is asked for under the lock, the run is read again after it, and only an
  active run is completed. The audit row written beside it is not modelled.
\<close>

record 'v close_result =
  cl_run :: VehicleRun
  cl_transitioned :: bool
  cl_verdict :: 'v

definition closeRunAsSystemSerialized ::
  "ident \<Rightarrow> timestamp \<Rightarrow> ('v \<Rightarrow> bool) \<Rightarrow> (VehicleRun \<Rightarrow> RunLeg list \<Rightarrow> (field, field_error, 'v) stateful) \<Rightarrow>
   (field, field_error, 'v close_result option) stateful" where
  "closeRunAsSystemSerialized runId tm close decide =
     bnd (query (\<lambda>s. run_of (fd_mv s) runId)) (\<lambda>earlier.
       case earlier of
         None \<Rightarrow> ret None
       | Some b \<Rightarrow>
           bnd (bnd (query (\<lambda>s. legsOf (fd_mv s) runId)) (decide b)) (\<lambda>verdict.
             if \<not> close verdict then ret (Some \<lparr>cl_run = b, cl_transitioned = False, cl_verdict = verdict\<rparr>)
             else bnd (query (\<lambda>s. run_of (fd_mv s) runId)) (\<lambda>current.
               case current of
                 None \<Rightarrow> ret None
               | Some c \<Rightarrow>
                   if vr_status c \<noteq> RUN_ACTIVE
                   then ret (Some \<lparr>cl_run = c, cl_transitioned = False, cl_verdict = verdict\<rparr>)
                   else bnd (on_mv (\<lambda>m. (Inr (), put_run (marked_run RUN_COMPLETED tm c) m))) (\<lambda>_.
                     ret (Some \<lparr>cl_run = marked_run RUN_COMPLETED tm c, cl_transitioned = True,
                       cl_verdict = verdict\<rparr>)))))"

section \<open>What the field services read from elsewhere\<close>

record observation_facts =
  ob_id :: ident
  ob_capturedAt :: timestamp
  ob_driverId :: ident
  ob_runId :: "ident option"

record field_env =
  fe_driverByAuthUser :: "ident \<Rightarrow> ident option"
  fe_driverKnown :: "ident \<Rightarrow> bool"
  fe_vehicleKnown :: "ident \<Rightarrow> bool"
  fe_orderStatus :: "ident \<Rightarrow> OrderStatus option"
  fe_observation :: "ident \<Rightarrow> observation_facts option"
  fe_locationRequired :: "RunCheckpointType list"
  fe_intl :: "string \<Rightarrow> (int \<Rightarrow> date_parts) option"
  fe_timeZone :: string

definition domain :: "js_error + 'a \<Rightarrow> field_error + 'a" where
  "domain r = map_sum Domain id r"

definition today :: "field_env \<Rightarrow> timestamp \<Rightarrow> (field, field_error, business_date) stateful" where
  "today env tm = lift (domain (toBusinessDate (fe_intl env) (Some tm) (fe_timeZone env)))"

definition fail :: "js_error \<Rightarrow> (field, field_error, 'a) stateful" where
  "fail e = throw (Domain e)"

end
