(* ===== verification/FieldServices.thy ===== *)
theory FieldServices imports FieldState begin

text \<open>
  The two services of the driver on the road, over the shared field state: \<open>checkpoint/checkpoint.service.ts\<close>
  and \<open>waiting/waiting.service.ts\<close>. Telemetry (\<open>allow\<close>, \<open>deny\<close>) is left out; every other statement is in the
  order of the source, with the points where other writers run numbered along each path.
\<close>

section \<open>Closing a waiting session\<close>

definition closeByAcceptance ::
  "interference \<Rightarrow> RunCheckpoint \<Rightarrow> (field, field_error, DeliveryWaitingSession option) stateful" where
  "closeByAcceptance w checkpoint =
     (case cp_legId checkpoint of
        None \<Rightarrow> ret None
      | Some legId \<Rightarrow>
          bnd (query (\<lambda>s. findOpenForLeg (fd_wt s) legId)) (\<lambda>found.
            case found of
              None \<Rightarrow> ret None
            | Some session \<Rightarrow>
                if evaluateWaitingClose (ws_status session) (ws_startedAt session) (cp_receivedAt checkpoint) \<noteq> Allowed
                then ret None
                else bnd (await w 20) (\<lambda>_.
                  attempting
                    (on_wt (mem_closeSession
                      \<lparr>wx_sessionId = ws_id session, wx_endedAt = cp_receivedAt checkpoint,
                       wx_endedBy = cp_recordedBy checkpoint, wx_closeReason = RECEIVER_ACCEPTED,
                       wx_closingCheckpointId = Some (cp_id checkpoint), wx_closeNote = None\<rparr>))
                    (\<lambda>err. case err of
                        WaitingSessionAlreadyClosedError i \<Rightarrow>
                          bnd (await w 21) (\<lambda>_. query (\<lambda>s. findSession (fd_wt s) (ws_id session)))
                      | _ \<Rightarrow> throw err)
                    (\<lambda>closed. ret (Some closed)))))"

record CloseWaitingByOperatorCommand =
  co_sessionId :: ident
  co_note :: string
  co_authUserId :: ident

definition closeByOperator ::
  "interference \<Rightarrow> CloseWaitingByOperatorCommand \<Rightarrow> (field, field_error, DeliveryWaitingSession) stateful" where
  "closeByOperator w command =
     bnd (query (\<lambda>s. findSession (fd_wt s) (co_sessionId command))) (\<lambda>found.
       case found of
         None \<Rightarrow> fail (notFound ''WAITING_SESSION_NOT_FOUND'')
       | Some session \<Rightarrow>
           bnd (await w 0) (\<lambda>_.
           bnd (query fd_clock) (\<lambda>endedAt.
             case evaluateWaitingClose (ws_status session) (ws_startedAt session) endedAt of
               Refused why \<Rightarrow> fail (conflict why)
             | Allowed \<Rightarrow>
                 bnd (await w 1) (\<lambda>_.
                 attempting
                   (on_wt (mem_closeSession
                     \<lparr>wx_sessionId = ws_id session, wx_endedAt = endedAt, wx_endedBy = co_authUserId command,
                      wx_closeReason = OPERATOR_CLOSED, wx_closingCheckpointId = None,
                      wx_closeNote = Some (co_note command)\<rparr>))
                   (\<lambda>err. case err of
                       WaitingSessionAlreadyClosedError i \<Rightarrow> fail (conflict ''WAITING_ALREADY_CLOSED'')
                     | _ \<Rightarrow> throw err)
                   ret))))"

section \<open>Recording a checkpoint\<close>

record RecordCheckpointCommand =
  rc_type :: RunCheckpointType
  rc_runId :: ident
  rc_legId :: "ident option"
  rc_authUserId :: ident
  rc_observationId :: "ident option"
  rc_clientEventId :: string
  rc_note :: "string option"

definition checkpoint_error :: "reason \<Rightarrow> js_error" where
  "checkpoint_error why =
     (if why \<in> set [''CHECKPOINT_RUN_TERMINAL'', ''CHECKPOINT_LEG_TERMINAL'', ''CHECKPOINT_ALREADY_RECORDED'']
      then conflict why else invalid why)"

definition settleWaiting :: "interference \<Rightarrow> RunCheckpoint \<Rightarrow> (field, field_error, RunCheckpoint) stateful" where
  "settleWaiting w checkpoint =
     (if cp_type checkpoint = DELIVERY_ACCEPTED
      then bnd (await w 19) (\<lambda>_. bnd (closeByAcceptance w checkpoint) (\<lambda>_. ret checkpoint))
      else ret checkpoint)"

text \<open>The leg of the command, read before the lock.\<close>

definition command_leg :: "RecordCheckpointCommand \<Rightarrow> (field, field_error, RunLeg option) stateful" where
  "command_leg command =
     (case rc_legId command of
        None \<Rightarrow> ret None
      | Some legId \<Rightarrow>
          bnd (query (\<lambda>s. leg_of (fd_mv s) legId)) (\<lambda>found.
            case found of
              None \<Rightarrow> fail (notFound ''CHECKPOINT_LEG_NOT_FOUND'')
            | Some leg \<Rightarrow>
                if rl_runId leg \<noteq> rc_runId command then fail (denied ''CHECKPOINT_LEG_NOT_IN_RUN'')
                else ret (Some leg)))"

definition recorded_types :: "RecordCheckpointCommand \<Rightarrow> field \<Rightarrow> RunCheckpointType list" where
  "recorded_types command s = map cp_type
     (if isRunScoped (rc_type command)
      then filter (\<lambda>r. cp_legId r = None) (checkpointsForRun (fd_ck s) (rc_runId command))
      else (case rc_legId command of None \<Rightarrow> [] | Some legId \<Rightarrow> checkpointsForLeg (fd_ck s) legId))"

definition command_observation ::
  "field_env \<Rightarrow> RecordCheckpointCommand \<Rightarrow> ident option \<Rightarrow>
   (field, field_error, ident option \<times> timestamp option) stateful" where
  "command_observation env command driverId =
     (case rc_observationId command of
        None \<Rightarrow> ret (None, None)
      | Some i \<Rightarrow>
          (case fe_observation env i of
             None \<Rightarrow> fail (notFound ''CHECKPOINT_OBSERVATION_NOT_FOUND'')
           | Some ob \<Rightarrow>
               if driverId = None \<or> Some (ob_driverId ob) \<noteq> driverId
               then fail (denied ''CHECKPOINT_OBSERVATION_NOT_OWNED'')
               else if ob_runId ob \<noteq> None \<and> ob_runId ob \<noteq> Some (rc_runId command)
               then fail (denied ''CHECKPOINT_OBSERVATION_NOT_FOR_RUN'')
               else ret (Some (ob_id ob), Some (ob_capturedAt ob))))"

definition revalidate_checkpoint :: "RunWriteScope \<Rightarrow> ident option \<Rightarrow> (field, field_error, unit) stateful" where
  "revalidate_checkpoint scope legId =
     (if isTerminalRunStatus (vr_status (sc_run scope)) then fail (checkpoint_error ''CHECKPOINT_RUN_TERMINAL'')
      else (case legId of
          None \<Rightarrow> ret ()
        | Some i \<Rightarrow>
            (case List.find (\<lambda>l. rl_id l = i) (sc_legs scope) of
               None \<Rightarrow> fail (notFound ''CHECKPOINT_LEG_NOT_FOUND'')
             | Some locked \<Rightarrow>
                 if \<not> legAcceptsNewCheckpoints (rl_status locked)
                 then fail (checkpoint_error ''CHECKPOINT_LEG_TERMINAL'') else ret ())))"

definition checkpoint_input ::
  "RecordCheckpointCommand \<Rightarrow> ident option \<Rightarrow> ident option \<times> timestamp option \<Rightarrow> timestamp \<Rightarrow> business_date \<Rightarrow>
   CreateCheckpointInput" where
  "checkpoint_input command driverId observation receivedAt day =
     \<lparr>cc_type = rc_type command, cc_runId = rc_runId command, cc_legId = rc_legId command,
      cc_recordedBy = rc_authUserId command, cc_driverId = driverId, cc_observationId = fst observation,
      cc_clientEventId = rc_clientEventId command, cc_capturedAt = snd observation, cc_receivedAt = receivedAt,
      cc_businessDate = day, cc_note = rc_note command\<rparr>"

definition record_under_lock ::
  "field_env \<Rightarrow> RecordCheckpointCommand \<Rightarrow> ident option \<Rightarrow> ident option \<times> timestamp option \<Rightarrow>
   (field, field_error, RunCheckpoint) stateful" where
  "record_under_lock env command driverId observation =
     underRunLock (rc_runId command) (\<lambda>scope.
       bnd (revalidate_checkpoint scope (rc_legId command)) (\<lambda>_.
       bnd (query fd_clock) (\<lambda>receivedAt.
       bnd (today env receivedAt) (\<lambda>day.
         on_ck (mem_createCheckpoint (checkpoint_input command driverId observation receivedAt day))))))"

definition append_checkpoint ::
  "field_env \<Rightarrow> interference \<Rightarrow> RecordCheckpointCommand \<Rightarrow> VehicleRunStatus \<Rightarrow> ident option \<Rightarrow>
   (field, field_error, RunCheckpoint) stateful" where
  "append_checkpoint env w command runStatus driverId =
     bnd (query (\<lambda>s. findCheckpointByEvent (fd_ck s) (rc_runId command) (rc_type command) (rc_clientEventId command))) (\<lambda>replayed.
       case replayed of
         Some r \<Rightarrow> settleWaiting w r
       | None \<Rightarrow>
           bnd (await w 2) (\<lambda>_.
           bnd (command_leg command) (\<lambda>leg.
           bnd (await w 3) (\<lambda>_.
           bnd (query (recorded_types command)) (\<lambda>recorded.
             case evaluateCheckpoint
               \<lparr>ce_type = rc_type command, ce_runTerminal = isTerminalRunStatus runStatus,
                ce_hasLeg = (rc_legId command \<noteq> None), ce_legKind = map_option rl_kind leg,
                ce_legStatus = map_option rl_status leg, ce_recordedTypes = recorded,
                ce_hasObservation = (rc_observationId command \<noteq> None),
                ce_locationRequiredTypes = fe_locationRequired env\<rparr> of
               Refused why \<Rightarrow> fail (checkpoint_error why)
             | Allowed \<Rightarrow>
                 bnd (command_observation env command driverId) (\<lambda>observation.
                 bnd (await w 4) (\<lambda>_.
                 attempting (record_under_lock env command driverId observation)
                   (\<lambda>err. bnd (await w 5) (\<lambda>_.
                      if isUniqueViolationOn err CHECKPOINT_CLIENT_EVENT then
                        bnd (query (\<lambda>s. findCheckpointByEvent (fd_ck s) (rc_runId command) (rc_type command)
                               (rc_clientEventId command))) (\<lambda>already.
                          case already of Some r \<Rightarrow> settleWaiting w r | None \<Rightarrow> throw err)
                      else if isUniqueViolationOn err CHECKPOINT_OBSERVATION_ONCE
                      then fail (conflict ''CHECKPOINT_OBSERVATION_ALREADY_USED'')
                      else throw err))
                   (settleWaiting w))))))))"

definition require_field_run :: "ident \<Rightarrow> reason \<Rightarrow> (field, field_error, VehicleRun) stateful" where
  "require_field_run runId why =
     bnd (query (\<lambda>s. run_of (fd_mv s) runId)) (\<lambda>found.
       case found of None \<Rightarrow> fail (notFound why) | Some r \<Rightarrow> ret r)"

definition recordAsDriver ::
  "field_env \<Rightarrow> interference \<Rightarrow> RecordCheckpointCommand \<Rightarrow> (field, field_error, RunCheckpoint) stateful" where
  "recordAsDriver env w command =
     (case fe_driverByAuthUser env (rc_authUserId command) of
        None \<Rightarrow> fail (denied ''CHECKPOINT_DRIVER_BINDING_MISSING'')
      | Some driverId \<Rightarrow>
          bnd (require_field_run (rc_runId command) ''CHECKPOINT_RUN_NOT_FOUND'') (\<lambda>run.
          bnd (await w 0) (\<lambda>_.
          bnd (query (\<lambda>s. wasDriverEverAssignedToRun (fd_mv s) (vr_id run) driverId)) (\<lambda>assigned.
            if \<not> assigned then fail (denied ''CHECKPOINT_DRIVER_NOT_ASSIGNED'')
            else bnd (await w 1) (\<lambda>_. append_checkpoint env w command (vr_status run) (Some driverId))))))"

definition recordAsOperator ::
  "field_env \<Rightarrow> interference \<Rightarrow> RecordCheckpointCommand \<Rightarrow> (field, field_error, RunCheckpoint) stateful" where
  "recordAsOperator env w command =
     bnd (require_field_run (rc_runId command) ''CHECKPOINT_RUN_NOT_FOUND'') (\<lambda>run.
     bnd (await w 0) (\<lambda>_.
       append_checkpoint env w (command\<lparr>rc_observationId := None\<rparr>) (vr_status run) None))"

text \<open>A read that is also made under the lock of a run: \<open>pause\<close> is what happens at its awaits.\<close>

definition timelineForRun ::
  "field_env \<Rightarrow> (field, field_error, unit) stateful \<Rightarrow> ident \<Rightarrow> (field, field_error, RunTimeline) stateful" where
  "timelineForRun env pause runId =
     bnd (require_field_run runId ''CHECKPOINT_RUN_NOT_FOUND'') (\<lambda>_.
     bnd pause (\<lambda>_.
       query (\<lambda>s. buildRunTimeline runId (checkpointsForRun (fd_ck s) runId) (fe_locationRequired env))))"

section \<open>Opening a waiting session\<close>

record StartWaitingCommand =
  st_runId :: ident
  st_legId :: ident
  st_arrivalCheckpointId :: ident
  st_reason :: WaitingReason
  st_clientEventId :: string
  st_note :: "string option"
  st_authUserId :: ident

definition waiting_error :: "reason \<Rightarrow> js_error" where
  "waiting_error why =
     (if why \<in> set [''WAITING_RUN_TERMINAL'', ''WAITING_LEG_TERMINAL'', ''WAITING_ALREADY_OPEN'',
         ''WAITING_DELIVERY_ALREADY_ACCEPTED'']
      then conflict why else invalid why)"

definition resolveAnchor ::
  "RunCheckpoint list \<Rightarrow> ident \<Rightarrow> ident \<Rightarrow> (field, field_error, RunCheckpoint) stateful" where
  "resolveAnchor legCheckpoints arrivalCheckpointId driverId =
     (case List.find (\<lambda>r. cp_id r = arrivalCheckpointId) legCheckpoints of
        None \<Rightarrow> fail (invalid ''WAITING_ARRIVAL_NOT_APPLICABLE'')
      | Some anchor \<Rightarrow>
          if cp_type anchor \<noteq> WAITING_ANCHOR_CHECKPOINT then fail (invalid ''WAITING_ARRIVAL_NOT_APPLICABLE'')
          else if cp_driverId anchor \<noteq> Some driverId then fail (denied ''WAITING_ARRIVAL_NOT_OWNED'')
          else ret anchor)"

definition revalidate_waiting ::
  "interference \<Rightarrow> RunWriteScope \<Rightarrow> ident \<Rightarrow> ident \<Rightarrow> (field, field_error, unit) stateful" where
  "revalidate_waiting w scope runId legId =
     (if isTerminalRunStatus (vr_status (sc_run scope)) then fail (waiting_error ''WAITING_RUN_TERMINAL'')
      else (case List.find (\<lambda>l. rl_id l = legId) (sc_legs scope) of
          None \<Rightarrow> fail (notFound ''WAITING_LEG_NOT_FOUND'')
        | Some locked \<Rightarrow>
            if \<not> legAcceptsNewWaiting (rl_status locked) then fail (waiting_error ''WAITING_LEG_TERMINAL'')
            else bnd (query (\<lambda>s. checkpointsForLeg (fd_ck s) legId)) (\<lambda>legCheckpoints.
              if deliveryAlreadyAccepted (map cp_type legCheckpoints)
              then fail (waiting_error ''WAITING_DELIVERY_ALREADY_ACCEPTED'')
              else await_locked w 1 runId)))"

definition open_under_lock ::
  "interference \<Rightarrow> CreateWaitingSessionInput \<Rightarrow> (field, field_error, DeliveryWaitingSession) stateful" where
  "open_under_lock w input =
     underRunLock (wc_runId input) (\<lambda>scope.
       bnd (query (\<lambda>s. findSessionByEvent (fd_wt s) (wc_legId input) (wc_startClientEventId input))) (\<lambda>replayed.
         case replayed of
           Some r \<Rightarrow> ret r
         | None \<Rightarrow>
             bnd (await_locked w 0 (wc_runId input)) (\<lambda>_.
             bnd (revalidate_waiting w scope (wc_runId input) (wc_legId input)) (\<lambda>_.
               on_wt (mem_createSession input)))))"

definition append_waiting ::
  "field_env \<Rightarrow> interference \<Rightarrow> StartWaitingCommand \<Rightarrow> ident \<Rightarrow> ident \<Rightarrow> RunCheckpoint \<Rightarrow>
   (field, field_error, DeliveryWaitingSession) stateful" where
  "append_waiting env w command runId driverId anchor =
     bnd (query fd_clock) (\<lambda>startedAt.
     bnd (today env startedAt) (\<lambda>day.
     bnd (await w 6) (\<lambda>_.
     attempting
       (open_under_lock w
         \<lparr>wc_runId = runId, wc_legId = st_legId command, wc_driverId = Some driverId,
          wc_arrivalCheckpointId = cp_id anchor, wc_reason = st_reason command, wc_startedAt = startedAt,
          wc_startedBy = st_authUserId command, wc_startClientEventId = st_clientEventId command,
          wc_note = st_note command, wc_businessDate = day\<rparr>)
       (\<lambda>err. bnd (await w 7) (\<lambda>_.
          bnd (query (\<lambda>s. if isUniqueViolationOn err WAITING_CLIENT_EVENT
                 then findSessionByEvent (fd_wt s) (st_legId command) (st_clientEventId command) else None)) (\<lambda>already.
            case already of
              Some r \<Rightarrow> ret r
            | None \<Rightarrow> if isUniqueViolationOn err WAITING_OPEN_PER_LEG
                then fail (conflict ''WAITING_ALREADY_OPEN'') else throw err)))
       ret)))"

definition start_waiting ::
  "field_env \<Rightarrow> interference \<Rightarrow> StartWaitingCommand \<Rightarrow> (field, field_error, DeliveryWaitingSession) stateful" where
  "start_waiting env w command =
     (case fe_driverByAuthUser env (st_authUserId command) of
        None \<Rightarrow> fail (denied ''WAITING_DRIVER_BINDING_MISSING'')
      | Some driverId \<Rightarrow>
          bnd (query (\<lambda>s. findSessionByEvent (fd_wt s) (st_legId command) (st_clientEventId command))) (\<lambda>replayed.
            case replayed of
              Some r \<Rightarrow> ret r
            | None \<Rightarrow>
                bnd (await w 0) (\<lambda>_.
                bnd (require_field_run (st_runId command) ''WAITING_RUN_NOT_FOUND'') (\<lambda>run.
                bnd (await w 1) (\<lambda>_.
                bnd (query (\<lambda>s. wasDriverEverAssignedToRun (fd_mv s) (vr_id run) driverId)) (\<lambda>assigned.
                  if \<not> assigned then fail (denied ''WAITING_DRIVER_NOT_ASSIGNED'')
                  else bnd (await w 2) (\<lambda>_.
                  bnd (query (\<lambda>s. leg_of (fd_mv s) (st_legId command))) (\<lambda>found.
                    case found of
                      None \<Rightarrow> fail (notFound ''WAITING_LEG_NOT_FOUND'')
                    | Some leg \<Rightarrow>
                        if rl_runId leg \<noteq> vr_id run then fail (denied ''WAITING_LEG_NOT_IN_RUN'')
                        else bnd (await w 3) (\<lambda>_.
                        bnd (query (\<lambda>s. checkpointsForLeg (fd_ck s) (rl_id leg))) (\<lambda>legCheckpoints.
                        bnd (await w 4) (\<lambda>_.
                        bnd (query (\<lambda>s. findOpenForLeg (fd_wt s) (rl_id leg) \<noteq> None)) (\<lambda>hasOpen.
                          case evaluateWaitingStart (isTerminalRunStatus (vr_status run)) (rl_status leg)
                              (map cp_type legCheckpoints) hasOpen of
                            Refused why \<Rightarrow> fail (waiting_error why)
                          | Allowed \<Rightarrow>
                              bnd (resolveAnchor legCheckpoints (st_arrivalCheckpointId command) driverId) (\<lambda>anchor.
                              bnd (await w 5) (\<lambda>_.
                                append_waiting env w command (rl_runId leg) driverId anchor))))))))))))))"

section \<open>What a driver and the screens read\<close>

definition listOwnCheckpoints :: "field_env \<Rightarrow> ident \<Rightarrow> (field, field_error, RunCheckpoint list) stateful" where
  "listOwnCheckpoints env authUserId =
     (case fe_driverByAuthUser env authUserId of
        None \<Rightarrow> fail (denied ''CHECKPOINT_DRIVER_BINDING_MISSING'')
      | Some driverId \<Rightarrow> query (\<lambda>s. checkpointsForDriver (fd_ck s) driverId))"

definition listOwnWaiting :: "field_env \<Rightarrow> ident \<Rightarrow> (field, field_error, DeliveryWaitingSession list) stateful" where
  "listOwnWaiting env authUserId =
     (case fe_driverByAuthUser env authUserId of
        None \<Rightarrow> fail (denied ''WAITING_DRIVER_BINDING_MISSING'')
      | Some driverId \<Rightarrow> query (\<lambda>s. sessionsForDriver (fd_wt s) driverId))"

definition viewAll :: "DeliveryWaitingSession list \<Rightarrow> (field, field_error, WaitingSessionView list) stateful" where
  "viewAll sessions = query (\<lambda>s. map (\<lambda>r. toWaitingSessionView r (fd_clock s)) sessions)"

end
