(* ===== verification/MovementService.thy ===== *)
theory MovementService imports FieldServices begin

text \<open>
  The commands of \<open>movement/movement.service.ts\<close> on runs, legs and drivers. Reads come before the write with
  other writers in between; only the writes of legs and the close by the system are made under the lock of the
  run. Audit rows and telemetry are left out.
\<close>

section \<open>Runs\<close>

definition requireRun :: "ident \<Rightarrow> (field, field_error, VehicleRun) stateful" where
  "requireRun i = require_field_run i ''RUN_NOT_FOUND''"

definition requireLeg :: "ident \<Rightarrow> (field, field_error, RunLeg) stateful" where
  "requireLeg i =
     bnd (query (\<lambda>s. leg_of (fd_mv s) i)) (\<lambda>found.
       case found of None \<Rightarrow> fail (notFound ''RUN_LEG_NOT_FOUND'') | Some l \<Rightarrow> ret l)"

definition resolveBusinessDate ::
  "field_env \<Rightarrow> business_date option \<Rightarrow> (field, field_error, business_date) stateful" where
  "resolveBusinessDate env provided =
     (case provided of
        None \<Rightarrow> bnd (query fd_clock) (today env)
      | Some d \<Rightarrow>
          (case assertBusinessDate d of
             Inl _ \<Rightarrow> fail (invalid ''MOVEMENT_BUSINESS_DATE_INVALID'')
           | Inr v \<Rightarrow> ret v))"

record CreateRunCommand =
  nr_code :: string
  nr_vehicleId :: ident
  nr_businessDate :: "business_date option"
  nr_note :: "string option"

definition createRun ::
  "field_env \<Rightarrow> interference \<Rightarrow> CreateRunCommand \<Rightarrow> (field, field_error, VehicleRun) stateful" where
  "createRun env w command =
     bnd (query (\<lambda>s. findRunByCode (fd_mv s) (nr_code command))) (\<lambda>taken.
       if taken \<noteq> None then fail (conflict ''RUN_CODE_TAKEN'')
       else bnd (await w 0) (\<lambda>_.
         if \<not> fe_vehicleKnown env (nr_vehicleId command) then fail (notFound ''RUN_VEHICLE_NOT_FOUND'')
         else bnd (resolveBusinessDate env (nr_businessDate command)) (\<lambda>day.
           bnd (query fd_clock) (\<lambda>tm.
           attempting
             (on_mv (mem_createRun \<lparr>cr_code = nr_code command, cr_vehicleId = nr_vehicleId command,
                cr_businessDate = day, cr_note = nr_note command\<rparr> tm))
             (\<lambda>err. if isUniqueViolationOn err RUN_CODE then fail (conflict ''RUN_CODE_TAKEN'') else throw err)
             ret))))"

definition transitionRun ::
  "interference \<Rightarrow> ident \<Rightarrow> VehicleRunStatus \<Rightarrow> (field, field_error, VehicleRun) stateful" where
  "transitionRun w i to_status =
     bnd (requireRun i) (\<lambda>earlier.
     bnd (await w 0) (\<lambda>_.
     bnd (query (\<lambda>s. listLegs (fd_mv s) i)) (\<lambda>legs.
       case evaluateRunTransition (vr_status earlier) to_status (length legs) of
         Refused why \<Rightarrow> fail (denied why)
       | Allowed \<Rightarrow>
           bnd (await w 1) (\<lambda>_.
           bnd (query fd_clock) (\<lambda>tm.
           bnd (on_mv (mem_setRunStatus i to_status tm)) (\<lambda>after.
             case after of None \<Rightarrow> fail (notFound ''RUN_NOT_FOUND'') | Some r \<Rightarrow> ret r))))))"

definition cancelRun ::
  "interference \<Rightarrow> ident \<Rightarrow> string \<Rightarrow> (field, field_error, VehicleRun) stateful" where
  "cancelRun w i why =
     bnd (requireRun i) (\<lambda>earlier.
       case evaluateRunCancel (vr_status earlier) of
         Refused denial \<Rightarrow> fail (denied denial)
       | Allowed \<Rightarrow>
           bnd (await w 0) (\<lambda>_.
           bnd (query fd_clock) (\<lambda>tm.
           bnd (on_mv (mem_cancelRun i tm why)) (\<lambda>after.
             case after of None \<Rightarrow> fail (notFound ''RUN_NOT_FOUND'') | Some r \<Rightarrow> ret r))))"

text \<open>The result of a close by the system: the run, whether this call closed it, and the last verdict asked for.\<close>

definition closeRunAsSystem ::
  "interference \<Rightarrow> ident \<Rightarrow> ('v \<Rightarrow> bool) \<Rightarrow> (VehicleRun \<Rightarrow> RunLeg list \<Rightarrow> (field, field_error, 'v) stateful) \<Rightarrow>
   (field, field_error, VehicleRun \<times> bool \<times> 'v option) stateful" where
  "closeRunAsSystem w runId close revalidate =
     bnd (requireRun runId) (\<lambda>earlier.
       if isTerminalRunStatus (vr_status earlier) then ret (earlier, False, None)
       else (case evaluateSystemRunClose (vr_status earlier) of
           Refused why \<Rightarrow> fail (denied why)
         | Allowed \<Rightarrow>
             bnd (await w 10) (\<lambda>_.
             bnd (query fd_clock) (\<lambda>tm.
             bnd (closeRunAsSystemSerialized runId tm close revalidate) (\<lambda>settled.
               case settled of
                 None \<Rightarrow> fail (notFound ''RUN_NOT_FOUND'')
               | Some r \<Rightarrow> ret (cl_run r, close (cl_verdict r) \<and> cl_transitioned r, Some (cl_verdict r)))))))"

section \<open>Legs\<close>

record AddLegCommand =
  al_sequence :: int
  al_kind :: RunLegKind
  al_orderId :: "ident option"
  al_originLabel :: string
  al_destinationLabel :: string
  al_businessDate :: "business_date option"
  al_distanceKm :: "int option"
  al_plannedDistanceKm :: "int option"
  al_note :: "string option"

definition resolveLegOrder :: "field_env \<Rightarrow> AddLegCommand \<Rightarrow> (field, field_error, ident option) stateful" where
  "resolveLegOrder env command =
     (if al_kind command = EMPTY
      then (if al_orderId command \<noteq> None then fail (denied ''LEG_EMPTY_CANNOT_CARRY_ORDER'') else ret None)
      else (case al_orderId command of
          None \<Rightarrow> ret None
        | Some i \<Rightarrow>
            (case fe_orderStatus env i of
               None \<Rightarrow> fail (denied ''LEG_ORDER_NOT_FOUND'')
             | Some status \<Rightarrow>
                 if status = ORDER_CANCELLED then fail (denied ''LEG_ORDER_CANCELLED'') else ret (Some i))))"

definition addLeg ::
  "field_env \<Rightarrow> interference \<Rightarrow> ident \<Rightarrow> AddLegCommand \<Rightarrow> (field, field_error, RunLeg) stateful" where
  "addLeg env w runId command =
     bnd (requireRun runId) (\<lambda>run.
       if isTerminalRunStatus (vr_status run) then fail (denied ''LEG_RUN_TERMINAL'')
       else bnd (resolveLegOrder env command) (\<lambda>orderId.
         bnd (resolveBusinessDate env (Some (case al_businessDate command of
             None \<Rightarrow> vr_businessDate run | Some d \<Rightarrow> d))) (\<lambda>day.
         bnd (await w 0) (\<lambda>_.
         bnd (query fd_clock) (\<lambda>tm.
         attempting
           (on_mv (mem_createLeg
             \<lparr>cg_runId = runId, cg_sequence = al_sequence command, cg_kind = al_kind command, cg_orderId = orderId,
              cg_originLabel = al_originLabel command, cg_destinationLabel = al_destinationLabel command,
              cg_businessDate = day, cg_distanceKm = al_distanceKm command,
              cg_plannedDistanceKm = al_plannedDistanceKm command, cg_note = al_note command\<rparr> tm))
           (\<lambda>err. case err of
               RunClosedForNewWorkError i status \<Rightarrow> fail (denied ''LEG_RUN_TERMINAL'')
             | _ \<Rightarrow> throw err)
           ret)))))"

text \<open>The reading of the field that the controller passes with a leg transition: the checkpoints of the leg.\<close>

fun phase_name :: "RunLegPhase \<Rightarrow> string" where
  "phase_name PHASE_PLANNED = ''PLANNED''"
| "phase_name AT_PICKUP = ''AT_PICKUP''"
| "phase_name PHASE_LOADING = ''LOADING''"
| "phase_name PHASE_IN_TRANSIT = ''IN_TRANSIT''"
| "phase_name ARRIVED = ''ARRIVED''"
| "phase_name DELIVERED_PHASE = ''DELIVERED''"

definition deliveryOf :: "ident \<Rightarrow> field \<Rightarrow> LegFieldDelivery" where
  "deliveryOf legId s =
     (let phase = deriveLegPhase (map cp_type (checkpointsForLeg (fd_ck s) legId))
      in \<lparr>lf_delivered = (phase = DELIVERED_PHASE), lf_phase = phase_name phase\<rparr>)"

definition staleLegWrite :: "reason transition_decision \<Rightarrow> (field, field_error, 'a) stateful" where
  "staleLegWrite decision = (case decision of Allowed \<Rightarrow> fail PlainError | Refused why \<Rightarrow> fail (denied why))"

definition transitionLeg ::
  "interference \<Rightarrow> bool \<Rightarrow> ident \<Rightarrow> RunLegStatus \<Rightarrow> string option \<Rightarrow> (field, field_error, RunLeg) stateful" where
  "transitionLeg w hasFieldTruth legId to_status overrideReason =
     bnd (requireLeg legId) (\<lambda>earlier.
     bnd (await w 0) (\<lambda>_.
     bnd (requireRun (rl_runId earlier)) (\<lambda>run.
       if isTerminalRunStatus (vr_status run) then fail (denied ''LEG_RUN_TERMINAL'')
       else (case evaluateLegTransition (rl_status earlier) to_status of
           Refused why \<Rightarrow> fail (denied why)
         | Allowed \<Rightarrow>
             bnd (await w 1) (\<lambda>_.
             bnd (query (\<lambda>s. if to_status = LEG_COMPLETED \<and> rl_kind earlier = LOADED \<and> hasFieldTruth
                    then Some (deliveryOf legId s) else None)) (\<lambda>field.
               if evaluateLegCompletionEvidence (rl_kind earlier) to_status field overrideReason
                  = LEG_FIELD_DELIVERY_NOT_RECORDED
               then fail (denied ''LEG_FIELD_DELIVERY_NOT_RECORDED'')
               else bnd (await w 2) (\<lambda>_.
                 bnd (query fd_clock) (\<lambda>tm.
                 bnd (on_mv (mem_setLegStatus legId (rl_status earlier) to_status tm)) (\<lambda>written.
                   case written of
                     None \<Rightarrow> fail (notFound ''RUN_LEG_NOT_FOUND'')
                   | Some (after, applied) \<Rightarrow>
                       if \<not> applied then staleLegWrite (evaluateLegTransition (rl_status after) to_status)
                       else if to_status = LEG_IN_TRANSIT \<and> vr_status run = RUN_PLANNED
                       then bnd (await w 3) (\<lambda>_.
                         bnd (on_mv (mem_setRunStatus (vr_id run) RUN_ACTIVE tm)) (\<lambda>_. ret after))
                       else ret after))))))))) "

definition cancelLeg :: "interference \<Rightarrow> ident \<Rightarrow> (field, field_error, RunLeg) stateful" where
  "cancelLeg w legId =
     bnd (requireLeg legId) (\<lambda>earlier.
       case evaluateLegCancel (rl_status earlier) of
         Refused why \<Rightarrow> fail (denied why)
       | Allowed \<Rightarrow>
           bnd (await w 0) (\<lambda>_.
           bnd (query fd_clock) (\<lambda>tm.
           bnd (on_mv (mem_setLegStatus legId (rl_status earlier) LEG_CANCELLED tm)) (\<lambda>written.
             case written of
               None \<Rightarrow> fail (notFound ''RUN_LEG_NOT_FOUND'')
             | Some (after, applied) \<Rightarrow>
                 if \<not> applied then staleLegWrite (evaluateLegCancel (rl_status after)) else ret after))))"

section \<open>Drivers\<close>

definition assignRun ::
  "field_env \<Rightarrow> interference \<Rightarrow> ident \<Rightarrow> ident \<Rightarrow> string \<Rightarrow> (field, field_error, RunAssignment) stateful" where
  "assignRun env w runId driverId actor =
     bnd (requireRun runId) (\<lambda>run.
       if isTerminalRunStatus (vr_status run) then fail (denied ''RUN_ASSIGNMENT_RUN_TERMINAL'')
       else if \<not> fe_driverKnown env driverId then fail (notFound ''RUN_DRIVER_NOT_FOUND'')
       else bnd (await w 0) (\<lambda>_.
         bnd (query (\<lambda>s. activeRunAssignment (fd_mv s) runId)) (\<lambda>active.
           if (case active of None \<Rightarrow> False | Some a \<Rightarrow> ra_driverId a = driverId) then ret (the active)
           else bnd (await w 1) (\<lambda>_.
             bnd (query fd_clock) (\<lambda>tm.
             bnd (on_mv (mem_assignRun runId driverId tm actor)) (\<lambda>change. ret (snd change)))))))"

end
