(* ===== verification/RunClosure.thy ===== *)
theory RunClosure imports MovementService begin

text \<open>
  Closing a run without a human: the decision of \<open>planning/run-closure.ts\<close> with the depot rules of
  \<open>planning-policy.ts\<close>, the sources of blockers (\<open>run-closure-blocker.source.ts\<close>,
  \<open>checkpoint-run-closure-blocker.source.ts\<close>, \<open>waiting-run-closure-blocker.source.ts\<close>), the settlement of
  \<open>PlanningService.settleRunClosure\<close> and the attempts and sweep of \<open>run-closure.service.ts\<close>. The plans of a
  run and the depots are read from elsewhere; \<open>lower\<close> is \<open>toLocaleLowerCase('vi-VN')\<close>.
\<close>

section \<open>The decision\<close>

datatype RunClosureBlocker =
    RUN_NOT_ACTIVE
  | LEG_STILL_OPEN
  | PLAN_STILL_OPEN
  | NO_COMPLETED_WORK
  | CARGO_STILL_CARRIED
  | OPEN_WAITING_SESSION
  | EXTERNAL_BLOCKER_SOURCE_UNAVAILABLE
  | EXTERNAL_BLOCKER_SOURCE_AMBIGUOUS

datatype RunClosureTrigger = DEPOT_RETURN | IDLE_TIMEOUT

record RunClosureVerdict =
  rv_closable :: bool
  rv_trigger :: "RunClosureTrigger option"
  rv_blockers :: "RunClosureBlocker list"
  rv_holding :: bool

record Depot =
  dp_code :: string
  dp_label :: string

record DepotCandidate =
  dd_code :: string
  dd_label :: string
  dd_active :: bool

datatype DepotResolution = RESOLVED Depot | NOT_CONFIGURED | AMBIGUOUS "string list"

definition resolveDepotFrom :: "DepotCandidate list \<Rightarrow> DepotResolution" where
  "resolveDepotFrom candidates =
     (case filter dd_active candidates of
        [] \<Rightarrow> NOT_CONFIGURED
      | [only] \<Rightarrow> RESOLVED \<lparr>dp_code = dd_code only, dp_label = dd_label only\<rparr>
      | active \<Rightarrow> AMBIGUOUS (map dd_code active))"

definition usableDepot :: "DepotResolution \<Rightarrow> Depot option" where
  "usableDepot resolution = (case resolution of RESOLVED d \<Rightarrow> Some d | _ \<Rightarrow> None)"

text \<open>Every run of white space becomes one space.\<close>

fun squeeze :: "bool \<Rightarrow> string \<Rightarrow> string" where
  "squeeze inside [] = []"
| "squeeze inside (c # cs) =
     (if is_js_space c then (if inside then squeeze True cs else CHR '' '' # squeeze True cs) else c # squeeze False cs)"

definition normaliseSite :: "(string \<Rightarrow> string) \<Rightarrow> string \<Rightarrow> string" where
  "normaliseSite lower v = lower (squeeze False (js_trim v))"

definition sameSite :: "(string \<Rightarrow> string) \<Rightarrow> string \<Rightarrow> string \<Rightarrow> bool" where
  "sameSite lower l r \<longleftrightarrow> normaliseSite lower l = normaliseSite lower r"

record ClosureLegFacts =
  cf_id :: ident
  cf_sequence :: int
  cf_status :: RunLegStatus
  cf_destinationLabel :: string
  cf_completedAt :: "timestamp option"

record RunClosureFacts =
  rf_runStatus :: VehicleRunStatus
  rf_legs :: "ClosureLegFacts list"
  rf_openPlanCount :: nat
  rf_depot :: "Depot option"
  rf_idleHours :: "int option"
  rf_now :: timestamp
  rf_additionalBlockers :: "RunClosureBlocker list"

definition IS_OPEN :: "ClosureLegFacts \<Rightarrow> bool" where
  "IS_OPEN l \<longleftrightarrow> cf_status l = LEG_PLANNED \<or> cf_status l = LEG_IN_TRANSIT"

definition HOUR_MS :: int where
  "HOUR_MS = 3600000"

definition later_completion :: "ClosureLegFacts \<Rightarrow> ClosureLegFacts option \<Rightarrow> ClosureLegFacts option" where
  "later_completion leg best =
     (case cf_completedAt leg of
        None \<Rightarrow> best
      | Some tm \<Rightarrow>
          if cf_status leg \<noteq> LEG_COMPLETED then best
          else (case best of
              None \<Rightarrow> Some leg
            | Some b \<Rightarrow>
                if the (cf_completedAt b) < tm \<or> tm = the (cf_completedAt b) \<and> cf_sequence b < cf_sequence leg
                then Some leg else best))"

definition lastCompleted :: "ClosureLegFacts list \<Rightarrow> ClosureLegFacts option" where
  "lastCompleted legs = fold later_completion legs None"

definition blockers_of :: "RunClosureFacts \<Rightarrow> RunClosureBlocker list" where
  "blockers_of facts =
     (if rf_runStatus facts \<noteq> RUN_ACTIVE then [RUN_NOT_ACTIVE] else []) @
     (if list_ex IS_OPEN (rf_legs facts) then [LEG_STILL_OPEN] else []) @
     (if 0 < rf_openPlanCount facts then [PLAN_STILL_OPEN] else []) @
     (if lastCompleted (rf_legs facts) = None then [NO_COMPLETED_WORK] else []) @
     rf_additionalBlockers facts"

definition evaluateRunClosure :: "(string \<Rightarrow> string) \<Rightarrow> RunClosureFacts \<Rightarrow> RunClosureVerdict" where
  "evaluateRunClosure lower facts =
     (let blockers = blockers_of facts in
      case lastCompleted (rf_legs facts) of
        None \<Rightarrow> \<lparr>rv_closable = False, rv_trigger = None, rv_blockers = blockers, rv_holding = False\<rparr>
      | Some completed \<Rightarrow>
          if blockers \<noteq> []
          then \<lparr>rv_closable = False, rv_trigger = None, rv_blockers = blockers, rv_holding = False\<rparr>
          else if (case rf_depot facts of None \<Rightarrow> False
              | Some d \<Rightarrow> sameSite lower (cf_destinationLabel completed) (dp_label d))
          then \<lparr>rv_closable = True, rv_trigger = Some DEPOT_RETURN, rv_blockers = [], rv_holding = False\<rparr>
          else if (case (rf_idleHours facts, cf_completedAt completed) of
                (Some hours, Some tm) \<Rightarrow> hours * HOUR_MS \<le> rf_now facts - tm
              | _ \<Rightarrow> False)
          then \<lparr>rv_closable = True, rv_trigger = Some IDLE_TIMEOUT, rv_blockers = [], rv_holding = False\<rparr>
          else \<lparr>rv_closable = False, rv_trigger = None, rv_blockers = [], rv_holding = True\<rparr>)"

section \<open>Sources of blockers\<close>

text \<open>
  What a source answers is read as unknown data: it may not be an array, and \<open>None\<close> is an entry that is not a
  known code. \<open>pause\<close> is what happens at the awaits of a source.
\<close>

datatype reported_blockers = NotAnArray | Entries "RunClosureBlocker option list"

type_synonym blocker_source =
  "(field, field_error, unit) stateful \<Rightarrow> ident \<Rightarrow> (field, field_error, reported_blockers) stateful"

type_synonym known_source =
  "(field, field_error, unit) stateful \<Rightarrow> ident \<Rightarrow> (field, field_error, RunClosureBlocker list) stateful"

definition isCarryingCargo :: "RunLegPhase \<Rightarrow> bool" where
  "isCarryingCargo phase \<longleftrightarrow> phase \<in> set [PHASE_LOADING, PHASE_IN_TRANSIT, ARRIVED]"

definition checkpoint_blockers :: "field_env \<Rightarrow> known_source" where
  "checkpoint_blockers env pause runId =
     bnd (timelineForRun env pause runId) (\<lambda>timeline.
       ret (if list_ex isCarryingCargo (map snd (tl_legPhases timeline)) then [CARGO_STILL_CARRIED] else []))"

definition waiting_blockers :: known_source where
  "waiting_blockers pause runId =
     query (\<lambda>s. if list_ex (\<lambda>r. ws_status r = WAITING_OPEN) (sessionsForRun (fd_wt s) runId)
       then [OPEN_WAITING_SESSION] else [])"

definition add_seen :: "'a \<Rightarrow> 'a list \<Rightarrow> 'a list" where
  "add_seen b seen = (if b \<in> set seen then seen else seen @ [b])"

fun composite_blockers :: "known_source list \<Rightarrow> RunClosureBlocker list \<Rightarrow> known_source" where
  "composite_blockers [] seen pause runId = ret seen"
| "composite_blockers (d # ds) seen pause runId =
     bnd (d pause runId) (\<lambda>bs. bnd pause (\<lambda>_. composite_blockers ds (fold add_seen bs seen) pause runId))"

text \<open>The source that the installation with checkpoints binds: the cargo and the waiting sessions.\<close>

definition transport_blockers :: "field_env \<Rightarrow> blocker_source" where
  "transport_blockers env pause runId =
     bnd (composite_blockers [checkpoint_blockers env, waiting_blockers] [] pause runId) (\<lambda>bs.
       ret (Entries (map Some bs)))"

definition read_blockers :: "reported_blockers \<Rightarrow> RunClosureBlocker list" where
  "read_blockers reported =
     (case reported of
        NotAnArray \<Rightarrow> [EXTERNAL_BLOCKER_SOURCE_AMBIGUOUS]
      | Entries es \<Rightarrow> if None \<in> set es then [EXTERNAL_BLOCKER_SOURCE_AMBIGUOUS] else map the es)"

definition collectBlockers ::
  "blocker_source option \<Rightarrow> (field, field_error, unit) stateful \<Rightarrow> ident \<Rightarrow>
   (field, field_error, RunClosureBlocker list) stateful" where
  "collectBlockers source pause runId =
     (case source of
        None \<Rightarrow> ret []
      | Some blockersForRun \<Rightarrow>
          attempting (blockersForRun pause runId)
            (\<lambda>err. ret [EXTERNAL_BLOCKER_SOURCE_UNAVAILABLE])
            (\<lambda>reported. ret (read_blockers reported)))"

section \<open>Settling\<close>

record OrderRunPlan =
  op_runId :: ident
  op_loadedLegId :: ident
  op_cancelledAt :: "timestamp option"

record closure_env =
  cl_source :: "blocker_source option"
  cl_plans :: "OrderRunPlan list"
  cl_depots :: "DepotCandidate list"
  cl_idleHours :: "int option"
  cl_lower :: "string \<Rightarrow> string"
  cl_batchSize :: nat

definition open_plans :: "OrderRunPlan list \<Rightarrow> ident \<Rightarrow> RunLeg list \<Rightarrow> nat" where
  "open_plans plans runId legs =
     length (filter
       (\<lambda>p. case List.find (\<lambda>l. rl_id l = op_loadedLegId p) legs of
          None \<Rightarrow> True | Some l \<Rightarrow> rl_status l \<noteq> LEG_COMPLETED \<and> rl_status l \<noteq> LEG_CANCELLED)
       (filter (\<lambda>p. op_runId p = runId \<and> op_cancelledAt p = None) plans))"

definition closure_leg :: "RunLeg \<Rightarrow> ClosureLegFacts" where
  "closure_leg l = \<lparr>cf_id = rl_id l, cf_sequence = rl_sequence l, cf_status = rl_status l,
     cf_destinationLabel = rl_destinationLabel l, cf_completedAt = rl_completedAt l\<rparr>"

definition closureFacts ::
  "closure_env \<Rightarrow> VehicleRun \<Rightarrow> RunLeg list \<Rightarrow> RunClosureBlocker list \<Rightarrow> timestamp \<Rightarrow> RunClosureFacts" where
  "closureFacts cenv run legs additional now =
     \<lparr>rf_runStatus = vr_status run, rf_legs = map closure_leg legs,
      rf_openPlanCount = open_plans (cl_plans cenv) (vr_id run) legs,
      rf_depot = usableDepot (resolveDepotFrom (cl_depots cenv)), rf_idleHours = cl_idleHours cenv,
      rf_now = now, rf_additionalBlockers = additional\<rparr>"

definition closure_verdict ::
  "closure_env \<Rightarrow> VehicleRun \<Rightarrow> RunLeg list \<Rightarrow> RunClosureBlocker list \<Rightarrow> (field, field_error, RunClosureVerdict) stateful" where
  "closure_verdict cenv run legs additional =
     query (\<lambda>s. evaluateRunClosure (cl_lower cenv) (closureFacts cenv run legs additional (fd_clock s)))"

record RunClosureOutcome =
  ro_runId :: ident
  ro_verdict :: RunClosureVerdict
  ro_closed :: bool
  ro_run :: VehicleRun

text \<open>
  \<open>settleRunClosure\<close> with the blockers read before the lock and the question that is asked again under it.
\<close>

definition settleRunClosure ::
  "closure_env \<Rightarrow> interference \<Rightarrow> ident \<Rightarrow> RunClosureBlocker list \<Rightarrow>
   (field, field_error, RunClosureBlocker list) stateful \<Rightarrow> (field, field_error, RunClosureOutcome) stateful" where
  "settleRunClosure cenv w runId blockers recheckBlockers =
     bnd (requireRun runId) (\<lambda>run.
     bnd (await w 1) (\<lambda>_.
     bnd (query (\<lambda>s. listLegs (fd_mv s) runId)) (\<lambda>legs.
     bnd (await w 2) (\<lambda>_.
     bnd (closure_verdict cenv run legs blockers) (\<lambda>verdict.
       if isTerminalRunStatus (vr_status run) \<or> \<not> rv_closable verdict
       then ret \<lparr>ro_runId = runId, ro_verdict = verdict, ro_closed = False, ro_run = run\<rparr>
       else bnd (await w 3) (\<lambda>_.
         bnd (closeRunAsSystem w runId rv_closable (\<lambda>locked lockedLegs.
             bnd recheckBlockers (\<lambda>again.
             bnd (await_locked w 9 runId) (\<lambda>_.
             closure_verdict cenv locked lockedLegs again)))) (\<lambda>(after, transitioned, last_verdict).
           let sealed = (case last_verdict of None \<Rightarrow> verdict | Some v \<Rightarrow> v)
           in ret \<lparr>ro_runId = runId, ro_verdict = sealed,
                ro_closed = (rv_closable sealed \<and> transitioned), ro_run = after\<rparr>)))))))"

definition attempt ::
  "closure_env \<Rightarrow> interference \<Rightarrow> ident \<Rightarrow> (field, field_error, RunClosureOutcome) stateful" where
  "attempt cenv w runId =
     bnd (collectBlockers (cl_source cenv) (await w 4) runId) (\<lambda>blockers.
     bnd (await w 0) (\<lambda>_.
       settleRunClosure cenv w runId blockers (collectBlockers (cl_source cenv) (await_locked w 8 runId) runId)))"

definition inspect ::
  "closure_env \<Rightarrow> interference \<Rightarrow> ident \<Rightarrow> (field, field_error, RunClosureVerdict) stateful" where
  "inspect cenv w runId =
     bnd (collectBlockers (cl_source cenv) (await w 4) runId) (\<lambda>blockers.
     bnd (requireRun runId) (\<lambda>run.
     bnd (await w 1) (\<lambda>_.
     bnd (query (\<lambda>s. listLegs (fd_mv s) runId)) (\<lambda>legs. closure_verdict cenv run legs blockers))))"

section \<open>The sweep\<close>

definition RUN_CLOSURE_EVENT_BACKSTOP_MS :: int where
  "RUN_CLOSURE_EVENT_BACKSTOP_MS = 120000"

text \<open>The legs of a candidate, newest completion; \<open>None\<close> when one of them is still open.\<close>

fun last_completion :: "RunLeg list \<Rightarrow> timestamp option \<Rightarrow> timestamp option option" where
  "last_completion [] best = Some best"
| "last_completion (l # ls) best =
     (if rl_status l = LEG_CANCELLED then last_completion ls best
      else (case rl_completedAt l of
          None \<Rightarrow> None
        | Some tm \<Rightarrow>
            if rl_status l \<noteq> LEG_COMPLETED then None
            else last_completion ls (case best of None \<Rightarrow> Some tm | Some b \<Rightarrow> if b < tm then Some tm else best)))"

definition is_candidate ::
  "movement_store \<Rightarrow> timestamp \<Rightarrow> int option \<Rightarrow> string option \<Rightarrow> VehicleRun \<Rightarrow> bool" where
  "is_candidate s completedBefore idleHours depotLabel run \<longleftrightarrow>
     vr_status run = RUN_ACTIVE \<and> legsOf s (vr_id run) \<noteq> [] \<and>
     (case last_completion (legsOf s (vr_id run)) None of
        Some (Some tm) \<Rightarrow> tm \<le> completedBefore
      | _ \<Rightarrow> False) \<and>
     (idleHours = None \<longrightarrow> depotLabel \<noteq> None \<and>
        list_ex (\<lambda>l. rl_status l = LEG_COMPLETED \<and> Some (rl_destinationLabel l) = depotLabel) (legsOf s (vr_id run)))"

definition candidate_order :: "VehicleRun \<Rightarrow> timestamp \<times> ident" where
  "candidate_order r = (vr_updatedAt r, vr_id r)"

definition listRunClosureCandidates ::
  "timestamp \<Rightarrow> int option \<Rightarrow> string option \<Rightarrow> nat \<Rightarrow> movement_store \<Rightarrow> VehicleRun list" where
  "listRunClosureCandidates completedBefore idleHours depotLabel limit s =
     take limit (sort_key candidate_order
       (filter (is_candidate s completedBefore idleHours depotLabel) (map snd (mv_runs s))))"

definition settleCandidate :: "closure_env \<Rightarrow> interference \<Rightarrow> VehicleRun \<Rightarrow> (field, field_error, bool) stateful" where
  "settleCandidate cenv w candidate =
     attempting (attempt cenv w (vr_id candidate)) (\<lambda>err. ret False) (\<lambda>outcome. ret (ro_closed outcome))"

fun settle_candidates :: "closure_env \<Rightarrow> interference \<Rightarrow> VehicleRun list \<Rightarrow> nat \<Rightarrow> (field, field_error, nat) stateful" where
  "settle_candidates cenv w [] n = ret n"
| "settle_candidates cenv w (c # cs) n =
     bnd (settleCandidate cenv w c) (\<lambda>yes.
     bnd (await w 11) (\<lambda>_. settle_candidates cenv w cs (if yes then Suc n else n)))"

definition sweep :: "closure_env \<Rightarrow> interference \<Rightarrow> (field, field_error, nat \<times> nat) stateful" where
  "sweep cenv w =
     bnd (query fd_clock) (\<lambda>now.
     let windowMs = (case cl_idleHours cenv of
            None \<Rightarrow> RUN_CLOSURE_EVENT_BACKSTOP_MS
          | Some hours \<Rightarrow> min (hours * HOUR_MS) RUN_CLOSURE_EVENT_BACKSTOP_MS)
     in bnd (await w 12) (\<lambda>_.
        bnd (query (\<lambda>s. listRunClosureCandidates (now - windowMs) (cl_idleHours cenv)
          (map_option dp_label (usableDepot (resolveDepotFrom (cl_depots cenv)))) (cl_batchSize cenv) (fd_mv s))) (\<lambda>candidates.
        bnd (settle_candidates cenv w candidates 0) (\<lambda>closed. ret (length candidates, closed)))))"

end
