(* ===== verification/FieldSteps.thy ===== *)
theory FieldSteps imports RunClosure begin

text \<open>
  Every write of the field as one rule of a step relation, labelled with the run whose lock the writer holds
  (\<open>None\<close> for writers that take no lock), the paths such writes make, and the invariant they keep. The guards
  are what the code has established when the write happens, with any other writer that is free to run in
  between: marking a run as active or cancelled is not serialised, so it has no guard at all.
\<close>

section \<open>What is fixed for good\<close>

definition leg_place :: "movement_store \<Rightarrow> ident \<Rightarrow> (ident \<times> RunLegKind) option" where
  "leg_place m g = map_option (\<lambda>l. (rl_runId l, rl_kind l)) (leg_of m g)"

definition accepted_on :: "ident \<Rightarrow> RunCheckpoint \<Rightarrow> bool" where
  "accepted_on g c \<longleftrightarrow> cp_type c = DELIVERY_ACCEPTED \<and> cp_legId c = Some g"

definition cargo_on_board :: "RunCheckpoint list \<Rightarrow> ident \<Rightarrow> bool" where
  "cargo_on_board rows g = isCarryingCargo (deriveLegPhase (map cp_type (filter (\<lambda>r. cp_legId r = Some g) rows)))"

text \<open>A run with nothing left open: no open leg, no cargo on a leg, nobody waiting.\<close>

definition run_settled :: "field \<Rightarrow> ident \<Rightarrow> bool" where
  "run_settled s i \<longleftrightarrow>
     (\<forall>g l. leg_of (fd_mv s) g = Some l \<longrightarrow> rl_runId l = i \<longrightarrow>
        isTerminalLegStatus (rl_status l) \<and> \<not> cargo_on_board (ck_rows (fd_ck s)) g) \<and>
     (\<forall>r \<in> set (wt_rows (fd_wt s)). ws_runId r = i \<longrightarrow> ws_status r \<noteq> WAITING_OPEN)"

definition run_takes_work :: "field \<Rightarrow> ident \<Rightarrow> bool" where
  "run_takes_work s i \<longleftrightarrow> (\<exists>r. run_of (fd_mv s) i = Some r \<and> vr_status r \<noteq> RUN_COMPLETED)"

text \<open>What a checkpoint rests on: the rows before it, the run and the leg.\<close>

definition grounded :: "movement_store \<Rightarrow> timestamp \<Rightarrow> RunCheckpoint list \<Rightarrow> RunCheckpoint \<Rightarrow> bool" where
  "grounded m k xs r \<longleftrightarrow>
     run_of m (cp_runId r) \<noteq> None \<and> cp_receivedAt r \<le> k \<and> (\<forall>x \<in> set xs. cp_receivedAt x \<le> cp_receivedAt r) \<and>
     \<not> list_ex (same_event (cp_runId r) (cp_type r) (cp_clientEventId r)) xs \<and>
     (cp_observationId r \<noteq> None \<longrightarrow> (\<forall>x \<in> set xs. cp_observationId x \<noteq> cp_observationId r)) \<and>
     (case cp_legId r of
        None \<Rightarrow> isRunScoped (cp_type r)
      | Some g \<Rightarrow> \<not> isRunScoped (cp_type r) \<and>
          (\<exists>kind. leg_place m g = Some (cp_runId r, kind) \<and> isCheckpointAllowedOnLeg (cp_type r) kind)) \<and>
     (\<forall>p. requiredPredecessor (cp_type r) = Some p \<longrightarrow>
        (\<exists>x \<in> set xs. cp_type x = p \<and> cp_legId x = cp_legId r \<and> cp_runId x = cp_runId r))"

definition log_ok :: "movement_store \<Rightarrow> timestamp \<Rightarrow> RunCheckpoint list \<Rightarrow> bool" where
  "log_ok m k rows \<longleftrightarrow> (\<forall>xs r ys. rows = xs @ r # ys \<longrightarrow> grounded m k xs r)"

text \<open>What a waiting session rests on: its leg, the arrival it is anchored to and the checkpoint that ended it.\<close>

definition anchored :: "RunCheckpoint list \<Rightarrow> DeliveryWaitingSession \<Rightarrow> bool" where
  "anchored rows r \<longleftrightarrow> ws_driverId r \<noteq> None \<and>
     (\<exists>a \<in> set rows. cp_id a = ws_arrivalCheckpointId r \<and> cp_type a = DELIVERY_ARRIVAL \<and>
        cp_legId a = Some (ws_legId r) \<and> cp_driverId a = ws_driverId r \<and> cp_receivedAt a \<le> ws_startedAt r)"

definition ended_well :: "RunCheckpoint list \<Rightarrow> DeliveryWaitingSession \<Rightarrow> bool" where
  "ended_well rows r \<longleftrightarrow>
     (case ws_endedAt r of
        None \<Rightarrow> ws_status r = WAITING_OPEN \<and> ws_closeReason r = None
      | Some e \<Rightarrow> ws_status r = WAITING_CLOSED \<and> ws_startedAt r \<le> e \<and>
          (ws_closeReason r = Some OPERATOR_CLOSED \<or>
           ws_closeReason r = Some RECEIVER_ACCEPTED \<and>
             (\<exists>c \<in> set rows. accepted_on (ws_legId r) c \<and> ws_closingCheckpointId r = Some (cp_id c) \<and>
                cp_receivedAt c = e)))"

definition session_ok :: "movement_store \<Rightarrow> timestamp \<Rightarrow> RunCheckpoint list \<Rightarrow> DeliveryWaitingSession \<Rightarrow> bool" where
  "session_ok m k rows r \<longleftrightarrow>
     (\<exists>kind. leg_place m (ws_legId r) = Some (ws_runId r, kind)) \<and> anchored rows r \<and> ws_startedAt r \<le> k \<and>
     (\<forall>c \<in> set rows. accepted_on (ws_legId r) c \<longrightarrow> ws_startedAt r \<le> cp_receivedAt c) \<and> ended_well rows r"

section \<open>The writes\<close>

text \<open>The leg a row is written for is still open.\<close>

definition leg_open :: "field \<Rightarrow> ident \<Rightarrow> bool" where
  "leg_open s g \<longleftrightarrow> (\<exists>l. leg_of (fd_mv s) g = Some l \<and> \<not> isTerminalLegStatus (rl_status l))"

definition can_record :: "field \<Rightarrow> CreateCheckpointInput \<Rightarrow> bool" where
  "can_record s input \<longleftrightarrow>
     run_takes_work s (cc_runId input) \<and>
     grounded (fd_mv s) (fd_clock s) (ck_rows (fd_ck s)) (new_checkpoint input (uuid (ck_next (fd_ck s)))) \<and>
     (\<forall>g. cc_legId input = Some g \<longrightarrow> leg_open s g) \<and> cc_receivedAt input = fd_clock s"

definition can_open :: "field \<Rightarrow> CreateWaitingSessionInput \<Rightarrow> bool" where
  "can_open s input \<longleftrightarrow>
     run_takes_work s (wc_runId input) \<and> leg_open s (wc_legId input) \<and>
     (\<forall>c \<in> set (ck_rows (fd_ck s)). \<not> accepted_on (wc_legId input) c) \<and>
     \<not> list_ex (started_by_event (wc_legId input) (wc_startClientEventId input)) (wt_rows (fd_wt s)) \<and>
     \<not> list_ex (open_on_leg (wc_legId input)) (wt_rows (fd_wt s)) \<and>
     session_ok (fd_mv s) (fd_clock s) (ck_rows (fd_ck s)) (new_session input (uuid (wt_next (fd_wt s))))"

definition ending_ok :: "RunCheckpoint list \<Rightarrow> DeliveryWaitingSession \<Rightarrow> CloseWaitingSessionInput \<Rightarrow> bool" where
  "ending_ok rows r input \<longleftrightarrow>
     ws_id r = wx_sessionId input \<and> ws_startedAt r \<le> wx_endedAt input \<and>
     (wx_closeReason input = RECEIVER_ACCEPTED \<longrightarrow>
        (\<exists>c \<in> set rows. accepted_on (ws_legId r) c \<and> wx_closingCheckpointId input = Some (cp_id c) \<and>
           cp_receivedAt c = wx_endedAt input))"

definition end_session :: "CloseWaitingSessionInput \<Rightarrow> waiting_store \<Rightarrow> waiting_store" where
  "end_session input t = t\<lparr>wt_rows :=
     map (\<lambda>r. if ws_id r = wx_sessionId input then closed_session input r else r) (wt_rows t)\<rparr>"

definition create_run_row :: "CreateRunInput \<Rightarrow> timestamp \<Rightarrow> movement_store \<Rightarrow> movement_store" where
  "create_run_row input tm m = put_run (new_run input (uuid (mv_next m)) tm) (m\<lparr>mv_next := Suc (mv_next m)\<rparr>)"

definition create_leg_row :: "CreateLegInput \<Rightarrow> timestamp \<Rightarrow> movement_store \<Rightarrow> movement_store" where
  "create_leg_row input tm m = put_leg (new_leg input (uuid (mv_next m)) tm) (m\<lparr>mv_next := Suc (mv_next m)\<rparr>)"

inductive field_step :: "ident option \<Rightarrow> field \<Rightarrow> field \<Rightarrow> bool" where
  time_passed: "fd_clock s \<le> k \<Longrightarrow> field_step None s (s\<lparr>fd_clock := k\<rparr>)"
| run_created: "field_step None s (s\<lparr>fd_mv := create_run_row input tm (fd_mv s)\<rparr>)"
| run_marked: "run_of (fd_mv s) (vr_id r) \<noteq> None \<Longrightarrow> vr_status r \<noteq> RUN_COMPLETED \<Longrightarrow>
    field_step None s (s\<lparr>fd_mv := put_run r (fd_mv s)\<rparr>)"
| run_completed: "run_of (fd_mv s) i = Some r \<Longrightarrow> vr_status r = RUN_ACTIVE \<Longrightarrow> run_settled s i \<Longrightarrow>
    field_step (Some i) s (s\<lparr>fd_mv := put_run (marked_run RUN_COMPLETED tm r) (fd_mv s)\<rparr>)"
| driver_assigned: "mv_runs m = mv_runs (fd_mv s) \<Longrightarrow> mv_legs m = mv_legs (fd_mv s) \<Longrightarrow>
    mv_next (fd_mv s) \<le> mv_next m \<Longrightarrow> field_step None s (s\<lparr>fd_mv := m\<rparr>)"
| leg_created: "run_takes_work s (cg_runId input) \<Longrightarrow>
    field_step (Some (cg_runId input)) s (s\<lparr>fd_mv := create_leg_row input tm (fd_mv s)\<rparr>)"
| leg_moved: "leg_of (fd_mv s) g = Some l \<Longrightarrow> to_status \<in> set (LEG_EDGES (rl_status l)) \<Longrightarrow>
    field_step (Some (rl_runId l)) s (s\<lparr>fd_mv := put_leg (moved_leg to_status tm l) (fd_mv s)\<rparr>)"
| checkpoint_recorded: "can_record s input \<Longrightarrow>
    field_step (Some (cc_runId input)) s (s\<lparr>fd_ck := add_checkpoint input (fd_ck s)\<rparr>)"
| waiting_opened: "can_open s input \<Longrightarrow>
    field_step (Some (wc_runId input)) s (s\<lparr>fd_wt := add_session input (fd_wt s)\<rparr>)"
| waiting_ended: "r \<in> set (wt_rows (fd_wt s)) \<Longrightarrow> ws_status r = WAITING_OPEN \<Longrightarrow>
    ending_ok (ck_rows (fd_ck s)) r input \<Longrightarrow>
    field_step None s (s\<lparr>fd_wt := end_session input (fd_wt s)\<rparr>)"

text \<open>\<open>field_path H\<close>: writes by others while the locks of the runs in \<open>H\<close> are held.\<close>

inductive field_path :: "ident set \<Rightarrow> field \<Rightarrow> field \<Rightarrow> bool" where
  path_refl: "field_path H s s"
| path_step: "field_path H s t \<Longrightarrow> field_step k t u \<Longrightarrow> (\<forall>i. k = Some i \<longrightarrow> i \<notin> H) \<Longrightarrow> field_path H s u"

lemma field_path_trans: "field_path H t u \<Longrightarrow> field_path H s t \<Longrightarrow> field_path H s u"
  by (induction rule: field_path.induct) (auto intro: path_step)

lemma field_path_mono: "field_path H s t \<Longrightarrow> H' \<subseteq> H \<Longrightarrow> field_path H' s t"
  by (induction rule: field_path.induct) (auto intro: field_path.intros)

lemma field_path_one: "field_step k s t \<Longrightarrow> (\<forall>i. k = Some i \<longrightarrow> i \<notin> H) \<Longrightarrow> field_path H s t"
  by (rule path_step [OF path_refl])

section \<open>The invariant\<close>

definition movement_ok :: "movement_store \<Rightarrow> bool" where
  "movement_ok m \<longleftrightarrow> keyed vr_id (mv_runs m) (mv_next m) \<and> keyed rl_id (mv_legs m) (mv_next m) \<and>
     (\<forall>g l. leg_of m g = Some l \<longrightarrow> run_of m (rl_runId l) \<noteq> None)"

definition numbered :: "('a \<Rightarrow> ident) \<Rightarrow> 'a list \<Rightarrow> nat \<Rightarrow> bool" where
  "numbered key rows n \<longleftrightarrow> map key rows = map uuid [0 ..< n]"

definition one_open_per_leg :: "DeliveryWaitingSession list \<Rightarrow> bool" where
  "one_open_per_leg rows \<longleftrightarrow> (\<forall>g. length (filter (open_on_leg g) rows) \<le> 1)"

definition started_once :: "DeliveryWaitingSession list \<Rightarrow> bool" where
  "started_once rows \<longleftrightarrow> distinct (map (\<lambda>r. (ws_legId r, ws_startClientEventId r)) rows)"

definition completed_settled :: "field \<Rightarrow> bool" where
  "completed_settled s \<longleftrightarrow>
     (\<forall>i r. run_of (fd_mv s) i = Some r \<longrightarrow> vr_status r = RUN_COMPLETED \<longrightarrow> run_settled s i)"

definition field_ok :: "field \<Rightarrow> bool" where
  "field_ok s \<longleftrightarrow>
     movement_ok (fd_mv s) \<and>
     numbered cp_id (ck_rows (fd_ck s)) (ck_next (fd_ck s)) \<and>
     log_ok (fd_mv s) (fd_clock s) (ck_rows (fd_ck s)) \<and>
     numbered ws_id (wt_rows (fd_wt s)) (wt_next (fd_wt s)) \<and>
     (\<forall>r \<in> set (wt_rows (fd_wt s)). session_ok (fd_mv s) (fd_clock s) (ck_rows (fd_ck s)) r) \<and>
     one_open_per_leg (wt_rows (fd_wt s)) \<and> started_once (wt_rows (fd_wt s)) \<and>
     completed_settled s"

lemma field_ok_empty: "field_ok empty_field"
  by (simp add: field_ok_def empty_field_def movement_ok_def empty_movement_def run_of_def leg_of_def
      numbered_def empty_checkpoints_def empty_waiting_def log_ok_def one_open_per_leg_def started_once_def
      completed_settled_def)

end
