(* ===== verification/FieldInvariant.thy ===== *)
theory FieldInvariant imports FieldSteps begin

text \<open>Every write of the field keeps the invariant.\<close>

section \<open>Rows of the movement store\<close>

definition extends :: "movement_store \<Rightarrow> movement_store \<Rightarrow> bool" where
  "extends m m' \<longleftrightarrow> (\<forall>g p. leg_place m g = Some p \<longrightarrow> leg_place m' g = Some p) \<and>
     (\<forall>i. run_of m i \<noteq> None \<longrightarrow> run_of m' i \<noteq> None)"

lemma extends_refl [simp]: "extends m m"
  by (simp add: extends_def)

lemma extends_trans: "extends m m' \<Longrightarrow> extends m' m'' \<Longrightarrow> extends m m''"
  unfolding extends_def by blast

lemma grounded_mono: "grounded m k xs r \<Longrightarrow> extends m m' \<Longrightarrow> k \<le> k' \<Longrightarrow> grounded m' k' xs r"
  unfolding grounded_def extends_def by (auto split: option.splits)

lemma log_ok_mono: "log_ok m k rows \<Longrightarrow> extends m m' \<Longrightarrow> k \<le> k' \<Longrightarrow> log_ok m' k' rows"
  unfolding log_ok_def using grounded_mono by blast

lemma session_ok_mono:
  "session_ok m k rows r \<Longrightarrow> extends m m' \<Longrightarrow> k \<le> k' \<Longrightarrow> session_ok m' k' rows r"
  unfolding session_ok_def extends_def by auto

lemma keyed_of:
  "keyed key xs n \<Longrightarrow> map_of xs i = Some v \<Longrightarrow> key v = i"
  "keyed key xs n \<Longrightarrow> map_of xs (uuid n) = None"
proof -
  assume k: "keyed key xs n"
  show "map_of xs i = Some v \<Longrightarrow> key v = i" using k map_of_SomeD [of xs i v] by (fastforce simp: keyed_def)
  show "map_of xs (uuid n) = None" using k by (auto simp: keyed_def map_of_eq_None_iff issued_def)
qed

lemma movement_keys:
  assumes "movement_ok m"
  shows "run_of m i = Some r \<Longrightarrow> vr_id r = i" "leg_of m i = Some l \<Longrightarrow> rl_id l = i"
    "run_of m (uuid (mv_next m)) = None" "leg_of m (uuid (mv_next m)) = None"
  using assms keyed_of [of vr_id "mv_runs m" "mv_next m"] keyed_of [of rl_id "mv_legs m" "mv_next m"]
  by (auto simp: movement_ok_def run_of_def leg_of_def)

lemma put_simps [simp]:
  "run_of (put_run r m) i = (if i = vr_id r then Some r else run_of m i)"
  "leg_of (put_run r m) i = leg_of m i"
  "leg_of (put_leg l m) i = (if i = rl_id l then Some l else leg_of m i)"
  "run_of (put_leg l m) i = run_of m i"
  by (simp_all add: put_run_def put_leg_def run_of_def leg_of_def update_conv')

lemma next_simps [simp]:
  "run_of (m\<lparr>mv_next := n\<rparr>) i = run_of m i" "leg_of (m\<lparr>mv_next := n\<rparr>) i = leg_of m i"
  by (simp_all add: run_of_def leg_of_def)

lemma create_run_simps [simp]:
  "run_of (create_run_row input tm m) i =
     (if i = uuid (mv_next m) then Some (new_run input (uuid (mv_next m)) tm) else run_of m i)"
  "leg_of (create_run_row input tm m) i = leg_of m i"
  by (simp_all add: create_run_row_def new_run_def)

lemma create_leg_simps [simp]:
  "leg_of (create_leg_row input tm m) i =
     (if i = uuid (mv_next m) then Some (new_leg input (uuid (mv_next m)) tm) else leg_of m i)"
  "run_of (create_leg_row input tm m) i = run_of m i"
  by (simp_all add: create_leg_row_def new_leg_def)

lemma keyed_put:
  assumes "keyed key xs n" "map_of xs (key v) = Some c"
  shows "keyed key (AList.update (key v) v xs) n"
  using keyed_update(2) [OF assms refl] .

lemma movement_ok_put_run:
  assumes "movement_ok m" "run_of m (vr_id r) \<noteq> None"
  shows "movement_ok (put_run r m)" "extends m (put_run r m)"
proof -
  from assms(2) obtain c where c: "map_of (mv_runs m) (vr_id r) = Some c" by (auto simp: run_of_def)
  from assms(1) have "keyed vr_id (mv_runs m) (mv_next m)" by (simp add: movement_ok_def)
  from keyed_put [OF this c] assms(1)
  show "movement_ok (put_run r m)" unfolding movement_ok_def by (auto simp: put_run_def run_of_def leg_of_def update_conv')
  show "extends m (put_run r m)" by (auto simp: extends_def leg_place_def)
qed

lemma movement_ok_put_leg:
  assumes ok: "movement_ok m" and l: "leg_of m (rl_id l) = Some c" and
    same: "rl_runId l = rl_runId c" "rl_kind l = rl_kind c"
  shows "movement_ok (put_leg l m)" "extends m (put_leg l m)"
proof -
  from l have c: "map_of (mv_legs m) (rl_id l) = Some c" by (simp add: leg_of_def)
  from ok have "keyed rl_id (mv_legs m) (mv_next m)" by (simp add: movement_ok_def)
  from keyed_put [OF this c] ok l same
  show "movement_ok (put_leg l m)"
    unfolding movement_ok_def by (auto simp: put_leg_def run_of_def leg_of_def update_conv')
  show "extends m (put_leg l m)" using l same by (auto simp: extends_def leg_place_def)
qed

lemma movement_ok_create_run:
  assumes ok: "movement_ok m"
  shows "movement_ok (create_run_row input tm m)" "extends m (create_run_row input tm m)"
proof -
  let ?r = "new_run input (uuid (mv_next m)) tm"
  have k: "keyed vr_id (mv_runs m) (mv_next m)" "keyed rl_id (mv_legs m) (mv_next m)"
    using ok by (simp_all add: movement_ok_def)
  have i: "vr_id ?r = uuid (mv_next m)" by (simp add: new_run_def)
  have "keyed vr_id (mv_runs (create_run_row input tm m)) (Suc (mv_next m))"
    using keyed_insert [OF k(1) i] i by (simp add: create_run_row_def put_run_def)
  moreover have "keyed rl_id (mv_legs (create_run_row input tm m)) (Suc (mv_next m))"
    using keyed_mono [OF k(2), of "Suc (mv_next m)"] by (simp add: create_run_row_def put_run_def)
  moreover have "mv_next (create_run_row input tm m) = Suc (mv_next m)" by (simp add: create_run_row_def put_run_def)
  ultimately show "movement_ok (create_run_row input tm m)" using ok by (simp add: movement_ok_def)
  show "extends m (create_run_row input tm m)" by (auto simp: extends_def leg_place_def)
qed

lemma movement_ok_create_leg:
  assumes ok: "movement_ok m" and run: "run_of m (cg_runId input) \<noteq> None"
  shows "movement_ok (create_leg_row input tm m)" "extends m (create_leg_row input tm m)"
proof -
  let ?l = "new_leg input (uuid (mv_next m)) tm"
  have k: "keyed vr_id (mv_runs m) (mv_next m)" "keyed rl_id (mv_legs m) (mv_next m)"
    using ok by (simp_all add: movement_ok_def)
  have i: "rl_id ?l = uuid (mv_next m)" by (simp add: new_leg_def)
  have "keyed rl_id (mv_legs (create_leg_row input tm m)) (Suc (mv_next m))"
    using keyed_insert [OF k(2) i] i by (simp add: create_leg_row_def put_leg_def)
  moreover have "keyed vr_id (mv_runs (create_leg_row input tm m)) (Suc (mv_next m))"
    using keyed_mono [OF k(1), of "Suc (mv_next m)"] by (simp add: create_leg_row_def put_leg_def)
  moreover have "mv_next (create_leg_row input tm m) = Suc (mv_next m)" by (simp add: create_leg_row_def put_leg_def)
  moreover have "rl_runId ?l = cg_runId input" by (simp add: new_leg_def)
  ultimately show "movement_ok (create_leg_row input tm m)" using ok run by (auto simp: movement_ok_def)
  show "extends m (create_leg_row input tm m)"
    using movement_keys(4) [OF ok] by (auto simp: extends_def leg_place_def)
qed

lemma movement_ok_assigned:
  assumes "movement_ok m" "mv_runs m' = mv_runs m" "mv_legs m' = mv_legs m" "mv_next m \<le> mv_next m'"
  shows "movement_ok m'" "extends m m'"
  using assms keyed_mono [of vr_id "mv_runs m" "mv_next m" "mv_next m'"]
    keyed_mono [of rl_id "mv_legs m" "mv_next m" "mv_next m'"]
  by (auto simp: movement_ok_def extends_def leg_place_def run_of_def leg_of_def)

section \<open>Rows of the logs\<close>

lemma log_ok_snoc: "log_ok m k (rows @ [r]) \<longleftrightarrow> log_ok m k rows \<and> grounded m k rows r"
proof
  assume l: "log_ok m k (rows @ [r])"
  have "grounded m k xs x" if "rows = xs @ x # ys" for xs x ys
    using l that unfolding log_ok_def by (metis append.assoc append_Cons)
  moreover have "grounded m k rows r" using l unfolding log_ok_def by blast
  ultimately show "log_ok m k rows \<and> grounded m k rows r" unfolding log_ok_def by blast
next
  assume l: "log_ok m k rows \<and> grounded m k rows r"
  show "log_ok m k (rows @ [r])" unfolding log_ok_def
  proof (intro allI impI)
    fix xs x ys
    assume e: "rows @ [r] = xs @ x # ys"
    show "grounded m k xs x"
    proof (cases ys rule: rev_cases)
      case Nil
      with e l show ?thesis by simp
    next
      case (snoc zs z)
      with e have "rows = xs @ x # zs" by simp
      with l show ?thesis unfolding log_ok_def by blast
    qed
  qed
qed

lemma log_ok_mem: "log_ok m k rows \<Longrightarrow> r \<in> set rows \<Longrightarrow> \<exists>xs. set xs \<subseteq> set rows \<and> grounded m k xs r"
  unfolding log_ok_def by (metis in_set_conv_decomp set_append Un_upper1)

lemma log_placed:
  assumes "log_ok m k rows" "r \<in> set rows" "cp_legId r = Some g"
  obtains kind where "leg_place m g = Some (cp_runId r, kind)"
  using log_ok_mem [OF assms(1,2)] assms(3) by (auto simp: grounded_def)

lemma numbered_snoc: "numbered key rows n \<Longrightarrow> key r = uuid n \<Longrightarrow> numbered key (rows @ [r]) (Suc n)"
  by (simp add: numbered_def)

lemma numbered_distinct: "numbered key rows n \<Longrightarrow> distinct (map key rows)"
  by (simp add: numbered_def distinct_map inj_on_def)

lemma numbered_eq:
  assumes "numbered key rows n" "a \<in> set rows" "b \<in> set rows" "key a = key b"
  shows "a = b"
  using numbered_distinct [OF assms(1)] assms(2-) by (auto simp: distinct_map inj_on_def)

lemma numbered_map: "numbered key rows n \<Longrightarrow> (\<And>r. r \<in> set rows \<Longrightarrow> key (f r) = key r) \<Longrightarrow> numbered key (map f rows) n"
  by (simp add: numbered_def comp_def cong: map_cong)

lemma filter_map_le: "(\<And>x. P (f x) \<Longrightarrow> P x) \<Longrightarrow> length (filter P (map f xs)) \<le> length (filter P xs)"
  by (induction xs) (auto intro: le_SucI)

lemma add_checkpoint_simps [simp]:
  "ck_rows (add_checkpoint input c) = ck_rows c @ [new_checkpoint input (uuid (ck_next c))]"
  "ck_next (add_checkpoint input c) = Suc (ck_next c)"
  by (simp_all add: add_checkpoint_def)

lemma add_session_simps [simp]:
  "wt_rows (add_session input t) = wt_rows t @ [new_session input (uuid (wt_next t))]"
  "wt_next (add_session input t) = Suc (wt_next t)"
  by (simp_all add: add_session_def)

lemma end_session_simps [simp]:
  "wt_rows (end_session input t) =
     map (\<lambda>r. if ws_id r = wx_sessionId input then closed_session input r else r) (wt_rows t)"
  "wt_next (end_session input t) = wt_next t"
  by (simp_all add: end_session_def)

lemma new_checkpoint_simps [simp]:
  "cp_id (new_checkpoint input i) = i" "cp_type (new_checkpoint input i) = cc_type input"
  "cp_runId (new_checkpoint input i) = cc_runId input" "cp_legId (new_checkpoint input i) = cc_legId input"
  "cp_receivedAt (new_checkpoint input i) = cc_receivedAt input"
  "cp_clientEventId (new_checkpoint input i) = cc_clientEventId input"
  "cp_observationId (new_checkpoint input i) = cc_observationId input"
  "cp_driverId (new_checkpoint input i) = cc_driverId input"
  by (simp_all add: new_checkpoint_def)

lemma new_session_simps [simp]:
  "ws_id (new_session input i) = i" "ws_runId (new_session input i) = wc_runId input"
  "ws_legId (new_session input i) = wc_legId input" "ws_status (new_session input i) = WAITING_OPEN"
  "ws_startedAt (new_session input i) = wc_startedAt input" "ws_endedAt (new_session input i) = None"
  "ws_closeReason (new_session input i) = None" "ws_driverId (new_session input i) = wc_driverId input"
  "ws_startClientEventId (new_session input i) = wc_startClientEventId input"
  "ws_arrivalCheckpointId (new_session input i) = wc_arrivalCheckpointId input"
  by (simp_all add: new_session_def)

lemma closed_session_simps [simp]:
  "ws_id (closed_session input r) = ws_id r" "ws_runId (closed_session input r) = ws_runId r"
  "ws_legId (closed_session input r) = ws_legId r" "ws_status (closed_session input r) = WAITING_CLOSED"
  "ws_startedAt (closed_session input r) = ws_startedAt r" "ws_driverId (closed_session input r) = ws_driverId r"
  "ws_startClientEventId (closed_session input r) = ws_startClientEventId r"
  "ws_arrivalCheckpointId (closed_session input r) = ws_arrivalCheckpointId r"
  "ws_endedAt (closed_session input r) = Some (wx_endedAt input)"
  "ws_closeReason (closed_session input r) = Some (wx_closeReason input)"
  "ws_closingCheckpointId (closed_session input r) = wx_closingCheckpointId input"
  by (simp_all add: closed_session_def)

section \<open>A completed run stays settled\<close>

text \<open>A write that adds no open leg, no cargo and no waiting to a run.\<close>

lemma completed_settled_mono:
  assumes "completed_settled s"
    and "\<And>i r. run_of (fd_mv t) i = Some r \<Longrightarrow> vr_status r = RUN_COMPLETED \<Longrightarrow>
      (\<exists>q. run_of (fd_mv s) i = Some q \<and> vr_status q = RUN_COMPLETED) \<and> (run_settled s i \<longrightarrow> run_settled t i) \<or>
      run_settled t i"
  shows "completed_settled t"
  using assms unfolding completed_settled_def by blast

lemma settled_same:
  assumes "run_settled s i" "fd_ck t = fd_ck s" "fd_wt t = fd_wt s"
    and "\<And>g l. leg_of (fd_mv t) g = Some l \<Longrightarrow> rl_runId l = i \<Longrightarrow> leg_of (fd_mv s) g = Some l"
  shows "run_settled t i"
  using assms unfolding run_settled_def by metis


section \<open>Each write keeps the invariant\<close>

lemma session_ok_more_rows:
  assumes "session_ok m k rows r" "accepted_on (ws_legId r) c \<Longrightarrow> ws_startedAt r \<le> cp_receivedAt c"
  shows "session_ok m k (rows @ [c]) r"
  using assms unfolding session_ok_def anchored_def ended_well_def by (auto split: option.splits)

lemma movement_write_ok:
  assumes ok: "field_ok s" and m: "movement_ok m'" "extends (fd_mv s) m'"
    and done_ok: "completed_settled (s\<lparr>fd_mv := m'\<rparr>)"
  shows "field_ok (s\<lparr>fd_mv := m'\<rparr>)"
proof -
  have "log_ok m' (fd_clock s) (ck_rows (fd_ck s))"
    using ok log_ok_mono [OF _ m(2) order_refl] by (simp add: field_ok_def)
  moreover have "\<forall>r \<in> set (wt_rows (fd_wt s)). session_ok m' (fd_clock s) (ck_rows (fd_ck s)) r"
    using ok session_ok_mono [OF _ m(2) order_refl] by (simp add: field_ok_def)
  ultimately show ?thesis using ok m(1) done_ok by (simp add: field_ok_def)
qed

lemma run_write_ok:
  assumes ok: "field_ok s" and r: "run_of (fd_mv s) (vr_id r) \<noteq> None"
    and settled: "vr_status r = RUN_COMPLETED \<Longrightarrow> run_settled s (vr_id r)"
  shows "field_ok (s\<lparr>fd_mv := put_run r (fd_mv s)\<rparr>)"
proof (rule movement_write_ok [OF ok])
  have m: "movement_ok (fd_mv s)" and c: "completed_settled s" using ok by (simp_all add: field_ok_def)
  show "movement_ok (put_run r (fd_mv s))" "extends (fd_mv s) (put_run r (fd_mv s))"
    using movement_ok_put_run [OF m r] .
  let ?t = "s\<lparr>fd_mv := put_run r (fd_mv s)\<rparr>"
  show "completed_settled ?t" unfolding completed_settled_def
  proof (intro allI impI)
    fix i q
    assume q: "run_of (fd_mv ?t) i = Some q" "vr_status q = RUN_COMPLETED"
    have "run_settled s i"
    proof (cases "i = vr_id r")
      case True
      with q settled show ?thesis by simp
    next
      case False
      with q c show ?thesis by (simp add: completed_settled_def)
    qed
    then show "run_settled ?t i" by (rule settled_same) simp_all
  qed
qed

lemma run_created_ok:
  assumes ok: "field_ok s"
  shows "field_ok (s\<lparr>fd_mv := create_run_row input tm (fd_mv s)\<rparr>)"
proof (rule movement_write_ok [OF ok])
  have m: "movement_ok (fd_mv s)" and c: "completed_settled s" using ok by (simp_all add: field_ok_def)
  show "movement_ok (create_run_row input tm (fd_mv s))" "extends (fd_mv s) (create_run_row input tm (fd_mv s))"
    using movement_ok_create_run [OF m] .
  let ?t = "s\<lparr>fd_mv := create_run_row input tm (fd_mv s)\<rparr>"
  show "completed_settled ?t" unfolding completed_settled_def
  proof (intro allI impI)
    fix i q
    assume q: "run_of (fd_mv ?t) i = Some q" "vr_status q = RUN_COMPLETED"
    then have "run_of (fd_mv s) i = Some q" by (auto simp: new_run_def split: if_splits)
    with c q have "run_settled s i" by (simp add: completed_settled_def)
    then show "run_settled ?t i" by (rule settled_same) simp_all
  qed
qed

lemma driver_assigned_ok:
  assumes ok: "field_ok s"
    and m': "mv_runs m' = mv_runs (fd_mv s)" "mv_legs m' = mv_legs (fd_mv s)" "mv_next (fd_mv s) \<le> mv_next m'"
  shows "field_ok (s\<lparr>fd_mv := m'\<rparr>)"
proof (rule movement_write_ok [OF ok])
  have m: "movement_ok (fd_mv s)" and c: "completed_settled s" using ok by (simp_all add: field_ok_def)
  show "movement_ok m'" "extends (fd_mv s) m'" using movement_ok_assigned [OF m m'] .
  have same: "run_of m' i = run_of (fd_mv s) i" "leg_of m' i = leg_of (fd_mv s) i" for i
    using m' by (simp_all add: run_of_def leg_of_def)
  show "completed_settled (s\<lparr>fd_mv := m'\<rparr>)" unfolding completed_settled_def
  proof (intro allI impI)
    fix i q
    assume "run_of (fd_mv (s\<lparr>fd_mv := m'\<rparr>)) i = Some q" "vr_status q = RUN_COMPLETED"
    with c have "run_settled s i" by (simp add: completed_settled_def same)
    then show "run_settled (s\<lparr>fd_mv := m'\<rparr>) i" by (rule settled_same) (simp_all add: same)
  qed
qed

lemma leg_created_ok:
  assumes ok: "field_ok s" and work: "run_takes_work s (cg_runId input)"
  shows "field_ok (s\<lparr>fd_mv := create_leg_row input tm (fd_mv s)\<rparr>)"
proof (rule movement_write_ok [OF ok])
  have m: "movement_ok (fd_mv s)" and c: "completed_settled s" using ok by (simp_all add: field_ok_def)
  have r: "run_of (fd_mv s) (cg_runId input) \<noteq> None" using work by (auto simp: run_takes_work_def)
  show "movement_ok (create_leg_row input tm (fd_mv s))" "extends (fd_mv s) (create_leg_row input tm (fd_mv s))"
    using movement_ok_create_leg [OF m r] .
  let ?t = "s\<lparr>fd_mv := create_leg_row input tm (fd_mv s)\<rparr>"
  show "completed_settled ?t" unfolding completed_settled_def
  proof (intro allI impI)
    fix i q
    assume q: "run_of (fd_mv ?t) i = Some q" "vr_status q = RUN_COMPLETED"
    with c have "run_settled s i" by (simp add: completed_settled_def)
    moreover have "i \<noteq> cg_runId input" using q work by (auto simp: run_takes_work_def)
    ultimately show "run_settled ?t i"
      by - (rule settled_same [of s], auto simp: new_leg_def split: if_splits)
  qed
qed

lemma moved_leg_simps [simp]:
  "rl_id (moved_leg st tm l) = rl_id l" "rl_runId (moved_leg st tm l) = rl_runId l"
  "rl_kind (moved_leg st tm l) = rl_kind l" "rl_status (moved_leg st tm l) = st"
  by (simp_all add: moved_leg_def)

lemma leg_moved_ok:
  assumes ok: "field_ok s" and l: "leg_of (fd_mv s) g = Some l" and e: "to_status \<in> set (LEG_EDGES (rl_status l))"
  shows "field_ok (s\<lparr>fd_mv := put_leg (moved_leg to_status tm l) (fd_mv s)\<rparr>)"
proof (rule movement_write_ok [OF ok])
  have m: "movement_ok (fd_mv s)" and c: "completed_settled s" using ok by (simp_all add: field_ok_def)
  let ?l = "moved_leg to_status tm l"
  have g: "rl_id l = g" using movement_keys(2) [OF m l] .
  have p: "leg_of (fd_mv s) (rl_id ?l) = Some l" by (simp add: g l)
  show "movement_ok (put_leg ?l (fd_mv s))" "extends (fd_mv s) (put_leg ?l (fd_mv s))"
    using movement_ok_put_leg [OF m p] by simp_all
  let ?t = "s\<lparr>fd_mv := put_leg ?l (fd_mv s)\<rparr>"
  show "completed_settled ?t" unfolding completed_settled_def
  proof (intro allI impI)
    fix i q
    assume q: "run_of (fd_mv ?t) i = Some q" "vr_status q = RUN_COMPLETED"
    with c have settled: "run_settled s i" by (simp add: completed_settled_def)
    have "rl_runId l \<noteq> i"
    proof
      assume "rl_runId l = i"
      with settled l have "isTerminalLegStatus (rl_status l)" by (auto simp: run_settled_def)
      with e show False by (cases "rl_status l") auto
    qed
    then show "run_settled ?t i" by - (rule settled_same [OF settled], auto split: if_splits)
  qed
qed

lemma cargo_other_leg:
  "cp_legId c \<noteq> Some g \<Longrightarrow> cargo_on_board (rows @ [c]) g = cargo_on_board rows g"
  by (simp add: cargo_on_board_def)

lemma checkpoint_recorded_ok:
  assumes ok: "field_ok s" and can: "can_record s input"
  shows "field_ok (s\<lparr>fd_ck := add_checkpoint input (fd_ck s)\<rparr>)"
proof -
  let ?c = "new_checkpoint input (uuid (ck_next (fd_ck s)))"
  let ?t = "s\<lparr>fd_ck := add_checkpoint input (fd_ck s)\<rparr>"
  have m: "movement_ok (fd_mv s)" and c: "completed_settled s"
    and n: "numbered cp_id (ck_rows (fd_ck s)) (ck_next (fd_ck s))"
    and l: "log_ok (fd_mv s) (fd_clock s) (ck_rows (fd_ck s))"
    and w: "\<forall>r \<in> set (wt_rows (fd_wt s)). session_ok (fd_mv s) (fd_clock s) (ck_rows (fd_ck s)) r"
    using ok by (simp_all add: field_ok_def)
  from can have g: "grounded (fd_mv s) (fd_clock s) (ck_rows (fd_ck s)) ?c"
    and work: "run_takes_work s (cc_runId input)" and k: "cc_receivedAt input = fd_clock s"
    by (simp_all add: can_record_def)
  have "session_ok (fd_mv s) (fd_clock s) (ck_rows (fd_ck s) @ [?c]) r" if "r \<in> set (wt_rows (fd_wt s))" for r
    using w that k by (intro session_ok_more_rows) (auto simp: session_ok_def)
  moreover have "log_ok (fd_mv s) (fd_clock s) (ck_rows (fd_ck s) @ [?c])" using l g by (simp add: log_ok_snoc)
  moreover have "completed_settled ?t" unfolding completed_settled_def
  proof (intro allI impI)
    fix i q
    assume q: "run_of (fd_mv ?t) i = Some q" "vr_status q = RUN_COMPLETED"
    with c have settled: "run_settled s i" by (simp add: completed_settled_def)
    from q work have i: "i \<noteq> cc_runId input" by (auto simp: run_takes_work_def)
    have "cp_legId ?c \<noteq> Some h" if "leg_of (fd_mv s) h = Some lg" "rl_runId lg = i" for h lg
      using g that i by (auto simp: grounded_def leg_place_def)
    with settled show "run_settled ?t i" by (auto simp: run_settled_def cargo_other_leg)
  qed
  ultimately show ?thesis using ok by (simp add: field_ok_def numbered_snoc)
qed

lemma waiting_opened_ok:
  assumes ok: "field_ok s" and can: "can_open s input"
  shows "field_ok (s\<lparr>fd_wt := add_session input (fd_wt s)\<rparr>)"
proof -
  let ?r = "new_session input (uuid (wt_next (fd_wt s)))"
  let ?t = "s\<lparr>fd_wt := add_session input (fd_wt s)\<rparr>"
  have c: "completed_settled s" and n: "numbered ws_id (wt_rows (fd_wt s)) (wt_next (fd_wt s))"
    and w: "\<forall>r \<in> set (wt_rows (fd_wt s)). session_ok (fd_mv s) (fd_clock s) (ck_rows (fd_ck s)) r"
    and o1: "one_open_per_leg (wt_rows (fd_wt s))" and st: "started_once (wt_rows (fd_wt s))"
    using ok by (simp_all add: field_ok_def)
  have "one_open_per_leg (wt_rows (fd_wt s) @ [?r])"
    using o1 can by (auto simp: one_open_per_leg_def can_open_def open_on_leg_def list_ex_iff filter_empty_conv)
  moreover have "started_once (wt_rows (fd_wt s) @ [?r])"
    using st can by (auto simp: started_once_def can_open_def started_by_event_def list_ex_iff)
  moreover have "completed_settled ?t" unfolding completed_settled_def
  proof (intro allI impI)
    fix i q
    assume q: "run_of (fd_mv ?t) i = Some q" "vr_status q = RUN_COMPLETED"
    with c have settled: "run_settled s i" by (simp add: completed_settled_def)
    from q can have "i \<noteq> wc_runId input" by (auto simp: run_takes_work_def can_open_def)
    with settled show "run_settled ?t i" by (auto simp: run_settled_def)
  qed
  ultimately show ?thesis using ok can by (simp add: field_ok_def numbered_snoc can_open_def)
qed

lemma waiting_ended_ok:
  assumes ok: "field_ok s" and r: "r \<in> set (wt_rows (fd_wt s))" "ws_status r = WAITING_OPEN"
    and e: "ending_ok (ck_rows (fd_ck s)) r input"
  shows "field_ok (s\<lparr>fd_wt := end_session input (fd_wt s)\<rparr>)"
proof -
  let ?f = "\<lambda>q. if ws_id q = wx_sessionId input then closed_session input q else q"
  let ?t = "s\<lparr>fd_wt := end_session input (fd_wt s)\<rparr>"
  have c: "completed_settled s" and n: "numbered ws_id (wt_rows (fd_wt s)) (wt_next (fd_wt s))"
    and w: "\<forall>r \<in> set (wt_rows (fd_wt s)). session_ok (fd_mv s) (fd_clock s) (ck_rows (fd_ck s)) r"
    and o1: "one_open_per_leg (wt_rows (fd_wt s))" and st: "started_once (wt_rows (fd_wt s))"
    using ok by (simp_all add: field_ok_def)
  have n': "numbered ws_id (map ?f (wt_rows (fd_wt s))) (wt_next (fd_wt s))" using n by (rule numbered_map) simp
  have each: "session_ok (fd_mv s) (fd_clock s) (ck_rows (fd_ck s)) (?f q)" if q: "q \<in> set (wt_rows (fd_wt s))" for q
  proof (cases "ws_id q = wx_sessionId input")
    case True
    with e have "ws_id q = ws_id r" by (simp add: ending_ok_def)
    with numbered_eq [OF n q r(1)] have "q = r" by simp
    with w r e True show ?thesis
      by (cases "wx_closeReason input") (auto simp: session_ok_def anchored_def ended_well_def ending_ok_def)
  next
    case False
    with w q show ?thesis by simp
  qed
  have "\<forall>r \<in> set (map ?f (wt_rows (fd_wt s))). session_ok (fd_mv s) (fd_clock s) (ck_rows (fd_ck s)) r"
    using each by (simp only: set_map ball_simps) blast
  moreover have "one_open_per_leg (map ?f (wt_rows (fd_wt s)))"
  proof -
    have "length (filter (open_on_leg g) (map ?f (wt_rows (fd_wt s)))) \<le> length (filter (open_on_leg g) (wt_rows (fd_wt s)))" for g
      by (rule filter_map_le) (auto simp: open_on_leg_def split: if_splits)
    then show ?thesis using o1 le_trans unfolding one_open_per_leg_def by blast
  qed
  moreover have "started_once (map ?f (wt_rows (fd_wt s)))"
  proof -
    have "map (\<lambda>r. (ws_legId r, ws_startClientEventId r)) (map ?f (wt_rows (fd_wt s))) =
        map (\<lambda>r. (ws_legId r, ws_startClientEventId r)) (wt_rows (fd_wt s))" by simp
    with st show ?thesis unfolding started_once_def by metis
  qed
  moreover have "completed_settled ?t" unfolding completed_settled_def
  proof (intro allI impI)
    fix i q
    assume "run_of (fd_mv ?t) i = Some q" "vr_status q = RUN_COMPLETED"
    with c have settled: "run_settled s i" by (simp add: completed_settled_def)
    then show "run_settled ?t i" by (auto simp: run_settled_def)
  qed
  ultimately show ?thesis using ok n' unfolding field_ok_def by (simp only: field.simps end_session_simps) simp
qed

lemma time_passed_ok:
  assumes ok: "field_ok s" and k: "fd_clock s \<le> k"
  shows "field_ok (s\<lparr>fd_clock := k\<rparr>)"
proof -
  have "completed_settled (s\<lparr>fd_clock := k\<rparr>)"
    using ok unfolding field_ok_def completed_settled_def by (auto simp: run_settled_def)
  then show ?thesis
    using ok log_ok_mono [OF _ extends_refl k] session_ok_mono [OF _ extends_refl k] by (simp add: field_ok_def)
qed

lemma field_step_ok: "field_step k s t \<Longrightarrow> field_ok s \<Longrightarrow> field_ok t"
proof (induction rule: field_step.induct)
  case (run_marked s r)
  then show ?case by (intro run_write_ok) simp_all
next
  case (run_completed s i r tm)
  have "vr_id r = i" using run_completed movement_keys(1) by (auto simp: field_ok_def)
  with run_completed show ?case by (intro run_write_ok) (simp_all add: marked_run_def)
qed (simp_all add: run_created_ok driver_assigned_ok leg_created_ok leg_moved_ok checkpoint_recorded_ok
  waiting_opened_ok waiting_ended_ok time_passed_ok)

lemma field_path_ok: "field_path H s t \<Longrightarrow> field_ok s \<Longrightarrow> field_ok t"
  by (induction rule: field_path.induct) (auto intro: field_step_ok)

end
