(* ===== verification/FieldLogic.thy ===== *)
theory FieldLogic imports FieldInvariant begin

text \<open>
  What survives the writes of others, and the rules by which a service method is read: \<open>walks P m Q\<close> says that
  from a state of the invariant with \<open>P\<close> the method makes only writes of the field, and that \<open>Q\<close> holds of its
  result. A fact may be carried over an await when it is stable under the writes that may happen there.
\<close>

section \<open>What survives every write\<close>

definition session_evolves :: "DeliveryWaitingSession \<Rightarrow> DeliveryWaitingSession \<Rightarrow> bool" where
  "session_evolves a b \<longleftrightarrow>
     b = a \<or> ws_status a = WAITING_OPEN \<and> ws_status b = WAITING_CLOSED \<and> ws_id b = ws_id a \<and>
       ws_runId b = ws_runId a \<and> ws_legId b = ws_legId a \<and> ws_startedAt b = ws_startedAt a \<and>
       ws_startClientEventId b = ws_startClientEventId a \<and> ws_driverId b = ws_driverId a"

definition sessions_grow :: "DeliveryWaitingSession list \<Rightarrow> DeliveryWaitingSession list \<Rightarrow> bool" where
  "sessions_grow xs ys \<longleftrightarrow> list_all2 session_evolves xs (take (length xs) ys) \<and> length xs \<le> length ys"

definition later :: "field \<Rightarrow> field \<Rightarrow> bool" where
  "later s t \<longleftrightarrow> extends (fd_mv s) (fd_mv t) \<and> (\<exists>zs. ck_rows (fd_ck t) = ck_rows (fd_ck s) @ zs) \<and>
     sessions_grow (wt_rows (fd_wt s)) (wt_rows (fd_wt t)) \<and> fd_clock s \<le> fd_clock t"

lemma session_evolves_trans: "session_evolves a b \<Longrightarrow> session_evolves b c \<Longrightarrow> session_evolves a c"
  by (auto simp: session_evolves_def)

lemma sessions_grow_refl [simp]: "sessions_grow xs xs"
  by (simp add: sessions_grow_def session_evolves_def list_all2_conv_all_nth)

lemma sessions_grow_trans:
  assumes "sessions_grow xs ys" "sessions_grow ys zs"
  shows "sessions_grow xs zs"
proof -
  have l: "length xs \<le> length ys" "length ys \<le> length zs" using assms by (simp_all add: sessions_grow_def)
  have "session_evolves (xs ! n) (zs ! n)" if "n < length xs" for n
  proof -
    have "session_evolves (xs ! n) (ys ! n)" "session_evolves (ys ! n) (zs ! n)"
      using assms l that by (auto simp: sessions_grow_def list_all2_conv_all_nth)
    then show ?thesis by (rule session_evolves_trans)
  qed
  with l show ?thesis by (auto simp: sessions_grow_def list_all2_conv_all_nth)
qed

lemma sessions_grow_append [simp]: "sessions_grow xs (xs @ ys)"
  by (simp add: sessions_grow_def session_evolves_def list_all2_conv_all_nth)

lemma sessions_grow_map: "(\<And>x. x \<in> set xs \<Longrightarrow> session_evolves x (f x)) \<Longrightarrow> sessions_grow xs (map f xs)"
  by (simp add: sessions_grow_def list_all2_conv_all_nth)

lemma sessions_grow_mem:
  assumes "sessions_grow xs ys" "x \<in> set xs"
  obtains y where "y \<in> set ys" "session_evolves x y"
proof -
  from assms(2) obtain n where n: "n < length xs" "x = xs ! n" by (auto simp: in_set_conv_nth)
  with assms(1) have "session_evolves x (ys ! n)" "n < length ys"
    by (auto simp: sessions_grow_def list_all2_conv_all_nth)
  then show ?thesis by (intro that [of "ys ! n"]) simp_all
qed

lemma later_refl [simp]: "later s s"
  by (simp add: later_def)

lemma later_trans: "later s t \<Longrightarrow> later t u \<Longrightarrow> later s u"
  unfolding later_def using extends_trans sessions_grow_trans by fastforce

lemma ended_evolves:
  assumes n: "numbered ws_id rows m" and r: "r \<in> set rows" "ws_status r = WAITING_OPEN"
    and e: "ending_ok crows r input" and q: "q \<in> set rows"
  shows "session_evolves q (if ws_id q = wx_sessionId input then closed_session input q else q)"
proof (cases "ws_id q = wx_sessionId input")
  case True
  with e have "ws_id q = ws_id r" by (simp add: ending_ok_def)
  with numbered_eq [OF n q r(1)] r(2) have "ws_status q = WAITING_OPEN" by simp
  then show ?thesis by (simp add: session_evolves_def)
qed (simp add: session_evolves_def)

lemma field_step_later:
  assumes "field_step k s t" "field_ok s"
  shows "later s t"
  using assms
proof (induction rule: field_step.induct)
  case (run_completed s i r tm)
  then have "movement_ok (fd_mv s)" by (simp add: field_ok_def)
  moreover from this run_completed have "vr_id r = i" by (simp add: movement_keys(1))
  ultimately show ?case
    using run_completed movement_ok_put_run(2) [of "fd_mv s" "marked_run RUN_COMPLETED tm r"]
    by (simp add: later_def marked_run_def)
next
  case (run_marked s r)
  then show ?case using movement_ok_put_run(2) [of "fd_mv s" r] by (simp add: later_def field_ok_def)
next
  case (driver_assigned m s)
  then show ?case using movement_ok_assigned(2) [of "fd_mv s" m] by (simp add: later_def field_ok_def)
next
  case (leg_created s input tm)
  then have "run_of (fd_mv s) (cg_runId input) \<noteq> None" by (auto simp: run_takes_work_def)
  with leg_created show ?case using movement_ok_create_leg(2) [of "fd_mv s" input] by (simp add: later_def field_ok_def)
next
  case (leg_moved s g l to_status tm)
  then have m: "movement_ok (fd_mv s)" by (simp add: field_ok_def)
  have "leg_of (fd_mv s) (rl_id (moved_leg to_status tm l)) = Some l"
    using movement_keys(2) [OF m leg_moved(1)] leg_moved(1) by simp
  from movement_ok_put_leg(2) [OF m this] show ?case by (simp add: later_def)
next
  case (waiting_ended r s input)
  have "numbered ws_id (wt_rows (fd_wt s)) (wt_next (fd_wt s))" using waiting_ended by (simp add: field_ok_def)
  from ended_evolves [OF this waiting_ended(1-3)]
  have "sessions_grow (wt_rows (fd_wt s)) (wt_rows (end_session input (fd_wt s)))"
    unfolding end_session_simps by (rule sessions_grow_map)
  then show ?case by (simp add: later_def del: end_session_simps)
qed (simp_all add: later_def field_ok_def movement_ok_create_run)

lemma field_path_later: "field_path H s t \<Longrightarrow> field_ok s \<Longrightarrow> later s t"
proof (induction rule: field_path.induct)
  case (path_step H s t k u)
  from path_step show ?case by (metis later_trans field_step_later field_path_ok)
qed simp

section \<open>What survives while the lock of a run is held\<close>

definition rows_of_run :: "field \<Rightarrow> ident \<Rightarrow> RunCheckpoint list" where
  "rows_of_run s i = filter (\<lambda>r. cp_runId r = i) (ck_rows (fd_ck s))"

definition locked_later :: "ident \<Rightarrow> field \<Rightarrow> field \<Rightarrow> bool" where
  "locked_later i s t \<longleftrightarrow>
     (\<forall>g l. rl_runId l = i \<longrightarrow> (leg_of (fd_mv t) g = Some l \<longleftrightarrow> leg_of (fd_mv s) g = Some l)) \<and>
     rows_of_run t i = rows_of_run s i \<and>
     (\<forall>r \<in> set (wt_rows (fd_wt t)). ws_runId r = i \<longrightarrow> ws_status r = WAITING_OPEN \<longrightarrow> r \<in> set (wt_rows (fd_wt s))) \<and>
     (run_takes_work s i \<longrightarrow> run_takes_work t i)"

lemma locked_later_refl [simp]: "locked_later i s s"
  by (simp add: locked_later_def)

lemma locked_later_trans: "locked_later i s t \<Longrightarrow> locked_later i t u \<Longrightarrow> locked_later i s u"
  unfolding locked_later_def by metis

lemma field_step_locked:
  assumes "field_step k s t" "field_ok s" "\<forall>j. k = Some j \<longrightarrow> j \<noteq> i"
  shows "locked_later i s t"
  using assms
proof (induction rule: field_step.induct)
  case (run_created s input tm)
  then have "run_of (fd_mv s) (uuid (mv_next (fd_mv s))) = None" by (simp add: field_ok_def movement_keys(3))
  then show ?case by (auto simp: locked_later_def rows_of_run_def run_takes_work_def)
next
  case (run_completed s j r tm)
  have "vr_id r = j" using run_completed movement_keys(1) by (auto simp: field_ok_def)
  with run_completed show ?case by (auto simp: locked_later_def rows_of_run_def run_takes_work_def marked_run_def)
next
  case (driver_assigned m s)
  then show ?case by (simp add: locked_later_def rows_of_run_def run_takes_work_def leg_of_def run_of_def)
next
  case (leg_created s input tm)
  have "leg_of (fd_mv s) (uuid (mv_next (fd_mv s))) = None"
    using leg_created by (simp add: field_ok_def movement_keys(4))
  with leg_created show ?case
    by (auto simp: locked_later_def rows_of_run_def run_takes_work_def new_leg_def split: if_splits)
next
  case (leg_moved s g l to_status tm)
  have "rl_id l = g" using leg_moved movement_keys(2) by (auto simp: field_ok_def)
  with leg_moved show ?case by (auto simp: locked_later_def rows_of_run_def run_takes_work_def split: if_splits)
next
  case (waiting_ended r s input)
  then show ?case
    by (auto simp: locked_later_def rows_of_run_def run_takes_work_def split: if_splits)
qed (auto simp: locked_later_def rows_of_run_def run_takes_work_def)

lemma field_path_locked: "field_path H s t \<Longrightarrow> field_ok s \<Longrightarrow> i \<in> H \<Longrightarrow> locked_later i s t"
proof (induction rule: field_path.induct)
  case (path_step H s t k u)
  then have "locked_later i t u" by (metis field_step_locked field_path_ok)
  with path_step show ?case by (metis locked_later_trans)
qed simp

section \<open>Reading a service method\<close>

definition walks ::
  "(field \<Rightarrow> bool) \<Rightarrow> (field, field_error, 'a) stateful \<Rightarrow> ('a \<Rightarrow> field \<Rightarrow> bool) \<Rightarrow> bool" where
  "walks P m Q \<longleftrightarrow> (\<forall>s. field_ok s \<longrightarrow> P s \<longrightarrow>
     field_path {} s (snd (m s)) \<and> (\<forall>a. fst (m s) = Inr a \<longrightarrow> Q a (snd (m s))))"

definition stable :: "ident set \<Rightarrow> (field \<Rightarrow> bool) \<Rightarrow> bool" where
  "stable H P \<longleftrightarrow> (\<forall>s t. field_ok s \<longrightarrow> P s \<longrightarrow> field_path H s t \<longrightarrow> P t)"

definition calm :: "interference \<Rightarrow> bool" where
  "calm w \<longleftrightarrow> (\<forall>n s. field_ok s \<longrightarrow> field_path {} s (others w n s)) \<and>
     (\<forall>n i s. field_ok s \<longrightarrow> field_path {i} s (meanwhile w n i s))"

lemma calm_alone: "calm alone"
  by (simp add: calm_def alone_def path_refl)

named_theorems walk_rules \<open>one rule per combinator of the service methods\<close>

lemma walks_bnd [walk_rules]:
  assumes m: "walks P m Q" and f: "\<And>a. walks (Q a) (f a) R"
  shows "walks P (bnd m f) R"
  unfolding walks_def
proof (intro allI impI)
  fix s
  assume s: "field_ok s" "P s"
  from m s have p: "field_path {} s (snd (m s))" by (simp add: walks_def)
  show "field_path {} s (snd (bnd m f s)) \<and> (\<forall>a. fst (bnd m f s) = Inr a \<longrightarrow> R a (snd (bnd m f s)))"
  proof (cases "fst (m s)")
    case (Inl e)
    with p show ?thesis by (simp add: bnd_eq)
  next
    case (Inr a)
    with m s have "Q a (snd (m s))" by (simp add: walks_def)
    with f field_path_ok [OF p s(1)] have
      "field_path {} (snd (m s)) (snd (f a (snd (m s))))"
      "\<forall>b. fst (f a (snd (m s))) = Inr b \<longrightarrow> R b (snd (f a (snd (m s))))"
      by (simp_all add: walks_def)
    with Inr field_path_trans [OF _ p] show ?thesis by (simp add: bnd_eq)
  qed
qed

text \<open>After a failure only what every write keeps is known.\<close>

lemma walks_catching:
  assumes m: "walks P m Q" and E: "\<And>s t. field_ok s \<Longrightarrow> P s \<Longrightarrow> field_path {} s t \<Longrightarrow> E t"
    and h: "\<And>e. walks E (h e) R" and ok: "\<And>a. walks (Q a) (ok a) R"
  shows "walks P (attempting m h ok) R"
  unfolding walks_def
proof (intro allI impI)
  fix s
  assume s: "field_ok s" "P s"
  let ?t = "snd (m s)"
  from m s have p: "field_path {} s ?t" by (simp add: walks_def)
  note t = field_path_ok [OF p s(1)]
  have e: "attempting m h ok s = (case fst (m s) of Inl e \<Rightarrow> h e ?t | Inr a \<Rightarrow> ok a ?t)"
    by (simp add: attempting_def split: prod.split sum.split)
  show "field_path {} s (snd (attempting m h ok s)) \<and>
      (\<forall>a. fst (attempting m h ok s) = Inr a \<longrightarrow> R a (snd (attempting m h ok s)))"
  proof (cases "fst (m s)")
    case (Inl x)
    have "E ?t" using E s p by blast
    with h t have "field_path {} ?t (snd (h x ?t))" "\<forall>b. fst (h x ?t) = Inr b \<longrightarrow> R b (snd (h x ?t))"
      by (simp_all add: walks_def)
    with Inl e field_path_trans [OF _ p] show ?thesis by simp
  next
    case (Inr a)
    with m s have "Q a ?t" by (simp add: walks_def)
    with ok t have "field_path {} ?t (snd (ok a ?t))" "\<forall>b. fst (ok a ?t) = Inr b \<longrightarrow> R b (snd (ok a ?t))"
      by (simp_all add: walks_def)
    with Inr e field_path_trans [OF _ p] show ?thesis by simp
  qed
qed

lemma walks_attempting [walk_rules]:
  "walks P m Q \<Longrightarrow> stable {} P \<Longrightarrow> (\<And>e. walks P (h e) R) \<Longrightarrow> (\<And>a. walks (Q a) (ok a) R) \<Longrightarrow>
    walks P (attempting m h ok) R"
  by (rule walks_catching [where E = P]) (auto simp: stable_def)

lemma walks_ret: "(\<And>s. field_ok s \<Longrightarrow> P s \<Longrightarrow> Q a s) \<Longrightarrow> walks P (ret a) Q"
  by (simp add: walks_def ret_def path_refl)

lemma walks_query: "(\<And>s. field_ok s \<Longrightarrow> P s \<Longrightarrow> Q (f s) s) \<Longrightarrow> walks P (query f) Q"
  by (simp add: walks_def query_def path_refl)

lemma walks_throw [walk_rules]: "walks P (throw e) Q" "walks P (fail x) Q"
  by (simp_all add: walks_def throw_def fail_def path_refl)

lemma walks_lift: "(\<And>a s. r = Inr a \<Longrightarrow> field_ok s \<Longrightarrow> P s \<Longrightarrow> Q a s) \<Longrightarrow> walks P (lift r) Q"
  by (simp add: walks_def lift_def path_refl)

lemma walks_await: "calm w \<Longrightarrow> stable {} P \<Longrightarrow> walks P (await w n) (\<lambda>_. P)"
  unfolding walks_def calm_def stable_def await_def by simp

lemma walks_await_locked: "calm w \<Longrightarrow> stable {i} P \<Longrightarrow> walks P (await_locked w n i) (\<lambda>_. P)"
  unfolding walks_def calm_def stable_def await_locked_def using field_path_mono [of "{i}" _ _ "{}"] by auto

lemma walks_conseq:
  "walks P m Q \<Longrightarrow> (\<And>s. field_ok s \<Longrightarrow> P' s \<Longrightarrow> P s) \<Longrightarrow> (\<And>a s. field_ok s \<Longrightarrow> Q a s \<Longrightarrow> Q' a s) \<Longrightarrow> walks P' m Q'"
  unfolding walks_def using field_path_ok by metis

lemma walks_step:
  assumes "\<And>s. field_ok s \<Longrightarrow> P s \<Longrightarrow>
    (snd (m s) = s \<or> (\<exists>k. field_step k s (snd (m s)))) \<and> (\<forall>a. fst (m s) = Inr a \<longrightarrow> Q a (snd (m s)))"
  shows "walks P m Q"
  using assms field_path_one unfolding walks_def by (metis empty_iff path_refl)

lemma walks_if [walk_rules]:
  "(c \<Longrightarrow> walks P m Q) \<Longrightarrow> (\<not> c \<Longrightarrow> walks P m' Q) \<Longrightarrow> walks P (if c then m else m') Q"
  by simp

lemma walks_option [walk_rules]:
  "(x = None \<Longrightarrow> walks P m Q) \<Longrightarrow> (\<And>y. x = Some y \<Longrightarrow> walks P (f y) Q) \<Longrightarrow>
    walks P (case x of None \<Rightarrow> m | Some y \<Rightarrow> f y) Q"
  by (cases x) simp_all

lemma walks_decision [walk_rules]:
  "(x = Allowed \<Longrightarrow> walks P m Q) \<Longrightarrow> (\<And>y. x = Refused y \<Longrightarrow> walks P (f y) Q) \<Longrightarrow>
    walks P (case x of Allowed \<Rightarrow> m | Refused y \<Rightarrow> f y) Q"
  by (cases x) simp_all

lemma walks_error [walk_rules]:
  "(\<And>i. x = WaitingSessionAlreadyClosedError i \<Longrightarrow> walks P (f i) Q) \<Longrightarrow>
    walks P (case x of WaitingSessionAlreadyClosedError i \<Rightarrow> f i | _ \<Rightarrow> throw x) Q"
  "(\<And>i st. x = RunClosedForNewWorkError i st \<Longrightarrow> walks P (g i st) Q) \<Longrightarrow>
    walks P (case x of RunClosedForNewWorkError i st \<Rightarrow> g i st | _ \<Rightarrow> throw x) Q"
  by (cases x; simp add: walks_throw)+

lemma stable_True [simp]: "stable H (\<lambda>s. True)"
  by (simp add: stable_def)

lemma stable_later: "(\<And>s t. field_ok s \<Longrightarrow> field_ok t \<Longrightarrow> later s t \<Longrightarrow> P s \<Longrightarrow> P t) \<Longrightarrow> stable H P"
  unfolding stable_def using field_path_later field_path_ok by blast

lemma stable_conj: "stable H P \<Longrightarrow> stable H Q \<Longrightarrow> stable H (\<lambda>s. P s \<and> Q s)"
  unfolding stable_def by blast

lemma stable_locked:
  "(\<And>s t. field_ok s \<Longrightarrow> field_ok t \<Longrightarrow> later s t \<Longrightarrow> locked_later i s t \<Longrightarrow> P s \<Longrightarrow> P t) \<Longrightarrow> stable {i} P"
  unfolding stable_def using field_path_later field_path_ok field_path_locked by blast

lemma walks_keep_pure: "(C \<Longrightarrow> walks P m Q) \<Longrightarrow> walks (\<lambda>s. C \<and> P s) m Q"
  unfolding walks_def by blast

end
