(* ===== verification/FieldRefinement.thy ===== *)
theory FieldRefinement imports FieldLogic begin

text \<open>
  Every command of the field services makes only writes of the field, whatever the other writers do between its
  awaits. The intermediate predicates say what a command still knows when it writes.
\<close>

section \<open>Stable facts\<close>

definition recorded :: "RunCheckpoint \<Rightarrow> field \<Rightarrow> bool" where
  "recorded c s \<longleftrightarrow> c \<in> set (ck_rows (fd_ck s))"

definition no_open :: "ident \<Rightarrow> field \<Rightarrow> bool" where
  "no_open g s \<longleftrightarrow> (\<forall>r \<in> set (wt_rows (fd_wt s)). \<not> open_on_leg g r)"

lemma later_recorded: "later s t \<Longrightarrow> recorded c s \<Longrightarrow> recorded c t"
  by (auto simp: later_def recorded_def)

lemma later_place: "later s t \<Longrightarrow> leg_place (fd_mv s) g = Some p \<Longrightarrow> leg_place (fd_mv t) g = Some p"
  unfolding later_def extends_def by blast

lemma stable_recorded [simp, intro]: "stable H (recorded c)"
  by (rule stable_later) (rule later_recorded)

lemma field_step_accepted:
  assumes "field_step k s t" "field_ok s" "recorded c s" "accepted_on g c" "r \<in> set (wt_rows (fd_wt t))" "open_on_leg g r"
  shows "r \<in> set (wt_rows (fd_wt s))"
  using assms
  by (induction rule: field_step.induct) (auto simp: open_on_leg_def recorded_def can_open_def split: if_splits)

text \<open>Once the receiver has accepted, no waiting session is ever opened on the leg again.\<close>

lemma field_path_accepted:
  "field_path H s t \<Longrightarrow> field_ok s \<Longrightarrow> recorded c s \<Longrightarrow> accepted_on g c \<Longrightarrow>
    r \<in> set (wt_rows (fd_wt t)) \<Longrightarrow> open_on_leg g r \<Longrightarrow> r \<in> set (wt_rows (fd_wt s))"
proof (induction arbitrary: r rule: field_path.induct)
  case (path_step H s t k u)
  then have "later s t" "field_ok t" by (auto intro: field_path_later field_path_ok)
  with path_step have "r \<in> set (wt_rows (fd_wt t))"
    using field_step_accepted [of k t u c g r] later_recorded by blast
  with path_step show ?case by blast
qed

definition settled_leg :: "RunCheckpoint \<Rightarrow> field \<Rightarrow> bool" where
  "settled_leg c s \<longleftrightarrow> recorded c s \<and> (cp_type c = DELIVERY_ACCEPTED \<longrightarrow> (\<forall>g. cp_legId c = Some g \<longrightarrow> no_open g s))"

lemma stable_settled_leg [simp, intro]: "stable H (settled_leg c)"
  unfolding stable_def
proof (intro allI impI)
  fix s t
  assume s: "field_ok s" "settled_leg c s" "field_path H s t"
  have "recorded c s" using s(2) by (simp add: settled_leg_def)
  with field_path_later [OF s(3,1)] have "recorded c t" by (rule later_recorded)
  moreover have "no_open g t" if "cp_type c = DELIVERY_ACCEPTED" "cp_legId c = Some g" for g
  proof -
    have "accepted_on g c" using that by (simp add: accepted_on_def)
    with s that field_path_accepted [OF s(3,1)] show ?thesis by (auto simp: settled_leg_def no_open_def)
  qed
  ultimately show "settled_leg c t" by (simp add: settled_leg_def)
qed

lemma filter_at_most_one:
  assumes "length (filter P xs) \<le> 1" "x \<in> set xs" "y \<in> set xs" "P x" "P y"
  shows "x = y"
proof -
  have "x \<in> set (filter P xs)" "y \<in> set (filter P xs)" using assms by simp_all
  with at_most_one [OF assms(1)] show ?thesis by (auto simp del: set_filter)
qed

lemma one_open:
  "field_ok s \<Longrightarrow> q \<in> set (wt_rows (fd_wt s)) \<Longrightarrow> r \<in> set (wt_rows (fd_wt s)) \<Longrightarrow> open_on_leg g q \<Longrightarrow>
    open_on_leg g r \<Longrightarrow> q = r"
  using filter_at_most_one unfolding field_ok_def one_open_per_leg_def by metis

section \<open>Ending a session\<close>

definition ended :: "ident \<Rightarrow> field \<Rightarrow> bool" where
  "ended i s \<longleftrightarrow> (\<forall>r \<in> set (wt_rows (fd_wt s)). ws_id r = i \<longrightarrow> ws_status r \<noteq> WAITING_OPEN)"

lemma close_session_cases:
  assumes ok: "field_ok s"
    and e: "\<And>r. r \<in> set (wt_rows (fd_wt s)) \<Longrightarrow> ws_id r = wx_sessionId input \<Longrightarrow> ws_status r = WAITING_OPEN \<Longrightarrow>
      ending_ok (ck_rows (fd_ck s)) r input"
  obtains (closed_now) r where "on_wt (mem_closeSession input) s =
      ((Inr r :: field_error + DeliveryWaitingSession), s\<lparr>fd_wt := end_session input (fd_wt s)\<rparr>)"
      "field_step None s (s\<lparr>fd_wt := end_session input (fd_wt s)\<rparr>)"
      "ended (wx_sessionId input) (s\<lparr>fd_wt := end_session input (fd_wt s)\<rparr>)"
  | (refused) "on_wt (mem_closeSession input) s =
      ((Inl (WaitingSessionAlreadyClosedError (wx_sessionId input)) :: field_error + DeliveryWaitingSession), s)"
      "ended (wx_sessionId input) s"
proof -
  have n: "numbered ws_id (wt_rows (fd_wt s)) (wt_next (fd_wt s))" using ok by (simp add: field_ok_def)
  show ?thesis
  proof (cases "findSession (fd_wt s) (wx_sessionId input)")
    case None
    then have "ended (wx_sessionId input) s" by (simp add: findSession_def find_None_iff_ball ended_def)
    moreover from None have "on_wt (mem_closeSession input) s =
        (Inl (WaitingSessionAlreadyClosedError (wx_sessionId input)) :: field_error + DeliveryWaitingSession, s)"
      by (simp add: on_wt_def mem_closeSession_def)
    ultimately show ?thesis by (rule refused [rotated])
  next
    case (Some r)
    then have r: "r \<in> set (wt_rows (fd_wt s))" "ws_id r = wx_sessionId input"
      using find_SomeD by (fastforce simp: findSession_def)+
    have only: "q = r" if "q \<in> set (wt_rows (fd_wt s))" "ws_id q = wx_sessionId input" for q
      using numbered_eq [OF n that(1) r(1)] that(2) r(2) by simp
    show ?thesis
    proof (cases "ws_status r = WAITING_OPEN")
      case True
      have "replace_first (\<lambda>q. ws_id q = wx_sessionId input) (closed_session input r) (wt_rows (fd_wt s)) =
          map (\<lambda>q. if ws_id q = wx_sessionId input then closed_session input r else q) (wt_rows (fd_wt s))"
        using Some r numbered_distinct [OF n] by (intro replace_first_found) (simp_all add: findSession_def)
      also have "\<dots> = wt_rows (end_session input (fd_wt s))" using only by auto
      finally have "(fd_wt s)\<lparr>wt_rows := replace_first (\<lambda>q. ws_id q = wx_sessionId input) (closed_session input r)
          (wt_rows (fd_wt s))\<rparr> = end_session input (fd_wt s)" by (simp add: end_session_def)
      with Some True have "on_wt (mem_closeSession input) s =
          (Inr (closed_session input r) :: field_error + DeliveryWaitingSession, s\<lparr>fd_wt := end_session input (fd_wt s)\<rparr>)"
        by (simp add: on_wt_def mem_closeSession_def)
      moreover have "field_step None s (s\<lparr>fd_wt := end_session input (fd_wt s)\<rparr>)"
        using r True e by (intro waiting_ended [of r]) auto
      ultimately show ?thesis by (intro closed_now) (auto simp: ended_def)
    next
      case False
      with Some only show ?thesis by (intro refused) (auto simp: on_wt_def mem_closeSession_def ended_def)
    qed
  qed
qed

lemma walks_attempt_close:
  assumes e: "\<And>s r. field_ok s \<Longrightarrow> P s \<Longrightarrow> r \<in> set (wt_rows (fd_wt s)) \<Longrightarrow> ws_id r = wx_sessionId input \<Longrightarrow>
      ws_status r = WAITING_OPEN \<Longrightarrow> ending_ok (ck_rows (fd_ck s)) r input"
    and P: "stable {} P"
    and h: "walks (\<lambda>s. P s \<and> ended (wx_sessionId input) s) (h (WaitingSessionAlreadyClosedError (wx_sessionId input))) R"
    and ok: "\<And>a. walks (\<lambda>s. P s \<and> ended (wx_sessionId input) s) (k a) R"
  shows "walks P (attempting (on_wt (mem_closeSession input)) h k) R"
  unfolding walks_def
proof (intro allI impI)
  fix s
  assume s: "field_ok s" "P s"
  let ?m = "attempting (on_wt (mem_closeSession input)) h k"
  show "field_path {} s (snd (?m s)) \<and> (\<forall>a. fst (?m s) = Inr a \<longrightarrow> R a (snd (?m s)))"
  proof (rule close_session_cases [OF s(1) e [OF s]], goal_cases)
    case closed_now: (4 r)
    let ?t = "s\<lparr>fd_wt := end_session input (fd_wt s)\<rparr>"
    have p: "field_path {} s ?t" using closed_now by (intro field_path_one) simp_all
    have "P ?t" using P s p unfolding stable_def by blast
    with ok [of r] field_path_ok [OF p s(1)] closed_now(3)
    have "field_path {} ?t (snd (k r ?t))" "\<forall>a. fst (k r ?t) = Inr a \<longrightarrow> R a (snd (k r ?t))"
      unfolding walks_def by blast+
    with closed_now(1) field_path_trans [OF _ p] show ?thesis by (simp add: attempting_def)
  next
    case (5)
    with h s show ?thesis unfolding walks_def by (simp add: attempting_def)
  qed
qed

section \<open>Closing by acceptance and by the operator\<close>

text \<open>What a session that was read keeps: its row, and the start of its wait.\<close>

definition same_session :: "DeliveryWaitingSession \<Rightarrow> field \<Rightarrow> bool" where
  "same_session r s \<longleftrightarrow>
     (\<forall>q \<in> set (wt_rows (fd_wt s)). ws_id q = ws_id r \<longrightarrow> ws_legId q = ws_legId r \<and> ws_startedAt q = ws_startedAt r) \<and>
     (\<exists>q \<in> set (wt_rows (fd_wt s)). ws_id q = ws_id r)"

lemma same_session_read: "field_ok s \<Longrightarrow> r \<in> set (wt_rows (fd_wt s)) \<Longrightarrow> same_session r s"
  using numbered_eq unfolding same_session_def field_ok_def by metis

lemma stable_same_session [simp, intro]: "stable H (same_session r)"
proof (rule stable_later)
  fix s t
  assume s: "field_ok s" "field_ok t" "later s t" "same_session r s"
  then obtain q where q: "q \<in> set (wt_rows (fd_wt s))" "ws_id q = ws_id r"
      "ws_legId q = ws_legId r" "ws_startedAt q = ws_startedAt r" by (auto simp: same_session_def)
  have "sessions_grow (wt_rows (fd_wt s)) (wt_rows (fd_wt t))" using s by (simp add: later_def)
  then obtain y where y: "y \<in> set (wt_rows (fd_wt t))" "session_evolves q y" using q(1) by (rule sessions_grow_mem)
  have "numbered ws_id (wt_rows (fd_wt t)) (wt_next (fd_wt t))" using s by (simp add: field_ok_def)
  from numbered_eq [OF this _ y(1)] y q show "same_session r t"
    unfolding same_session_def session_evolves_def by metis
qed

lemma walks_closeByAcceptance:
  assumes w: "calm w" and a: "cp_type c = DELIVERY_ACCEPTED"
  shows "walks (recorded c) (closeByAcceptance w c) (\<lambda>_. settled_leg c)"
proof (cases "cp_legId c")
  case None
  then show ?thesis by (auto simp: closeByAcceptance_def settled_leg_def intro: walks_ret)
next
  case (Some g)
  have acc: "accepted_on g c" using a Some by (simp add: accepted_on_def)
  let ?only = "\<lambda>r s. \<forall>q \<in> set (wt_rows (fd_wt s)). open_on_leg g q \<longrightarrow> ws_id q = ws_id r"
  let ?P = "\<lambda>r s. recorded c s \<and> same_session r s \<and> ?only r s"
  have stable: "stable {} (?P r)" for r
    unfolding stable_def
  proof (intro allI impI)
    fix s t
    assume s: "field_ok s" "?P r s" "field_path {} s t"
    from s have "recorded c t" "same_session r t"
      using stable_recorded [of "{}" c] stable_same_session [of "{}" r] unfolding stable_def by blast+
    moreover have "?only r t" using s field_path_accepted [OF s(3,1) _ acc] by blast
    ultimately show "?P r t" by blast
  qed
  let ?Q = "\<lambda>found s. (case found of
      None \<Rightarrow> settled_leg c s
    | Some r \<Rightarrow> (ws_legId r = g \<and> ws_status r = WAITING_OPEN \<and> ws_startedAt r \<le> cp_receivedAt c) \<and> ?P r s)"
  have read: "walks (recorded c) (query (\<lambda>s. findOpenForLeg (fd_wt s) g)) ?Q"
  proof (rule walks_query)
    fix s
    assume s: "field_ok s" "recorded c s"
    show "?Q (findOpenForLeg (fd_wt s) g) s"
    proof (cases "findOpenForLeg (fd_wt s) g")
      case None
      then have "no_open g s" by (simp add: findOpenForLeg_def find_None_iff_ball no_open_def)
      with None s Some show ?thesis by (simp add: settled_leg_def)
    next
      case (Some r)
      then have r: "r \<in> set (wt_rows (fd_wt s))" "open_on_leg g r" using find_SomeD by (fastforce simp: findOpenForLeg_def)+
      have "session_ok (fd_mv s) (fd_clock s) (ck_rows (fd_ck s)) r" using s r by (simp add: field_ok_def)
      with r acc s(2) have early: "ws_startedAt r \<le> cp_receivedAt c"
        by (auto simp: session_ok_def open_on_leg_def recorded_def)
      have only: "?only r s" using one_open [OF s(1) _ r(1) _ r(2)] by simp
      have "ws_legId r = g" "ws_status r = WAITING_OPEN" using r(2) by (simp_all add: open_on_leg_def)
      then show ?thesis unfolding Some option.case
        using early only s(2) same_session_read [OF s(1) r(1)] by (intro conjI)
    qed
  qed
  have finish: "walks (\<lambda>s. ?P r s \<and> ended (ws_id r) s) m (\<lambda>_. settled_leg c)"
    if m: "walks (settled_leg c) m (\<lambda>_. settled_leg c)" for r and m :: "(field, field_error, 'b) stateful"
  proof (rule walks_conseq [OF m])
    fix s
    assume s: "?P r s \<and> ended (ws_id r) s"
    then have "no_open g s" unfolding no_open_def ended_def open_on_leg_def by metis
    with s Some show "settled_leg c s" by (simp add: settled_leg_def)
  qed
  show ?thesis unfolding closeByAcceptance_def Some option.case
    apply (rule walks_bnd [OF read])
    subgoal for found
      apply (cases found)
       apply (simp add: walks_ret)
      subgoal for r
        apply (simp only: option.case)
        apply (rule walks_keep_pure)
        apply (subst if_not_P, simp add: evaluateWaitingClose_iff)
        apply (rule walks_bnd [OF walks_await [OF w stable]])
        apply (rule walks_attempt_close)
           apply (use acc in \<open>auto simp: ending_ok_def same_session_def recorded_def\<close>) [1]
          apply (rule stable)
         apply (simp only: field_error.case CloseWaitingSessionInput.simps)
         apply (rule finish)
         apply (rule walks_bnd [OF walks_await [OF w stable_settled_leg]])
         apply (rule walks_query, assumption)
        apply (simp only: CloseWaitingSessionInput.simps)
        apply (rule finish)
        apply (rule walks_ret, assumption)
        done
      done
    done
qed

lemma walks_closeByOperator:
  assumes w: "calm w"
  shows "walks (\<lambda>s. True) (closeByOperator w command) (\<lambda>_ s. True)"
proof -
  let ?P = "\<lambda>r s. same_session r s"
  let ?Q = "\<lambda>found s. (case found of None \<Rightarrow> True | Some r \<Rightarrow> ?P r s)"
  have read: "walks (\<lambda>s. True) (query (\<lambda>s. findSession (fd_wt s) i)) ?Q" for i
    by (rule walks_query) (auto simp: findSession_def split: option.split dest!: find_SomeD intro: same_session_read)
  have clock: "walks (?P r) (query fd_clock) (\<lambda>_. ?P r)" for r by (rule walks_query)
  show ?thesis unfolding closeByOperator_def
    apply (rule walks_bnd [OF read])
    subgoal for found
      apply (cases found)
       apply (simp add: walks_throw)
      subgoal for r
        apply simp
        apply (rule walks_bnd [OF walks_await [OF w stable_same_session]])
        apply (rule walks_bnd [OF clock])
        apply (rule walks_decision)
         apply (rule walks_bnd [OF walks_await [OF w stable_same_session]])
         apply (rule walks_attempt_close)
            apply (auto simp: ending_ok_def same_session_def evaluateWaitingClose_iff) [1]
           apply (rule stable_same_session)
          apply (simp add: walks_throw)
         apply (rule walks_ret, simp)
        apply (rule walks_throw)
        done
      done
    done
qed


section \<open>Recording a checkpoint\<close>

lemma walks_settleWaiting:
  assumes w: "calm w"
  shows "walks (recorded c) (settleWaiting w c) (\<lambda>r s. r = c \<and> settled_leg c s)"
proof (cases "cp_type c = DELIVERY_ACCEPTED")
  case True
  have "walks (recorded c) (bnd (await w 19) (\<lambda>_. bnd (closeByAcceptance w c) (\<lambda>_. ret c))) (\<lambda>r s. r = c \<and> settled_leg c s)"
    by (rule walks_bnd [OF walks_await [OF w stable_recorded]])
      (rule walks_bnd [OF walks_closeByAcceptance [OF w True]], rule walks_ret, simp)
  with True show ?thesis by (simp add: settleWaiting_def)
next
  case False
  then show ?thesis by (auto simp: settleWaiting_def settled_leg_def intro: walks_ret)
qed

definition early_checks :: "RecordCheckpointCommand \<Rightarrow> field \<Rightarrow> bool" where
  "early_checks command s \<longleftrightarrow>
     (case rc_legId command of
        None \<Rightarrow> isRunScoped (rc_type command)
      | Some g \<Rightarrow> \<not> isRunScoped (rc_type command) \<and>
          (\<exists>kind. leg_place (fd_mv s) g = Some (rc_runId command, kind) \<and> isCheckpointAllowedOnLeg (rc_type command) kind)) \<and>
     (\<forall>p. requiredPredecessor (rc_type command) = Some p \<longrightarrow>
        (\<exists>x. recorded x s \<and> cp_type x = p \<and> cp_legId x = rc_legId command \<and> cp_runId x = rc_runId command))"

lemma stable_early_checks [simp, intro]: "stable H (early_checks command)"
proof (rule stable_later)
  fix s t
  assume s: "later s t" "early_checks command s"
  show "early_checks command t"
  proof (cases "rc_legId command")
    case None
    with s later_recorded [OF s(1)] show ?thesis by (simp add: early_checks_def) blast
  next
    case (Some g)
    with s later_recorded [OF s(1)] later_place [OF s(1), of g] show ?thesis by (simp add: early_checks_def) blast
  qed
qed

lemma scope_leg:
  assumes "movement_ok m" "List.find (\<lambda>l. rl_id l = g) (listLegs m i) = Some l"
  shows "leg_of m g = Some l" "rl_runId l = i"
proof -
  from find_SomeD [OF assms(2)] have l: "l \<in> set (legsOf m i)" "rl_id l = g" by (simp_all add: listLegs_def)
  then obtain k where k: "(k, l) \<in> set (mv_legs m)" and i: "rl_runId l = i" by (auto simp: legsOf_def)
  have keyed: "keyed rl_id (mv_legs m) (mv_next m)" using assms(1) by (simp add: movement_ok_def)
  with k l(2) have "k = g" by (fastforce simp: keyed_def)
  with k keyed show "leg_of m g = Some l" by (simp add: leg_of_def keyed_def)
  show "rl_runId l = i" by (rule i)
qed

definition answers_command :: "RecordCheckpointCommand \<Rightarrow> RunCheckpoint \<Rightarrow> bool" where
  "answers_command command c \<longleftrightarrow>
     cp_type c = rc_type command \<and> cp_runId c = rc_runId command \<and> cp_clientEventId c = rc_clientEventId command"

lemma row_before_now: "field_ok s \<Longrightarrow> x \<in> set (ck_rows (fd_ck s)) \<Longrightarrow> cp_receivedAt x \<le> fd_clock s"
  using log_ok_mem by (fastforce simp: field_ok_def grounded_def)

lemma walks_record_under_lock:
  "walks (early_checks command) (record_under_lock env command driverId observation)
     (\<lambda>c s. recorded c s \<and> answers_command command c)"
proof (rule walks_step)
  fix s
  assume ok: "field_ok s" and early: "early_checks command s"
  let ?m = "record_under_lock env command driverId observation"
  have m: "movement_ok (fd_mv s)" using ok by (simp add: field_ok_def)
  let ?i = "rc_runId command"
  have "snd (?m s) = s \<and> (\<exists>e. fst (?m s) = Inl e) \<or>
    (\<exists>day. let input = checkpoint_input command driverId observation (fd_clock s) day in
      can_record s input \<and> ?m s = (Inr (new_checkpoint input (uuid (ck_next (fd_ck s)))),
        s\<lparr>fd_ck := add_checkpoint input (fd_ck s)\<rparr>))"
  proof (cases "run_of (fd_mv s) ?i")
    case None
    then show ?thesis by (simp add: record_under_lock_def underRunLock_def)
  next
    case (Some r)
    let ?scope = "\<lparr>sc_run = r, sc_legs = listLegs (fd_mv s) ?i\<rparr>"
    have read: "?m s = bnd (revalidate_checkpoint ?scope (rc_legId command)) (\<lambda>_.
       bnd (query fd_clock) (\<lambda>receivedAt. bnd (today env receivedAt) (\<lambda>day.
         on_ck (mem_createCheckpoint (checkpoint_input command driverId observation receivedAt day))))) s"
      by (simp add: record_under_lock_def underRunLock_def Some)
    have rv: "snd (revalidate_checkpoint ?scope (rc_legId command) s) = s"
      by (simp add: revalidate_checkpoint_def fail_def throw_def ret_def split: option.split)
    show ?thesis
    proof (cases "fst (revalidate_checkpoint ?scope (rc_legId command) s)")
      case (Inl e)
      with read rv show ?thesis by (simp add: bnd_eq)
    next
      case (Inr u)
      then have live: "\<not> isTerminalRunStatus (vr_status r)"
        and legs: "rc_legId command = Some g \<Longrightarrow> leg_open s g" for g
        using scope_leg(1) [OF m]
        by (auto simp: revalidate_checkpoint_def fail_def throw_def leg_open_def legAcceptsNewCheckpoints_def
            split: if_splits option.splits)
      show ?thesis
      proof (cases "domain (toBusinessDate (fe_intl env) (Some (fd_clock s)) (fe_timeZone env))")
        case (Inl e)
        with read rv Inr show ?thesis by (simp add: bnd_eq today_def lift_def query_def)
      next
        case day: (Inr day)
        let ?input = "checkpoint_input command driverId observation (fd_clock s) day"
        have run: "?m s = on_ck (mem_createCheckpoint ?input) s"
          using read rv Inr day by (simp add: bnd_eq today_def lift_def query_def)
        show ?thesis
        proof (cases "fst (mem_createCheckpoint ?input (fd_ck s))")
          case (Inl e)
          then have "mem_createCheckpoint ?input (fd_ck s) = (Inl e, fd_ck s)"
            by (auto simp: mem_createCheckpoint_def split: if_splits)
          with run show ?thesis by (simp add: on_ck_def)
        next
          case (Inr c)
          then have fresh: "\<not> list_ex (same_event ?i (rc_type command) (rc_clientEventId command)) (ck_rows (fd_ck s))"
              "fst observation \<noteq> None \<longrightarrow> \<not> list_ex (\<lambda>x. cp_observationId x = fst observation) (ck_rows (fd_ck s))"
            and made: "mem_createCheckpoint ?input (fd_ck s) =
              (Inr (new_checkpoint ?input (uuid (ck_next (fd_ck s)))), add_checkpoint ?input (fd_ck s))"
            by (auto simp: mem_createCheckpoint_def checkpoint_input_def split: if_splits)
          have "grounded (fd_mv s) (fd_clock s) (ck_rows (fd_ck s)) (new_checkpoint ?input (uuid (ck_next (fd_ck s))))"
            using Some fresh early row_before_now [OF ok]
            by (auto simp: grounded_def checkpoint_input_def early_checks_def recorded_def list_ex_iff split: option.splits)
          moreover have "run_takes_work s ?i" using Some live by (auto simp: run_takes_work_def)
          ultimately have "can_record s ?input"
            using legs by (simp add: can_record_def checkpoint_input_def)
          with run made show ?thesis by (auto simp: on_ck_def Let_def)
        qed
      qed
    qed
  qed
  then show "(snd (?m s) = s \<or> (\<exists>k. field_step k s (snd (?m s)))) \<and>
      (\<forall>a. fst (?m s) = Inr a \<longrightarrow> recorded a (snd (?m s)) \<and> answers_command command a)"
  proof (elim disjE exE conjE, goal_cases)
    case (2 day)
    let ?input = "checkpoint_input command driverId observation (fd_clock s) day"
    have "field_step (Some (cc_runId ?input)) s (s\<lparr>fd_ck := add_checkpoint ?input (fd_ck s)\<rparr>)"
      using 2 by (intro checkpoint_recorded) (simp add: Let_def)
    with 2 show ?case by (auto simp: Let_def recorded_def answers_command_def checkpoint_input_def)
  qed auto
qed


lemma recorded_placed:
  assumes "field_ok s" "recorded x s" "cp_legId x = Some g" "leg_of (fd_mv s) g = Some l"
  shows "cp_runId x = rl_runId l"
proof -
  have "log_ok (fd_mv s) (fd_clock s) (ck_rows (fd_ck s))" using assms(1) by (simp add: field_ok_def)
  then obtain kind where "leg_place (fd_mv s) g = Some (cp_runId x, kind)"
    by (rule log_placed [OF _ _ assms(3)]) (use assms(2) in \<open>simp add: recorded_def\<close>)
  with assms(4) show ?thesis by (simp add: leg_place_def)
qed

text \<open>The leg that the command names, read before the lock.\<close>

definition leg_read :: "RecordCheckpointCommand \<Rightarrow> RunLeg option \<Rightarrow> field \<Rightarrow> bool" where
  "leg_read command leg s \<longleftrightarrow>
     (case rc_legId command of
        None \<Rightarrow> leg = None
      | Some g \<Rightarrow> (\<exists>l. leg = Some l \<and> rl_runId l = rc_runId command \<and>
          leg_place (fd_mv s) g = Some (rl_runId l, rl_kind l)))"

lemma stable_leg_read [simp, intro]: "stable H (leg_read command leg)"
proof (rule stable_later)
  fix s t
  assume "later s t" "leg_read command leg s"
  then show "leg_read command leg t"
    using later_place [of s t] by (cases "rc_legId command") (auto simp: leg_read_def)
qed

lemma walks_command_leg: "walks (\<lambda>s. True) (command_leg command) (leg_read command)"
proof (cases "rc_legId command")
  case None
  then show ?thesis by (auto simp: command_leg_def leg_read_def intro: walks_ret)
next
  case (Some g)
  let ?Q = "\<lambda>found s. found = leg_of (fd_mv s) g"
  have read: "walks (\<lambda>s. True) (query (\<lambda>s. leg_of (fd_mv s) g)) ?Q" by (rule walks_query) simp
  show ?thesis unfolding command_leg_def Some option.case
    by (rule walks_bnd [OF read], rule walks_option, rule walks_throw, rule walks_if, rule walks_throw, rule walks_ret)
      (simp add: leg_read_def Some leg_place_def)
qed

lemma evaluateCheckpoint_allows:
  assumes "evaluateCheckpoint e = Allowed"
  shows "isRunScoped (ce_type e) \<longleftrightarrow> \<not> ce_hasLeg e"
    "ce_legKind e = Some k \<Longrightarrow> isCheckpointAllowedOnLeg (ce_type e) k"
    "requiredPredecessor (ce_type e) = Some p \<Longrightarrow> p \<in> set (ce_recordedTypes e)"
    "\<not> isRepeatable (ce_type e) \<Longrightarrow> ce_type e \<notin> set (ce_recordedTypes e)"
    "ce_type e \<in> set (ce_locationRequiredTypes e) \<Longrightarrow> ce_hasObservation e"
  using assms by (auto simp: evaluateCheckpoint_def Let_def split: if_splits)

lemma early_checks_pass:
  assumes ok: "field_ok s" and leg: "leg_read command leg s"
    and allowed: "evaluateCheckpoint
      \<lparr>ce_type = rc_type command, ce_runTerminal = terminal, ce_hasLeg = (rc_legId command \<noteq> None),
       ce_legKind = map_option rl_kind leg, ce_legStatus = map_option rl_status leg,
       ce_recordedTypes = recorded_types command s, ce_hasObservation = observed,
       ce_locationRequiredTypes = required\<rparr> = Allowed"
  shows "early_checks command s"
proof -
  note a = evaluateCheckpoint_allows [OF allowed, simplified]
  have before: "\<exists>x. recorded x s \<and> cp_type x = p \<and> cp_legId x = rc_legId command \<and> cp_runId x = rc_runId command"
    if p: "requiredPredecessor (rc_type command) = Some p" for p
  proof (cases "rc_legId command")
    case None
    with a(1) a(3) [OF p] show ?thesis
      by (auto simp: recorded_types_def checkpointsForRun_def recorded_def)
  next
    case (Some g)
    with a(1) a(3) [OF p] obtain x where x: "recorded x s" "cp_type x = p" "cp_legId x = Some g"
      by (auto simp: recorded_types_def checkpointsForLeg_def recorded_def)
    from leg Some obtain l where "leg_of (fd_mv s) g = Some l" "rl_runId l = rc_runId command"
      by (auto simp: leg_read_def leg_place_def)
    with recorded_placed [OF ok x(1,3)] x Some show ?thesis by auto
  qed
  show ?thesis
  proof (cases "rc_legId command")
    case None
    with a(1) before show ?thesis by (simp add: early_checks_def)
  next
    case (Some g)
    with leg obtain l where l: "leg = Some l" "leg_place (fd_mv s) g = Some (rc_runId command, rl_kind l)"
      by (auto simp: leg_read_def)
    with a(1,2) Some before show ?thesis by (auto simp: early_checks_def)
  qed
qed

lemma walks_command_observation:
  "walks P (command_observation env command driverId) (\<lambda>_. P)"
  unfolding command_observation_def
  by (intro walk_rules; (rule walks_ret)?) simp_all

definition replay_answer :: "RecordCheckpointCommand \<Rightarrow> RunCheckpoint option \<Rightarrow> field \<Rightarrow> bool" where
  "replay_answer command found s \<longleftrightarrow> (\<forall>r. found = Some r \<longrightarrow> recorded r s \<and> answers_command command r)"

lemma walks_find_event:
  "walks P (query (\<lambda>s. findCheckpointByEvent (fd_ck s) (rc_runId command) (rc_type command) (rc_clientEventId command)))
     (replay_answer command)"
proof (rule walks_query)
  fix s
  show "replay_answer command
      (findCheckpointByEvent (fd_ck s) (rc_runId command) (rc_type command) (rc_clientEventId command)) s"
    unfolding replay_answer_def findCheckpointByEvent_def
    using find_SomeD [of "same_event (rc_runId command) (rc_type command) (rc_clientEventId command)"]
    by (fastforce simp: recorded_def answers_command_def same_event_def)
qed

definition command_done :: "RecordCheckpointCommand \<Rightarrow> RunCheckpoint \<Rightarrow> field \<Rightarrow> bool" where
  "command_done command c s \<longleftrightarrow> answers_command command c \<and> settled_leg c s"

lemma walks_settle_answer:
  assumes w: "calm w" and P: "\<And>s. P s \<Longrightarrow> recorded r s \<and> answers_command command r"
  shows "walks P (settleWaiting w r) (command_done command)"
proof -
  have "walks (\<lambda>s. answers_command command r \<and> recorded r s) (settleWaiting w r) (command_done command)"
  proof (rule walks_keep_pure)
    assume "answers_command command r"
    then show "walks (recorded r) (settleWaiting w r) (command_done command)"
      by (intro walks_conseq [OF walks_settleWaiting [OF w]]) (auto simp: command_done_def)
  qed
  then show ?thesis by (rule walks_conseq) (use P in auto)
qed

lemma walks_append_checkpoint:
  assumes w: "calm w"
  shows "walks (\<lambda>s. True) (append_checkpoint env w command runStatus driverId) (command_done command)"
  unfolding append_checkpoint_def
proof (rule walks_bnd [OF walks_find_event], rule walks_option, goal_cases)
  case (2 found r)
  then show ?case by (intro walks_settle_answer [OF w]) (simp add: replay_answer_def)
next
  case (1 found)
  have free: "walks P (await w n) (\<lambda>_ s. True)" for P n
    by (rule walks_conseq [OF walks_await [OF w stable_True]]) simp_all
  have again: "walks P (query (\<lambda>s. findCheckpointByEvent (fd_ck s) (rc_runId command) (rc_type command)
      (rc_clientEventId command))) (replay_answer command)" for P by (rule walks_find_event)
  have recover: "walks P (bnd (await w 5) (\<lambda>_.
      if isUniqueViolationOn err CHECKPOINT_CLIENT_EVENT
      then bnd (query (\<lambda>s. findCheckpointByEvent (fd_ck s) (rc_runId command) (rc_type command) (rc_clientEventId command)))
        (\<lambda>already. case already of None \<Rightarrow> throw err | Some r \<Rightarrow> settleWaiting w r)
      else if isUniqueViolationOn err CHECKPOINT_OBSERVATION_ONCE
      then fail (conflict ''CHECKPOINT_OBSERVATION_ALREADY_USED'') else throw err)) (command_done command)" for P err
    by (rule walks_bnd [OF free], rule walks_if, rule walks_bnd [OF again], rule walks_option, rule walks_throw,
        rule walks_settle_answer [OF w], simp add: replay_answer_def, rule walks_if)
      (rule walks_throw)+
  have append: "walks (early_checks command) (bnd (command_observation env command driverId) (\<lambda>observation.
      bnd (await w 4) (\<lambda>_. attempting (record_under_lock env command driverId observation)
        (\<lambda>err. bnd (await w 5) (\<lambda>_.
          if isUniqueViolationOn err CHECKPOINT_CLIENT_EVENT
          then bnd (query (\<lambda>s. findCheckpointByEvent (fd_ck s) (rc_runId command) (rc_type command) (rc_clientEventId command)))
            (\<lambda>already. case already of None \<Rightarrow> throw err | Some r \<Rightarrow> settleWaiting w r)
          else if isUniqueViolationOn err CHECKPOINT_OBSERVATION_ONCE
          then fail (conflict ''CHECKPOINT_OBSERVATION_ALREADY_USED'') else throw err))
        (settleWaiting w)))) (command_done command)"
    by (rule walks_bnd [OF walks_command_observation], rule walks_bnd [OF walks_await [OF w stable_early_checks]],
        rule walks_attempting [OF walks_record_under_lock stable_early_checks recover],
        rule walks_settle_answer [OF w], simp)
  let ?checked = "\<lambda>leg recorded s. evaluateCheckpoint
      \<lparr>ce_type = rc_type command, ce_runTerminal = isTerminalRunStatus runStatus,
       ce_hasLeg = (rc_legId command \<noteq> None), ce_legKind = map_option rl_kind leg,
       ce_legStatus = map_option rl_status leg, ce_recordedTypes = recorded,
       ce_hasObservation = (rc_observationId command \<noteq> None),
       ce_locationRequiredTypes = fe_locationRequired env\<rparr> = Allowed \<longrightarrow> early_checks command s"
  have types: "walks (leg_read command leg) (query (recorded_types command)) (?checked leg)" for leg
    by (rule walks_query) (auto intro: early_checks_pass)
  show ?case
    apply (rule walks_bnd [OF free])
    apply (rule walks_bnd [OF walks_command_leg])
    apply (rule walks_bnd [OF walks_await [OF w stable_leg_read]])
    apply (rule walks_bnd [OF types])
    apply (rule walks_decision)
     apply (rule walks_conseq [OF append])
      apply simp
     apply assumption
    apply (rule walks_throw)
    done
qed

lemma walks_require_run:
  "walks P (require_field_run i why) (\<lambda>r s. run_of (fd_mv s) i = Some r \<and> P s)"
proof -
  have "walks P (query (\<lambda>s. run_of (fd_mv s) i)) (\<lambda>found s. found = run_of (fd_mv s) i \<and> P s)" by (rule walks_query) simp
  then show ?thesis unfolding require_field_run_def
    by (rule walks_bnd) (rule walks_option, rule walks_throw, rule walks_ret, simp)
qed

lemma walks_any_await: "calm w \<Longrightarrow> walks P (await w n) (\<lambda>_ s. True)"
  by (rule walks_conseq [OF walks_await [OF _ stable_True]]) simp_all

lemma walks_any_query: "walks P (query f) (\<lambda>_ s. True)"
  by (rule walks_query) simp

lemma walks_recordAsDriver:
  assumes w: "calm w"
  shows "walks (\<lambda>s. True) (recordAsDriver env w command) (command_done command)"
  unfolding recordAsDriver_def
  by (rule walks_option, rule walks_throw, rule walks_bnd [OF walks_require_run], rule walks_bnd [OF walks_any_await [OF w]],
      rule walks_bnd [OF walks_any_query], rule walks_if, rule walks_throw, rule walks_bnd [OF walks_any_await [OF w]],
      rule walks_append_checkpoint [OF w])

lemma walks_recordAsOperator:
  assumes w: "calm w"
  shows "walks (\<lambda>s. True) (recordAsOperator env w command) (command_done command)"
  unfolding recordAsOperator_def
  by (rule walks_bnd [OF walks_require_run], rule walks_bnd [OF walks_any_await [OF w]],
      rule walks_conseq [OF walks_append_checkpoint [OF w]]) (simp_all add: command_done_def answers_command_def)

end
