(* ===== verification/FieldCommands.thy ===== *)
theory FieldCommands imports FieldRefinement begin

text \<open>
  The rule of the lock of a run, opening a waiting session under it, and the commands on runs, legs and drivers.
\<close>

section \<open>Under the lock\<close>

definition scope_of :: "field \<Rightarrow> ident \<Rightarrow> RunWriteScope \<Rightarrow> bool" where
  "scope_of s i scope \<longleftrightarrow> run_of (fd_mv s) i = Some (sc_run scope) \<and> sc_legs scope = listLegs (fd_mv s) i"

lemma walks_underRunLock:
  assumes "\<And>scope. walks (\<lambda>s. scope_of s i scope \<and> P s) (work scope) Q"
  shows "walks P (underRunLock i work) Q"
  unfolding walks_def
proof (intro allI impI)
  fix s
  assume s: "field_ok s" "P s"
  show "field_path {} s (snd (underRunLock i work s)) \<and>
      (\<forall>a. fst (underRunLock i work s) = Inr a \<longrightarrow> Q a (snd (underRunLock i work s)))"
  proof (cases "run_of (fd_mv s) i")
    case None
    then show ?thesis by (simp add: underRunLock_def path_refl)
  next
    case (Some r)
    let ?scope = "\<lparr>sc_run = r, sc_legs = listLegs (fd_mv s) i\<rparr>"
    have "scope_of s i ?scope" using Some by (simp add: scope_of_def)
    with assms [of ?scope] s Some show ?thesis by (simp add: walks_def underRunLock_def)
  qed
qed

text \<open>What the scope says while the lock is held.\<close>

definition scope_holds :: "ident \<Rightarrow> RunWriteScope \<Rightarrow> field \<Rightarrow> bool" where
  "scope_holds i scope s \<longleftrightarrow>
     (\<not> isTerminalRunStatus (vr_status (sc_run scope)) \<longrightarrow> run_takes_work s i) \<and>
     (\<forall>g l. List.find (\<lambda>l. rl_id l = g) (sc_legs scope) = Some l \<longrightarrow> leg_of (fd_mv s) g = Some l \<and> rl_runId l = i)"

lemma scope_read: "field_ok s \<Longrightarrow> scope_of s i scope \<Longrightarrow> scope_holds i scope s"
  using scope_leg [of "fd_mv s"] by (auto simp: scope_of_def scope_holds_def run_takes_work_def field_ok_def)

lemma stable_scope_holds [intro]: "stable {i} (scope_holds i scope)"
  by (rule stable_locked) (auto simp: scope_holds_def locked_later_def)

lemma field_path_weaken: "field_path {i} s t \<Longrightarrow> field_path {} s t"
  by (rule field_path_mono) simp_all

lemma stable_any: "stable {} P \<Longrightarrow> stable H P"
  unfolding stable_def using field_path_mono [of H _ _ "{}"] by blast

section \<open>Opening a waiting session\<close>

definition may_wait :: "CreateWaitingSessionInput \<Rightarrow> field \<Rightarrow> bool" where
  "may_wait input s \<longleftrightarrow>
     (\<exists>kind. leg_place (fd_mv s) (wc_legId input) = Some (wc_runId input, kind)) \<and> wc_driverId input \<noteq> None \<and>
     (\<exists>a. recorded a s \<and> cp_id a = wc_arrivalCheckpointId input \<and> cp_type a = DELIVERY_ARRIVAL \<and>
        cp_legId a = Some (wc_legId input) \<and> cp_driverId a = wc_driverId input \<and>
        cp_receivedAt a \<le> wc_startedAt input) \<and>
     wc_startedAt input \<le> fd_clock s"

lemma stable_may_wait [intro]: "stable H (may_wait input)"
proof (rule stable_later)
  fix s t
  assume s: "later s t" "may_wait input s"
  then have "fd_clock s \<le> fd_clock t" by (simp add: later_def)
  with s later_place [OF s(1)] later_recorded [OF s(1)] show "may_wait input t"
    unfolding may_wait_def by (meson order_trans)
qed

definition not_accepted :: "ident \<Rightarrow> field \<Rightarrow> bool" where
  "not_accepted g s \<longleftrightarrow> (\<forall>c. recorded c s \<longrightarrow> \<not> accepted_on g c)"

text \<open>A checkpoint of a leg is a checkpoint of its run, so the lock of the run keeps acceptances away.\<close>

lemma accepted_in_run:
  assumes "field_ok s" "recorded c s" "accepted_on g c" "leg_place (fd_mv s) g = Some (i, kind)"
  shows "c \<in> set (rows_of_run s i)"
proof -
  from assms(4) obtain l where "leg_of (fd_mv s) g = Some l" "rl_runId l = i" by (auto simp: leg_place_def)
  with recorded_placed [OF assms(1,2), of g l] assms(2,3) show ?thesis
    by (simp add: accepted_on_def rows_of_run_def recorded_def)
qed

lemma stable_not_accepted: "stable {wc_runId input} (\<lambda>s. may_wait input s \<and> not_accepted (wc_legId input) s)"
proof (rule stable_locked)
  fix s t
  assume s: "field_ok s" "field_ok t" "later s t" "locked_later (wc_runId input) s t"
    "may_wait input s \<and> not_accepted (wc_legId input) s"
  then obtain kind where k: "leg_place (fd_mv t) (wc_legId input) = Some (wc_runId input, kind)"
    using later_place by (auto simp: may_wait_def)
  have "not_accepted (wc_legId input) t"
    unfolding not_accepted_def
  proof (intro allI impI notI)
    fix c
    assume "recorded c t" "accepted_on (wc_legId input) c"
    with accepted_in_run [OF s(2) _ _ k] have "c \<in> set (rows_of_run s (wc_runId input))"
      using s(4) by (simp add: locked_later_def)
    then have "recorded c s" by (simp add: rows_of_run_def recorded_def)
    with s(5) \<open>accepted_on (wc_legId input) c\<close> show False by (simp add: not_accepted_def)
  qed
  moreover have "may_wait input t"
    using s stable_may_wait [of "{}" input] later_place later_recorded unfolding may_wait_def later_def
    by (meson order_trans)
  ultimately show "may_wait input t \<and> not_accepted (wc_legId input) t" by blast
qed

definition started :: "ident \<Rightarrow> string \<Rightarrow> DeliveryWaitingSession \<Rightarrow> field \<Rightarrow> bool" where
  "started g event r s \<longleftrightarrow> started_by_event g event r \<and> same_session r s"

lemma stable_started [intro]: "stable H (started g event r)"
  unfolding started_def by (intro stable_conj stable_same_session) (simp add: stable_def)

definition replay_found :: "ident \<Rightarrow> string \<Rightarrow> DeliveryWaitingSession option \<Rightarrow> field \<Rightarrow> bool" where
  "replay_found g event found s \<longleftrightarrow> (\<forall>r. found = Some r \<longrightarrow> started g event r s)"

lemma find_started: "field_ok s \<Longrightarrow> replay_found g event (findSessionByEvent (fd_wt s) g event) s"
  using find_SomeD [of "started_by_event g event"] same_session_read
  by (auto simp: replay_found_def started_def findSessionByEvent_def)

text \<open>Once the checks under the lock have passed, the insert is a write of the field, or nothing at all.\<close>

lemma walks_create_session:
  "walks (\<lambda>s. run_takes_work s (wc_runId input) \<and> leg_open s (wc_legId input) \<and> may_wait input s \<and>
       not_accepted (wc_legId input) s)
     (on_wt (mem_createSession input)) (started (wc_legId input) (wc_startClientEventId input))"
proof (rule walks_step)
  fix s
  let ?P = "run_takes_work s (wc_runId input) \<and> leg_open s (wc_legId input) \<and> may_wait input s \<and> not_accepted (wc_legId input) s"
  let ?m = "on_wt (mem_createSession input) :: (field, field_error, DeliveryWaitingSession) stateful"
  assume s: "field_ok s" "?P"
  let ?r = "new_session input (uuid (wt_next (fd_wt s)))"
  show "(snd (?m s) = s \<or> (\<exists>k. field_step k s (snd (?m s)))) \<and>
      (\<forall>a. fst (?m s) = Inr a \<longrightarrow> started (wc_legId input) (wc_startClientEventId input) a (snd (?m s)))"
  proof (cases "list_ex (started_by_event (wc_legId input) (wc_startClientEventId input)) (wt_rows (fd_wt s)) \<or>
      list_ex (open_on_leg (wc_legId input)) (wt_rows (fd_wt s))")
    case True
    then show ?thesis by (auto simp: on_wt_def mem_createSession_def)
  next
    case False
    then have m: "?m s = (Inr ?r, s\<lparr>fd_wt := add_session input (fd_wt s)\<rparr>)"
      by (simp add: on_wt_def mem_createSession_def)
    have "session_ok (fd_mv s) (fd_clock s) (ck_rows (fd_ck s)) ?r"
      using s(2) by (auto simp: session_ok_def anchored_def ended_well_def may_wait_def not_accepted_def recorded_def)
    with s(2) False have "can_open s input" by (simp add: can_open_def not_accepted_def recorded_def)
    then have step: "field_step (Some (wc_runId input)) s (snd (?m s))" unfolding m by (simp add: waiting_opened)
    from same_session_read [OF field_step_ok [OF step s(1)], of ?r] step m show ?thesis
      by (auto simp: started_def started_by_event_def)
  qed
qed

lemma walks_open_under_lock:
  assumes w: "calm w"
  shows "walks (may_wait input) (open_under_lock w input) (started (wc_legId input) (wc_startClientEventId input))"
proof -
  let ?i = "wc_runId input" and ?g = "wc_legId input" and ?ev = "wc_startClientEventId input"
  let ?held = "\<lambda>scope s. scope_holds ?i scope s \<and> may_wait input s"
  have held: "stable {?i} (?held scope)" for scope by (intro stable_conj stable_scope_holds stable_may_wait)
  have replay: "walks (\<lambda>s. scope_of s ?i scope \<and> may_wait input s) (query (\<lambda>s. findSessionByEvent (fd_wt s) ?g ?ev))
      (\<lambda>found s. replay_found ?g ?ev found s \<and> ?held scope s)" for scope
    by (rule walks_query) (simp add: find_started scope_read)
  have look: "walks (?held scope) (query (\<lambda>s. checkpointsForLeg (fd_ck s) ?g))
      (\<lambda>cs s. (\<not> deliveryAlreadyAccepted (map cp_type cs) \<longrightarrow> not_accepted ?g s) \<and> ?held scope s)" for scope
    by (rule walks_query)
      (auto simp: deliveryAlreadyAccepted_def WAITING_CLOSING_CHECKPOINT_def checkpointsForLeg_def not_accepted_def
        recorded_def accepted_on_def image_iff)
  let ?ready = "\<lambda>scope s. scope_holds ?i scope s \<and> may_wait input s \<and> not_accepted ?g s"
  have ready: "stable {?i} (?ready scope)" for scope by (intro stable_conj stable_scope_holds stable_not_accepted)
  have checked: "walks (?held scope) (revalidate_waiting w scope ?i ?g)
      (\<lambda>_ s. run_takes_work s ?i \<and> leg_open s ?g \<and> may_wait input s \<and> not_accepted ?g s)" for scope
    unfolding revalidate_waiting_def
  proof (rule walks_if, rule walks_throw, rule walks_option, rule walks_throw, rule walks_if, rule walks_throw,
      rule walks_bnd [OF look], rule walks_if, rule walks_throw, goal_cases)
    case (1 l cs)
    have "walks (?ready scope) (await_locked w 1 ?i) (\<lambda>_. ?ready scope)" by (rule walks_await_locked [OF w ready])
    then show ?case
      by (rule walks_conseq) (use 1 in \<open>auto simp: scope_holds_def leg_open_def legAcceptsNewWaiting_def legAcceptsNewCheckpoints_def\<close>)
  qed
  have pause: "walks (\<lambda>s. replay_found ?g ?ev found s \<and> ?held scope s) (await_locked w 0 ?i) (\<lambda>_. ?held scope)"
    for found scope
    by (rule walks_conseq [OF walks_await_locked [OF w held]]) simp_all
  show ?thesis unfolding open_under_lock_def
    apply (rule walks_underRunLock)
    apply (rule walks_bnd [OF replay])
    apply (rule walks_option)
     apply (rule walks_bnd [OF pause])
     apply (rule walks_bnd [OF checked walks_create_session])
    apply (rule walks_ret)
    apply (simp add: replay_found_def)
    done
qed

text \<open>The answer to a start: a session of the leg that this client event started, by this call or an earlier one.\<close>

lemma walks_append_waiting:
  assumes w: "calm w"
  shows "walks (\<lambda>s. (\<exists>kind. leg_place (fd_mv s) (st_legId command) = Some (i, kind)) \<and>
       recorded anchor s \<and> cp_type anchor = DELIVERY_ARRIVAL \<and> cp_legId anchor = Some (st_legId command) \<and>
       cp_driverId anchor = Some driverId)
     (append_waiting env w command i driverId anchor) (started (st_legId command) (st_clientEventId command))"
proof -
  let ?facts = "\<lambda>s. (\<exists>kind. leg_place (fd_mv s) (st_legId command) = Some (i, kind)) \<and>
       recorded anchor s \<and> cp_type anchor = DELIVERY_ARRIVAL \<and> cp_legId anchor = Some (st_legId command) \<and>
       cp_driverId anchor = Some driverId"
  let ?input = "\<lambda>startedAt day. \<lparr>wc_runId = i, wc_legId = st_legId command, wc_driverId = Some driverId,
          wc_arrivalCheckpointId = cp_id anchor, wc_reason = st_reason command, wc_startedAt = startedAt,
          wc_startedBy = st_authUserId command, wc_startClientEventId = st_clientEventId command,
          wc_note = st_note command, wc_businessDate = day\<rparr>"
  have clock: "walks ?facts (query fd_clock) (\<lambda>k s. \<forall>day. may_wait (?input k day) s)"
    by (rule walks_query) (auto simp: may_wait_def recorded_def intro: row_before_now)
  have day: "walks (\<lambda>s. \<forall>day. may_wait (?input k day) s) (today env k) (\<lambda>day. may_wait (?input k day))" for k
    unfolding today_def by (rule walks_lift) simp
  have locked: "walks (may_wait (?input k day)) (open_under_lock w (?input k day))
      (started (st_legId command) (st_clientEventId command))" for k day
    using walks_open_under_lock [OF w, of "?input k day"] by simp
  have found: "walks P (query (\<lambda>s. if isUniqueViolationOn err WAITING_CLIENT_EVENT
        then findSessionByEvent (fd_wt s) (st_legId command) (st_clientEventId command) else None))
      (replay_found (st_legId command) (st_clientEventId command))" for P err
    by (rule walks_query) (simp add: find_started, simp add: replay_found_def)
  show ?thesis unfolding append_waiting_def
    by (rule walks_bnd [OF clock], rule walks_bnd [OF day], rule walks_bnd [OF walks_await [OF w stable_may_wait]],
        rule walks_attempting [OF locked stable_may_wait], rule walks_bnd [OF walks_any_await [OF w]],
        rule walks_bnd [OF found], rule walks_option, rule walks_if, rule walks_throw, rule walks_throw,
        rule walks_ret, simp add: replay_found_def, rule walks_ret)
qed

lemma walks_resolveAnchor:
  "walks (\<lambda>s. (\<forall>c \<in> set cs. recorded c s \<and> cp_legId c = Some g) \<and> P s) (resolveAnchor cs i driverId)
     (\<lambda>a s. recorded a s \<and> cp_type a = DELIVERY_ARRIVAL \<and> cp_legId a = Some g \<and> cp_driverId a = Some driverId \<and> P s)"
  unfolding resolveAnchor_def WAITING_ANCHOR_CHECKPOINT_def
proof (rule walks_option, rule walks_throw, rule walks_if, rule walks_throw, rule walks_if, rule walks_throw,
    rule walks_ret, goal_cases)
  case (1 a s)
  then show ?case using find_SomeD [OF 1(1)] by simp
qed

lemma walks_requireLeg:
  "walks P (requireLeg g) (\<lambda>l s. leg_of (fd_mv s) g = Some l \<and> P s)"
proof -
  have "walks P (query (\<lambda>s. leg_of (fd_mv s) g)) (\<lambda>found s. found = leg_of (fd_mv s) g \<and> P s)" by (rule walks_query) simp
  then show ?thesis unfolding requireLeg_def
    by (rule walks_bnd) (rule walks_option, rule walks_throw, rule walks_ret, simp)
qed

definition placed_leg :: "ident \<Rightarrow> RunLeg \<Rightarrow> field \<Rightarrow> bool" where
  "placed_leg g l s \<longleftrightarrow> rl_id l = g \<and> leg_place (fd_mv s) g = Some (rl_runId l, rl_kind l)"

lemma stable_placed_leg [intro]: "stable H (placed_leg g l)"
  by (rule stable_later) (simp add: placed_leg_def later_place)

lemma leg_read_placed: "field_ok s \<Longrightarrow> leg_of (fd_mv s) g = Some l \<Longrightarrow> placed_leg g l s"
  using movement_keys(2) [of "fd_mv s" g l] by (simp add: placed_leg_def leg_place_def field_ok_def)

lemma walks_start_waiting:
  assumes w: "calm w"
  shows "walks (\<lambda>s. True) (start_waiting env w command) (started (st_legId command) (st_clientEventId command))"
proof -
  let ?g = "st_legId command"
  have replay: "walks (\<lambda>s. True) (query (\<lambda>s. findSessionByEvent (fd_wt s) ?g (st_clientEventId command)))
      (replay_found ?g (st_clientEventId command))"
    by (rule walks_query) (simp add: find_started)
  have leg: "walks (\<lambda>s. True) (query (\<lambda>s. leg_of (fd_mv s) ?g)) (\<lambda>found s. \<forall>l. found = Some l \<longrightarrow> placed_leg ?g l s)"
    by (rule walks_query) (simp add: leg_read_placed)
  let ?read = "\<lambda>l cs s. (\<forall>c \<in> set cs. recorded c s \<and> cp_legId c = Some ?g) \<and> placed_leg ?g l s"
  have read: "stable {} (?read l cs)" for l cs
    by (rule stable_later) (auto simp: later_recorded placed_leg_def later_place)
  have look: "walks (placed_leg ?g l) (query (\<lambda>s. checkpointsForLeg (fd_ck s) (rl_id l))) (?read l)" for l
    by (rule walks_query) (auto simp: checkpointsForLeg_def recorded_def placed_leg_def)
  have open_now: "walks (?read l cs) (query f) (\<lambda>_. ?read l cs)" for l cs f by (rule walks_query)
  let ?anchor = "\<lambda>l driverId a s. recorded a s \<and> cp_type a = DELIVERY_ARRIVAL \<and> cp_legId a = Some ?g \<and>
      cp_driverId a = Some driverId \<and> placed_leg ?g l s"
  have anchor: "stable {} (?anchor l driverId a)" for l driverId a
    by (rule stable_later) (auto simp: later_recorded placed_leg_def later_place)
  have append: "walks (?anchor l driverId a) (append_waiting env w command (rl_runId l) driverId a)
      (started ?g (st_clientEventId command))" for l driverId a
    by (rule walks_conseq [OF walks_append_waiting [OF w]]) (auto simp: placed_leg_def)
  show ?thesis unfolding start_waiting_def
    apply (rule walks_option, rule walks_throw)
    apply (rule walks_bnd [OF replay], rule walks_option)
     apply (rule walks_bnd [OF walks_any_await [OF w]], rule walks_bnd [OF walks_require_run])
     apply (rule walks_bnd [OF walks_any_await [OF w]], rule walks_bnd [OF walks_any_query])
     apply (rule walks_if, rule walks_throw)
     apply (rule walks_bnd [OF walks_any_await [OF w]], rule walks_bnd [OF leg])
     apply (rule walks_option, rule walks_throw)
     apply (rule walks_if, rule walks_throw)
     apply (rule walks_bnd [where Q = "\<lambda>_. placed_leg ?g _"])
      apply (rule walks_conseq [OF walks_await [OF w stable_placed_leg]], blast, assumption)
     apply (rule walks_bnd [OF look], rule walks_bnd [OF walks_await [OF w read]], rule walks_bnd [OF open_now])
     apply (rule walks_decision)
      apply (rule walks_bnd [OF walks_resolveAnchor], rule walks_bnd [OF walks_await [OF w anchor]], rule append)
     apply (rule walks_throw)
    apply (rule walks_ret, simp add: replay_found_def)
    done
qed

section \<open>Runs, legs and drivers\<close>

abbreviation anything :: "'a \<Rightarrow> field \<Rightarrow> bool" where
  "anything \<equiv> \<lambda>_ _. True"

lemma walks_anything_ret: "walks P (ret a) anything"
  by (rule walks_ret) simp

lemma stable_run_there: "stable H (\<lambda>s. run_of (fd_mv s) i \<noteq> None)"
  by (rule stable_later) (auto simp: later_def extends_def)

lemma walks_resolveBusinessDate:
  "walks P (resolveBusinessDate env d) (\<lambda>_. P)"
proof -
  have clock: "walks P (query fd_clock) (\<lambda>_. P)" by (rule walks_query)
  have day: "walks P (today env k) (\<lambda>_. P)" for k unfolding today_def by (rule walks_lift)
  show ?thesis unfolding resolveBusinessDate_def
    by (cases d) (auto intro: walks_bnd [OF clock day] walks_throw walks_ret split: sum.split)
qed

lemma walks_create_run:
  "walks P (on_mv (mem_createRun input tm)) anything"
  by (rule walks_step) (auto simp: on_mv_def mem_createRun_def Let_def
      intro: run_created [where input = input and tm = tm, unfolded create_run_row_def])

lemma walks_createRun:
  assumes w: "calm w"
  shows "walks (\<lambda>s. True) (createRun env w command) anything"
  unfolding createRun_def
  by (rule walks_bnd [OF walks_any_query], rule walks_if, rule walks_throw, rule walks_bnd [OF walks_any_await [OF w]],
      rule walks_if, rule walks_throw, rule walks_bnd [OF walks_resolveBusinessDate], rule walks_bnd [OF walks_any_query],
      rule walks_attempting [OF walks_create_run stable_True], rule walks_if, rule walks_throw, rule walks_throw,
      rule walks_anything_ret)

lemma walks_mark_run:
  assumes "to_status \<noteq> RUN_COMPLETED"
  shows "walks P (on_mv (mem_setRunStatus i to_status tm)) anything"
proof (rule walks_step)
  fix s
  assume ok: "field_ok s"
  let ?m = "on_mv (mem_setRunStatus i to_status tm) :: (field, field_error, VehicleRun option) stateful"
  have "field_step None s (s\<lparr>fd_mv := put_run (marked_run to_status tm r) (fd_mv s)\<rparr>)"
    if r: "run_of (fd_mv s) i = Some r" for r
  proof (rule run_marked)
    have "vr_id r = i" using ok movement_keys(1) [OF _ r] by (simp add: field_ok_def)
    with r show "run_of (fd_mv s) (vr_id (marked_run to_status tm r)) \<noteq> None" by (simp add: marked_run_def)
    show "vr_status (marked_run to_status tm r) \<noteq> RUN_COMPLETED" using assms by (simp add: marked_run_def)
  qed
  then show "(snd (?m s) = s \<or> (\<exists>k. field_step k s (snd (?m s)))) \<and> (\<forall>a. fst (?m s) = Inr a \<longrightarrow> True)"
    by (auto simp: on_mv_def mem_setRunStatus_def split: option.split)
qed

lemma walks_cancel_run: "walks P (on_mv (mem_cancelRun i tm why)) anything"
proof (rule walks_step)
  fix s
  assume ok: "field_ok s"
  let ?m = "on_mv (mem_cancelRun i tm why) :: (field, field_error, VehicleRun option) stateful"
  have "field_step None s (s\<lparr>fd_mv := put_run (cancelled_run tm why r) (fd_mv s)\<rparr>)"
    if r: "run_of (fd_mv s) i = Some r" for r
  proof (rule run_marked)
    have "vr_id r = i" using ok movement_keys(1) [OF _ r] by (simp add: field_ok_def)
    with r show "run_of (fd_mv s) (vr_id (cancelled_run tm why r)) \<noteq> None" by (simp add: cancelled_run_def)
  qed (simp add: cancelled_run_def)
  then show "(snd (?m s) = s \<or> (\<exists>k. field_step k s (snd (?m s)))) \<and> (\<forall>a. fst (?m s) = Inr a \<longrightarrow> True)"
    by (auto simp: on_mv_def mem_cancelRun_def split: option.split)
qed

lemma walks_anything_require: "walks P (require_field_run i why) anything"
  by (rule walks_conseq [OF walks_require_run]) simp_all

lemma walks_transitionRun:
  assumes w: "calm w"
  shows "walks (\<lambda>s. True) (transitionRun w i to_status) anything"
  unfolding transitionRun_def requireRun_def
proof (rule walks_bnd [OF walks_anything_require], rule walks_bnd [OF walks_any_await [OF w]],
    rule walks_bnd [OF walks_any_query], rule walks_decision, goal_cases)
  case (1 before legs)
  then have "to_status \<noteq> RUN_COMPLETED" by (simp add: run_transition_only_starts)
  note mark = walks_mark_run [OF this]
  show ?case
    by (rule walks_bnd [OF walks_any_await [OF w]], rule walks_bnd [OF walks_any_query], rule walks_bnd [OF mark],
        rule walks_option, rule walks_throw, rule walks_anything_ret)
qed (rule walks_throw)

lemma walks_cancelRun:
  assumes w: "calm w"
  shows "walks (\<lambda>s. True) (cancelRun w i why) anything"
  unfolding cancelRun_def requireRun_def
  by (rule walks_bnd [OF walks_anything_require], rule walks_decision, rule walks_bnd [OF walks_any_await [OF w]],
      rule walks_bnd [OF walks_any_query], rule walks_bnd [OF walks_cancel_run], rule walks_option, rule walks_throw,
      rule walks_anything_ret, rule walks_throw)

lemma walks_create_leg:
  "walks (\<lambda>s. run_of (fd_mv s) (cg_runId input) \<noteq> None) (on_mv (mem_createLeg input tm)) (\<lambda>l. placed_leg (rl_id l) l)"
proof (rule walks_step)
  fix s
  assume s: "field_ok s" "run_of (fd_mv s) (cg_runId input) \<noteq> None"
  let ?m = "on_mv (mem_createLeg input tm) :: (field, field_error, RunLeg) stateful"
  let ?l = "new_leg input (uuid (mv_next (fd_mv s))) tm"
  let ?t = "s\<lparr>fd_mv := create_leg_row input tm (fd_mv s)\<rparr>"
  from s(2) obtain r where r: "run_of (fd_mv s) (cg_runId input) = Some r" by blast
  show "(snd (?m s) = s \<or> (\<exists>k. field_step k s (snd (?m s)))) \<and>
      (\<forall>a. fst (?m s) = Inr a \<longrightarrow> placed_leg (rl_id a) a (snd (?m s)))"
  proof (cases "isTerminalRunStatus (vr_status r)")
    case True
    with r show ?thesis by (simp add: on_mv_def mem_createLeg_def)
  next
    case False
    with r have m: "?m s = (Inr ?l, ?t)" by (simp add: on_mv_def mem_createLeg_def Let_def create_leg_row_def)
    have "field_step (Some (cg_runId input)) s ?t"
      using False r by (intro leg_created) (auto simp: run_takes_work_def)
    moreover have "placed_leg (rl_id ?l) ?l ?t"
      by (simp add: placed_leg_def leg_place_def create_leg_row_def put_leg_def leg_of_def update_conv' new_leg_def)
    ultimately show ?thesis using m by auto
  qed
qed

lemma walks_resolveLegOrder: "walks P (resolveLegOrder env command) (\<lambda>_. P)"
  unfolding resolveLegOrder_def
  by (intro walk_rules walks_ret)

lemma walks_addLeg:
  assumes w: "calm w"
  shows "walks (\<lambda>s. True) (addLeg env w i command) (\<lambda>l. placed_leg (rl_id l) l)"
proof -
  let ?P = "\<lambda>s. run_of (fd_mv s) i \<noteq> None"
  have run: "walks (\<lambda>s. True) (requireRun i) (\<lambda>_. ?P)"
    unfolding requireRun_def by (rule walks_conseq [OF walks_require_run]) auto
  have keep: "walks ?P (query fd_clock) (\<lambda>_. ?P)" by (rule walks_query)
  have make: "walks ?P (on_mv (mem_createLeg input tm)) (\<lambda>l. placed_leg (rl_id l) l)" if "cg_runId input = i" for input tm
    using walks_create_leg [of input tm] that by simp
  show ?thesis unfolding addLeg_def
    apply (rule walks_bnd [OF run], rule walks_if, rule walks_throw)
    apply (rule walks_bnd [OF walks_resolveLegOrder], rule walks_bnd [OF walks_resolveBusinessDate])
    apply (rule walks_bnd [OF walks_await [OF w stable_run_there]], rule walks_bnd [OF keep])
    apply (rule walks_attempting [OF make stable_run_there])
      apply simp
     apply (rule walks_error, rule walks_throw)
    apply (rule walks_ret, assumption)
    done
qed

lemma walks_move_leg:
  assumes "to_status \<in> set (LEG_EDGES from_status)"
  shows "walks P (on_mv (mem_setLegStatus g from_status to_status tm)) anything"
proof (rule walks_step)
  fix s
  assume ok: "field_ok s"
  let ?m = "on_mv (mem_setLegStatus g from_status to_status tm) :: (field, field_error, (RunLeg \<times> bool) option) stateful"
  show "(snd (?m s) = s \<or> (\<exists>k. field_step k s (snd (?m s)))) \<and> (\<forall>a. fst (?m s) = Inr a \<longrightarrow> True)"
    using assms by (auto simp: on_mv_def mem_setLegStatus_def split: option.split intro: leg_moved)
qed

lemma walks_anything_leg: "walks P (requireLeg g) anything"
  by (rule walks_conseq [OF walks_requireLeg]) simp_all

lemma walks_staleLegWrite: "walks P (staleLegWrite d) Q"
  unfolding staleLegWrite_def by (rule walks_decision) (rule walks_throw)+

lemma walks_transitionLeg:
  assumes w: "calm w"
  shows "walks (\<lambda>s. True) (transitionLeg w hasFieldTruth g to_status why) anything"
  unfolding transitionLeg_def requireRun_def
proof (rule walks_bnd [OF walks_anything_leg], rule walks_bnd [OF walks_any_await [OF w]],
    rule walks_bnd [OF walks_anything_require], rule walks_if, rule walks_throw, rule walks_decision, goal_cases)
  case (1 before run)
  then have "to_status \<in> set (LEG_EDGES (rl_status before))" by (auto simp: leg_transition_iff)
  note move = walks_move_leg [OF this]
  have mark: "walks P (on_mv (mem_setRunStatus i RUN_ACTIVE tm)) anything" for P i tm by (rule walks_mark_run) simp
  show ?case
    apply (rule walks_bnd [OF walks_any_await [OF w]], rule walks_bnd [OF walks_any_query])
    apply (rule walks_if, rule walks_throw)
    apply (rule walks_bnd [OF walks_any_await [OF w]], rule walks_bnd [OF walks_any_query], rule walks_bnd [OF move])
    apply (rule walks_option, rule walks_throw)
    apply (simp only: split_beta)
    apply (rule walks_if, rule walks_staleLegWrite)
    apply (rule walks_if)
     apply (rule walks_bnd [OF walks_any_await [OF w]], rule walks_bnd [OF mark], rule walks_anything_ret)
    apply (rule walks_anything_ret)
    done
qed (rule walks_throw)

lemma walks_cancelLeg:
  assumes w: "calm w"
  shows "walks (\<lambda>s. True) (cancelLeg w g) anything"
  unfolding cancelLeg_def
proof (rule walks_bnd [OF walks_anything_leg], rule walks_decision, goal_cases)
  case (1 before)
  then have "LEG_CANCELLED \<in> set (LEG_EDGES (rl_status before))" by (simp add: leg_cancel_iff)
  note move = walks_move_leg [OF this]
  show ?case
    apply (rule walks_bnd [OF walks_any_await [OF w]], rule walks_bnd [OF walks_any_query], rule walks_bnd [OF move])
    apply (rule walks_option, rule walks_throw)
    apply (simp only: split_beta)
    apply (rule walks_if, rule walks_staleLegWrite, rule walks_anything_ret)
    done
qed (rule walks_throw)

lemma walks_assign_driver: "walks P (on_mv (mem_assignRun i driverId tm actor)) anything"
proof (rule walks_step)
  fix s :: field
  let ?m = "on_mv (mem_assignRun i driverId tm actor) :: (field, field_error, RunAssignment option \<times> RunAssignment) stateful"
  let ?n = "snd (mem_assignRun i driverId tm actor (fd_mv s) :: (field_error + _) \<times> _)"
  have "field_step None s (s\<lparr>fd_mv := ?n\<rparr>)"
    by (rule driver_assigned) (simp_all add: mem_assignRun_def Let_def put_assignment_def split: option.split)
  moreover have "snd (?m s) = s\<lparr>fd_mv := ?n\<rparr>" by (simp add: on_mv_def split: prod.split)
  ultimately show "(snd (?m s) = s \<or> (\<exists>k. field_step k s (snd (?m s)))) \<and> (\<forall>a. fst (?m s) = Inr a \<longrightarrow> True)"
    by auto
qed

lemma walks_assignRun:
  assumes w: "calm w"
  shows "walks (\<lambda>s. True) (assignRun env w i driverId actor) anything"
  unfolding assignRun_def requireRun_def
  by (rule walks_bnd [OF walks_anything_require], rule walks_if, rule walks_throw, rule walks_if, rule walks_throw,
      rule walks_bnd [OF walks_any_await [OF w]], rule walks_bnd [OF walks_any_query], rule walks_if,
      rule walks_anything_ret, rule walks_bnd [OF walks_any_await [OF w]], rule walks_bnd [OF walks_any_query],
      rule walks_bnd [OF walks_assign_driver], rule walks_anything_ret)

end
