(* ===== verification/FieldClosure.thy ===== *)
theory FieldClosure imports FieldCommands begin

text \<open>
  Closing a run by the system. A source of blockers is an interface: read under the lock of the run, an empty
  answer must mean that the field is quiet, and must keep meaning so until the lock is released. The closing
  service is proved once for every such source, and the source that the transport installation binds is one.
\<close>

section \<open>The phases of a timeline\<close>

definition bucket :: "(ident \<times> RunCheckpointType list) list \<Rightarrow> ident \<Rightarrow> RunCheckpointType list" where
  "bucket byLeg g = (case map_of byLeg g of None \<Rightarrow> [] | Some ts \<Rightarrow> ts)"

lemma bucket_nil: "bucket [] g = []"
  by (simp add: bucket_def)

lemma bucket_add:
  "bucket (add_to_bucket c byLeg) g =
     bucket byLeg g @ (if cp_legId c = Some g \<and> \<not> isRunScoped (cp_type c) then [cp_type c] else [])"
  by (cases "cp_legId c") (auto simp: bucket_def add_to_bucket_def update_conv')

lemma bucket_fold:
  "bucket (fold add_to_bucket cs byLeg) g =
     bucket byLeg g @ map cp_type (filter (\<lambda>c. cp_legId c = Some g \<and> \<not> isRunScoped (cp_type c)) cs)"
  by (induction cs arbitrary: byLeg) (simp_all add: bucket_add)

lemma deriveLegPhase_cong: "set ts = set us \<Longrightarrow> deriveLegPhase ts = deriveLegPhase us"
  by (simp add: deriveLegPhase_def)

lemma timeline_phase:
  assumes "\<And>c. c \<in> set cs \<Longrightarrow> cp_legId c = Some g \<Longrightarrow> \<not> isRunScoped (cp_type c)"
    and "c \<in> set cs" "cp_legId c = Some g"
  shows "(g, deriveLegPhase (map cp_type (filter (\<lambda>c. cp_legId c = Some g) cs))) \<in>
    set (tl_legPhases (buildRunTimeline i cs required))"
proof -
  let ?ordered = "sort_key timeline_order cs"
  let ?ts = "map cp_type (filter (\<lambda>c. cp_legId c = Some g \<and> \<not> isRunScoped (cp_type c)) ?ordered)"
  let ?byLeg = "fold add_to_bucket ?ordered []"
  have types: "set ?ts = set (map cp_type (filter (\<lambda>c. cp_legId c = Some g) cs))" using assms(1) by auto
  have "cp_type c \<in> set ?ts" using assms by auto
  then have "?ts \<noteq> []" by (metis empty_iff list.set(1))
  moreover have "bucket ?byLeg g = ?ts" by (simp add: bucket_fold bucket_nil)
  ultimately have "map_of ?byLeg g = Some ?ts" by (auto simp: bucket_def split: option.splits)
  then have "(g, ?ts) \<in> set ?byLeg" by (rule map_of_SomeD)
  then have "(g, deriveLegPhase ?ts) \<in> set (tl_legPhases (buildRunTimeline i cs required))"
    by (force simp: buildRunTimeline_def Let_def)
  then show ?thesis by (simp only: deriveLegPhase_cong [OF types])
qed

section \<open>A quiet run\<close>

definition unloaded :: "ident \<Rightarrow> field \<Rightarrow> bool" where
  "unloaded i s \<longleftrightarrow>
     (\<forall>g l. leg_of (fd_mv s) g = Some l \<longrightarrow> rl_runId l = i \<longrightarrow> \<not> cargo_on_board (ck_rows (fd_ck s)) g)"

definition nobody_waits :: "ident \<Rightarrow> field \<Rightarrow> bool" where
  "nobody_waits i s \<longleftrightarrow> (\<forall>r \<in> set (wt_rows (fd_wt s)). ws_runId r = i \<longrightarrow> ws_status r \<noteq> WAITING_OPEN)"

definition quiet :: "ident \<Rightarrow> field \<Rightarrow> bool" where
  "quiet i s \<longleftrightarrow> unloaded i s \<and> nobody_waits i s"

text \<open>Whether there is cargo on a leg is decided by the checkpoints of its run.\<close>

lemma cargo_of_run:
  assumes ok: "field_ok s" and l: "leg_of (fd_mv s) g = Some l" "rl_runId l = i"
  shows "cargo_on_board (ck_rows (fd_ck s)) g = cargo_on_board (rows_of_run s i) g"
proof -
  have "filter (\<lambda>r. cp_legId r = Some g) (rows_of_run s i) = filter (\<lambda>r. cp_legId r = Some g) (ck_rows (fd_ck s))"
    unfolding rows_of_run_def filter_filter
    by (rule filter_cong) (use recorded_placed [OF ok _ _ l(1)] l(2) in \<open>auto simp: recorded_def\<close>)
  then show ?thesis by (simp add: cargo_on_board_def)
qed

lemma stable_unloaded [intro]: "stable {i} (unloaded i)"
proof (rule stable_locked)
  fix s t
  assume s: "field_ok s" "field_ok t" "locked_later i s t" "unloaded i s"
  show "unloaded i t"
    unfolding unloaded_def
  proof (intro allI impI)
    fix g l
    assume l: "leg_of (fd_mv t) g = Some l" "rl_runId l = i"
    with s(3) have "leg_of (fd_mv s) g = Some l" "rows_of_run t i = rows_of_run s i" by (auto simp: locked_later_def)
    with s(4) l cargo_of_run [OF s(1)] cargo_of_run [OF s(2)] show "\<not> cargo_on_board (ck_rows (fd_ck t)) g"
      by (simp add: unloaded_def)
  qed
qed

lemma stable_nobody_waits [intro]: "stable {i} (nobody_waits i)"
  by (rule stable_locked) (auto simp: nobody_waits_def locked_later_def)

lemma stable_quiet [intro]: "stable {i} (quiet i)"
  unfolding quiet_def by (intro stable_conj stable_unloaded stable_nobody_waits)

section \<open>The sources of the installation\<close>

lemma nothing_carried: "\<not> isCarryingCargo (deriveLegPhase [])"
  by (simp add: isCarryingCargo_def deriveLegPhase_def)

lemma timeline_unloaded:
  assumes ok: "field_ok s"
    and none: "\<not> list_ex isCarryingCargo (map snd (tl_legPhases
      (buildRunTimeline i (checkpointsForRun (fd_ck s) i) required)))"
  shows "unloaded i s"
  unfolding unloaded_def
proof (intro allI impI notI)
  fix g l
  assume l: "leg_of (fd_mv s) g = Some l" "rl_runId l = i" and c: "cargo_on_board (ck_rows (fd_ck s)) g"
  let ?cs = "checkpointsForRun (fd_ck s) i"
  let ?here = "filter (\<lambda>c. cp_legId c = Some g) ?cs"
  have legs: "\<not> isRunScoped (cp_type c)" if "c \<in> set ?cs" "cp_legId c = Some g" for c
    using that ok log_ok_mem [of "fd_mv s" "fd_clock s" "ck_rows (fd_ck s)" c]
    by (auto simp: checkpointsForRun_def field_ok_def grounded_def)
  have "deriveLegPhase (map cp_type ?here) =
      deriveLegPhase (map cp_type (filter (\<lambda>r. cp_legId r = Some g) (rows_of_run s i)))"
    by (rule deriveLegPhase_cong) (auto simp: checkpointsForRun_def rows_of_run_def)
  with c cargo_of_run [OF ok l] have carrying: "isCarryingCargo (deriveLegPhase (map cp_type ?here))"
    by (simp add: cargo_on_board_def)
  then have "map cp_type ?here \<noteq> []" using nothing_carried by metis
  then have "?here \<noteq> []" by simp
  then obtain c where "c \<in> set ?cs" "cp_legId c = Some g" by (auto simp: filter_empty_conv)
  from timeline_phase [OF legs this] carrying none show False by (force simp: list_ex_iff)
qed

text \<open>
  A source that may be asked under the lock: it changes nothing, what the lock protects outlives its awaits, and
  an empty answer says that all is clear.
\<close>

locale clear_source =
  fixes blockersForRun :: known_source and clear :: "ident \<Rightarrow> field \<Rightarrow> bool"
  assumes clear_stable: "stable {i} (clear i)"
    and answers_locked: "calm w \<Longrightarrow> stable {i} P \<Longrightarrow>
      walks P (blockersForRun (await_locked w n i) i) (\<lambda>bs s. P s \<and> (bs = [] \<longrightarrow> clear i s))"
    and answers_free: "calm w \<Longrightarrow> walks P (blockersForRun (await w n) i) anything"

lemma checkpoint_look:
  "walks P (query (\<lambda>s. buildRunTimeline i (checkpointsForRun (fd_ck s) i) required))
     (\<lambda>t s. P s \<and> (\<not> list_ex isCarryingCargo (map snd (tl_legPhases t)) \<longrightarrow> unloaded i s))"
  by (rule walks_query) (auto intro: timeline_unloaded simp del: list_ex_iff)

lemma walks_keep_run: "walks P (require_field_run i why) (\<lambda>_. P)"
  by (rule walks_conseq [OF walks_require_run [where P = P]]) simp_all

interpretation cargo: clear_source "checkpoint_blockers env" unloaded for env
proof
  show "stable {i} (unloaded i)" for i by (rule stable_unloaded)
  show "walks P (checkpoint_blockers env (await_locked w n i) i) (\<lambda>bs s. P s \<and> (bs = [] \<longrightarrow> unloaded i s))"
    if "calm w" "stable {i} P" for w n i P
    unfolding checkpoint_blockers_def timelineForRun_def
    by (rule walks_bnd, rule walks_bnd [OF walks_keep_run], rule walks_bnd [OF walks_await_locked [OF that]],
        rule checkpoint_look, rule walks_ret, simp del: list_ex_iff split: if_splits)
  show "walks P (checkpoint_blockers env (await w n) i) anything" if "calm w" for w n i P
    unfolding checkpoint_blockers_def timelineForRun_def
    by (rule walks_bnd, rule walks_bnd [OF walks_keep_run], rule walks_bnd [OF walks_any_await [OF that]],
        rule checkpoint_look, rule walks_anything_ret)
qed

interpretation waiters: clear_source waiting_blockers nobody_waits
proof
  show "stable {i} (nobody_waits i)" for i by (rule stable_nobody_waits)
  show "walks P (waiting_blockers (await_locked w n i) i) (\<lambda>bs s. P s \<and> (bs = [] \<longrightarrow> nobody_waits i s))" for w n i P
    unfolding waiting_blockers_def
    by (rule walks_query) (auto simp: nobody_waits_def sessionsForRun_def list_ex_iff split: if_splits)
  show "walks P (waiting_blockers (await w n) i) anything" for w n i P
    unfolding waiting_blockers_def by (rule walks_any_query)
qed

text \<open>Asking one source after another.\<close>

lemma add_seen_grows: "set (fold add_seen bs seen) = set seen \<union> set bs"
  by (induction bs arbitrary: seen) (auto simp: add_seen_def)

lemma add_seen_empty: "fold add_seen bs seen = [] \<longleftrightarrow> seen = [] \<and> bs = []"
  using add_seen_grows [of bs seen] by (metis Un_empty set_empty)

definition all_clear :: "(ident \<Rightarrow> field \<Rightarrow> bool) list \<Rightarrow> ident \<Rightarrow> field \<Rightarrow> bool" where
  "all_clear Cs i s \<longleftrightarrow> (\<forall>C \<in> set Cs. C i s)"

lemma composite_locked:
  assumes w: "calm w"
  shows "list_all2 clear_source ds Cs \<Longrightarrow> stable {i} P \<Longrightarrow>
    walks P (composite_blockers ds seen (await_locked w n i) i)
      (\<lambda>bs s. P s \<and> (bs = [] \<longrightarrow> seen = [] \<and> all_clear Cs i s))"
proof (induction ds Cs arbitrary: seen P rule: list_all2_induct)
  case Nil
  then show ?case by (auto simp: all_clear_def intro: walks_ret)
next
  case (Cons d ds C Cs)
  let ?P = "\<lambda>bs s. P s \<and> (bs = [] \<longrightarrow> C i s)"
  have st: "stable {i} (?P bs)" for bs
    by (cases "bs = []") (use clear_source.clear_stable [OF Cons(1)] Cons.prems in \<open>simp_all add: stable_conj\<close>)
  show ?case unfolding composite_blockers.simps
    apply (rule walks_bnd [OF clear_source.answers_locked [OF Cons(1) w Cons.prems]])
    apply (rule walks_bnd [OF walks_await_locked [OF w st]])
    apply (rule walks_conseq [OF Cons.IH [OF st]])
     apply assumption
    apply (auto simp: add_seen_empty all_clear_def)
    done
qed

lemma composite_free:
  assumes w: "calm w"
  shows "list_all2 clear_source ds Cs \<Longrightarrow> walks P (composite_blockers ds seen (await w n) i) anything"
proof (induction ds Cs arbitrary: seen P rule: list_all2_induct)
  case Nil
  then show ?case by (simp add: walks_anything_ret)
next
  case (Cons d ds C Cs)
  show ?case unfolding composite_blockers.simps
    by (rule walks_bnd [OF clear_source.answers_free [OF Cons(1) w]], rule walks_bnd [OF walks_any_await [OF w]], rule Cons.IH)
qed

section \<open>Closing\<close>

lemma walks_split: "(\<And>x y. z = (x, y) \<Longrightarrow> walks P (f x y) Q) \<Longrightarrow> walks P (case z of (x, y) \<Rightarrow> f x y) Q"
  by (cases z) simp

lemma closable_without_blockers: "rv_closable (evaluateRunClosure lower facts) \<Longrightarrow> blockers_of facts = []"
  by (auto simp: evaluateRunClosure_def Let_def split: option.splits if_splits)

definition legs_read :: "ident \<Rightarrow> RunLeg list \<Rightarrow> field \<Rightarrow> bool" where
  "legs_read i legs s \<longleftrightarrow> (\<forall>g l. leg_of (fd_mv s) g = Some l \<longrightarrow> rl_runId l = i \<longrightarrow> l \<in> set legs)"

lemma stable_legs_read [intro]: "stable {i} (legs_read i legs)"
  by (rule stable_locked) (auto simp: legs_read_def locked_later_def)

lemma legs_read_now: "legs_read i (legsOf (fd_mv s) i) s"
  by (auto simp: legs_read_def legsOf_def leg_of_def dest!: map_of_SomeD intro!: image_eqI)

lemma closable_settled:
  assumes "rv_closable (evaluateRunClosure lower (closureFacts cenv run legs again now))"
    and "again = [] \<longrightarrow> legs_read i legs s \<and> quiet i s"
  shows "run_settled s i"
proof -
  have none: "blockers_of (closureFacts cenv run legs again now) = []" by (rule closable_without_blockers) (rule assms)
  then have "again = []" and legs: "\<not> IS_OPEN (closure_leg l)" if "l \<in> set legs" for l
    using that by (auto simp: blockers_of_def closureFacts_def list_ex_iff split: if_splits)
  moreover have "again = []" using none by (simp add: blockers_of_def closureFacts_def)
  ultimately have q: "legs_read i legs s" "quiet i s" using assms(2) by blast+
  have "isTerminalLegStatus (rl_status l)" if "leg_of (fd_mv s) g = Some l" "rl_runId l = i" for g l
    using legs [of l] q(1) that by (cases "rl_status l") (auto simp: legs_read_def IS_OPEN_def closure_leg_def)
  with q(2) show ?thesis by (auto simp: run_settled_def quiet_def unloaded_def nobody_waits_def)
qed

definition closed_now :: "ident \<Rightarrow> VehicleRun \<Rightarrow> field \<Rightarrow> bool" where
  "closed_now i r s \<longleftrightarrow> run_of (fd_mv s) i = Some r \<and> vr_status r = RUN_COMPLETED \<and> run_settled s i"

lemma walks_complete_run:
  assumes "vr_status r = RUN_ACTIVE"
  shows "walks (\<lambda>s. run_of (fd_mv s) i = Some r \<and> run_settled s i)
    (on_mv (\<lambda>m. (Inr (), put_run (marked_run RUN_COMPLETED tm r) m))) (\<lambda>_. closed_now i (marked_run RUN_COMPLETED tm r))"
proof (rule walks_step)
  fix s
  assume s: "field_ok s" "run_of (fd_mv s) i = Some r \<and> run_settled s i"
  let ?t = "s\<lparr>fd_mv := put_run (marked_run RUN_COMPLETED tm r) (fd_mv s)\<rparr>"
  have "vr_id r = i" using s movement_keys(1) by (auto simp: field_ok_def)
  then have run: "run_of (fd_mv ?t) i = Some (marked_run RUN_COMPLETED tm r)" by (simp add: marked_run_def)
  have step: "field_step (Some i) s ?t" using s assms by (intro run_completed) simp_all
  from field_step_ok [OF step s(1)] run have "run_settled ?t i"
    by (auto simp: field_ok_def completed_settled_def marked_run_def)
  with run step show "(snd (on_mv (\<lambda>m. (Inr (), put_run (marked_run RUN_COMPLETED tm r) m)) s) = s \<or>
      (\<exists>k. field_step k s (snd (on_mv (\<lambda>m. (Inr () :: field_error + unit, put_run (marked_run RUN_COMPLETED tm r) m)) s)))) \<and>
      (\<forall>a. fst (on_mv (\<lambda>m. (Inr () :: field_error + unit, put_run (marked_run RUN_COMPLETED tm r) m)) s) = Inr a \<longrightarrow>
        closed_now i (marked_run RUN_COMPLETED tm r) (snd (on_mv (\<lambda>m. (Inr () :: field_error + unit, put_run (marked_run RUN_COMPLETED tm r) m)) s)))"
    by (auto simp: on_mv_def closed_now_def marked_run_def)
qed

text \<open>The serialised close, for any verdict whose \<open>close\<close> means that the run is settled when it is given.\<close>

lemma walks_closeRunAsSystemSerialized:
  assumes decide: "\<And>b legs. walks (legs_read i legs) (decide b legs) (\<lambda>v s. close v \<longrightarrow> run_settled s i)"
  shows "walks P (closeRunAsSystemSerialized i tm close decide)
    (\<lambda>settled s. \<forall>r. settled = Some r \<longrightarrow> cl_transitioned r \<longrightarrow> closed_now i (cl_run r) s)"
proof -
  have legs: "walks (\<lambda>s. True) (query (\<lambda>s. legsOf (fd_mv s) i)) (legs_read i)"
    by (rule walks_query) (rule legs_read_now)
  have run: "walks (\<lambda>s. run_settled s i) (query (\<lambda>s. run_of (fd_mv s) i))
      (\<lambda>found s. run_of (fd_mv s) i = found \<and> run_settled s i)"
    by (rule walks_query) simp
  show ?thesis unfolding closeRunAsSystemSerialized_def
  proof (rule walks_bnd [OF walks_any_query], rule walks_option, rule walks_ret, simp,
      rule walks_bnd [OF walks_bnd [OF legs decide]], rule walks_if, rule walks_ret, simp, goal_cases)
    case (1 before b v)
    then have now: "walks (\<lambda>s. close v \<longrightarrow> run_settled s i) (query (\<lambda>s. run_of (fd_mv s) i))
        (\<lambda>found s. run_of (fd_mv s) i = found \<and> run_settled s i)"
      by (intro walks_conseq [OF run]) simp_all
    show ?case
      apply (rule walks_bnd [OF now], rule walks_option, rule walks_ret, simp)
      apply (rule walks_if, rule walks_ret, simp)
      apply simp
      apply (rule walks_bnd [OF walks_complete_run], assumption)
      apply (rule walks_ret, simp)
      done
  qed
qed

text \<open>What the closing service relies on: a source whose empty answer, read under the lock, means a quiet run.\<close>

locale closure_source =
  fixes source :: blocker_source
  assumes source_locked: "calm w \<Longrightarrow> stable {i} P \<Longrightarrow>
      walks P (source (await_locked w n i) i) (\<lambda>r s. P s \<and> (read_blockers r = [] \<longrightarrow> quiet i s))"
    and source_free: "calm w \<Longrightarrow> walks P (source (await w n) i) anything"
begin

lemma collect_locked:
  assumes w: "calm w" and P: "stable {i} P"
  shows "walks P (collectBlockers (Some source) (await_locked w n i) i) (\<lambda>bs s. bs = [] \<longrightarrow> P s \<and> quiet i s)"
  unfolding collectBlockers_def option.case
  by (rule walks_catching [OF source_locked [OF w P], where E = "\<lambda>s. True"]) (auto intro: walks_ret)

lemma collect_free:
  assumes w: "calm w"
  shows "walks P (collectBlockers (Some source) (await w n) i) anything"
  unfolding collectBlockers_def option.case
  by (rule walks_catching [OF source_free [OF w], where E = "\<lambda>s. True"]) (auto intro: walks_ret)

lemma recheck_settles:
  assumes w: "calm w"
  shows "walks (legs_read i legs)
    (bnd (collectBlockers (Some source) (await_locked w 8 i) i) (\<lambda>again.
     bnd (await_locked w 9 i) (\<lambda>_. closure_verdict cenv run legs again)))
    (\<lambda>v s. rv_closable v \<longrightarrow> run_settled s i)"
proof -
  let ?P = "\<lambda>again s. again = [] \<longrightarrow> legs_read i legs s \<and> quiet i s"
  have "stable {i} (?P again)" for again
    by (cases "again = []") (simp_all add: stable_conj stable_legs_read stable_quiet)
  note pause = walks_await_locked [OF w this]
  show ?thesis unfolding closure_verdict_def
    by (rule walks_bnd [OF collect_locked [OF w stable_legs_read]], rule walks_bnd [OF pause], rule walks_query)
      (blast intro: closable_settled)
qed

lemma walks_attempt:
  assumes w: "calm w" and cenv: "cl_source cenv = Some source"
  shows "walks (\<lambda>s. True) (attempt cenv w i) (\<lambda>outcome s. ro_closed outcome \<longrightarrow> closed_now i (ro_run outcome) s)"
proof -
  let ?decide = "\<lambda>locked lockedLegs. bnd (collectBlockers (Some source) (await_locked w 8 i) i) (\<lambda>again.
      bnd (await_locked w 9 i) (\<lambda>_. closure_verdict cenv locked lockedLegs again))"
  have close: "walks P (closeRunAsSystemSerialized i tm rv_closable ?decide)
      (\<lambda>settled s. \<forall>r. settled = Some r \<longrightarrow> cl_transitioned r \<longrightarrow> closed_now i (cl_run r) s)" for P tm
    by (rule walks_closeRunAsSystemSerialized) (rule recheck_settles [OF w])
  have system: "walks P (closeRunAsSystem w i rv_closable ?decide)
      (\<lambda>(r, transitioned, v) s. transitioned \<longrightarrow> closed_now i r s)" for P
    unfolding closeRunAsSystem_def requireRun_def
    apply (rule walks_bnd [OF walks_anything_require])
    apply (rule walks_if, rule walks_ret, simp)
    apply (rule walks_decision)
     apply (rule walks_bnd [OF walks_any_await [OF w]], rule walks_bnd [OF walks_any_query], rule walks_bnd [OF close])
     apply (rule walks_option, rule walks_throw, rule walks_ret, simp)
    apply (rule walks_throw)
    done
  show ?thesis unfolding attempt_def settleRunClosure_def requireRun_def cenv closure_verdict_def
    apply (rule walks_bnd [OF collect_free [OF w]], rule walks_bnd [OF walks_any_await [OF w]])
    apply (rule walks_bnd [OF walks_anything_require], rule walks_bnd [OF walks_any_await [OF w]])
    apply (rule walks_bnd [OF walks_any_query], rule walks_bnd [OF walks_any_await [OF w]])
    apply (rule walks_bnd [OF walks_any_query])
    apply (rule walks_if, rule walks_ret, simp)
    apply (rule walks_bnd [OF walks_any_await [OF w]])
    apply (rule walks_bnd [OF system [unfolded closure_verdict_def]])
    apply (rule walks_split, rule walks_split)
    apply (simp only: Let_def)
    apply (rule walks_ret)
    apply simp
    done
qed

lemma walks_settleCandidate:
  assumes w: "calm w" and cenv: "cl_source cenv = Some source"
  shows "walks P (settleCandidate cenv w c) anything"
proof -
  have "walks P (attempt cenv w (vr_id c)) anything"
    by (rule walks_conseq [OF walks_attempt [OF w cenv]]) simp_all
  then show ?thesis unfolding settleCandidate_def
    by (rule walks_catching [where E = "\<lambda>s. True"]) (simp_all add: walks_anything_ret)
qed

lemma walks_settle_candidates:
  assumes w: "calm w" and cenv: "cl_source cenv = Some source"
  shows "walks P (settle_candidates cenv w cs n) (\<lambda>m s. m \<le> n + length cs)"
proof (induction cs arbitrary: n P)
  case Nil
  then show ?case by (auto intro: walks_ret)
next
  case (Cons c cs)
  show ?case unfolding settle_candidates.simps
    by (rule walks_bnd [OF walks_settleCandidate [OF w cenv]], rule walks_bnd [OF walks_any_await [OF w]],
        rule walks_conseq [OF Cons.IH]) (auto split: if_splits)
qed

lemma walks_sweep:
  assumes w: "calm w" and cenv: "cl_source cenv = Some source"
  shows "walks (\<lambda>s. True) (sweep cenv w) (\<lambda>(examined, closed) s. closed \<le> examined \<and> examined \<le> cl_batchSize cenv)"
proof -
  have few: "walks P (query (\<lambda>s. listRunClosureCandidates before idle label (cl_batchSize cenv) (fd_mv s)))
      (\<lambda>cs s. length cs \<le> cl_batchSize cenv)" for P before idle label
    by (rule walks_query) (simp add: listRunClosureCandidates_def)
  have settle: "walks (\<lambda>s. length cs \<le> cl_batchSize cenv) (settle_candidates cenv w cs 0)
      (\<lambda>m s. m \<le> length cs \<and> length cs \<le> cl_batchSize cenv)" for cs
    using walks_settle_candidates [OF w cenv, of "\<lambda>s. True" cs 0] by (auto simp: walks_def)
  show ?thesis unfolding sweep_def Let_def
    by (rule walks_bnd [OF walks_any_query], rule walks_bnd [OF walks_any_await [OF w]], rule walks_bnd [OF few],
        rule walks_bnd [OF settle], rule walks_ret, simp)
qed

end

interpretation transport: closure_source "transport_blockers env" for env
proof
  have sources: "list_all2 clear_source [checkpoint_blockers env, waiting_blockers] [unloaded, nobody_waits]"
    by (simp add: cargo.clear_source_axioms waiters.clear_source_axioms)
  have known: "None \<notin> set (map Some bs)" "map the (map Some bs) = bs" for bs :: "RunClosureBlocker list"
    by (auto simp: comp_def)
  fix w n i
  assume w: "calm w"
  show "walks P (transport_blockers env (await_locked w n i) i) (\<lambda>r s. P s \<and> (read_blockers r = [] \<longrightarrow> quiet i s))"
    if "stable {i} P" for P
    unfolding transport_blockers_def
    by (rule walks_bnd [OF composite_locked [OF w sources that]], rule walks_ret)
      (auto simp: read_blockers_def all_clear_def quiet_def comp_def)
  show "walks P (transport_blockers env (await w n) i) anything" for P
    unfolding transport_blockers_def
    by (rule walks_bnd [OF composite_free [OF w sources]], rule walks_anything_ret)
qed

end
