(* ===== verification/FieldHistory.thy ===== *)
theory FieldHistory imports FieldClosure begin

text \<open>
  Histories of the field services: any commands in any order, each with any other writers between its awaits, in
  the installation that binds the checkpoint and waiting sources.
\<close>

section \<open>Histories of commands\<close>

datatype field_command =
    RecordAsDriver RecordCheckpointCommand
  | RecordAsOperator RecordCheckpointCommand
  | StartWaiting StartWaitingCommand
  | CloseWaiting CloseWaitingByOperatorCommand
  | CreateRun CreateRunCommand
  | TransitionRun ident VehicleRunStatus
  | CancelRun ident string
  | AddLeg ident AddLegCommand
  | TransitionLeg bool ident RunLegStatus "string option"
  | CancelLeg ident
  | AssignRun ident ident string
  | AttemptClosure ident
  | Sweep

fun after_command :: "field_env \<Rightarrow> closure_env \<Rightarrow> interference \<Rightarrow> field_command \<Rightarrow> field \<Rightarrow> field" where
  "after_command env cenv w (RecordAsDriver c) s = snd (recordAsDriver env w c s)"
| "after_command env cenv w (RecordAsOperator c) s = snd (recordAsOperator env w c s)"
| "after_command env cenv w (StartWaiting c) s = snd (start_waiting env w c s)"
| "after_command env cenv w (CloseWaiting c) s = snd (closeByOperator w c s)"
| "after_command env cenv w (CreateRun c) s = snd (createRun env w c s)"
| "after_command env cenv w (TransitionRun i to_status) s = snd (transitionRun w i to_status s)"
| "after_command env cenv w (CancelRun i why) s = snd (cancelRun w i why s)"
| "after_command env cenv w (AddLeg i c) s = snd (addLeg env w i c s)"
| "after_command env cenv w (TransitionLeg truth g to_status why) s = snd (transitionLeg w truth g to_status why s)"
| "after_command env cenv w (CancelLeg g) s = snd (cancelLeg w g s)"
| "after_command env cenv w (AssignRun i driverId actor) s = snd (assignRun env w i driverId actor s)"
| "after_command env cenv w (AttemptClosure i) s = snd (attempt cenv w i s)"
| "after_command env cenv w Sweep s = snd (sweep cenv w s)"

lemma walks_path: "walks (\<lambda>s. True) m Q \<Longrightarrow> field_ok s \<Longrightarrow> field_path {} s (snd (m s))"
  by (simp add: walks_def)

lemma walks_answer: "walks (\<lambda>s. True) m Q \<Longrightarrow> field_ok s \<Longrightarrow> m s = (Inr a, t) \<Longrightarrow> Q a t"
  by (auto simp: walks_def)

definition transport_closure :: "field_env \<Rightarrow> closure_env \<Rightarrow> bool" where
  "transport_closure env cenv \<longleftrightarrow> cl_source cenv = Some (transport_blockers env)"

lemma after_command_path:
  assumes ok: "field_ok s" and w: "calm w" and cenv: "transport_closure env cenv"
  shows "field_path {} s (after_command env cenv w c s)"
proof -
  have source: "cl_source cenv = Some (transport_blockers env)" using cenv by (simp add: transport_closure_def)
  show ?thesis
    by (cases c)
      (simp_all add: walks_path [OF walks_recordAsDriver [OF w] ok] walks_path [OF walks_recordAsOperator [OF w] ok]
        walks_path [OF walks_start_waiting [OF w] ok] walks_path [OF walks_closeByOperator [OF w] ok]
        walks_path [OF walks_createRun [OF w] ok] walks_path [OF walks_transitionRun [OF w] ok]
        walks_path [OF walks_cancelRun [OF w] ok] walks_path [OF walks_addLeg [OF w] ok]
        walks_path [OF walks_transitionLeg [OF w] ok] walks_path [OF walks_cancelLeg [OF w] ok]
        walks_path [OF walks_assignRun [OF w] ok] walks_path [OF transport.walks_attempt [OF w source] ok]
        walks_path [OF transport.walks_sweep [OF w source] ok])
qed

text \<open>A history: commands one after the other, each with its own interference.\<close>

definition field_after :: "field_env \<Rightarrow> closure_env \<Rightarrow> (interference \<times> field_command) list \<Rightarrow> field \<Rightarrow> field" where
  "field_after env cenv history s = fold (\<lambda>(w, c). after_command env cenv w c) history s"

definition calm_history :: "(interference \<times> field_command) list \<Rightarrow> bool" where
  "calm_history history \<longleftrightarrow> (\<forall>(w, c) \<in> set history. calm w)"

lemma field_after_path:
  "field_ok s \<Longrightarrow> calm_history history \<Longrightarrow> transport_closure env cenv \<Longrightarrow> field_path {} s (field_after env cenv history s)"
proof (induction history arbitrary: s)
  case Nil
  then show ?case by (simp add: field_after_def path_refl)
next
  case (Cons x history)
  obtain w c where x: "x = (w, c)" by (cases x)
  have p: "field_path {} s (after_command env cenv w c s)"
    using Cons.prems x by (intro after_command_path) (simp_all add: calm_history_def)
  from Cons.IH [OF field_path_ok [OF p Cons.prems(1)]] Cons.prems(2,3) p show ?case
    by (auto simp: field_after_def x calm_history_def intro: field_path_trans)
qed

lemma field_after_ok:
  "calm_history history \<Longrightarrow> transport_closure env cenv \<Longrightarrow> field_ok (field_after env cenv history empty_field)"
  using field_path_ok [OF field_after_path field_ok_empty] field_ok_empty by blast

text \<open>
  Calm interference is made by commands themselves: at every await a list of commands runs, each interrupted in
  the same way one level less deep.
\<close>

fun crowd :: "field_env \<Rightarrow> closure_env \<Rightarrow> (nat \<Rightarrow> nat \<Rightarrow> field_command list) \<Rightarrow> nat \<Rightarrow> interference" where
  "crowd env cenv plan 0 = alone"
| "crowd env cenv plan (Suc d) =
     \<lparr>others = \<lambda>n s. fold (after_command env cenv (crowd env cenv plan d)) (plan d n) s, meanwhile = \<lambda>n i s. s\<rparr>"

lemma calm_crowd: "transport_closure env cenv \<Longrightarrow> calm (crowd env cenv plan d)"
proof (induction d)
  case 0
  then show ?case by (simp add: calm_alone)
next
  case (Suc d)
  have "field_path {} s (fold (after_command env cenv (crowd env cenv plan d)) cs s)" if "field_ok s" for s cs
    using field_after_path [OF that, of "map (Pair (crowd env cenv plan d)) cs"] Suc
    by (simp add: field_after_def calm_history_def fold_map comp_def)
  then show ?case by (simp add: calm_def path_refl)
qed

end
