(* ===== verification/FieldExample.thy ===== *)
theory FieldExample imports FieldHistory begin

text \<open>One delivery from the creation of the run to its close, used as the concrete input of the witnesses.\<close>

definition ticking :: interference where
  "ticking = \<lparr>others = \<lambda>n s. s\<lparr>fd_clock := fd_clock s + 1\<rparr>, meanwhile = \<lambda>n i s. s\<rparr>"

lemma calm_ticking: "calm ticking"
proof -
  have "field_path {} s (s\<lparr>fd_clock := fd_clock s + 1\<rparr>)" for s :: field
    by (intro field_path_one [where k = None] time_passed) simp_all
  then show ?thesis by (simp add: calm_def ticking_def path_refl)
qed

definition sample_field_env :: field_env where
  "sample_field_env =
     \<lparr>fe_driverByAuthUser = \<lambda>u. if u = ''u1'' then Some ''D1'' else None,
      fe_driverKnown = \<lambda>d. d = ''D1'', fe_vehicleKnown = \<lambda>v. v = ''V1'', fe_orderStatus = \<lambda>i. None,
      fe_observation = \<lambda>i. Some \<lparr>ob_id = i, ob_capturedAt = 0, ob_driverId = ''D1'', ob_runId = None\<rparr>,
      fe_locationRequired = DEFAULT_LOCATION_REQUIRED_TYPES,
      fe_intl = \<lambda>z. Some (\<lambda>ms. [(''year'', ''2026''), (''month'', ''03''), (''day'', ''01'')]),
      fe_timeZone = ''Asia/Ho_Chi_Minh''\<rparr>"

definition sample_closure_env :: closure_env where
  "sample_closure_env =
     \<lparr>cl_source = Some (transport_blockers sample_field_env), cl_plans = [],
      cl_depots = [\<lparr>dd_code = ''BAI'', dd_label = ''Bai xe'', dd_active = True\<rparr>], cl_idleHours = None,
      cl_lower = id, cl_batchSize = 50\<rparr>"

lemma sample_closure: "transport_closure sample_field_env sample_closure_env"
  by (simp add: transport_closure_def sample_closure_env_def)

definition sample_checkpoint :: "RunCheckpointType \<Rightarrow> string \<Rightarrow> ident option \<Rightarrow> RecordCheckpointCommand" where
  "sample_checkpoint t event observation =
     \<lparr>rc_type = t, rc_runId = uuid 0, rc_legId = Some (uuid 1), rc_authUserId = ''u1'',
      rc_observationId = observation, rc_clientEventId = event, rc_note = None\<rparr>"

definition to_receiver :: "field_command list" where
  "to_receiver =
     [CreateRun \<lparr>nr_code = ''R1'', nr_vehicleId = ''V1'', nr_businessDate = None, nr_note = None\<rparr>,
      AddLeg (uuid 0) \<lparr>al_sequence = 1, al_kind = LOADED, al_orderId = None, al_originLabel = ''Cang'',
        al_destinationLabel = ''Bai xe'', al_businessDate = None, al_distanceKm = None,
        al_plannedDistanceKm = None, al_note = None\<rparr>,
      AssignRun (uuid 0) ''D1'' ''ops'',
      TransitionRun (uuid 0) RUN_ACTIVE,
      TransitionLeg True (uuid 1) LEG_IN_TRANSIT None,
      RecordAsDriver (sample_checkpoint PICKUP_ARRIVAL ''e1'' None),
      RecordAsDriver (sample_checkpoint PICKUP_DEPARTURE ''e2'' None),
      RecordAsDriver (sample_checkpoint DELIVERY_ARRIVAL ''e3'' (Some ''O1'')),
      StartWaiting \<lparr>st_runId = uuid 0, st_legId = uuid 1, st_arrivalCheckpointId = uuid 2,
        st_reason = RECEIVER_NOT_READY, st_clientEventId = ''w1'', st_note = None, st_authUserId = ''u1''\<rparr>]"

definition acceptance :: RecordCheckpointCommand where
  "acceptance = sample_checkpoint DELIVERY_ACCEPTED ''e4'' (Some ''O2'')"

definition and_home :: "field_command list" where
  "and_home = [RecordAsDriver acceptance, TransitionLeg True (uuid 1) LEG_COMPLETED None, AttemptClosure (uuid 0)]"

definition delivery :: "(interference \<times> field_command) list" where
  "delivery = map (Pair ticking) (to_receiver @ and_home)"

lemma calm_delivery: "calm_history delivery"
  by (auto simp: calm_history_def delivery_def calm_ticking)

definition delivered :: field where
  "delivered = field_after sample_field_env sample_closure_env delivery empty_field"

lemma delivered_run: "map_option vr_status (run_of (fd_mv delivered) (uuid 0)) = Some RUN_COMPLETED"
  by code_simp

end
