(* ===== verification/FieldGuarantees.thy ===== *)
theory FieldGuarantees imports FieldExample begin

text \<open>
  What the field services promise over whole histories of commands, and the two races they leave open.
\<close>

section \<open>Reading the invariant\<close>

lemma log_chain:
  assumes "field_ok s" "r \<in> set (ck_rows (fd_ck s))" "requiredPredecessor (cp_type r) = Some p"
  obtains x where "x \<in> set (ck_rows (fd_ck s))" "cp_type x = p" "cp_legId x = cp_legId r" "cp_runId x = cp_runId r"
    "cp_receivedAt x \<le> cp_receivedAt r"
proof -
  have "log_ok (fd_mv s) (fd_clock s) (ck_rows (fd_ck s))" using assms(1) by (simp add: field_ok_def)
  from log_ok_mem [OF this assms(2)] obtain xs where "set xs \<subseteq> set (ck_rows (fd_ck s))"
      "grounded (fd_mv s) (fd_clock s) xs r" by blast
  with assms(3) that show ?thesis unfolding grounded_def by blast
qed

lemma log_leg:
  assumes "field_ok s" "r \<in> set (ck_rows (fd_ck s))" "cp_legId r = Some g"
  obtains l where "leg_of (fd_mv s) g = Some l" "rl_runId l = cp_runId r" "isCheckpointAllowedOnLeg (cp_type r) (rl_kind l)"
proof -
  have "log_ok (fd_mv s) (fd_clock s) (ck_rows (fd_ck s))" using assms(1) by (simp add: field_ok_def)
  from log_ok_mem [OF this assms(2)] assms(3) that show ?thesis
    by (auto simp: grounded_def leg_place_def)
qed

lemma log_apart:
  assumes "field_ok s" "ck_rows (fd_ck s) = xs @ r # ys" "x \<in> set xs"
  shows "cp_receivedAt x \<le> cp_receivedAt r" "\<not> same_event (cp_runId r) (cp_type r) (cp_clientEventId r) x"
    "cp_observationId r \<noteq> None \<Longrightarrow> cp_observationId x \<noteq> cp_observationId r"
proof -
  have "grounded (fd_mv s) (fd_clock s) xs r" using assms(1,2) by (simp add: field_ok_def log_ok_def)
  with assms(3) show "cp_receivedAt x \<le> cp_receivedAt r" "\<not> same_event (cp_runId r) (cp_type r) (cp_clientEventId r) x"
    "cp_observationId r \<noteq> None \<Longrightarrow> cp_observationId x \<noteq> cp_observationId r"
    by (auto simp: grounded_def list_ex_iff)
qed

lemma mem_checkpointsForLeg: "c \<in> set (checkpointsForLeg t g) \<longleftrightarrow> c \<in> set (ck_rows t) \<and> cp_legId c = Some g"
  by (auto simp: checkpointsForLeg_def)

lemma cargo_for_leg:
  "cargo_on_board (ck_rows t) g \<longleftrightarrow> isCarryingCargo (deriveLegPhase (map cp_type (checkpointsForLeg t g)))"
proof -
  have "deriveLegPhase (map cp_type (checkpointsForLeg t g)) =
      deriveLegPhase (map cp_type (filter (\<lambda>r. cp_legId r = Some g) (ck_rows t)))"
    by (rule deriveLegPhase_cong) (auto simp: checkpointsForLeg_def)
  then show ?thesis by (simp add: cargo_on_board_def)
qed

lemma legsOf_read:
  assumes "movement_ok m" "l \<in> set (legsOf m i)"
  shows "leg_of m (rl_id l) = Some l" "rl_runId l = i"
proof -
  from assms(2) obtain k where k: "(k, l) \<in> set (mv_legs m)" and i: "rl_runId l = i" by (auto simp: legsOf_def)
  have keyed: "keyed rl_id (mv_legs m) (mv_next m)" using assms(1) by (simp add: movement_ok_def)
  with k have "k = rl_id l" by (fastforce simp: keyed_def)
  with k keyed show "leg_of m (rl_id l) = Some l" by (simp add: leg_of_def keyed_def)
  show "rl_runId l = i" by (rule i)
qed

lemma one_of_key: "distinct (map f xs) \<Longrightarrow> (\<And>x. P x \<Longrightarrow> f x = v) \<Longrightarrow> length (filter P xs) \<le> 1"
proof (induction xs)
  case (Cons x xs)
  have "filter P xs = []" if "P x"
  proof (rule ccontr)
    assume "filter P xs \<noteq> []"
    then obtain y where "y \<in> set xs" "P y" by (auto simp: filter_empty_conv)
    with Cons.prems that show False by (auto simp: image_iff)
  qed
  with Cons show ?case by auto
qed simp

lemma session_reads:
  assumes "session_ok m k (ck_rows t) q"
  shows "\<exists>l. leg_of m (ws_legId q) = Some l \<and> rl_runId l = ws_runId q"
    and "\<exists>a \<in> set (checkpointsForLeg t (ws_legId q)). cp_id a = ws_arrivalCheckpointId q \<and>
      cp_type a = DELIVERY_ARRIVAL \<and> cp_driverId a = ws_driverId q \<and> cp_receivedAt a \<le> ws_startedAt q"
    and "\<forall>c \<in> set (checkpointsForLeg t (ws_legId q)). cp_type c = DELIVERY_ACCEPTED \<longrightarrow> ws_startedAt q \<le> cp_receivedAt c"
    and "ws_status q = WAITING_OPEN \<longleftrightarrow> ws_endedAt q = None"
    and "ws_endedAt q = Some e \<Longrightarrow> ws_startedAt q \<le> e \<and> (ws_closeReason q = Some OPERATOR_CLOSED \<or>
      (\<exists>c \<in> set (checkpointsForLeg t (ws_legId q)). cp_type c = DELIVERY_ACCEPTED \<and>
        ws_closingCheckpointId q = Some (cp_id c) \<and> cp_receivedAt c = e))"
proof -
  show "\<exists>l. leg_of m (ws_legId q) = Some l \<and> rl_runId l = ws_runId q"
    using assms by (auto simp: session_ok_def leg_place_def)
  show "\<exists>a \<in> set (checkpointsForLeg t (ws_legId q)). cp_id a = ws_arrivalCheckpointId q \<and>
      cp_type a = DELIVERY_ARRIVAL \<and> cp_driverId a = ws_driverId q \<and> cp_receivedAt a \<le> ws_startedAt q"
    using assms by (auto simp: session_ok_def anchored_def mem_checkpointsForLeg)
  show "\<forall>c \<in> set (checkpointsForLeg t (ws_legId q)). cp_type c = DELIVERY_ACCEPTED \<longrightarrow> ws_startedAt q \<le> cp_receivedAt c"
    using assms by (auto simp: session_ok_def accepted_on_def mem_checkpointsForLeg)
  have ended: "ended_well (ck_rows t) q" using assms by (simp add: session_ok_def)
  then show "ws_status q = WAITING_OPEN \<longleftrightarrow> ws_endedAt q = None" by (auto simp: ended_well_def split: option.splits)
  assume e: "ws_endedAt q = Some e"
  with ended show "ws_startedAt q \<le> e \<and> (ws_closeReason q = Some OPERATOR_CLOSED \<or>
      (\<exists>c \<in> set (checkpointsForLeg t (ws_legId q)). cp_type c = DELIVERY_ACCEPTED \<and>
        ws_closingCheckpointId q = Some (cp_id c) \<and> cp_receivedAt c = e))"
    by (fastforce simp: ended_well_def accepted_on_def mem_checkpointsForLeg)
qed

section \<open>Properties\<close>

text \<open>
  C5. In the installation with the checkpoint and waiting sources, any history of the field commands (checkpoints,
  waiting sessions, runs, legs, drivers, closures and sweeps), each with calm writers between its awaits, changes
  the field only by the abstract writes: from any prefix of the history to any longer one leads a path of steps.
\<close>

theorem field_commands_refine_writes:
  assumes "transport_closure env cenv" "calm_history (xs @ ys)"
  shows "field_path {} (field_after env cenv xs empty_field) (field_after env cenv (xs @ ys) empty_field)"
proof -
  have h: "calm_history xs" "calm_history ys" using assms(2) by (auto simp: calm_history_def)
  from field_after_path [OF field_after_ok [OF h(1) assms(1)] h(2) assms(1)] show ?thesis
    by (simp add: field_after_def)
qed

theorem field_commands_refine_writes_witness:
  "field_path {} (field_after sample_field_env sample_closure_env [] empty_field) delivered \<and>
   length (ck_rows (fd_ck delivered)) = 4"
proof -
  have "length (ck_rows (fd_ck delivered)) = 4" by code_simp
  with field_commands_refine_writes [of sample_field_env sample_closure_env "[]" delivery] sample_closure calm_delivery
  show ?thesis by (simp add: delivered_def)
qed

text \<open>
  C6. Whatever the history, a run that is completed has nothing left open: every leg of it is completed or
  cancelled, no leg has cargo on board by its checkpoints, and every waiting session of it is closed.
\<close>

theorem completed_runs_are_settled:
  assumes "transport_closure env cenv" "calm_history history" "s = field_after env cenv history empty_field"
    and "run_of (fd_mv s) i = Some r" "vr_status r = RUN_COMPLETED"
  shows "(\<forall>l \<in> set (listLegs (fd_mv s) i). isTerminalLegStatus (rl_status l) \<and>
      \<not> isCarryingCargo (deriveLegPhase (map cp_type (checkpointsForLeg (fd_ck s) (rl_id l))))) \<and>
    (\<forall>q \<in> set (sessionsForRun (fd_wt s) i). ws_status q = WAITING_CLOSED)"
proof -
  have ok: "field_ok s" unfolding assms(3) by (rule field_after_ok [OF assms(2,1)])
  with assms(4,5) have settled: "run_settled s i" by (simp add: field_ok_def completed_settled_def)
  have m: "movement_ok (fd_mv s)" using ok by (simp add: field_ok_def)
  have "ws_status q = WAITING_CLOSED" if "q \<in> set (sessionsForRun (fd_wt s) i)" for q
    using settled that by (cases "ws_status q") (auto simp: run_settled_def sessionsForRun_def)
  with settled legsOf_read [OF m] cargo_for_leg show ?thesis
    unfolding run_settled_def listLegs_def by (simp add: Ball_def) blast
qed

theorem completed_runs_are_settled_witness:
  "\<exists>r l. run_of (fd_mv delivered) (uuid 0) = Some r \<and> vr_status r = RUN_COMPLETED \<and>
    listLegs (fd_mv delivered) (uuid 0) = [l] \<and> isTerminalLegStatus (rl_status l)"
proof -
  obtain r where r: "run_of (fd_mv delivered) (uuid 0) = Some r" "vr_status r = RUN_COMPLETED"
    using delivered_run by auto
  have "length (listLegs (fd_mv delivered) (uuid 0)) = 1" by code_simp
  then obtain l where l: "listLegs (fd_mv delivered) (uuid 0) = [l]" by (auto simp: length_Suc_conv)
  with r completed_runs_are_settled [OF sample_closure calm_delivery delivered_def r] show ?thesis by simp
qed


definition delivered_rows :: "RunCheckpoint list" where
  "delivered_rows = ck_rows (fd_ck delivered)"


text \<open>
  C8. Whatever the history, waiting sessions are consistent: at most one is open for a leg, a client event starts at
  most one of a leg, each stands on an arrival at the delivery of its own leg recorded for its own driver no later
  than its start, none starts after the receiver accepted, and an ended one ends no earlier than it starts, either
  by the operator or at the very instant at which the acceptance that it names was received.
\<close>

theorem waiting_sessions_consistent:
  assumes "transport_closure env cenv" "calm_history history" "s = field_after env cenv history empty_field"
  shows "length (filter (open_on_leg g) (wt_rows (fd_wt s))) \<le> 1 \<and>
    length (filter (started_by_event g event) (wt_rows (fd_wt s))) \<le> 1 \<and>
    (\<forall>q \<in> set (wt_rows (fd_wt s)).
      (\<exists>l. leg_of (fd_mv s) (ws_legId q) = Some l \<and> rl_runId l = ws_runId q) \<and>
      (\<exists>a \<in> set (checkpointsForLeg (fd_ck s) (ws_legId q)). cp_id a = ws_arrivalCheckpointId q \<and>
        cp_type a = DELIVERY_ARRIVAL \<and> cp_driverId a = ws_driverId q \<and> cp_receivedAt a \<le> ws_startedAt q) \<and>
      (\<forall>c \<in> set (checkpointsForLeg (fd_ck s) (ws_legId q)).
        cp_type c = DELIVERY_ACCEPTED \<longrightarrow> ws_startedAt q \<le> cp_receivedAt c) \<and>
      (ws_status q = WAITING_OPEN \<longleftrightarrow> ws_endedAt q = None) \<and>
      (\<forall>e. ws_endedAt q = Some e \<longrightarrow> ws_startedAt q \<le> e \<and>
        (ws_closeReason q = Some OPERATOR_CLOSED \<or>
         (\<exists>c \<in> set (checkpointsForLeg (fd_ck s) (ws_legId q)). cp_type c = DELIVERY_ACCEPTED \<and>
            ws_closingCheckpointId q = Some (cp_id c) \<and> cp_receivedAt c = e))))"
proof -
  have ok: "field_ok s" unfolding assms(3) by (rule field_after_ok [OF assms(2,1)])
  have once: "length (filter (started_by_event g event) (wt_rows (fd_wt s))) \<le> 1"
    using ok by (intro one_of_key [where f = "\<lambda>r. (ws_legId r, ws_startClientEventId r)" and v = "(g, event)"])
      (simp_all add: field_ok_def started_once_def started_by_event_def)
  moreover have "length (filter (open_on_leg g) (wt_rows (fd_wt s))) \<le> 1"
    using ok by (simp add: field_ok_def one_open_per_leg_def)
  moreover have sound: "session_ok (fd_mv s) (fd_clock s) (ck_rows (fd_ck s)) q" if "q \<in> set (wt_rows (fd_wt s))" for q
    using ok that by (simp add: field_ok_def)
  ultimately show ?thesis
    by (intro conjI ballI)
      (assumption | rule session_reads(1,2,4) [OF sound] session_reads(3) [OF sound, THEN bspec] |
       intro allI impI, rule session_reads(5) [OF sound])+
qed

definition waited :: DeliveryWaitingSession where
  "waited = hd (wt_rows (fd_wt delivered))"

theorem waiting_sessions_consistent_witness:
  "ws_endedAt waited = Some 36 \<and> ws_startedAt waited \<le> 36 \<and>
   (\<exists>c \<in> set (checkpointsForLeg (fd_ck delivered) (ws_legId waited)). ws_closingCheckpointId waited = Some (cp_id c))"
proof -
  have w: "ws_endedAt waited = Some 36 \<and> ws_closeReason waited = Some RECEIVER_ACCEPTED \<and> wt_rows (fd_wt delivered) \<noteq> []"
    by code_simp
  then have "waited \<in> set (wt_rows (fd_wt delivered))" by (simp add: waited_def)
  with w waiting_sessions_consistent [OF sample_closure calm_delivery delivered_def] show ?thesis by fastforce
qed


definition waiting_at_receiver :: field where
  "waiting_at_receiver = field_after sample_field_env sample_closure_env (map (Pair ticking) to_receiver) empty_field"

lemma calm_to_receiver: "calm_history (map (Pair ticking) cs)"
  by (auto simp: calm_history_def calm_ticking)


section \<open>The decision to close\<close>

definition completed_at :: "ClosureLegFacts \<Rightarrow> timestamp \<times> int" where
  "completed_at l = (the (cf_completedAt l), cf_sequence l)"

definition finished :: "ClosureLegFacts \<Rightarrow> bool" where
  "finished l \<longleftrightarrow> cf_status l = LEG_COMPLETED \<and> cf_completedAt l \<noteq> None"

lemma later_completion_eq:
  "later_completion l best =
     (if finished l \<and> (\<forall>b. best = Some b \<longrightarrow> completed_at b < completed_at l) then Some l else best)"
  by (auto simp: later_completion_def finished_def completed_at_def split: option.splits)

lemma fold_none: "fold later_completion ls best = None \<longleftrightarrow> best = None \<and> (\<forall>k \<in> set ls. \<not> finished k)"
  by (induction ls arbitrary: best) (auto simp: later_completion_eq)

lemma fold_last:
  "fold later_completion ls best = Some l \<Longrightarrow>
     (best = Some l \<or> l \<in> set ls \<and> finished l) \<and>
     (\<forall>k. best = Some k \<or> k \<in> set ls \<and> finished k \<longrightarrow> completed_at k \<le> completed_at l)"
proof (induction ls arbitrary: best)
  case (Cons x ls)
  from Cons.IH [of "later_completion x best"] Cons.prems
  have "(later_completion x best = Some l \<or> l \<in> set ls \<and> finished l)"
    "\<And>k. later_completion x best = Some k \<or> k \<in> set ls \<and> finished k \<Longrightarrow> completed_at k \<le> completed_at l"
    by auto
  then show ?case unfolding later_completion_eq
    by (auto split: if_splits) (metis less_imp_le order_trans not_le)+
qed simp

text \<open>The last completed leg is the one with the greatest completion time, then the greatest sequence.\<close>

lemma lastCompleted_iff:
  assumes "distinct (map cf_sequence legs)"
  shows "lastCompleted legs = Some l \<longleftrightarrow>
    l \<in> set legs \<and> finished l \<and> (\<forall>k \<in> set legs. finished k \<longrightarrow> completed_at k \<le> completed_at l)"
proof
  assume "lastCompleted legs = Some l"
  with fold_last [of legs None l] show "l \<in> set legs \<and> finished l \<and>
      (\<forall>k \<in> set legs. finished k \<longrightarrow> completed_at k \<le> completed_at l)"
    by (simp add: lastCompleted_def)
next
  assume l: "l \<in> set legs \<and> finished l \<and> (\<forall>k \<in> set legs. finished k \<longrightarrow> completed_at k \<le> completed_at l)"
  then obtain b where b: "lastCompleted legs = Some b" using fold_none [of legs None] by (auto simp: lastCompleted_def)
  with fold_last [of legs None b] l have "b \<in> set legs" "completed_at b = completed_at l"
    by (auto simp: lastCompleted_def intro: antisym)
  with l have "b = l" using assms by (auto simp: completed_at_def distinct_map dest: inj_onD)
  with b show "lastCompleted legs = Some l" by simp
qed

lemma no_blockers_iff:
  "blockers_of facts = [] \<longleftrightarrow>
     rf_runStatus facts = RUN_ACTIVE \<and> (\<forall>l \<in> set (rf_legs facts). \<not> IS_OPEN l) \<and> rf_openPlanCount facts = 0 \<and>
     lastCompleted (rf_legs facts) \<noteq> None \<and> rf_additionalBlockers facts = []"
  by (auto simp: blockers_of_def list_ex_iff)

definition home_or_idle :: "(string \<Rightarrow> string) \<Rightarrow> RunClosureFacts \<Rightarrow> ClosureLegFacts \<Rightarrow> bool" where
  "home_or_idle lower facts l \<longleftrightarrow>
     (\<exists>d. rf_depot facts = Some d \<and> sameSite lower (cf_destinationLabel l) (dp_label d)) \<or>
     (\<exists>hours. rf_idleHours facts = Some hours \<and> hours * HOUR_MS \<le> rf_now facts - the (cf_completedAt l))"

lemma closable_last:
  assumes "finished l" "lastCompleted (rf_legs facts) = Some l"
  shows "rv_closable (evaluateRunClosure lower facts) \<longleftrightarrow> blockers_of facts = [] \<and> home_or_idle lower facts l"
  using assms by (auto simp: evaluateRunClosure_def Let_def home_or_idle_def finished_def split: option.splits)

text \<open>
  C37. A run may be closed exactly when it is active, none of its legs is planned or under way, no plan for it is
  open, no source reports a blocker, and the leg that was completed last (by time, then by sequence) ended at the
  depot or lies at least the configured number of hours back.
\<close>

theorem run_closable_iff:
  assumes "distinct (map cf_sequence (rf_legs facts))"
  shows "rv_closable (evaluateRunClosure lower facts) \<longleftrightarrow>
    rf_runStatus facts = RUN_ACTIVE \<and>
    (\<forall>l \<in> set (rf_legs facts). cf_status l \<noteq> LEG_PLANNED \<and> cf_status l \<noteq> LEG_IN_TRANSIT) \<and>
    rf_openPlanCount facts = 0 \<and> rf_additionalBlockers facts = [] \<and>
    (\<exists>l \<in> set (rf_legs facts). finished l \<and>
      (\<forall>k \<in> set (rf_legs facts). finished k \<longrightarrow> completed_at k \<le> completed_at l) \<and> home_or_idle lower facts l)"
proof (cases "lastCompleted (rf_legs facts)")
  case None
  then have "\<not> rv_closable (evaluateRunClosure lower facts)" by (simp add: evaluateRunClosure_def Let_def)
  moreover have "\<not> finished l" if "l \<in> set (rf_legs facts)" for l
    using None that fold_none [of "rf_legs facts" None] by (simp add: lastCompleted_def)
  ultimately show ?thesis by blast
next
  case (Some l)
  with lastCompleted_iff [OF assms] have l: "l \<in> set (rf_legs facts)" "finished l"
    "\<forall>k \<in> set (rf_legs facts). finished k \<longrightarrow> completed_at k \<le> completed_at l" by blast+
  have only: "k = l" if "k \<in> set (rf_legs facts)" "finished k"
    "\<forall>j \<in> set (rf_legs facts). finished j \<longrightarrow> completed_at j \<le> completed_at k" for k
    using lastCompleted_iff [OF assms, of k] that Some by simp
  have last_leg: "(\<exists>k \<in> set (rf_legs facts). finished k \<and>
      (\<forall>j \<in> set (rf_legs facts). finished j \<longrightarrow> completed_at j \<le> completed_at k) \<and> home_or_idle lower facts k) \<longleftrightarrow>
      home_or_idle lower facts l"
    using l only by blast
  show ?thesis unfolding closable_last [OF l(2) Some] no_blockers_iff last_leg using Some by (simp add: IS_OPEN_def)
qed

definition sample_closure_facts :: RunClosureFacts where
  "sample_closure_facts =
     \<lparr>rf_runStatus = RUN_ACTIVE,
      rf_legs = [\<lparr>cf_id = ''A'', cf_sequence = 1, cf_status = LEG_COMPLETED, cf_destinationLabel = ''Bai  xe'',
          cf_completedAt = Some 10\<rparr>,
        \<lparr>cf_id = ''B'', cf_sequence = 2, cf_status = LEG_CANCELLED, cf_destinationLabel = ''Cang'', cf_completedAt = None\<rparr>],
      rf_openPlanCount = 0, rf_depot = Some \<lparr>dp_code = ''BAI'', dp_label = ''Bai xe''\<rparr>, rf_idleHours = None,
      rf_now = 20, rf_additionalBlockers = []\<rparr>"

theorem run_closable_iff_witness:
  "rv_closable (evaluateRunClosure id sample_closure_facts) \<and>
   (\<exists>l \<in> set (rf_legs sample_closure_facts). finished l \<and> home_or_idle id sample_closure_facts l)"
proof -
  have "distinct (map cf_sequence (rf_legs sample_closure_facts)) \<and> rv_closable (evaluateRunClosure id sample_closure_facts)"
    by code_simp
  with run_closable_iff [of sample_closure_facts id] show ?thesis by blast
qed

end
