(* ===== verification/FieldRaces.thy ===== *)
theory FieldRaces imports FieldGuarantees begin

text \<open>
  The writes that are not decided under the lock of the run: the status of a run, which is written whatever it has
  become since it was read, and the rule that a checkpoint is recorded once, which is only checked before the lock.
  And a run that can never be closed: one with a leg completed against what its checkpoints say.
\<close>

section \<open>The status of a run\<close>

text \<open>Starting a run that was cancelled since it was read makes it active again.\<close>

lemma started_run_revives_cancelled:
  assumes "run_of (fd_mv s) i = Some r" "vr_id r = i" "vr_status r = RUN_PLANNED" "legsOf (fd_mv s) i \<noteq> []"
    and "w = alone\<lparr>others := \<lambda>n u. if n = 1 then snd (cancelRun alone i why u) else u\<rparr>"
  shows "\<exists>r' t. transitionRun w i RUN_ACTIVE s = (Inr r', t) \<and> run_of (fd_mv t) i = Some r' \<and>
    vr_status r' = RUN_ACTIVE \<and> vr_cancelledAt r' = Some (fd_clock s) \<and> vr_cancellationReason r' = Some why"
proof -
  have cancelled: "snd (cancelRun alone i why s) = s\<lparr>fd_mv := put_run (cancelled_run (fd_clock s) why r) (fd_mv s)\<rparr>"
    using assms by (simp add: cancelRun_def requireRun_def require_field_run_def bnd_eq query_def ret_def
        evaluateRunCancel_def await_def alone_def on_mv_def mem_cancelRun_def)
  have "evaluateRunTransition RUN_PLANNED RUN_ACTIVE (length (listLegs (fd_mv s) i)) = Allowed"
    using assms(4) by (simp add: run_transition_only_starts listLegs_def)
  moreover have "run_of (put_run (cancelled_run (fd_clock s) why r) (fd_mv s)) i = Some (cancelled_run (fd_clock s) why r)"
    using assms(2) by (simp add: cancelled_run_def)
  ultimately show ?thesis using assms cancelled
    by (simp add: transitionRun_def requireRun_def require_field_run_def bnd_eq query_def ret_def
        await_def alone_def on_mv_def mem_setRunStatus_def marked_run_def cancelled_run_def)
qed

text \<open>
  C40. A cancellation is decided on the run as it was read and written without looking again: when the system closes
  the run in between, the run that was just completed becomes cancelled, with its completion time kept.
\<close>

theorem late_cancel_overwrites_completed:
  assumes "transport_closure env cenv" "calm_history history" "s = field_after env cenv history empty_field"
    and "run_of (fd_mv s) i = Some r" "vr_status r = RUN_ACTIVE"
    and "attempt cenv alone i s = (Inr outcome, t)" "ro_closed outcome"
    and "w = alone\<lparr>others := \<lambda>n u. if n = 0 then snd (attempt cenv alone i u) else u\<rparr>"
  shows "run_of (fd_mv t) i = Some (ro_run outcome) \<and> vr_status (ro_run outcome) = RUN_COMPLETED \<and>
    (\<exists>r' u. cancelRun w i why s = (Inr r', u) \<and> run_of (fd_mv u) i = Some r' \<and> vr_status r' = RUN_CANCELLED \<and>
      vr_completedAt r' = vr_completedAt (ro_run outcome))"
proof -
  have ok: "field_ok s" unfolding assms(3) by (rule field_after_ok [OF assms(2,1)])
  have source: "cl_source cenv = Some (transport_blockers env)" using assms(1) by (simp add: transport_closure_def)
  note walk = transport.walks_attempt [OF calm_alone source]
  have now: "closed_now i (ro_run outcome) t" using walks_answer [OF walk ok assms(6)] assms(7) by simp
  have "field_ok t" using field_path_ok [OF walks_path [OF walk ok] ok] assms(6) by (metis snd_conv)
  then have "vr_id (ro_run outcome) = i" using now movement_keys(1) [of "fd_mv t" i] by (simp add: field_ok_def closed_now_def)
  then have "run_of (put_run (cancelled_run (fd_clock t) why (ro_run outcome)) (fd_mv t)) i =
      Some (cancelled_run (fd_clock t) why (ro_run outcome))"
    by (simp add: cancelled_run_def)
  with now assms(4-8) show ?thesis
    by (simp add: closed_now_def cancelRun_def requireRun_def require_field_run_def bnd_eq query_def ret_def
        evaluateRunCancel_def await_def alone_def on_mv_def mem_cancelRun_def cancelled_run_def)
qed

definition at_depot :: field where
  "at_depot = field_after sample_field_env sample_closure_env
     (map (Pair ticking) (to_receiver @ [RecordAsDriver acceptance, TransitionLeg True (uuid 1) LEG_COMPLETED None])) empty_field"

theorem late_cancel_overwrites_completed_witness:
  "\<exists>w r u. cancelRun w (uuid 0) ''tre'' at_depot = (Inr r, u) \<and> vr_status r = RUN_CANCELLED"
proof -
  let ?a = "attempt sample_closure_env alone (uuid 0) at_depot"
  have "(case fst ?a of Inl e \<Rightarrow> False | Inr c \<Rightarrow> ro_closed c) \<and>
      map_option vr_status (run_of (fd_mv at_depot) (uuid 0)) = Some RUN_ACTIVE"
    by code_simp
  then obtain c r where c: "?a = (Inr c, snd ?a)" "ro_closed c" and
    r: "run_of (fd_mv at_depot) (uuid 0) = Some r" "vr_status r = RUN_ACTIVE"
    by (cases "?a") (auto split: sum.splits)
  have h: "calm_history (map (Pair ticking) cs)" for cs by (auto simp: calm_history_def calm_ticking)
  from late_cancel_overwrites_completed [OF sample_closure h at_depot_def r c refl, of "''tre''"] show ?thesis by blast
qed

section \<open>A checkpoint recorded once\<close>

text \<open>All that the write under the lock asks for: nothing about the types that were recorded already.\<close>

definition lock_admits ::
  "field_env \<Rightarrow> RecordCheckpointCommand \<Rightarrow> ident option \<times> timestamp option \<Rightarrow> field \<Rightarrow> business_date \<Rightarrow> bool" where
  "lock_admits env command observation s day \<longleftrightarrow>
     (\<exists>r. run_of (fd_mv s) (rc_runId command) = Some r \<and> \<not> isTerminalRunStatus (vr_status r)) \<and>
     (\<forall>g. rc_legId command = Some g \<longrightarrow>
        (\<exists>l. List.find (\<lambda>l. rl_id l = g) (listLegs (fd_mv s) (rc_runId command)) = Some l \<and>
          legAcceptsNewCheckpoints (rl_status l))) \<and>
     domain (toBusinessDate (fe_intl env) (Some (fd_clock s)) (fe_timeZone env)) = Inr day \<and>
     \<not> list_ex (same_event (rc_runId command) (rc_type command) (rc_clientEventId command)) (ck_rows (fd_ck s)) \<and>
     (fst observation \<noteq> None \<longrightarrow> \<not> list_ex (\<lambda>x. cp_observationId x = fst observation) (ck_rows (fd_ck s)))"

lemma revalidate_iff:
  "fst (revalidate_checkpoint scope g s) = Inr u \<longleftrightarrow>
     \<not> isTerminalRunStatus (vr_status (sc_run scope)) \<and>
     (\<forall>i. g = Some i \<longrightarrow> (\<exists>l. List.find (\<lambda>l. rl_id l = i) (sc_legs scope) = Some l \<and> legAcceptsNewCheckpoints (rl_status l)))"
  "snd (revalidate_checkpoint scope g s) = s"
  by (auto simp: revalidate_checkpoint_def fail_def throw_def ret_def split: option.splits)

lemma record_under_lock_iff:
  "record_under_lock env command driverId observation s = (Inr c, t) \<longleftrightarrow>
     (\<exists>day. let input = checkpoint_input command driverId observation (fd_clock s) day in
        lock_admits env command observation s day \<and> c = new_checkpoint input (uuid (ck_next (fd_ck s))) \<and>
        t = s\<lparr>fd_ck := add_checkpoint input (fd_ck s)\<rparr>)"
proof (cases "run_of (fd_mv s) (rc_runId command)")
  case None
  then show ?thesis by (simp add: record_under_lock_def underRunLock_def lock_admits_def Let_def)
next
  case (Some r)
  let ?scope = "\<lparr>sc_run = r, sc_legs = listLegs (fd_mv s) (rc_runId command)\<rparr>"
  show ?thesis
  proof (cases "fst (revalidate_checkpoint ?scope (rc_legId command) s)")
    case (Inl e)
    then have "\<not> lock_admits env command observation s day" for day
      using revalidate_iff(1) [of ?scope "rc_legId command" s] Some by (auto simp: lock_admits_def)
    with Inl Some revalidate_iff(2) show ?thesis
      by (simp add: record_under_lock_def underRunLock_def bnd_eq Let_def)
  next
    case (Inr u)
    then have live: "\<not> isTerminalRunStatus (vr_status r)" and
      legs: "\<forall>g. rc_legId command = Some g \<longrightarrow>
        (\<exists>l. List.find (\<lambda>l. rl_id l = g) (listLegs (fd_mv s) (rc_runId command)) = Some l \<and>
          legAcceptsNewCheckpoints (rl_status l))"
      using revalidate_iff(1) [of ?scope "rc_legId command" s] by simp_all
    show ?thesis
    proof (cases "domain (toBusinessDate (fe_intl env) (Some (fd_clock s)) (fe_timeZone env))")
      case (Inl e)
      then show ?thesis using Inr Some
        by (simp add: record_under_lock_def underRunLock_def bnd_eq query_def revalidate_iff(2) today_def lift_def
            lock_admits_def Let_def)
    next
      case day: (Inr day)
      let ?input = "checkpoint_input command driverId observation (fd_clock s) day"
      have "record_under_lock env command driverId observation s = on_ck (mem_createCheckpoint ?input) s"
        using Inr Some day
        by (simp add: record_under_lock_def underRunLock_def bnd_eq query_def revalidate_iff(2) today_def lift_def)
      moreover have "on_ck (mem_createCheckpoint ?input) s = (Inr c, t) \<longleftrightarrow>
          lock_admits env command observation s day \<and> c = new_checkpoint ?input (uuid (ck_next (fd_ck s))) \<and>
          t = s\<lparr>fd_ck := add_checkpoint ?input (fd_ck s)\<rparr>"
        using Some live legs day by (auto simp: on_ck_def mem_createCheckpoint_def lock_admits_def checkpoint_input_def)
      moreover have "day' = day" if "lock_admits env command observation s day'" for day'
        using that day by (simp add: lock_admits_def)
      ultimately show ?thesis by (auto simp: Let_def)
    qed
  qed
qed

lemma record_under_lock_fails:
  "fst (record_under_lock env command driverId observation s) = Inl e \<Longrightarrow>
    snd (record_under_lock env command driverId observation s) = s"
  by (auto simp: record_under_lock_def underRunLock_def bnd_eq query_def revalidate_iff(2) today_def lift_def on_ck_def
      mem_createCheckpoint_def split: option.splits sum.splits if_splits)

lemma command_leg_reads: "snd (command_leg command s) = s"
  by (auto simp: command_leg_def bnd_eq query_def fail_def throw_def ret_def split: option.splits)

lemma command_observation_reads: "snd (command_observation env command d s) = s"
  by (auto simp: command_observation_def fail_def throw_def ret_def split: option.splits)

text \<open>What ends a session touches only the sessions.\<close>

lemma settle_keeps:
  assumes "\<And>n u. 19 \<le> n \<Longrightarrow> others w n u = u"
  shows "fd_ck (snd (settleWaiting w c s)) = fd_ck s" "fd_mv (snd (settleWaiting w c s)) = fd_mv s"
    "fd_clock (snd (settleWaiting w c s)) = fd_clock s"
proof -
  have "fd_ck (snd (closeByAcceptance w c s)) = fd_ck s \<and> fd_mv (snd (closeByAcceptance w c s)) = fd_mv s \<and>
      fd_clock (snd (closeByAcceptance w c s)) = fd_clock s"
    using assms by (auto simp: closeByAcceptance_def bnd_eq query_def await_def attempting_def on_wt_def ret_def throw_def
        split: option.split prod.split sum.split field_error.split)
  then show "fd_ck (snd (settleWaiting w c s)) = fd_ck s" "fd_mv (snd (settleWaiting w c s)) = fd_mv s"
    "fd_clock (snd (settleWaiting w c s)) = fd_clock s"
    using assms by (auto simp: settleWaiting_def bnd_eq await_def ret_def split: sum.split)
qed

text \<open>The checks that precede the lock, made on one state.\<close>

definition checks_pass ::
  "field_env \<Rightarrow> RecordCheckpointCommand \<Rightarrow> ident \<Rightarrow> ident option \<times> timestamp option \<Rightarrow> field \<Rightarrow> bool" where
  "checks_pass env command driverId observation s \<longleftrightarrow>
     fe_driverByAuthUser env (rc_authUserId command) = Some driverId \<and>
     findCheckpointByEvent (fd_ck s) (rc_runId command) (rc_type command) (rc_clientEventId command) = None \<and>
     (\<exists>run leg. run_of (fd_mv s) (rc_runId command) = Some run \<and>
        wasDriverEverAssignedToRun (fd_mv s) (vr_id run) driverId \<and> fst (command_leg command s) = Inr leg \<and>
        evaluateCheckpoint
          \<lparr>ce_type = rc_type command, ce_runTerminal = isTerminalRunStatus (vr_status run),
           ce_hasLeg = (rc_legId command \<noteq> None), ce_legKind = map_option rl_kind leg,
           ce_legStatus = map_option rl_status leg, ce_recordedTypes = recorded_types command s,
           ce_hasObservation = (rc_observationId command \<noteq> None),
           ce_locationRequiredTypes = fe_locationRequired env\<rparr> = Allowed) \<and>
     fst (command_observation env command (Some driverId) s) = Inr observation"

lemma checks_reach_lock:
  assumes "checks_pass env command driverId observation s" "\<And>n u. n < 4 \<Longrightarrow> others w n u = u"
  obtains h where "recordAsDriver env w command s =
      attempting (record_under_lock env command (Some driverId) observation) h (settleWaiting w) (others w 4 s)"
    and "\<And>e u. findCheckpointByEvent (fd_ck (others w 5 u)) (rc_runId command) (rc_type command)
      (rc_clientEventId command) = None \<Longrightarrow> \<exists>e'. fst (h e u) = Inl e'"
proof -
  let ?h = "\<lambda>err. bnd (await w 5) (\<lambda>_.
      if isUniqueViolationOn err CHECKPOINT_CLIENT_EVENT
      then bnd (query (\<lambda>s. findCheckpointByEvent (fd_ck s) (rc_runId command) (rc_type command) (rc_clientEventId command)))
        (\<lambda>already. case already of Some r \<Rightarrow> settleWaiting w r | None \<Rightarrow> throw err)
      else if isUniqueViolationOn err CHECKPOINT_OBSERVATION_ONCE
      then fail (conflict ''CHECKPOINT_OBSERVATION_ALREADY_USED'') else throw err)"
  have "recordAsDriver env w command s =
      attempting (record_under_lock env command (Some driverId) observation) ?h (settleWaiting w) (others w 4 s)"
    using assms unfolding checks_pass_def
    by (auto simp: recordAsDriver_def require_field_run_def bnd_eq query_def ret_def await_def append_checkpoint_def
        command_leg_reads command_observation_reads)
  then show ?thesis by (rule that) (auto simp: bnd_eq await_def query_def throw_def fail_def)
qed

lemma recorded_alone:
  assumes r: "recordAsDriver env alone command s = (Inr a, t)"
    and new: "findCheckpointByEvent (fd_ck s) (rc_runId command) (rc_type command) (rc_clientEventId command) = None"
  obtains driverId observation c u where "checks_pass env command driverId observation s"
    "record_under_lock env command (Some driverId) observation s = (Inr c, u)" "t = snd (settleWaiting alone c u)"
proof -
  have "\<exists>driverId observation. checks_pass env command driverId observation s"
    using r new unfolding recordAsDriver_def append_checkpoint_def checks_pass_def
    by (fastforce simp: require_field_run_def bnd_eq query_def ret_def await_def alone_def throw_def fail_def
        command_leg_reads command_observation_reads split: option.splits sum.splits if_splits transition_decision.splits)
  then obtain driverId observation where p: "checks_pass env command driverId observation s" by blast
  obtain h where h: "recordAsDriver env alone command s =
      attempting (record_under_lock env command (Some driverId) observation) h (settleWaiting alone) s"
    and lost: "\<And>e u. findCheckpointByEvent (fd_ck u) (rc_runId command) (rc_type command) (rc_clientEventId command) = None
      \<Longrightarrow> \<exists>e'. fst (h e u) = Inl e'"
    using checks_reach_lock [OF p, of alone] by (auto simp: alone_def)
  show ?thesis
  proof (cases "fst (record_under_lock env command (Some driverId) observation s)")
    case (Inl e)
    then have "attempting (record_under_lock env command (Some driverId) observation) h (settleWaiting alone) s = h e s"
      using record_under_lock_fails [OF Inl] by (cases "record_under_lock env command (Some driverId) observation s")
        (simp add: attempting_def)
    with h r lost [OF new, of e] show ?thesis by (metis Inl_Inr_False fst_conv)
  next
    case (Inr c)
    then obtain u where locked: "record_under_lock env command (Some driverId) observation s = (Inr c, u)"
      by (cases "record_under_lock env command (Some driverId) observation s") simp
    then have "attempting (record_under_lock env command (Some driverId) observation) h (settleWaiting alone) s =
        settleWaiting alone c u" by (simp add: attempting_def)
    with h r have "t = snd (settleWaiting alone c u)" by (metis snd_conv)
    with that [OF p locked] show ?thesis .
  qed
qed

lemma observation_used:
  "fst (command_observation env command d s) = Inr observation \<Longrightarrow> fst observation \<noteq> None \<Longrightarrow>
    \<exists>i ob. rc_observationId command = Some i \<and> fe_observation env i = Some ob \<and> fst observation = Some (ob_id ob)"
  by (auto simp: command_observation_def ret_def fail_def throw_def split: option.splits if_splits)

text \<open>
  C38. A checkpoint type that may be recorded once for a leg or a run is recorded twice when two drivers' events race:
  if each of two events of the same type, with their own event and location proof, would be recorded from the present
  state, and the second runs between the checks of the first and its lock, both rows are stored. The checks under
  the lock do not look at the types that were recorded meanwhile.
\<close>

theorem racing_checkpoints_both_recorded:
  assumes same: "rc_runId two = rc_runId one" "rc_legId two = rc_legId one" "rc_type two = rc_type one"
    and apart: "rc_clientEventId two \<noteq> rc_clientEventId one"
      "\<forall>i j a b. rc_observationId one = Some i \<and> rc_observationId two = Some j \<and> fe_observation env i = Some a \<and>
        fe_observation env j = Some b \<longrightarrow> ob_id a \<noteq> ob_id b"
    and fresh: "findCheckpointByEvent (fd_ck s) (rc_runId one) (rc_type one) (rc_clientEventId one) = None"
      "findCheckpointByEvent (fd_ck s) (rc_runId two) (rc_type two) (rc_clientEventId two) = None"
    and alone_one: "recordAsDriver env alone one s = (Inr a, t)" and alone_two: "recordAsDriver env alone two s = (Inr b, u)"
    and w: "w = alone\<lparr>others := \<lambda>n v. if n = 4 then snd (recordAsDriver env alone two v) else v\<rparr>"
  shows "\<exists>x y. ck_rows (fd_ck (snd (recordAsDriver env w one s))) = ck_rows (fd_ck s) @ [y, x] \<and>
    cp_type x = rc_type one \<and> cp_type y = rc_type one \<and> cp_legId x = rc_legId one \<and> cp_legId y = rc_legId one \<and>
    cp_runId x = rc_runId one \<and> cp_runId y = rc_runId one"
proof -
  obtain d1 o1 c1 u1 where p1: "checks_pass env one d1 o1 s"
    "record_under_lock env one (Some d1) o1 s = (Inr c1, u1)" by (rule recorded_alone [OF alone_one fresh(1)])
  obtain d2 o2 c2 u2 where p2: "checks_pass env two d2 o2 s"
    "record_under_lock env two (Some d2) o2 s = (Inr c2, u2)" "u = snd (settleWaiting alone c2 u2)"
    by (rule recorded_alone [OF alone_two fresh(2)])
  from p1(2) obtain day where l1: "lock_admits env one o1 s day" by (auto simp: record_under_lock_iff Let_def)
  from p2(2) obtain day2 where l2: "c2 = new_checkpoint (checkpoint_input two (Some d2) o2 (fd_clock s) day2) (uuid (ck_next (fd_ck s)))"
    "u2 = s\<lparr>fd_ck := add_checkpoint (checkpoint_input two (Some d2) o2 (fd_clock s) day2) (fd_ck s)\<rparr>"
    by (auto simp: record_under_lock_iff Let_def)
  have u: "fd_mv u = fd_mv s" "fd_clock u = fd_clock s" "ck_rows (fd_ck u) = ck_rows (fd_ck s) @ [c2]"
    using settle_keeps [of alone c2 u2] p2(3) l2 by (simp_all add: alone_def)
  have row: "cp_type c2 = rc_type one" "cp_legId c2 = rc_legId one" "cp_runId c2 = rc_runId one"
    "cp_clientEventId c2 = rc_clientEventId two" "cp_observationId c2 = fst o2"
    using l2(1) same by (simp_all add: checkpoint_input_def)
  have proofs: "fst o1 \<noteq> None \<longrightarrow> fst o2 \<noteq> fst o1"
  proof (intro impI notI)
    assume o1: "fst o1 \<noteq> None" and eq: "fst o2 = fst o1"
    with observation_used [of env one "Some d1" s o1] observation_used [of env two "Some d2" s o2] p1(1) p2(1) apart(2)
    show False by (fastforce simp: checks_pass_def)
  qed
  have "lock_admits env one o1 u day"
    using l1 u row proofs apart(1) by (auto simp: lock_admits_def same_event_def)
  let ?input = "checkpoint_input one (Some d1) o1 (fd_clock u) day"
  let ?c = "new_checkpoint ?input (uuid (ck_next (fd_ck u)))" and ?v = "u\<lparr>fd_ck := add_checkpoint ?input (fd_ck u)\<rparr>"
  have v: "record_under_lock env one (Some d1) o1 u = (Inr ?c, ?v)"
    unfolding record_under_lock_iff using \<open>lock_admits env one o1 u day\<close> by (auto simp: Let_def)
  have rows: "ck_rows (fd_ck ?v) = ck_rows (fd_ck s) @ [c2, ?c]" using u(3) by simp
  have early: "others w n v = v" if "n < 4" for n v using that w by simp
  obtain h where "recordAsDriver env w one s =
      attempting (record_under_lock env one (Some d1) o1) h (settleWaiting w) (others w 4 s)"
    by (rule checks_reach_lock [OF p1(1) early])
  then have "recordAsDriver env w one s = settleWaiting w ?c ?v" using v alone_two w by (simp add: attempting_def)
  moreover have "fd_ck (snd (settleWaiting w ?c ?v)) = fd_ck ?v" using w by (intro settle_keeps(1)) (simp add: alone_def)
  ultimately have "ck_rows (fd_ck (snd (recordAsDriver env w one s))) = ck_rows (fd_ck s) @ [c2, ?c]" using rows by simp
  moreover have "cp_type ?c = rc_type one" "cp_legId ?c = rc_legId one" "cp_runId ?c = rc_runId one"
    by (simp_all add: checkpoint_input_def)
  ultimately show ?thesis using row(1-3) by blast
qed

definition other_acceptance :: RecordCheckpointCommand where
  "other_acceptance = sample_checkpoint DELIVERY_ACCEPTED ''e5'' (Some ''O3'')"

lemma acceptances_would_pass:
  "(case fst (recordAsDriver sample_field_env alone acceptance waiting_at_receiver) of Inl e \<Rightarrow> False | Inr c \<Rightarrow> True) \<and>
   (case fst (recordAsDriver sample_field_env alone other_acceptance waiting_at_receiver) of Inl e \<Rightarrow> False | Inr c \<Rightarrow> True) \<and>
   findCheckpointByEvent (fd_ck waiting_at_receiver) (rc_runId acceptance) (rc_type acceptance) (rc_clientEventId acceptance) = None \<and>
   findCheckpointByEvent (fd_ck waiting_at_receiver) (rc_runId other_acceptance) (rc_type other_acceptance)
     (rc_clientEventId other_acceptance) = None"
  by code_simp

theorem racing_checkpoints_both_recorded_witness:
  "\<exists>w xs x y. ck_rows (fd_ck (snd (recordAsDriver sample_field_env w acceptance waiting_at_receiver))) = xs @ [y, x] \<and>
    cp_type x = DELIVERY_ACCEPTED \<and> cp_type y = DELIVERY_ACCEPTED \<and> cp_legId x = Some (uuid 1) \<and> cp_legId y = Some (uuid 1)"
proof -
  obtain a t b u where runs: "recordAsDriver sample_field_env alone acceptance waiting_at_receiver = (Inr a, t)"
    "recordAsDriver sample_field_env alone other_acceptance waiting_at_receiver = (Inr b, u)"
    using acceptances_would_pass
    by (cases "recordAsDriver sample_field_env alone acceptance waiting_at_receiver";
        cases "recordAsDriver sample_field_env alone other_acceptance waiting_at_receiver")
      (auto split: sum.splits)
  have same: "rc_runId other_acceptance = rc_runId acceptance" "rc_legId other_acceptance = rc_legId acceptance"
    "rc_type other_acceptance = rc_type acceptance" "rc_clientEventId other_acceptance \<noteq> rc_clientEventId acceptance"
    "rc_type acceptance = DELIVERY_ACCEPTED" "rc_legId acceptance = Some (uuid 1)"
    by (simp_all add: acceptance_def other_acceptance_def sample_checkpoint_def)
  have proofs: "\<forall>i j a b. rc_observationId acceptance = Some i \<and> rc_observationId other_acceptance = Some j \<and>
      fe_observation sample_field_env i = Some a \<and> fe_observation sample_field_env j = Some b \<longrightarrow> ob_id a \<noteq> ob_id b"
    by (auto simp: acceptance_def other_acceptance_def sample_checkpoint_def sample_field_env_def)
  have fresh:
    "findCheckpointByEvent (fd_ck waiting_at_receiver) (rc_runId acceptance) (rc_type acceptance) (rc_clientEventId acceptance) = None"
    "findCheckpointByEvent (fd_ck waiting_at_receiver) (rc_runId other_acceptance) (rc_type other_acceptance)
      (rc_clientEventId other_acceptance) = None"
    using acceptances_would_pass by blast+
  from racing_checkpoints_both_recorded [OF same(1-4) proofs fresh runs refl] show ?thesis
    unfolding same(5,6) by blast
qed

section \<open>A leg completed by an override\<close>

definition left_aboard :: "ident \<Rightarrow> ident \<Rightarrow> field \<Rightarrow> bool" where
  "left_aboard g i s \<longleftrightarrow>
     (\<exists>l. leg_of (fd_mv s) g = Some l \<and> rl_runId l = i \<and> isTerminalLegStatus (rl_status l)) \<and>
     cargo_on_board (ck_rows (fd_ck s)) g"

lemma terminal_no_edge: "isTerminalLegStatus x \<Longrightarrow> LEG_EDGES x = []"
  by (cases x) (simp_all add: isTerminalLegStatus_def)

lemma field_step_left_aboard: "field_step k s t \<Longrightarrow> field_ok s \<Longrightarrow> left_aboard g i s \<Longrightarrow> left_aboard g i t"
proof (induction rule: field_step.induct)
  case (leg_created s input tm)
  then have "leg_of (fd_mv s) (uuid (mv_next (fd_mv s))) = None" by (simp add: field_ok_def movement_keys(4))
  with leg_created show ?case by (auto simp: left_aboard_def)
next
  case (leg_moved s h l to_status tm)
  then have "rl_id l = h" using movement_keys(2) [of "fd_mv s" h l] by (simp add: field_ok_def)
  with leg_moved show ?case by (auto simp: left_aboard_def terminal_no_edge)
next
  case (checkpoint_recorded s input)
  then have "cc_legId input \<noteq> Some g" by (auto simp: left_aboard_def can_record_def leg_open_def)
  with checkpoint_recorded show ?case by (auto simp: left_aboard_def cargo_on_board_def)
next
  case (driver_assigned m s)
  then show ?case by (simp add: left_aboard_def leg_of_def)
qed (auto simp: left_aboard_def)

lemma field_path_left_aboard: "field_path H s t \<Longrightarrow> field_ok s \<Longrightarrow> left_aboard g i s \<Longrightarrow> left_aboard g i t"
proof (induction rule: field_path.induct)
  case (path_step H s t k u)
  then show ?case using field_step_left_aboard field_path_ok by blast
qed

text \<open>
  C39. When a loaded leg was completed by an override while its checkpoints still say that the cargo is on board, its
  run is never completed, whatever commands follow: no later checkpoint of that leg is accepted that would say that
  the cargo was delivered, and the closure keeps being refused for it.
\<close>

theorem overridden_leg_never_closes:
  assumes "transport_closure env cenv" "calm_history history" "s = field_after env cenv history empty_field"
    and "l \<in> set (listLegs (fd_mv s) i)" "rl_status l = LEG_COMPLETED"
    and "isCarryingCargo (deriveLegPhase (map cp_type (checkpointsForLeg (fd_ck s) (rl_id l))))"
    and "calm_history afterwards"
  shows "\<forall>r. run_of (fd_mv (field_after env cenv afterwards s)) i = Some r \<longrightarrow> vr_status r \<noteq> RUN_COMPLETED"
proof (intro allI impI notI)
  fix r
  let ?t = "field_after env cenv afterwards s"
  assume r: "run_of (fd_mv ?t) i = Some r" "vr_status r = RUN_COMPLETED"
  have ok: "field_ok s" unfolding assms(3) by (rule field_after_ok [OF assms(2,1)])
  then have m: "movement_ok (fd_mv s)" by (simp add: field_ok_def)
  have "left_aboard (rl_id l) i s"
    using legsOf_read [OF m] assms(4-6) by (simp add: left_aboard_def listLegs_def cargo_for_leg)
  note path = field_after_path [OF ok assms(7,1)]
  have "left_aboard (rl_id l) i ?t" by (rule field_path_left_aboard [OF path ok]) fact
  moreover have "run_settled ?t i"
    using field_path_ok [OF path ok] r by (simp add: field_ok_def completed_settled_def)
  ultimately show False by (auto simp: left_aboard_def run_settled_def)
qed

definition overridden :: "(interference \<times> field_command) list" where
  "overridden = map (Pair ticking) (to_receiver @ [TransitionLeg True (uuid 1) LEG_COMPLETED (Some ''mat song'')])"

definition after_override :: field where
  "after_override = field_after sample_field_env sample_closure_env overridden empty_field"

text \<open>The operator ends the wait, then the closure is tried: the cargo is still reported.\<close>

definition close_attempts :: "(interference \<times> field_command) list" where
  "close_attempts = map (Pair ticking)
     [CloseWaiting \<lparr>co_sessionId = uuid 0, co_note = ''xong'', co_authUserId = ''ops''\<rparr>,
      RecordAsDriver acceptance, AttemptClosure (uuid 0)]"

theorem overridden_leg_never_closes_witness:
  "\<exists>r. run_of (fd_mv (field_after sample_field_env sample_closure_env close_attempts after_override)) (uuid 0) = Some r \<and>
    vr_status r \<noteq> RUN_COMPLETED \<and>
    (\<exists>l \<in> set (listLegs (fd_mv after_override) (uuid 0)). rl_status l = LEG_COMPLETED)"
proof -
  have "list_ex (\<lambda>l. rl_status l = LEG_COMPLETED \<and>
      isCarryingCargo (deriveLegPhase (map cp_type (checkpointsForLeg (fd_ck after_override) (rl_id l)))))
      (listLegs (fd_mv after_override) (uuid 0))"
    by code_simp
  then obtain l where l: "l \<in> set (listLegs (fd_mv after_override) (uuid 0))" "rl_status l = LEG_COMPLETED"
      "isCarryingCargo (deriveLegPhase (map cp_type (checkpointsForLeg (fd_ck after_override) (rl_id l))))"
    by (auto simp: list_ex_iff)
  have h: "calm_history (map (Pair ticking) cs)" for cs by (auto simp: calm_history_def calm_ticking)
  have "\<forall>r. run_of (fd_mv (field_after sample_field_env sample_closure_env close_attempts after_override)) (uuid 0) = Some r \<longrightarrow>
      vr_status r \<noteq> RUN_COMPLETED"
    by (rule overridden_leg_never_closes [OF sample_closure _ after_override_def l])
      (simp_all only: overridden_def close_attempts_def h)
  moreover have "run_of (fd_mv (field_after sample_field_env sample_closure_env close_attempts after_override)) (uuid 0) \<noteq> None"
    by code_simp
  ultimately show ?thesis using l(1,2) by auto
qed

end
