(* ===== verification/Spec2Isabelle.thy ===== *)
theory Spec2Isabelle imports DebtGuarantees DriverPayslips FieldRaces begin

text \<open>
  Verification of the transport back end (\<open>apps/api/src/transport\<close>). The money side: money and business dates,
  the driver fund and trip costing, payroll, and the settlement that pays drivers. The field side: vehicle runs
  with their legs, the checkpoints and waiting sessions that drivers record on them, and the closing of runs.

  \<^bold>\<open>The program.\<close> A driver holds company money in a \<^emph>\<open>fund\<close>, an append-only ledger of signed entries
  (advance, return, trip expense, run expense, reimbursement, adjustment, reversal); a trip has a second
  ledger, its expenses. \<open>costing/\<close> writes both, at most one row of each per correlation key, and closes fund
  periods with snapshots. \<open>workforce/\<close> opens payroll periods, runs payroll over trips and policies into payslips,
  moves payslips from draft to approved to paid, and corrects posted ones by supplements and reversals.
  \<open>driver-settlement/\<close> pays a driver out of two sources, the wage of posted payslips (read from payroll) and
  what the company owes him (a negative fund balance, paid by a reimbursement entry of costing), and reverses
  such payments. \<open>movement/\<close> keeps vehicle runs, their legs and drivers; \<open>checkpoint/\<close> records what happened on a
  leg (arrival, departure, acceptance by the receiver); \<open>waiting/\<close> times how long a driver waits at a receiver, from
  his arrival to the acceptance; \<open>planning/\<close> closes a run by itself once nothing is left open. New work of a run and
  its closing are serialised by a lock per run, other writes are not. Stores are interfaces with an in-memory and a
  relational implementation.

  \<^bold>\<open>Theories and sources.\<close>
  \<^item> \<open>Prelude\<close>, \<open>JsNumber\<close>: results, services as state transformers that return an error or a value, integers
    in doubles with rounding (exact up to \<open>2 ^ 53 - 1\<close>), list lemmas.
  \<^item> \<open>Errors\<close> (\<open>transport.errors.ts\<close>), \<open>Money\<close> (\<open>money.ts\<close>), \<open>BusinessDate\<close> (\<open>business-date.ts\<close>),
    \<open>TripLifecycle\<close> (\<open>trips/trip-lifecycle.ts\<close>).
  \<^item> Costing: \<open>FundLedger\<close> (signs and balances), \<open>CostingTypes\<close> (rows, period states, replay identity),
    \<open>CostingRepository\<close> (the store interface and the locale \<open>costing_ledger\<close>), \<open>InMemoryCosting\<close> (the in-memory
    class), \<open>CostingService\<close>, \<open>FundPeriodService\<close>, \<open>RunExpenseService\<close>, \<open>CostingReadService\<close>. Proofs:
    \<open>CostingLedger\<close> (the abstract ledger, one step per command, its invariant), \<open>CostingPeriods\<close> (reachable
    worlds, periods and snapshots), \<open>CostingReplay\<close> (retries), \<open>CostingGuarantees\<close> (the claims).
  \<^item> Payroll: \<open>WorkforceTypes\<close>, \<open>PayrollCalculator\<close> (the formula), \<open>PayslipLifecycle\<close>, \<open>Workforce\<close> (the store
    interface and the in-memory class), \<open>WorkforceService\<close> (commands, ports, driver views). Proofs:
    \<open>KeyedRows\<close>, \<open>WorkforceStore\<close> (locale \<open>payroll_store\<close>, interpreted by the in-memory store), \<open>PayrollLedger\<close>
    (writes on payslips and their invariant), \<open>WorkforceCommands\<close> (the effect of each command over any such
    store), \<open>PayrollBooks\<close> (books of periods, runs and payslips; paths of interleaved commands), \<open>PayrollExample\<close>,
    \<open>WorkforceGuarantees\<close> and \<open>DriverPayslips\<close> (the claims).
  \<^item> Settlement: \<open>CashoutAllocation\<close> (the decision), \<open>WageCredit\<close> (wage months), \<open>DriverSettlement\<close> (store and
    ports), \<open>DriverSettlementService\<close> (statements and commands). Proofs: \<open>SettlementStore\<close> (locale
    \<open>cashout_store\<close>), \<open>SettlementFund\<close> (the fund port over costing), \<open>SettlementWages\<close>, \<open>SettlementReplay\<close>,
    \<open>SettlementDebts\<close> (locale \<open>driver_settlement\<close> over both), \<open>SettlementGuarantees\<close>, \<open>DebtGuarantees\<close> (the claims).
  \<^item> Field: \<open>RunLifecycle\<close> (\<open>movement-lifecycle.ts\<close>), \<open>Movement\<close> (runs, legs and assignments of the in-memory
    repository), \<open>Checkpoints\<close>, \<open>Waiting\<close> (decisions and stores), \<open>FieldState\<close> (the shared state, other writers, the
    lock of a run), \<open>FieldServices\<close> (\<open>checkpoint.service.ts\<close>, \<open>waiting.service.ts\<close>), \<open>MovementService\<close>, \<open>RunClosure\<close>
    (\<open>run-closure.ts\<close> and its service, sources of blockers, sweep). Proofs: \<open>FieldSteps\<close> (every write as a rule of
    a step relation, the invariant), \<open>FieldInvariant\<close> (every step keeps it), \<open>FieldLogic\<close> (what survives other
    writers, rules for reading a service method), \<open>FieldRefinement\<close>, \<open>FieldCommands\<close> (each command makes only
    steps), \<open>FieldClosure\<close> (locales \<open>clear_source\<close> and \<open>closure_source\<close>, interpreted by the sources of the
    installation), \<open>FieldHistory\<close> (histories of commands), \<open>FieldExample\<close>, \<open>FieldGuarantees\<close> and \<open>FieldRaces\<close>
    (the claims).

  \<^bold>\<open>How the code is modelled.\<close> Interfaces and classes are records; union types are datatypes with the source's
  constants (a prefix where two vocabularies share a word). A method is a function from a state to a result or
  a \<open>js_error\<close> and a new state; an \<open>await\<close> is sequencing. Where a command reads, then waits, then writes, a
  parameter \<open>others\<close> is what other requests do in between, and the theorems say which \<open>others\<close> they allow. In the
  field a record \<open>interference\<close> says so for every numbered await, and apart for the awaits under the lock of a run,
  where only writers that do not take that lock may run; it is calm when it makes only steps of the field. A
  \<open>Map\<close> is an association list in insertion order; identifiers of \<open>randomUUID\<close> are drawn from a counter in the
  state; the clock is a field. Numbers that a caller sends are \<open>jsnum\<close> (a rational, NaN or an infinity), stored
  amounts are integers, and sums round as doubles do. Text of messages is left out, and so is telemetry, which
  nothing reads back. \<open>Intl.DateTimeFormat\<close>, the hash of \<open>node:crypto\<close> and the facts of other modules (trips,
  runs, fuel, waiting, fleet) are parameters.

  \<^bold>\<open>What the lemmas show.\<close> Each store is specified by a locale whose laws the in-memory class satisfies. Over
  the locale every command is proved to be quiet or to perform one abstract write; rule induction over
  sequences of commands then gives the invariants. Costing: ledgers stay consistent and append-only, closed
  periods take no entry and keep their snapshot, reversals cancel once, retries are idempotent, racing run
  expenses converge. Payroll: periods are disjoint, amounts follow the formula, corrections refer to posted
  payslips, history is kept, statuses settle after at most three changes, a driver sees his posted payslips.
  Settlement: a payment is allowed exactly within wage and debt, wages are never overdrawn by payments that do
  not overlap, a retry is answered with the stored payment, reversals restore what was drawn, and payroll and
  settlement count reversed payslips alike. Field: over any history of commands with calm interference, a
  completed run is settled, checkpoints form a log in which accepted deliveries were driven, waiting sessions are
  anchored and unique, and an acceptance ends the wait of its leg for good. Some theorems state weaknesses of the
  code: two overlapping payments can both be paid, an interrupted one cannot be finished, a replay is compared too
  loosely, racing events record a checkpoint twice, a late cancellation overwrites a completed run, a leg completed
  by an override keeps its run from ever being completed.

  \<^bold>\<open>Bounds.\<close> No fuel is used: every function is structural or has a termination proof. Dates range over the
  years 0000 to 9999 of the text format; arithmetic is exact below \<open>2 ^ 53\<close> and the theorems say where it is needed.

  \<^bold>\<open>Not modelled.\<close> The relational stores (SQL, transactions and triggers of the database), HTTP controllers and
  request schemas, telemetry and decision vocabularies, audit rows of the field commands. Of movement: customer
  orders as rows and the projections of trips (the status of an order is a fact of the environment, and so are the
  drivers, vehicles and device observations). Of planning: proposing, committing and cancelling plans; a closure reads
  the plans and depots as data. The field claims are about the installation that binds the checkpoint and waiting
  sources of blockers; without them \<open>collectBlockers\<close> answers that nothing blocks. Waiting allowances, fuel, toll,
  dispatch, proof, documents and receivables, the messaging product and the user interfaces are not reached.
\<close>

end
